(* ===== verification/Prelude.thy ===== *)
theory Prelude
  imports Main "HOL-Library.Word" "HOL-Library.Char_ord" "HOL-Library.List_Lexorder"
begin

unbundle bit_operations_syntax

text \<open>
  Shared vocabulary of the development: the gphoto2 result codes
  (\<open>gphoto2/gphoto2-result.h\<close>, \<open>libgphoto2_port/gphoto2/gphoto2-port-result.h\<close>), the
  machine words and byte buffers of the C code, little-endian reads and writes, the C
  string functions the components call, and decimal printing and parsing. C strings are
  lists of characters without the terminating NUL.
\<close>

named_theorems code_defs \<open>definitions of modelled C functions, for unfolding\<close>
named_theorems wf_intros \<open>preservation lemmas of the components' invariants\<close>

section \<open>Result codes\<close>

abbreviation GP_OK :: int where "GP_OK \<equiv> 0"
abbreviation GP_ERROR :: int where "GP_ERROR \<equiv> - 1"
abbreviation GP_ERROR_BAD_PARAMETERS :: int where "GP_ERROR_BAD_PARAMETERS \<equiv> - 2"
abbreviation GP_ERROR_NO_MEMORY :: int where "GP_ERROR_NO_MEMORY \<equiv> - 3"
abbreviation GP_ERROR_NOT_SUPPORTED :: int where "GP_ERROR_NOT_SUPPORTED \<equiv> - 6"
abbreviation GP_ERROR_IO :: int where "GP_ERROR_IO \<equiv> - 7"
abbreviation GP_ERROR_FIXED_LIMIT_EXCEEDED :: int
  where "GP_ERROR_FIXED_LIMIT_EXCEEDED \<equiv> - 8"
abbreviation GP_ERROR_TIMEOUT :: int where "GP_ERROR_TIMEOUT \<equiv> - 10"
abbreviation GP_ERROR_IO_READ :: int where "GP_ERROR_IO_READ \<equiv> - 34"
abbreviation GP_ERROR_IO_WRITE :: int where "GP_ERROR_IO_WRITE \<equiv> - 35"
abbreviation GP_ERROR_CORRUPTED_DATA :: int where "GP_ERROR_CORRUPTED_DATA \<equiv> - 102"
abbreviation GP_ERROR_FILE_EXISTS :: int where "GP_ERROR_FILE_EXISTS \<equiv> - 103"
abbreviation GP_ERROR_DIRECTORY_NOT_FOUND :: int
  where "GP_ERROR_DIRECTORY_NOT_FOUND \<equiv> - 107"
abbreviation GP_ERROR_FILE_NOT_FOUND :: int where "GP_ERROR_FILE_NOT_FOUND \<equiv> - 108"
abbreviation GP_ERROR_DIRECTORY_EXISTS :: int where "GP_ERROR_DIRECTORY_EXISTS \<equiv> - 109"
abbreviation GP_ERROR_CAMERA_BUSY :: int where "GP_ERROR_CAMERA_BUSY \<equiv> - 110"
abbreviation GP_ERROR_PATH_NOT_ABSOLUTE :: int where "GP_ERROR_PATH_NOT_ABSOLUTE \<equiv> - 111"
abbreviation GP_ERROR_CANCEL :: int where "GP_ERROR_CANCEL \<equiv> - 112"

section \<open>Bytes and words\<close>

type_synonym byte = "8 word"
type_synonym u8 = "8 word"
type_synonym u16 = "16 word"
type_synonym u32 = "32 word"
type_synonym u64 = "64 word"
type_synonym i32 = "32 word"

text \<open>
  Little-endian reads at a byte offset. The C code checks the buffer size before it reads;
  a read outside the buffer is not given a meaning here (\<open>xs ! i\<close> is unspecified), and the
  bounds lemmas of the components show that no such read happens.
\<close>

definition le16 :: "byte list \<Rightarrow> nat \<Rightarrow> u16" where
  "le16 d i = ucast (d ! i) OR push_bit 8 (ucast (d ! (i + 1)))"

definition le32 :: "byte list \<Rightarrow> nat \<Rightarrow> u32" where
  "le32 d i = ucast (d ! i) OR push_bit 8 (ucast (d ! (i + 1)))
     OR push_bit 16 (ucast (d ! (i + 2))) OR push_bit 24 (ucast (d ! (i + 3)))"

definition le64 :: "byte list \<Rightarrow> nat \<Rightarrow> u64" where
  "le64 d i = ucast (le32 d i) OR push_bit 32 (ucast (le32 d (i + 4)))"

definition put16 :: "u16 \<Rightarrow> byte list" where
  "put16 w = [ucast w, ucast (drop_bit 8 w)]"

definition put32 :: "u32 \<Rightarrow> byte list" where
  "put32 w = [ucast w, ucast (drop_bit 8 w), ucast (drop_bit 16 w), ucast (drop_bit 24 w)]"

definition put64 :: "u64 \<Rightarrow> byte list" where
  "put64 w = put32 (ucast w) @ put32 (ucast (drop_bit 32 w))"

lemma length_put [simp]: "length (put16 a) = 2" "length (put32 b) = 4" "length (put64 c) = 8"
  by (simp_all add: put16_def put32_def put64_def)

lemma le16_put16 [simp]: "le16 (put16 w @ r) 0 = w"
  by (rule bit_word_eqI) (auto simp: le16_def put16_def bit_simps)

lemma le32_put32 [simp]: "le32 (put32 w @ r) 0 = w"
proof (rule bit_word_eqI)
  fix n
  assume "n < LENGTH(32)"
  moreover have "n - 16 < 8 \<or> 24 + (n - 24) = n" if "\<not> n < 8" "\<not> n - 8 < 8"
    using that by arith
  ultimately show "bit (le32 (put32 w @ r) 0) n = bit w n"
    by (auto simp: le32_def put32_def bit_simps)
qed

lemma le_append:
  "le16 (p @ d) (length p + i) = le16 d i"
  "le32 (p @ d) (length p + i) = le32 d i"
  "le64 (p @ d) (length p + i) = le64 d i"
  by (simp_all add: le16_def le32_def le64_def nth_append add.assoc)

lemma le64_put64 [simp]: "le64 (put64 w @ r) 0 = w"
proof -
  have lo: "le32 (put64 w @ r) 0 = ucast w"
    by (simp add: put64_def)
  have "le32 (put64 w @ r) 4 = le32 (put32 (ucast (drop_bit 32 w)) @ r) 0"
    using le_append(2) [of "put32 (ucast w)" "put32 (ucast (drop_bit 32 w)) @ r" 0]
    by (simp add: put64_def)
  then have hi: "le32 (put64 w @ r) 4 = ucast (drop_bit 32 w)"
    by simp
  show ?thesis
    unfolding le64_def using lo hi by (auto intro!: bit_word_eqI simp: bit_simps)
qed

text \<open>Reads depend only on the bytes they touch.\<close>

lemma nth_eq_of_take_eq: "take n d = take n e \<Longrightarrow> i < n \<Longrightarrow> d ! i = e ! i"
  by (metis nth_take)

lemma le16_cong: "take n d = take n e \<Longrightarrow> i + 2 \<le> n \<Longrightarrow> le16 d i = le16 e i"
  by (simp add: le16_def nth_eq_of_take_eq [of n d e])

lemma le32_cong: "take n d = take n e \<Longrightarrow> i + 4 \<le> n \<Longrightarrow> le32 d i = le32 e i"
  by (simp add: le32_def nth_eq_of_take_eq [of n d e])

text \<open>Word bounds and sums as natural numbers.\<close>

lemma unat_u64_less: "unat (x :: u64) < 18446744073709551616"
  using unsigned_less [of x] by simp

lemma unat_add_u64: "unat a + unat b < 2 ^ 64 \<Longrightarrow> unat (a + b :: u64) = unat a + unat b"
  by (subst unat_add_lem [THEN iffD1]) auto

lemma unat_of_nat_u64: "n < 2 ^ 64 \<Longrightarrow> unat (of_nat n :: u64) = n"
  by (simp add: unsigned_of_nat take_bit_nat_eq_self)

lemma unat_u32_less: "unat (x :: u32) < 4294967296"
  using unsigned_less [of x] by simp

lemma unat_ucast_u64: "unat (ucast (x :: u32) :: u64) = unat x"
  using less_trans [OF unat_u32_less [of x], of "2 ^ 64"]
  by (simp add: unsigned_ucast_eq take_bit_nat_eq_self)

section \<open>Memory and files\<close>

text \<open>
  The allocator: which requests \<open>realloc\<close> and \<open>malloc\<close> grant, and the arbitrary content of
  the memory they add. A block is the list of its bytes, \<open>None\<close> the NULL pointer.
\<close>

record mem_env =
  realloc_ok :: "nat \<Rightarrow> bool"
  fresh :: "nat \<Rightarrow> byte"

definition c_realloc :: "'m mem_env_scheme \<Rightarrow> byte list option \<Rightarrow> nat \<Rightarrow> byte list option" where
  "c_realloc e block n =
     (let old = (case block of None \<Rightarrow> [] | Some r \<Rightarrow> r)
      in if realloc_ok e n then Some (take n old @ map (fresh e) [length old..<n]) else None)"

text \<open>\<open>memcpy\<close> or \<open>memset\<close> to offset \<open>i\<close> of a block.\<close>

definition mem_write :: "byte list option \<Rightarrow> nat \<Rightarrow> byte list \<Rightarrow> byte list option option" where
  "mem_write block i bs =
     (if bs = [] then Some block
      else (case block of None \<Rightarrow> None
        | Some r \<Rightarrow> if i + length bs \<le> length r
                   then Some (Some (take i r @ bs @ drop (i + length bs) r)) else None))"

text \<open>
  A write into a file at a position; a write past the end fills the gap with zeros, as POSIX
  files do.
\<close>

definition file_write :: "byte list \<Rightarrow> nat \<Rightarrow> byte list \<Rightarrow> byte list" where
  "file_write c p bs =
     take p c @ replicate (p - length c) 0 @ bs @ drop (p + length bs) c"

lemma length_file_write: "length (file_write c p bs) = max (length c) (p + length bs)"
  by (simp add: file_write_def)

lemma file_write_append:
  "file_write (file_write c p as) (p + length as) bs = file_write c p (as @ bs)"
proof -
  define pre where "pre = take p c @ replicate (p - length c) 0"
  have len: "length pre = p" by (simp add: pre_def)
  have fw: "file_write c p xs = pre @ xs @ drop (p + length xs) c" for xs
    by (simp add: file_write_def pre_def)
  show ?thesis
    unfolding file_write_def [of "file_write c p as"] unfolding fw by (simp add: len ac_simps)
qed

section \<open>C strings\<close>

text \<open>
  \<open>strchr\<close> and \<open>strrchr\<close> return the position of the match instead of a pointer;
  \<open>strcmp\<close> compares as unsigned characters and returns the sign.
\<close>

fun strchr :: "string \<Rightarrow> char \<Rightarrow> nat option" where
  "strchr [] c = None"
| "strchr (x # xs) c = (if x = c then Some 0 else map_option Suc (strchr xs c))"

fun strrchr :: "string \<Rightarrow> char \<Rightarrow> nat option" where
  "strrchr [] c = None"
| "strrchr (x # xs) c =
     (case strrchr xs c of Some n \<Rightarrow> Some (Suc n) | None \<Rightarrow> if x = c then Some 0 else None)"

fun strcmp :: "string \<Rightarrow> string \<Rightarrow> int" where
  "strcmp [] [] = 0"
| "strcmp [] (b # bs) = - 1"
| "strcmp (a # as) [] = 1"
| "strcmp (a # as) (b # bs) =
     (if a = b then strcmp as bs
      else if (of_char a :: nat) < of_char b then - 1 else 1)"

definition tolower :: "char \<Rightarrow> char" where
  "tolower c = (let n = (of_char c :: nat) in if 65 \<le> n \<and> n \<le> 90 then char_of (n + 32) else c)"

definition isdigit :: "char \<Rightarrow> bool" where
  "isdigit c = (let n = (of_char c :: nat) in 48 \<le> n \<and> n \<le> 57)"

definition isspace :: "char \<Rightarrow> bool" where
  "isspace c = (let n = (of_char c :: nat) in n = 32 \<or> 9 \<le> n \<and> n \<le> 13)"

lemma strcmp_eq_0 [simp]: "strcmp a b = 0 \<longleftrightarrow> a = b"
  by (induction a b rule: strcmp.induct) auto

lemma strcmp_le_iff: "strcmp a b \<le> 0 \<longleftrightarrow> a \<le> b"
  by (induction a b rule: strcmp.induct) (auto simp: less_char_def not_less le_less)

lemma strchr_None [simp]: "strchr s c = None \<longleftrightarrow> c \<notin> set s"
  by (induction s) auto

lemma strrchr_None [simp]: "strrchr s c = None \<longleftrightarrow> c \<notin> set s"
  by (induction s) (auto split: option.splits)

lemma strchr_SomeD:
  "strchr s c = Some n \<Longrightarrow> n < length s \<and> s ! n = c \<and> c \<notin> set (take n s)"
  by (induction s arbitrary: n) (auto split: if_splits)

lemma strrchr_SomeD:
  "strrchr s c = Some n \<Longrightarrow> n < length s \<and> s ! n = c \<and> c \<notin> set (drop (Suc n) s)"
  by (induction s arbitrary: n) (auto split: if_splits option.splits dest: strrchr_None [THEN iffD1])

lemma strrchr_last: "c \<notin> set t \<Longrightarrow> strrchr (s @ c # t) c = Some (length s)"
  by (induction s) (auto split: option.splits dest: strrchr_None [THEN iffD2])

lemma strchr_first: "c \<notin> set s \<Longrightarrow> strchr (s @ c # t) c = Some (length s)"
  by (induction s) auto

section \<open>Decimal numbers\<close>

definition digit_char :: "nat \<Rightarrow> char" where
  "digit_char d = char_of (48 + d)"

fun dec :: "nat \<Rightarrow> string" where
  "dec n = (if n < 10 then [digit_char n] else dec (n div 10) @ [digit_char (n mod 10)])"

declare dec.simps [simp del]

text \<open>\<open>printf\<close>'s \<open>%0wu\<close>: at least \<open>w\<close> characters, padded with zeros.\<close>

definition dec_pad :: "nat \<Rightarrow> nat \<Rightarrow> string" where
  "dec_pad w n = replicate (w - length (dec n)) (CHR ''0'') @ dec n"

definition digits_value :: "string \<Rightarrow> nat" where
  "digits_value s = foldl (\<lambda>a c. a * 10 + (of_char c - 48)) 0 s"

text \<open>
  \<open>strtoull (s, &end, 10)\<close>: the value, the rest of the string from \<open>end\<close>, and whether
  \<open>errno\<close> was set to \<open>ERANGE\<close>. Without digits nothing is consumed.
\<close>

definition strtoull :: "string \<Rightarrow> nat \<times> string \<times> bool" where
  "strtoull s =
     (let t = dropWhile isspace s;
          (neg, u) = (case t of [] \<Rightarrow> (False, [])
            | c # r \<Rightarrow> if c = CHR ''-'' then (True, r) else if c = CHR ''+'' then (False, r)
                      else (False, c # r));
          ds = takeWhile isdigit u; v = digits_value ds
      in if ds = [] then (0, s, False)
         else if 2 ^ 64 \<le> v then (2 ^ 64 - 1, dropWhile isdigit u, True)
         else (if neg then (2 ^ 64 - v) mod 2 ^ 64 else v, dropWhile isdigit u, False))"

lemma of_char_digit [simp]: "d < 10 \<Longrightarrow> (of_char (digit_char d) :: nat) = 48 + d"
  by (simp add: digit_char_def)

lemma isdigit_digit_char [simp]: "d < 10 \<Longrightarrow> isdigit (digit_char d)"
  by (simp add: isdigit_def)

lemma dec_digits: "c \<in> set (dec n) \<Longrightarrow> isdigit c"
proof (induction n rule: dec.induct)
  case (1 n)
  show ?case
  proof (cases "n < 10")
    case True
    with "1.prems" show ?thesis by (simp add: dec.simps)
  next
    case False
    from "1.prems" False have "c \<in> set (dec (n div 10)) \<or> c = digit_char (n mod 10)"
      by (subst (asm) dec.simps) auto
    with "1.IH" [OF False] show ?thesis by auto
  qed
qed

lemma dec_nonempty [simp]: "dec n \<noteq> []"
  by (subst dec.simps) simp

lemma digits_value_snoc: "digits_value (s @ [c]) = digits_value s * 10 + (of_char c - 48)"
  by (simp add: digits_value_def)

lemma digits_value_dec [simp]: "digits_value (dec n) = n"
proof (induction n rule: dec.induct)
  case (1 n)
  show ?case
  proof (cases "n < 10")
    case True
    then show ?thesis by (simp add: dec.simps digits_value_def)
  next
    case False
    with "1.IH" show ?thesis
      by (subst dec.simps) (simp add: digits_value_snoc)
  qed
qed

lemma digits_value_zeros [simp]:
  "digits_value (replicate k (CHR ''0'') @ s) = digits_value s"
proof -
  have "foldl (\<lambda>a c. a * 10 + (of_char c - 48)) 0 (replicate k (CHR ''0'')) = (0 :: nat)"
    by (induction k) auto
  then show ?thesis by (simp add: digits_value_def)
qed

lemma digits_value_pad [simp]: "digits_value (dec_pad w n) = n"
  by (simp add: dec_pad_def)

lemma dec_pad_digits: "c \<in> set (dec_pad w n) \<Longrightarrow> isdigit c"
  by (auto simp: dec_pad_def dest: dec_digits) (simp add: isdigit_def)

lemma dec_pad_nonempty [simp]: "dec_pad w n \<noteq> []"
  by (simp add: dec_pad_def)

lemma dec_inject [simp]: "dec m = dec n \<longleftrightarrow> m = n"
  by (metis digits_value_dec)

text \<open>A digit string in front of a non-digit is what \<open>strtoull\<close> consumes.\<close>

lemma strtoull_digits:
  assumes "ds \<noteq> []" "\<forall>c \<in> set ds. isdigit c" "r = [] \<or> \<not> isdigit (hd r)"
    and "digits_value ds < 2 ^ 64"
  shows "strtoull (ds @ r) = (digits_value ds, r, False)"
proof -
  obtain c t where ds: "ds = c # t" using assms(1) by (cases ds) auto
  have c: "isdigit c" using assms(2) ds by simp
  then have ns: "\<not> isspace c" "c \<noteq> CHR ''-''" "c \<noteq> CHR ''+''"
    by (auto simp: isdigit_def isspace_def Let_def)
  have tw: "takeWhile isdigit (ds @ r) = ds" and dw: "dropWhile isdigit (ds @ r) = r"
    using assms(2,3) by (cases r; simp add: takeWhile_append2 dropWhile_append2)+
  show ?thesis
    using ns tw dw assms(4) unfolding strtoull_def ds by simp
qed

end
