(* ===== verification/CamList.thy ===== *)
theory CamList
  imports Prelude "HOL-Library.Multiset"
begin

text \<open>
  \<open>libgphoto2/gphoto2-list.c\<close>: the \<open>CameraList\<close> of name/value pairs that drivers and the
  filesystem exchange. The array \<open>entry\<close> is a list of slots (\<open>None\<close>: memory that
  \<open>realloc\<close> returned and nobody wrote), with \<open>None\<close> for the NULL array. Every
  allocation asks an oracle \<open>al\<close> (the \<open>n\<close>-th allocation of the call succeeds), so the
  out-of-memory returns are branches. A result \<open>None\<close> of an operation is undefined
  behaviour of the C code: a NULL array or name is dereferenced, or an uninitialised slot
  is read. A list argument \<open>None\<close> is the NULL pointer.
\<close>

section \<open>State\<close>

record entry =
  ent_name :: "string option"
  ent_value :: "string option"

record CameraList =
  cl_used :: nat
  cl_max :: nat
  cl_entry :: "entry option list option"
  cl_ref_count :: nat

type_synonym alloc = "nat \<Rightarrow> bool"

section \<open>Operations\<close>

definition gp_list_new :: "alloc \<Rightarrow> int \<times> CameraList option" where
  "gp_list_new al =
     (if al 0 then (GP_OK, Some \<lparr>cl_used = 0, cl_max = 0, cl_entry = None, cl_ref_count = 1\<rparr>)
      else (GP_ERROR_NO_MEMORY, None))"

definition gp_list_ref :: "CameraList option \<Rightarrow> int \<times> CameraList option" where
  "gp_list_ref list =
     (case list of
        None \<Rightarrow> (GP_ERROR_BAD_PARAMETERS, None)
      | Some l \<Rightarrow>
          if cl_ref_count l = 0 then (GP_ERROR_BAD_PARAMETERS, Some l)
          else (GP_OK, Some (l\<lparr>cl_ref_count := Suc (cl_ref_count l)\<rparr>)))"

text \<open>The first \<open>used\<close> slots, when each of them can be read.\<close>

definition used_slots :: "CameraList \<Rightarrow> entry list option" where
  "used_slots l =
     (if cl_used l = 0 then Some []
      else case cl_entry l of
          None \<Rightarrow> None
        | Some es \<Rightarrow>
            if cl_used l \<le> length es \<and> (\<forall>s \<in> set (take (cl_used l) es). s \<noteq> None)
            then Some (map the (take (cl_used l) es)) else None)"

text \<open>Freeing reads every used slot; the object is gone afterwards (\<open>Some (r, None)\<close>).\<close>

definition gp_list_free :: "CameraList option \<Rightarrow> (int \<times> CameraList option) option" where
  "gp_list_free list =
     (case list of
        None \<Rightarrow> Some (GP_ERROR_BAD_PARAMETERS, None)
      | Some l \<Rightarrow>
          if cl_ref_count l = 0 then Some (GP_ERROR_BAD_PARAMETERS, Some l)
          else (case used_slots l of None \<Rightarrow> None | Some _ \<Rightarrow> Some (GP_OK, None)))"

definition gp_list_unref :: "CameraList option \<Rightarrow> (int \<times> CameraList option) option" where
  "gp_list_unref list =
     (case list of
        None \<Rightarrow> Some (GP_ERROR_BAD_PARAMETERS, None)
      | Some l \<Rightarrow>
          if cl_ref_count l = 0 then Some (GP_ERROR_BAD_PARAMETERS, Some l)
          else if cl_ref_count l = 1
          then (case gp_list_free (Some l) of None \<Rightarrow> None | Some (r, l') \<Rightarrow> Some (GP_OK, l'))
          else Some (GP_OK, Some (l\<lparr>cl_ref_count := cl_ref_count l - 1\<rparr>)))"

definition gp_list_reset :: "CameraList option \<Rightarrow> (int \<times> CameraList option) option" where
  "gp_list_reset list =
     (case list of
        None \<Rightarrow> Some (GP_ERROR_BAD_PARAMETERS, None)
      | Some l \<Rightarrow>
          if cl_ref_count l = 0 then Some (GP_ERROR_BAD_PARAMETERS, Some l)
          else (case used_slots l of
              None \<Rightarrow> None
            | Some xs \<Rightarrow>
                Some (GP_OK, Some (l\<lparr>cl_used := 0,
                  cl_entry := map_option (\<lambda>es.
                      replicate (length xs) (Some \<lparr>ent_name = None, ent_value = None\<rparr>)
                      @ drop (length xs) es) (cl_entry l)\<rparr>))))"

text \<open>\<open>realloc\<close>: the old slots followed by uninitialised ones.\<close>

definition realloc_slots :: "entry option list option \<Rightarrow> nat \<Rightarrow> entry option list" where
  "realloc_slots arr n =
     (let old = (case arr of None \<Rightarrow> [] | Some es \<Rightarrow> es) in old @ replicate (n - length old) None)"

definition gp_list_append ::
  "alloc \<Rightarrow> CameraList option \<Rightarrow> string option \<Rightarrow> string option
    \<Rightarrow> (int \<times> CameraList option) option" where
  "gp_list_append al list nm val =
     (case list of
        None \<Rightarrow> Some (GP_ERROR_BAD_PARAMETERS, None)
      | Some l \<Rightarrow>
          if cl_ref_count l = 0 then Some (GP_ERROR_BAD_PARAMETERS, Some l)
          else if cl_used l = cl_max l \<and> \<not> al 0
          then Some (GP_ERROR_NO_MEMORY, Some (l\<lparr>cl_entry := None\<rparr>))
          else
            (let l1 = (if cl_used l = cl_max l
                       then l\<lparr>cl_entry := Some (realloc_slots (cl_entry l) (cl_max l + 100)),
                              cl_max := cl_max l + 100\<rparr>
                       else l)
             in case cl_entry l1 of
                  None \<Rightarrow> None
                | Some es \<Rightarrow>
                    if nm \<noteq> None \<and> \<not> al 1 then Some (GP_ERROR_NO_MEMORY, Some l1)
                    else if val \<noteq> None \<and> \<not> al 2 then Some (GP_ERROR_NO_MEMORY, Some l1)
                    else Some (GP_OK, Some (l1\<lparr>
                           cl_entry := Some (es[cl_used l1 :=
                             Some \<lparr>ent_name = nm, ent_value = val\<rparr>]),
                           cl_used := Suc (cl_used l1)\<rparr>))))"

definition cmp_list :: "entry \<Rightarrow> entry \<Rightarrow> int" where
  "cmp_list a b = strcmp (the (ent_name a)) (the (ent_name b))"

text \<open>
  The library's \<open>qsort\<close>, as the insertion sort over the caller's comparison. The
  properties below use only that the result is a sorted permutation.
\<close>

fun insort_by :: "('a \<Rightarrow> 'a \<Rightarrow> int) \<Rightarrow> 'a \<Rightarrow> 'a list \<Rightarrow> 'a list" where
  "insort_by cmp x [] = [x]"
| "insort_by cmp x (y # ys) = (if cmp x y \<le> 0 then x # y # ys else y # insort_by cmp x ys)"

fun qsort :: "('a \<Rightarrow> 'a \<Rightarrow> int) \<Rightarrow> 'a list \<Rightarrow> 'a list" where
  "qsort cmp [] = []"
| "qsort cmp (x # xs) = insort_by cmp x (qsort cmp xs)"

text \<open>Sorting two or more entries compares every name: a NULL name is dereferenced.\<close>

definition gp_list_sort :: "CameraList option \<Rightarrow> (int \<times> CameraList option) option" where
  "gp_list_sort list =
     (case list of
        None \<Rightarrow> Some (GP_ERROR_BAD_PARAMETERS, None)
      | Some l \<Rightarrow>
          if cl_ref_count l = 0 then Some (GP_ERROR_BAD_PARAMETERS, Some l)
          else if cl_used l \<le> 1 then Some (GP_OK, Some l)
          else (case used_slots l of
              None \<Rightarrow> None
            | Some xs \<Rightarrow>
                if \<exists>e \<in> set xs. ent_name e = None then None
                else Some (GP_OK, Some (l\<lparr>cl_entry := map_option
                  (\<lambda>es. map Some (qsort cmp_list xs) @ drop (length xs) es) (cl_entry l)\<rparr>))))"

definition gp_list_count :: "CameraList option \<Rightarrow> int" where
  "gp_list_count list =
     (case list of
        None \<Rightarrow> GP_ERROR_BAD_PARAMETERS
      | Some l \<Rightarrow> if cl_ref_count l = 0 then GP_ERROR_BAD_PARAMETERS else int (cl_used l))"

definition slot_at :: "CameraList \<Rightarrow> nat \<Rightarrow> entry option" where
  "slot_at l i =
     (case cl_entry l of None \<Rightarrow> None | Some es \<Rightarrow> if i < length es then es ! i else None)"

text \<open>The backwards search; the result is the return code and \<open>*index\<close> when it is set.\<close>

fun find_down :: "CameraList \<Rightarrow> string \<Rightarrow> nat \<Rightarrow> (int \<times> nat option) option" where
  "find_down l nm 0 = Some (GP_ERROR, None)"
| "find_down l nm (Suc i) =
     (case slot_at l i of
        None \<Rightarrow> None
      | Some e \<Rightarrow>
          (case ent_name e of
             None \<Rightarrow> None
           | Some s \<Rightarrow> if strcmp s nm = 0 then Some (GP_OK, Some i) else find_down l nm i))"

definition gp_list_find_by_name ::
  "CameraList option \<Rightarrow> string option \<Rightarrow> (int \<times> nat option) option" where
  "gp_list_find_by_name list nm =
     (case list of
        None \<Rightarrow> Some (GP_ERROR_BAD_PARAMETERS, None)
      | Some l \<Rightarrow>
          if cl_ref_count l = 0 then Some (GP_ERROR_BAD_PARAMETERS, None)
          else (case nm of
              None \<Rightarrow> Some (GP_ERROR_BAD_PARAMETERS, None)
            | Some s \<Rightarrow> find_down l s (cl_used l)))"

text \<open>The guards \<open>gp_list_get_*\<close> and \<open>gp_list_set_*\<close> share.\<close>

definition index_ok :: "CameraList \<Rightarrow> int \<Rightarrow> bool" where
  "index_ok l i \<longleftrightarrow> 0 \<le> i \<and> i < int (cl_used l)"

definition gp_list_get_name ::
  "CameraList option \<Rightarrow> int \<Rightarrow> (int \<times> string option) option" where
  "gp_list_get_name list i =
     (case list of
        None \<Rightarrow> Some (GP_ERROR_BAD_PARAMETERS, None)
      | Some l \<Rightarrow>
          if cl_ref_count l = 0 \<or> \<not> index_ok l i then Some (GP_ERROR_BAD_PARAMETERS, None)
          else map_option (\<lambda>e. (GP_OK, ent_name e)) (slot_at l (nat i)))"

definition gp_list_get_value ::
  "CameraList option \<Rightarrow> int \<Rightarrow> (int \<times> string option) option" where
  "gp_list_get_value list i =
     (case list of
        None \<Rightarrow> Some (GP_ERROR_BAD_PARAMETERS, None)
      | Some l \<Rightarrow>
          if cl_ref_count l = 0 \<or> \<not> index_ok l i then Some (GP_ERROR_BAD_PARAMETERS, None)
          else map_option (\<lambda>e. (GP_OK, ent_value e)) (slot_at l (nat i)))"

definition write_slot :: "CameraList \<Rightarrow> nat \<Rightarrow> entry \<Rightarrow> CameraList" where
  "write_slot l i e = l\<lparr>cl_entry := map_option (\<lambda>es. es[i := Some e]) (cl_entry l)\<rparr>"

definition gp_list_set_value ::
  "alloc \<Rightarrow> CameraList option \<Rightarrow> int \<Rightarrow> string option \<Rightarrow> (int \<times> CameraList option) option" where
  "gp_list_set_value al list i val =
     (case list of
        None \<Rightarrow> Some (GP_ERROR_BAD_PARAMETERS, None)
      | Some l \<Rightarrow>
          if cl_ref_count l = 0 \<or> val = None \<or> \<not> index_ok l i
          then Some (GP_ERROR_BAD_PARAMETERS, Some l)
          else if \<not> al 0 then Some (GP_ERROR_NO_MEMORY, Some l)
          else map_option (\<lambda>e. (GP_OK, Some (write_slot l (nat i) (e\<lparr>ent_value := val\<rparr>))))
                 (slot_at l (nat i)))"

definition gp_list_set_name ::
  "alloc \<Rightarrow> CameraList option \<Rightarrow> int \<Rightarrow> string option \<Rightarrow> (int \<times> CameraList option) option" where
  "gp_list_set_name al list i nm =
     (case list of
        None \<Rightarrow> Some (GP_ERROR_BAD_PARAMETERS, None)
      | Some l \<Rightarrow>
          if cl_ref_count l = 0 \<or> nm = None \<or> \<not> index_ok l i
          then Some (GP_ERROR_BAD_PARAMETERS, Some l)
          else if \<not> al 0 then Some (GP_ERROR_NO_MEMORY, Some l)
          else map_option (\<lambda>e. (GP_OK, Some (write_slot l (nat i) (e\<lparr>ent_name := nm\<rparr>))))
                 (slot_at l (nat i)))"

text \<open>
  \<open>gp_list_populate\<close>: \<open>fmt\<close> is the caller's format string as the function it denotes on
  the counter; \<open>snprintf\<close> keeps the first 1023 characters. \<open>al x\<close> is the oracle of the
  \<open>x\<close>-th append. \<open>n\<close> counts the iterations left, \<open>x\<close> the next index.
\<close>

fun populate_loop ::
  "(nat \<Rightarrow> alloc) \<Rightarrow> (int \<Rightarrow> string) \<Rightarrow> nat \<Rightarrow> nat \<Rightarrow> CameraList option
    \<Rightarrow> (int \<times> CameraList option) option" where
  "populate_loop al fmt 0 x list = Some (GP_OK, list)"
| "populate_loop al fmt (Suc n) x list =
     (case gp_list_append (al x) list (Some (take 1023 (fmt (int x + 1)))) None of
        None \<Rightarrow> None
      | Some (r, list') \<Rightarrow>
          if r < 0 then Some (r, list') else populate_loop al fmt n (Suc x) list')"

definition gp_list_populate ::
  "(nat \<Rightarrow> alloc) \<Rightarrow> CameraList option \<Rightarrow> (int \<Rightarrow> string) option \<Rightarrow> int
    \<Rightarrow> (int \<times> CameraList option) option" where
  "gp_list_populate al list fmt cnt =
     (case list of
        None \<Rightarrow> Some (GP_ERROR_BAD_PARAMETERS, None)
      | Some l \<Rightarrow>
          if cl_ref_count l = 0 then Some (GP_ERROR_BAD_PARAMETERS, Some l)
          else (case fmt of
              None \<Rightarrow> Some (GP_ERROR_BAD_PARAMETERS, Some l)
            | Some f \<Rightarrow>
                (case gp_list_reset (Some l) of
                   None \<Rightarrow> None
                 | Some (_, list') \<Rightarrow> populate_loop al f (nat cnt) 0 list')))"

section \<open>Invariant and abstraction\<close>

definition cl_wf :: "CameraList \<Rightarrow> bool" where
  "cl_wf l \<longleftrightarrow> 0 < cl_ref_count l \<and> cl_used l \<le> cl_max l \<and> 100 dvd cl_max l \<and>
     (case cl_entry l of
        None \<Rightarrow> cl_max l = 0
      | Some es \<Rightarrow> length es = cl_max l \<and> (\<forall>i < cl_used l. es ! i \<noteq> None))"

text \<open>What the list means to its clients: the entries in order.\<close>

definition cl_abs :: "CameraList \<Rightarrow> entry list" where
  "cl_abs l = map the (take (cl_used l) (case cl_entry l of None \<Rightarrow> [] | Some es \<Rightarrow> es))"

definition all_named :: "entry list \<Rightarrow> bool" where
  "all_named es \<longleftrightarrow> (\<forall>e \<in> set es. ent_name e \<noteq> None)"

lemma cl_wf_ref [simp]: "cl_wf l \<Longrightarrow> cl_ref_count l \<noteq> 0"
  by (simp add: cl_wf_def)

lemma length_cl_abs [simp]: "cl_wf l \<Longrightarrow> length (cl_abs l) = cl_used l"
  by (auto simp: cl_wf_def cl_abs_def split: option.splits)

lemma slot_at_wf [simp]: "cl_wf l \<Longrightarrow> i < cl_used l \<Longrightarrow> slot_at l i = Some (cl_abs l ! i)"
  by (auto simp: cl_wf_def cl_abs_def slot_at_def split: option.splits)

lemma used_slots_wf [simp]: "cl_wf l \<Longrightarrow> used_slots l = Some (cl_abs l)"
  by (auto simp: cl_wf_def cl_abs_def used_slots_def in_set_conv_nth split: option.splits)

lemma gp_list_new_wf:
  "gp_list_new al = (GP_OK, Some l) \<Longrightarrow> cl_wf l \<and> cl_abs l = []"
  by (auto simp: gp_list_new_def cl_wf_def cl_abs_def split: if_splits)

lemma gp_list_reset_wf:
  "cl_wf l \<Longrightarrow> \<exists>l'. gp_list_reset (Some l) = Some (GP_OK, Some l') \<and> cl_wf l' \<and> cl_abs l' = []
     \<and> cl_max l' = cl_max l"
  by (auto simp: gp_list_reset_def cl_wf_def cl_abs_def used_slots_def in_set_conv_nth
      split: option.splits)

section \<open>Append\<close>

lemma map_the_take_snoc:
  "n < length es \<Longrightarrow> map the (take (Suc n) (es[n := Some e])) = map the (take n es) @ [e]"
  by (simp add: take_Suc_conv_app_nth)

text \<open>Storing one entry behind the used ones, in an array that has room.\<close>

lemma store_entry:
  assumes "0 < cl_ref_count l" "cl_used l < length es" "length es = cl_max l"
    and "\<forall>i < cl_used l. es ! i \<noteq> None" "100 dvd cl_max l"
  shows "cl_wf (l\<lparr>cl_entry := Some (es[cl_used l := Some e]), cl_used := Suc (cl_used l)\<rparr>)"
    and "cl_abs (l\<lparr>cl_entry := Some (es[cl_used l := Some e]), cl_used := Suc (cl_used l)\<rparr>)
      = map the (take (cl_used l) es) @ [e]"
  using assms by (auto simp: cl_wf_def cl_abs_def nth_list_update less_Suc_eq map_the_take_snoc)

lemma append_ok:
  assumes "cl_wf l" "al 0" "al 1" "al 2"
  shows "\<exists>l'. gp_list_append al (Some l) nm val = Some (GP_OK, Some l') \<and> cl_wf l' \<and>
    cl_abs l' = cl_abs l @ [\<lparr>ent_name = nm, ent_value = val\<rparr>]"
proof (cases "cl_used l = cl_max l")
  case True
  define es where "es = realloc_slots (cl_entry l) (cl_max l + 100)"
  have len: "length es = cl_max l + 100" and old: "\<forall>i < cl_used l. es ! i \<noteq> None"
    and tk: "map the (take (cl_used l) es) = cl_abs l"
    using assms(1) True
    by (auto simp: es_def realloc_slots_def cl_wf_def cl_abs_def nth_append split: option.splits)
  let ?l1 = "l\<lparr>cl_entry := Some es, cl_max := cl_max l + 100\<rparr>"
  have "100 dvd cl_max ?l1" "0 < cl_ref_count ?l1"
    using assms(1) by (auto simp: cl_wf_def)
  with store_entry [of ?l1 es] len old tk True show ?thesis
    using assms by (simp add: gp_list_append_def es_def [symmetric])
next
  case False
  with assms(1) obtain es where es: "cl_entry l = Some es" "length es = cl_max l"
    by (auto simp: cl_wf_def split: option.splits)
  with assms(1) False store_entry [of l es] show ?thesis
    using assms by (simp add: gp_list_append_def) (auto simp: cl_wf_def cl_abs_def)
qed

text \<open>Every outcome on a well-formed list.\<close>

lemma append_cases:
  assumes "cl_wf l"
  obtains (ok) l' where "gp_list_append al (Some l) nm val = Some (GP_OK, Some l')" "cl_wf l'"
      "cl_abs l' = cl_abs l @ [\<lparr>ent_name = nm, ent_value = val\<rparr>]"
    | (lost) "cl_used l = cl_max l" "\<not> al 0"
      "gp_list_append al (Some l) nm val = Some (GP_ERROR_NO_MEMORY, Some (l\<lparr>cl_entry := None\<rparr>))"
    | (nomem) l' where "gp_list_append al (Some l) nm val = Some (GP_ERROR_NO_MEMORY, Some l')"
      "cl_wf l'" "cl_abs l' = cl_abs l"
proof -
  consider "cl_used l = cl_max l \<and> \<not> al 0" | "cl_used l = cl_max l \<longrightarrow> al 0"
      "(nm = None \<or> al 1) \<and> (val = None \<or> al 2)"
    | "cl_used l = cl_max l \<longrightarrow> al 0" "\<not> ((nm = None \<or> al 1) \<and> (val = None \<or> al 2))"
    by blast
  then show thesis
  proof cases
    case 1
    with assms show thesis by (intro lost) (auto simp: gp_list_append_def)
  next
    case 2
    let ?all = "\<lambda>_. True"
    have "gp_list_append al (Some l) nm val = gp_list_append ?all (Some l) nm val"
      using 2 by (auto simp: gp_list_append_def Let_def split: option.splits)
    with append_ok [of l ?all nm val] assms ok show thesis by auto
  next
    case 3
    then have no: "(nm \<noteq> None \<and> \<not> al 1) \<or> (val \<noteq> None \<and> \<not> al 2)" by auto
    show thesis
    proof (cases "cl_used l = cl_max l")
      case True
      let ?es = "realloc_slots (cl_entry l) (cl_max l + 100)"
      let ?l1 = "l\<lparr>cl_entry := Some ?es, cl_max := cl_max l + 100\<rparr>"
      have "cl_wf ?l1" "cl_abs ?l1 = cl_abs l"
        using assms True by (auto simp: realloc_slots_def cl_wf_def cl_abs_def nth_append split: option.splits)
      then show thesis
        using 3 no True assms by (intro nomem [of ?l1]) (auto simp: gp_list_append_def Let_def)
    next
      case False
      with assms obtain es where "cl_entry l = Some es"
        by (auto simp: cl_wf_def split: option.splits)
      then show thesis
        using 3 no False assms by (intro nomem [of l]) (auto simp: gp_list_append_def Let_def)
    qed
  qed
qed

section \<open>Sorting\<close>

text \<open>What \<open>qsort\<close> needs of the comparison it is given.\<close>

locale comparator =
  fixes cmp :: "'a \<Rightarrow> 'a \<Rightarrow> int"
  assumes total: "cmp a b \<le> 0 \<or> cmp b a \<le> 0"
    and trans: "cmp a b \<le> 0 \<Longrightarrow> cmp b c \<le> 0 \<Longrightarrow> cmp a c \<le> 0"
begin

lemma set_insort_by: "set (insort_by cmp x xs) = insert x (set xs)"
  by (induction xs) auto

lemma insort_by_sorted:
  "sorted_wrt (\<lambda>a b. cmp a b \<le> 0) xs \<Longrightarrow> sorted_wrt (\<lambda>a b. cmp a b \<le> 0) (insort_by cmp x xs)"
proof (induction xs)
  case (Cons y ys)
  show ?case
  proof (cases "cmp x y \<le> 0")
    case True
    with Cons.prems show ?thesis by (auto intro: trans)
  next
    case False
    with total have "cmp y x \<le> 0" by blast
    with Cons False show ?thesis by (auto simp: set_insort_by)
  qed
qed simp

lemma qsort_sorted: "sorted_wrt (\<lambda>a b. cmp a b \<le> 0) (qsort cmp xs)"
  by (induction xs) (auto intro: insort_by_sorted)

end

lemma mset_insort_by: "mset (insort_by cmp x xs) = add_mset x (mset xs)"
  by (induction xs) auto

lemma mset_qsort [simp]: "mset (qsort cmp xs) = mset xs"
  by (induction xs) (auto simp: mset_insort_by)

lemma length_qsort [simp]: "length (qsort cmp xs) = length xs"
  using mset_qsort [of cmp xs] by (metis size_mset)

interpretation name_order: comparator cmp_list
  by unfold_locales (auto simp: cmp_list_def strcmp_le_iff)

lemma cl_abs_rewrite:
  assumes "cl_wf l" "length ys = cl_used l" "0 < cl_used l"
  shows "cl_wf (l\<lparr>cl_entry := map_option (\<lambda>es. map Some ys @ drop (length ys) es) (cl_entry l)\<rparr>)"
    and "cl_abs (l\<lparr>cl_entry := map_option (\<lambda>es. map Some ys @ drop (length ys) es) (cl_entry l)\<rparr>) = ys"
  using assms by (auto simp: cl_wf_def cl_abs_def nth_append o_def split: option.splits)

section \<open>Search and update\<close>

lemma find_down_spec:
  assumes "cl_wf l" "all_named (cl_abs l)" "n \<le> cl_used l"
  shows "find_down l s n =
    (if \<exists>i < n. ent_name (cl_abs l ! i) = Some s
     then Some (GP_OK, Some (GREATEST i. i < n \<and> ent_name (cl_abs l ! i) = Some s))
     else Some (GP_ERROR, None))"
  using assms(3)
proof (induction n)
  case (Suc n)
  let ?P = "\<lambda>n i. i < n \<and> ent_name (cl_abs l ! i) = Some s"
  have n: "n < cl_used l" using Suc.prems by simp
  with assms obtain t where t: "ent_name (cl_abs l ! n) = Some t"
    by (metis all_named_def length_cl_abs nth_mem option.exhaust)
  show ?case
  proof (cases "t = s")
    case True
    then have "(GREATEST i. ?P (Suc n) i) = n"
      using t by (intro Greatest_equality) auto
    with True t n assms(1) show ?thesis by auto
  next
    case False
    have eq: "?P (Suc n) i \<longleftrightarrow> ?P n i" for i
      using False t by (auto simp: less_Suc_eq)
    have "find_down l s (Suc n) = find_down l s n"
      using False t n assms(1) by simp
    with Suc show ?thesis by (simp only: eq)
  qed
qed simp

lemma write_slot_wf:
  assumes "cl_wf l" "i < cl_used l"
  shows "cl_wf (write_slot l i e)" "cl_abs (write_slot l i e) = (cl_abs l)[i := e]"
  using assms
  by (auto simp: cl_wf_def cl_abs_def write_slot_def nth_list_update take_update_swap map_update
      split: option.splits)

section \<open>Populate\<close>

abbreviation plain_name :: "string \<Rightarrow> entry" where
  "plain_name s \<equiv> \<lparr>ent_name = Some s, ent_value = None\<rparr>"

lemma populate_loop_ok:
  assumes "\<And>x k. al x k" "cl_wf l"
  shows "\<exists>l'. populate_loop al f n x (Some l) = Some (GP_OK, Some l') \<and> cl_wf l' \<and>
    cl_abs l' = cl_abs l @ map (\<lambda>i. plain_name (take 1023 (f (int i + 1)))) [x..<x + n]"
  using assms(2)
proof (induction n arbitrary: x l)
  case (Suc n)
  obtain l1 where l1: "gp_list_append (al x) (Some l) (Some (take 1023 (f (int x + 1)))) None
      = Some (GP_OK, Some l1)" "cl_wf l1"
      "cl_abs l1 = cl_abs l @ [plain_name (take 1023 (f (int x + 1)))]"
    using append_ok Suc.prems assms(1) by meson
  have "[x..<x + Suc n] = x # [Suc x..<Suc x + n]"
    by (simp add: upt_conv_Cons del: upt_Suc)
  with Suc.IH [OF l1(2), of "Suc x"] l1 show ?case
    by (auto simp del: upt_Suc)
qed simp

section \<open>Properties\<close>

text \<open>
  C34. \<open>gp_list_append\<close> on a well-formed list never runs into undefined behaviour. When it
  returns \<open>GP_OK\<close> the list is well-formed and holds exactly one more entry, the given
  one, at the end; when an allocation fails it returns \<open>GP_ERROR_NO_MEMORY\<close> and the
  entries are unchanged, except in the one case where the array itself could not grow.
\<close>

theorem gp_list_append_refines:
  assumes "cl_wf l"
  shows "\<exists>r l'. gp_list_append al (Some l) nm val = Some (r, Some l') \<and>
    (r = GP_OK \<and> cl_wf l' \<and> cl_abs l' = cl_abs l @ [\<lparr>ent_name = nm, ent_value = val\<rparr>] \<or>
     r = GP_ERROR_NO_MEMORY \<and> (cl_wf l' \<and> cl_abs l' = cl_abs l \<or>
       cl_used l = cl_max l \<and> \<not> al 0 \<and> cl_entry l' = None))"
  by (rule append_cases [OF assms, of al nm val]) auto

lemma gp_list_append_refines_witness:
  "\<exists>r l'. gp_list_append (\<lambda>_. True)
      (Some \<lparr>cl_used = 0, cl_max = 0, cl_entry = None, cl_ref_count = 1\<rparr>) (Some ''a'') None
      = Some (r, Some l')"
  using gp_list_append_refines
    [of "\<lparr>cl_used = 0, cl_max = 0, cl_entry = None, cl_ref_count = 1\<rparr>" "\<lambda>_. True" "Some ''a''" None]
  by (force simp: cl_wf_def)

text \<open>
  \<open>gp_list_find_by_name\<close> on a well-formed list of named entries returns the greatest
  index whose name is the one searched (the search runs backwards), and \<open>GP_ERROR\<close>,
  leaving \<open>*index\<close> alone, exactly when no entry has that name.
\<close>

theorem gp_list_find_by_name_spec:
  assumes "cl_wf l" "all_named (cl_abs l)"
  shows "gp_list_find_by_name (Some l) (Some s) =
    (if Some s \<in> ent_name ` set (cl_abs l)
     then Some (GP_OK, Some (GREATEST i. i < cl_used l \<and> ent_name (cl_abs l ! i) = Some s))
     else Some (GP_ERROR, None))"
proof -
  have "Some s \<in> ent_name ` set (cl_abs l) \<longleftrightarrow> (\<exists>i < cl_used l. ent_name (cl_abs l ! i) = Some s)"
    using assms(1) by (force simp: in_set_conv_nth)
  then show ?thesis
    using assms by (simp add: gp_list_find_by_name_def find_down_spec)
qed

lemma gp_list_find_by_name_spec_witness:
  "gp_list_find_by_name (Some \<lparr>cl_used = 3, cl_max = 100, cl_entry = Some ([Some (plain_name ''b''),
       Some (plain_name ''a''), Some (plain_name ''b'')] @ replicate 97 None), cl_ref_count = 1\<rparr>)
     (Some ''b'') = Some (GP_OK, Some (GREATEST i. i < 3 \<and> [''b'', ''a'', ''b''] ! i = ''b''))"
proof -
  let ?l = "\<lparr>cl_used = 3, cl_max = 100, cl_entry = Some ([Some (plain_name ''b''),
       Some (plain_name ''a''), Some (plain_name ''b'')] @ replicate 97 None), cl_ref_count = 1\<rparr>"
  have abs: "cl_abs ?l = [plain_name ''b'', plain_name ''a'', plain_name ''b'']"
    by (simp add: cl_abs_def)
  have wf: "cl_wf ?l" "all_named (cl_abs ?l)"
    by (auto simp: cl_wf_def all_named_def cl_abs_def less_Suc_eq numeral_3_eq_3)
  have nm: "(i < 3 \<and> ent_name ([plain_name ''b'', plain_name ''a'', plain_name ''b''] ! i) = Some ''b'') =
      (i < 3 \<and> [''b'', ''a'', ''b''] ! i = ''b'')" for i
    by (auto simp: less_Suc_eq numeral_3_eq_3)
  show ?thesis
    using gp_list_find_by_name_spec [OF wf, of "''b''"] unfolding abs by (simp add: nm)
qed

text \<open>
  \<open>gp_list_sort\<close> keeps a well-formed list of named entries well-formed, permutes its
  entries and leaves them in the order of \<open>strcmp\<close> on the names.
\<close>

theorem gp_list_sort_sorts:
  assumes "cl_wf l" "all_named (cl_abs l)"
  shows "\<exists>l'. gp_list_sort (Some l) = Some (GP_OK, Some l') \<and> cl_wf l' \<and>
    mset (cl_abs l') = mset (cl_abs l) \<and>
    sorted_wrt (\<lambda>a b. cmp_list a b \<le> 0) (cl_abs l')"
proof (cases "cl_used l \<le> 1")
  case True
  then have "sorted_wrt (\<lambda>a b. cmp_list a b \<le> 0) (cl_abs l)"
    using assms(1) by (cases "cl_abs l"; cases "tl (cl_abs l)") (auto dest: length_cl_abs)
  with True assms show ?thesis by (simp add: gp_list_sort_def)
next
  case False
  have "\<not> (\<exists>e \<in> set (cl_abs l). ent_name e = None)"
    using assms(2) by (simp add: all_named_def)
  with False assms(1) cl_abs_rewrite [of l "qsort cmp_list (cl_abs l)"] show ?thesis
    by (simp add: gp_list_sort_def name_order.qsort_sorted)
qed

lemma gp_list_sort_sorts_witness:
  "\<exists>l'. gp_list_sort (Some \<lparr>cl_used = 3, cl_max = 100, cl_entry = Some ([Some (plain_name ''b''),
       Some (plain_name ''a''), Some (plain_name ''b'')] @ replicate 97 None), cl_ref_count = 1\<rparr>)
     = Some (GP_OK, Some l') \<and> cl_wf l' \<and>
     mset (cl_abs l') = {#plain_name ''a'', plain_name ''b'', plain_name ''b''#} \<and>
     sorted_wrt (\<lambda>a b. cmp_list a b \<le> 0) (cl_abs l')"
proof -
  let ?l = "\<lparr>cl_used = 3, cl_max = 100, cl_entry = Some ([Some (plain_name ''b''),
       Some (plain_name ''a''), Some (plain_name ''b'')] @ replicate 97 None), cl_ref_count = 1\<rparr>"
  have abs: "mset (cl_abs ?l) = {#plain_name ''a'', plain_name ''b'', plain_name ''b''#}"
    by (simp add: cl_abs_def add_mset_commute)
  have wf: "cl_wf ?l" "all_named (cl_abs ?l)"
    by (auto simp: cl_wf_def all_named_def cl_abs_def less_Suc_eq numeral_3_eq_3)
  show ?thesis using gp_list_sort_sorts [OF wf] unfolding abs .
qed

text \<open>
  \<open>gp_list_populate\<close> with enough memory empties the list and fills it with the
  formatted names of the counters 1, 2, ..., \<open>count\<close>, in that order, each cut to the 1023
  characters of the buffer; a negative count gives the empty list.
\<close>

theorem gp_list_populate_spec:
  assumes "cl_wf l" "\<And>x k. al x k"
  shows "\<exists>l'. gp_list_populate al (Some l) (Some f) n = Some (GP_OK, Some l') \<and> cl_wf l' \<and>
    cl_abs l' = map (\<lambda>i. plain_name (take 1023 (f (int i + 1)))) [0..<nat n]"
proof -
  obtain l1 where "gp_list_reset (Some l) = Some (GP_OK, Some l1)" "cl_wf l1" "cl_abs l1 = []"
    using gp_list_reset_wf [OF assms(1)] by blast
  with populate_loop_ok [of al l1 f "nat n" 0] assms show ?thesis
    by (auto simp: gp_list_populate_def)
qed

lemma gp_list_populate_spec_witness:
  "\<exists>l'. gp_list_populate (\<lambda>_ _. True)
      (Some \<lparr>cl_used = 0, cl_max = 0, cl_entry = None, cl_ref_count = 1\<rparr>)
      (Some (\<lambda>i. ''img'' @ dec_pad 3 (nat i))) 12 = Some (GP_OK, Some l') \<and>
    length (cl_abs l') = 12"
  using gp_list_populate_spec
    [of "\<lparr>cl_used = 0, cl_max = 0, cl_entry = None, cl_ref_count = 1\<rparr>" "\<lambda>_ _. True"
        "\<lambda>i. ''img'' @ dec_pad 3 (nat i)" 12]
  by (force simp: cl_wf_def)

text \<open>
  The growth path assigns \<open>realloc\<close>'s result to \<open>list->entry\<close> before it is checked:
  when the array of a full, well-formed list cannot grow, the append returns
  \<open>GP_ERROR_NO_MEMORY\<close> and leaves a list whose next search or read dereferences the NULL
  array, although the list still counts its entries.
\<close>

theorem gp_list_append_failed_growth:
  assumes "cl_wf l" "cl_used l = cl_max l" "0 < cl_used l" "\<not> al 0"
  shows "\<exists>l'. gp_list_append al (Some l) nm val = Some (GP_ERROR_NO_MEMORY, Some l') \<and>
    gp_list_count (Some l') = int (cl_used l) \<and>
    gp_list_find_by_name (Some l') (Some s) = None \<and>
    gp_list_get_name (Some l') 0 = None \<and> gp_list_free (Some l') = None"
proof -
  obtain k where k: "cl_used l = Suc k" using assms(3) by (cases "cl_used l") auto
  let ?l = "l\<lparr>cl_entry := None\<rparr>"
  have "slot_at ?l i = None" for i by (simp add: slot_at_def)
  moreover have "used_slots ?l = None" using k by (simp add: used_slots_def)
  moreover have "gp_list_append al (Some l) nm val = Some (GP_ERROR_NO_MEMORY, Some ?l)"
    using assms by (simp add: gp_list_append_def)
  ultimately show ?thesis
    using assms(1) k by (auto simp: gp_list_count_def gp_list_find_by_name_def
        gp_list_get_name_def gp_list_free_def index_ok_def)
qed

lemma gp_list_append_failed_growth_witness:
  "\<exists>l'. gp_list_append (\<lambda>_. False) (Some \<lparr>cl_used = 100, cl_max = 100,
       cl_entry = Some (replicate 100 (Some (plain_name ''a''))), cl_ref_count = 1\<rparr>) (Some ''b'') None
     = Some (GP_ERROR_NO_MEMORY, Some l') \<and> gp_list_find_by_name (Some l') (Some ''a'') = None"
  using gp_list_append_failed_growth [of "\<lparr>cl_used = 100, cl_max = 100,
       cl_entry = Some (replicate 100 (Some (plain_name ''a''))), cl_ref_count = 1\<rparr>" "\<lambda>_. False"
       "Some ''b''" None "''a''"]
  by (force simp: cl_wf_def)

end
