(* ===== verification/PentaxModel.thy ===== *)
theory PentaxModel
  imports Prelude
begin

text \<open>
  \<open>camlibs/ptp2/pentax-utils.c\<close>, the model half: the lookup from USB identity and device
  name to the IMAGE Transmitter 2 model number, the capability table and the predicates
  that gate each control, the shutter-write gate, and the \<open>0xd01b\<close> writing-file-format
  payload. C's \<open>int\<close> truth values are \<open>bool\<close>; a nullable string or buffer is an \<open>option\<close>;
  out-parameters are returned.
\<close>

section \<open>Model numbers\<close>

abbreviation PENTAX_MODEL_K1_MARK_II :: u32 where "PENTAX_MODEL_K1_MARK_II \<equiv> 78400"
abbreviation PENTAX_MODEL_K3_MARK_III :: u32 where "PENTAX_MODEL_K3_MARK_III \<equiv> 78420"
abbreviation PENTAX_MODEL_K3_MARK_III_MONOCHROME :: u32
  where "PENTAX_MODEL_K3_MARK_III_MONOCHROME \<equiv> 78550"
abbreviation PENTAX_MODEL_KP :: u32 where "PENTAX_MODEL_KP \<equiv> 78380"
abbreviation PENTAX_MODEL_K70 :: u32 where "PENTAX_MODEL_K70 \<equiv> 78370"
abbreviation PENTAX_MODEL_K3 :: u32 where "PENTAX_MODEL_K3 \<equiv> 77760"
abbreviation PENTAX_MODEL_K1 :: u32 where "PENTAX_MODEL_K1 \<equiv> 77970"
abbreviation PENTAX_MODEL_GR_III :: u32 where "PENTAX_MODEL_GR_III \<equiv> 78350"
abbreviation PENTAX_MODEL_645D :: u32 where "PENTAX_MODEL_645D \<equiv> 77320"
abbreviation PENTAX_MODEL_645Z :: u32 where "PENTAX_MODEL_645Z \<equiv> 77840"
abbreviation PENTAX_MODEL_KF :: u32 where "PENTAX_MODEL_KF \<equiv> 78520"

section \<open>Model lookup\<close>

text \<open>\<open>strncmp (s, p, strlen (p)) == 0\<close>.\<close>

definition has_prefix :: "string \<Rightarrow> string \<Rightarrow> bool" where
  "has_prefix s p \<longleftrightarrow> take (length p) s = p"

text \<open>The result is the return value, \<open>*model_no\<close> and \<open>*extension_version\<close>.\<close>

definition pentax_lookup_model :: "u16 \<Rightarrow> u16 \<Rightarrow> string option \<Rightarrow> bool \<times> u32 \<times> u32" where
  "pentax_lookup_model usb_vendor usb_product device_model =
     (case device_model of
        None \<Rightarrow> (False, 0, 0)
      | Some name \<Rightarrow>
     if usb_vendor \<noteq> 0x25fb then (False, 0, 0)
     else if usb_product = 0x0189 \<and> name = ''PENTAX K-3 Mark III''
     then (True, PENTAX_MODEL_K3_MARK_III, 1)
     else if usb_product = 0x018f \<and> has_prefix name ''PENTAX K-3 Mark III Monochrome''
     then (True, PENTAX_MODEL_K3_MARK_III_MONOCHROME, 1)
     else if usb_product = 0x017f \<and> has_prefix name ''PENTAX KP''
     then (True, PENTAX_MODEL_KP, 1)
     else if usb_product = 0x017d \<and> has_prefix name ''PENTAX K-70''
     then (True, PENTAX_MODEL_K70, 1)
     else if (usb_product = 0x0183 \<or> usb_product = 0x0182) \<and> name = ''PENTAX K-1 Mark II''
     then (True, PENTAX_MODEL_K1_MARK_II, 1)
     else if usb_product = 0x0130 \<and> (name = ''645D'' \<or> has_prefix name ''PENTAX 645D'')
     then (True, PENTAX_MODEL_645D, 0)
     else if usb_product = 0x0167 \<and> (name = ''645Z'' \<or> has_prefix name ''PENTAX 645Z'')
     then (True, PENTAX_MODEL_645Z, 1)
     else if usb_product = 0x018e \<and> has_prefix name ''PENTAX KF''
     then (True, PENTAX_MODEL_KF, 1)
     else if usb_product = 0x0165 \<and> has_prefix name ''PENTAX K-3''
     then (True, PENTAX_MODEL_K3, 1)
     else if usb_product = 0x0179 \<and> has_prefix name ''PENTAX K-1''
     then (True, PENTAX_MODEL_K1, 1)
     else if usb_product = 0x210f \<and> has_prefix name ''RICOH GR III''
     then (True, PENTAX_MODEL_GR_III, 1)
     else (False, 0, 0))"

section \<open>Capability table\<close>

datatype PentaxFocusFamily = PENTAX_FOCUS_FAMILY_OLD | PENTAX_FOCUS_FAMILY_NEW

record PentaxModelCapabilities =
  cap_model_no :: u32
  focus_family :: PentaxFocusFamily
  supports_dual_slot :: bool
  supports_new_transfer :: bool
  supports_movie :: bool
  supports_movie_sub_image :: bool
  supports_tv_bracket :: bool
  supports_av_bracket :: bool
  k3iii_family :: bool
  supports_exp_bracket :: bool
  supports_composition_adjust :: bool
  supports_movie_setting :: bool
  supports_aperture_keep :: bool
  supports_pc_live_view :: bool
  uses_it2_direct_live_view_start :: bool
  supports_cross_process :: bool
  supports_card_writing_mode :: bool
  supports_writing_file_format :: bool
  supports_color_temperature :: bool
  supports_ci_detail :: bool
  supports_self_timer_continuous_new :: bool
  supports_remote_continuous_new :: bool
  supports_slot_change :: bool
  answers_undeclared_generic_props :: bool
  is_monochrome :: bool

text \<open>A designated initialiser leaves every field it does not name zero.\<close>

definition zero_caps :: "u32 \<Rightarrow> PentaxFocusFamily \<Rightarrow> PentaxModelCapabilities" where
  "zero_caps m f = \<lparr>cap_model_no = m, focus_family = f, supports_dual_slot = False,
     supports_new_transfer = False, supports_movie = False, supports_movie_sub_image = False,
     supports_tv_bracket = False, supports_av_bracket = False, k3iii_family = False,
     supports_exp_bracket = False, supports_composition_adjust = False,
     supports_movie_setting = False, supports_aperture_keep = False,
     supports_pc_live_view = False, uses_it2_direct_live_view_start = False,
     supports_cross_process = False, supports_card_writing_mode = False,
     supports_writing_file_format = False, supports_color_temperature = False,
     supports_ci_detail = False, supports_self_timer_continuous_new = False,
     supports_remote_continuous_new = False, supports_slot_change = False,
     answers_undeclared_generic_props = False, is_monochrome = False\<rparr>"

definition pentax_model_capability_table :: "PentaxModelCapabilities list" where
  "pentax_model_capability_table = [
     (zero_caps PENTAX_MODEL_K1_MARK_II PENTAX_FOCUS_FAMILY_OLD)
       \<lparr>supports_dual_slot := True, supports_new_transfer := True, supports_movie := True,
        uses_it2_direct_live_view_start := True, supports_card_writing_mode := True,
        supports_writing_file_format := True, answers_undeclared_generic_props := True\<rparr>,
     (zero_caps PENTAX_MODEL_K3_MARK_III PENTAX_FOCUS_FAMILY_NEW)
       \<lparr>supports_dual_slot := True, supports_new_transfer := True, supports_movie := True,
        supports_movie_sub_image := True, supports_tv_bracket := True,
        supports_av_bracket := True, k3iii_family := True, supports_exp_bracket := True,
        supports_composition_adjust := True, supports_movie_setting := True,
        supports_aperture_keep := True, supports_pc_live_view := True,
        supports_cross_process := True, supports_card_writing_mode := True,
        supports_writing_file_format := True, supports_color_temperature := True,
        supports_ci_detail := True, supports_self_timer_continuous_new := True,
        supports_remote_continuous_new := True, supports_slot_change := True\<rparr>,
     (zero_caps PENTAX_MODEL_K3_MARK_III_MONOCHROME PENTAX_FOCUS_FAMILY_NEW)
       \<lparr>supports_dual_slot := True, supports_new_transfer := True, supports_movie := True,
        supports_movie_sub_image := True, supports_tv_bracket := True,
        supports_av_bracket := True, k3iii_family := True, supports_exp_bracket := True,
        supports_composition_adjust := True, supports_movie_setting := True,
        supports_aperture_keep := True, supports_pc_live_view := True,
        supports_card_writing_mode := True, supports_writing_file_format := True,
        supports_ci_detail := True, supports_self_timer_continuous_new := True,
        supports_remote_continuous_new := True, supports_slot_change := True,
        is_monochrome := True\<rparr>,
     (zero_caps PENTAX_MODEL_KP PENTAX_FOCUS_FAMILY_NEW)
       \<lparr>supports_new_transfer := True, supports_tv_bracket := True,
        supports_av_bracket := True, supports_movie := True,
        supports_composition_adjust := True\<rparr>,
     (zero_caps PENTAX_MODEL_K70 PENTAX_FOCUS_FAMILY_OLD)
       \<lparr>supports_new_transfer := True, supports_movie := True\<rparr>,
     (zero_caps PENTAX_MODEL_K3 PENTAX_FOCUS_FAMILY_OLD)
       \<lparr>supports_dual_slot := True, supports_card_writing_mode := True\<rparr>,
     (zero_caps PENTAX_MODEL_K1 PENTAX_FOCUS_FAMILY_OLD)
       \<lparr>supports_dual_slot := True, supports_new_transfer := True, supports_movie := True,
        uses_it2_direct_live_view_start := True, supports_card_writing_mode := True,
        supports_writing_file_format := True\<rparr>,
     (zero_caps PENTAX_MODEL_GR_III PENTAX_FOCUS_FAMILY_NEW)
       \<lparr>supports_new_transfer := True, supports_tv_bracket := True,
        supports_av_bracket := True, supports_movie := True\<rparr>,
     (zero_caps PENTAX_MODEL_645D PENTAX_FOCUS_FAMILY_OLD)
       \<lparr>supports_dual_slot := True, supports_card_writing_mode := True\<rparr>,
     (zero_caps PENTAX_MODEL_645Z PENTAX_FOCUS_FAMILY_OLD)
       \<lparr>supports_dual_slot := True, supports_exp_bracket := True,
        supports_card_writing_mode := True\<rparr>,
     (zero_caps PENTAX_MODEL_KF PENTAX_FOCUS_FAMILY_OLD)
       \<lparr>supports_new_transfer := True, supports_movie := True\<rparr>]"

definition pentax_model_capabilities :: "u32 \<Rightarrow> PentaxModelCapabilities option" where
  "pentax_model_capabilities m = find (\<lambda>c. cap_model_no c = m) pentax_model_capability_table"

text \<open>\<open>capabilities && capabilities->flag\<close>.\<close>

definition has_cap :: "(PentaxModelCapabilities \<Rightarrow> bool) \<Rightarrow> u32 \<Rightarrow> bool" where
  "has_cap p m = (case pentax_model_capabilities m of None \<Rightarrow> False | Some c \<Rightarrow> p c)"

definition pentax_model_uses_new_focus :: "u32 \<Rightarrow> bool" where
  "pentax_model_uses_new_focus = has_cap (\<lambda>c. focus_family c = PENTAX_FOCUS_FAMILY_NEW)"

definition pentax_model_uses_it2_direct_live_view_start :: "u32 \<Rightarrow> bool" where
  "pentax_model_uses_it2_direct_live_view_start = has_cap uses_it2_direct_live_view_start"

definition pentax_model_supports_exp_bracket :: "u32 \<Rightarrow> bool" where
  "pentax_model_supports_exp_bracket = has_cap supports_exp_bracket"

definition pentax_model_supports_composition_adjust :: "u32 \<Rightarrow> bool" where
  "pentax_model_supports_composition_adjust = has_cap supports_composition_adjust"

definition pentax_model_supports_movie_setting :: "u32 \<Rightarrow> bool" where
  "pentax_model_supports_movie_setting = has_cap supports_movie_setting"

definition pentax_model_supports_pc_live_view :: "u32 \<Rightarrow> bool" where
  "pentax_model_supports_pc_live_view = has_cap supports_pc_live_view"

definition pentax_model_answers_undeclared_generic_props :: "u32 \<Rightarrow> bool" where
  "pentax_model_answers_undeclared_generic_props = has_cap answers_undeclared_generic_props"

definition pentax_model_supports_cross_process :: "u32 \<Rightarrow> bool" where
  "pentax_model_supports_cross_process = has_cap supports_cross_process"

definition pentax_model_supports_card_writing_mode :: "u32 \<Rightarrow> bool" where
  "pentax_model_supports_card_writing_mode = has_cap supports_card_writing_mode"

definition pentax_model_supports_writing_file_format :: "u32 \<Rightarrow> bool" where
  "pentax_model_supports_writing_file_format = has_cap supports_writing_file_format"

definition pentax_model_supports_color_temperature :: "u32 \<Rightarrow> bool" where
  "pentax_model_supports_color_temperature = has_cap supports_color_temperature"

definition pentax_model_supports_ci_detail :: "u32 \<Rightarrow> bool" where
  "pentax_model_supports_ci_detail = has_cap supports_ci_detail"

section \<open>Product gates\<close>

definition pentax_pid_is_research_capable :: "u32 \<Rightarrow> bool" where
  "pentax_pid_is_research_capable pid \<longleftrightarrow>
     pid = 0x0179 \<or> pid = 0x0183 \<or> pid = 0x0189 \<or> pid = 0x018f"

definition pentax_bulb_action_model_supported :: "u32 \<Rightarrow> u16 \<Rightarrow> bool" where
  "pentax_bulb_action_model_supported m usb_product =
     (if m = PENTAX_MODEL_K3_MARK_III then usb_product = 0x0189
      else if m = PENTAX_MODEL_K3_MARK_III_MONOCHROME then False
      else pentax_model_capabilities m \<noteq> None)"

definition pentax_shutter_list_may_synthesise_bulb :: "u32 \<Rightarrow> u16 \<Rightarrow> bool" where
  "pentax_shutter_list_may_synthesise_bulb m usb_product \<longleftrightarrow>
     m = PENTAX_MODEL_K3_MARK_III \<and> usb_product = 0x0189"

section \<open>Exposure modes and the shutter-write gate\<close>

abbreviation PENTAX_EXP_MODE_MANUAL :: u32 where "PENTAX_EXP_MODE_MANUAL \<equiv> 8"
abbreviation PENTAX_EXP_MODE_BULB :: u32 where "PENTAX_EXP_MODE_BULB \<equiv> 9"
abbreviation PENTAX_EXP_MODE_BULB_LENS :: u32 where "PENTAX_EXP_MODE_BULB_LENS \<equiv> 12"
abbreviation PENTAX_EXP_MODE_ASTROTRACER :: u32 where "PENTAX_EXP_MODE_ASTROTRACER \<equiv> 20"
abbreviation PENTAX_CONDITION_CAN_CHANGE_TV :: u32 where "PENTAX_CONDITION_CAN_CHANGE_TV \<equiv> 2"
abbreviation PENTAX_CONDITION_TASK_CHANGING :: u32 where "PENTAX_CONDITION_TASK_CHANGING \<equiv> 0x20"
abbreviation PENTAX_CONDITION_BULB_TIMER :: u32 where "PENTAX_CONDITION_BULB_TIMER \<equiv> 0x40"

definition pentax_exposure_mode_name :: "u32 \<Rightarrow> string option" where
  "pentax_exposure_mode_name m =
     (if m = PENTAX_EXP_MODE_MANUAL then Some ''Manual''
      else if m = PENTAX_EXP_MODE_BULB then Some ''Bulb''
      else if m = PENTAX_EXP_MODE_BULB_LENS then Some ''aperture-ring B (IT2-sourced)''
      else if m = PENTAX_EXP_MODE_ASTROTRACER then Some ''Astro (IT2-sourced)''
      else None)"

definition pentax_bulb_action_mode_supported :: "u32 \<Rightarrow> bool" where
  "pentax_bulb_action_mode_supported m \<longleftrightarrow>
     m = PENTAX_EXP_MODE_BULB \<or> m = PENTAX_EXP_MODE_BULB_LENS \<or> m = PENTAX_EXP_MODE_ASTROTRACER"

definition pentax_bulb_list_seconds :: "u32 list" where
  "pentax_bulb_list_seconds = [1, 2, 3, 4, 5, 6, 8, 10, 13, 15, 20, 25, 30]"

text \<open>The two halves of a shutter-speed wire value.\<close>

abbreviation shutter_denominator :: "u64 \<Rightarrow> u32" where
  "shutter_denominator v \<equiv> ucast (drop_bit 32 v)"

abbreviation shutter_numerator :: "u64 \<Rightarrow> u32" where
  "shutter_numerator v \<equiv> ucast v"

definition pentax_shutter_value_is_bulb_seconds :: "u64 \<Rightarrow> bool" where
  "pentax_shutter_value_is_bulb_seconds v =
     (if shutter_denominator v \<noteq> 1 then False
      else shutter_numerator v \<in> set pentax_bulb_list_seconds)"

definition pentax_shutter_write_permitted :: "u32 \<Rightarrow> u64 \<Rightarrow> u32 list option \<Rightarrow> bool" where
  "pentax_shutter_write_permitted capability_flags requested advertised =
     (if capability_flags AND PENTAX_CONDITION_CAN_CHANGE_TV \<noteq> 0 then True
      else if capability_flags AND PENTAX_CONDITION_BULB_TIMER = 0 then False
      else if shutter_denominator requested \<noteq> 1 \<or> shutter_numerator requested = 0 then False
      else (case advertised of
          None \<Rightarrow> pentax_shutter_value_is_bulb_seconds requested
        | Some [] \<Rightarrow> pentax_shutter_value_is_bulb_seconds requested
        | Some secs \<Rightarrow> shutter_numerator requested \<in> set secs))"

definition pentax_whole_second_shutter_value :: "u32 \<Rightarrow> u64" where
  "pentax_whole_second_shutter_value seconds = push_bit 32 1 OR ucast seconds"

text \<open>
  Milliseconds are \<open>uint64_t\<close>; the sum with 500 wraps, and the quotient is cut to 32 bits.
\<close>

definition pentax_bulb_hold_to_seconds :: "u64 \<Rightarrow> u64 \<Rightarrow> u32" where
  "pentax_bulb_hold_to_seconds start_ms now_ms =
     (let hold_ms = (if start_ms < now_ms then now_ms - start_ms else 0);
          seconds = ucast ((hold_ms + 500) div 1000) :: u32
      in if seconds < 1 then 1 else seconds)"

section \<open>Writing file format\<close>

text \<open>The result \<open>- 1\<close> marks an unknown label.\<close>

definition pentax_wff_format_byte :: "string option \<Rightarrow> int" where
  "pentax_wff_format_byte v =
     (if v = Some ''JPEG'' then 0 else if v = Some ''RAW'' then 1
      else if v = Some ''RAW+JPEG'' then 2 else if v = Some ''TIFF'' then 3 else - 1)"

definition pentax_wff_format_supported :: "u32 \<Rightarrow> string option \<Rightarrow> bool" where
  "pentax_wff_format_supported m v =
     (if \<not> pentax_model_supports_writing_file_format m then False
      else pentax_wff_format_byte v \<in> {0, 1, 2})"

definition pentax_wff_raw_kind_byte :: "string option \<Rightarrow> int" where
  "pentax_wff_raw_kind_byte v =
     (if v = Some ''PEF'' then 0 else if v = Some ''DNG'' then 1 else - 1)"

definition pentax_wff_raw_kind_label :: "u8 \<Rightarrow> string option" where
  "pentax_wff_raw_kind_label k =
     (if k = 0 then Some ''PEF'' else if k = 1 then Some ''DNG'' else None)"

definition pentax_wff_quality_byte :: "string option \<Rightarrow> int" where
  "pentax_wff_quality_byte v =
     (if v = Some ''fine'' then 0 else if v = Some ''normal'' then 1
      else if v = Some ''basic'' then 2 else - 1)"

definition pentax_wff_payload_is_valid :: "byte list option \<Rightarrow> bool" where
  "pentax_wff_payload_is_valid payload =
     (case payload of
        None \<Rightarrow> False
      | Some p \<Rightarrow>
          if length p \<noteq> 10 \<and> length p \<noteq> 11 then False
          else if p ! 0 \<noteq> of_nat (length p - 4) then False
          else if 3 < p ! 4 \<or> 3 < p ! 5 then False
          else if 2 < p ! 7 then False
          else True)"

text \<open>The payload is changed in place: the result is the return value and the payload.\<close>

definition pentax_wff_set_format ::
  "byte list option \<Rightarrow> string option \<Rightarrow> int \<times> byte list option" where
  "pentax_wff_set_format payload v =
     (if \<not> pentax_wff_payload_is_valid payload then (- 1, payload)
      else let format = pentax_wff_format_byte v in
        if format < 0 then (- 1, payload)
        else (0, map_option (\<lambda>p. p[4 := of_int format, 5 := of_int format]) payload))"

definition pentax_wff_set_raw_kind ::
  "byte list option \<Rightarrow> string option \<Rightarrow> int \<times> byte list option" where
  "pentax_wff_set_raw_kind payload v =
     (if \<not> pentax_wff_payload_is_valid payload then (- 1, payload)
      else let raw_kind = pentax_wff_raw_kind_byte v in
        if raw_kind < 0 then (- 1, payload)
        else (0, map_option (\<lambda>p. p[8 := of_int raw_kind]) payload))"

section \<open>Lemmas\<close>

lemma capability_models:
  "cap_model_no ` set pentax_model_capability_table = {PENTAX_MODEL_K1_MARK_II,
     PENTAX_MODEL_K3_MARK_III, PENTAX_MODEL_K3_MARK_III_MONOCHROME, PENTAX_MODEL_KP,
     PENTAX_MODEL_K70, PENTAX_MODEL_K3, PENTAX_MODEL_K1, PENTAX_MODEL_GR_III,
     PENTAX_MODEL_645D, PENTAX_MODEL_645Z, PENTAX_MODEL_KF}"
  by (simp add: pentax_model_capability_table_def zero_caps_def)

lemma capabilities_Some_iff:
  "pentax_model_capabilities m \<noteq> None \<longleftrightarrow> m \<in> cap_model_no ` set pentax_model_capability_table"
  by (auto simp: pentax_model_capabilities_def find_None_iff)

lemma no_caps_0 [simp]: "has_cap p 0 = False"
  by (simp add: has_cap_def pentax_model_capabilities_def pentax_model_capability_table_def
      zero_caps_def)

text \<open>What the lookup can return.\<close>

lemma lookup_cases:
  assumes "pentax_lookup_model v pid name = (ok, m, ext)"
  shows "(if ok then v = 0x25fb \<and> name \<noteq> None \<and> m \<in> cap_model_no ` set pentax_model_capability_table \<and>
      ext = (if m = PENTAX_MODEL_645D then 0 else 1) \<and>
      (m = PENTAX_MODEL_K3_MARK_III \<longrightarrow> pid = 0x0189)
    else m = 0 \<and> ext = 0)"
proof (cases name)
  case None
  with assms show ?thesis by (simp add: pentax_lookup_model_def)
next
  case (Some n)
  show ?thesis
    using assms unfolding pentax_lookup_model_def Some capability_models
    by (simp split: if_split_asm)
qed

lemma bit_2_32 [simp]: "bit (4294967296 :: u64) n \<longleftrightarrow> n = 32"
proof -
  have "bit (push_bit 32 (1 :: u64)) n \<longleftrightarrow> n = 32"
    unfolding bit_push_bit_iff by (auto simp: bit_1_iff)
  then show ?thesis by simp
qed

lemma bit_2_32_int [simp]: "bit (4294967296 :: int) n \<longleftrightarrow> n = 32"
proof -
  have "bit (push_bit 32 (1 :: int)) n \<longleftrightarrow> n = 32"
    unfolding bit_push_bit_iff by (auto simp: bit_1_iff)
  then show ?thesis by simp
qed

lemma shutter_numerator_whole [simp]:
  "shutter_numerator (pentax_whole_second_shutter_value s) = s"
  by (rule bit_word_eqI) (auto simp: pentax_whole_second_shutter_value_def bit_simps)

lemma shutter_denominator_whole [simp]:
  "shutter_denominator (pentax_whole_second_shutter_value s) = 1"
  by (rule bit_word_eqI)
    (auto simp: pentax_whole_second_shutter_value_def bit_simps dest: bit_imp_le_length)

lemma wff_valid_updates:
  assumes "pentax_wff_payload_is_valid (Some p)"
  shows "a \<le> 3 \<Longrightarrow> b \<le> 3 \<Longrightarrow> pentax_wff_payload_is_valid (Some (p[4 := a, 5 := b]))"
    and "pentax_wff_payload_is_valid (Some (p[8 := c]))"
  using assms by (auto simp: pentax_wff_payload_is_valid_def nth_list_update split: if_splits)

lemma wff_valid_length: "pentax_wff_payload_is_valid (Some p) \<Longrightarrow> 8 < length p"
  by (auto simp: pentax_wff_payload_is_valid_def split: if_splits)

lemma wff_byte_range:
  "0 \<le> pentax_wff_format_byte v \<Longrightarrow> pentax_wff_format_byte v \<in> {0, 1, 2, 3}"
  "0 \<le> pentax_wff_raw_kind_byte v \<Longrightarrow> pentax_wff_raw_kind_byte v \<in> {0, 1}"
  by (auto simp: pentax_wff_format_byte_def pentax_wff_raw_kind_byte_def split: if_splits)

lemma raw_kind_label_byte:
  "0 \<le> pentax_wff_raw_kind_byte v \<Longrightarrow>
     pentax_wff_raw_kind_label (of_int (pentax_wff_raw_kind_byte v)) = v"
  by (auto simp: pentax_wff_raw_kind_byte_def pentax_wff_raw_kind_label_def split: if_splits)

section \<open>Properties\<close>

text \<open>
  The model lookup fails closed and agrees with the capability table: it accepts only
  vendor \<open>0x25fb\<close> with a device name, every model number it returns has exactly one entry
  of the table behind it, and extension version 0 is returned for the 645D alone; whatever
  it rejects gets model number 0, for which every capability gate is closed.
\<close>

theorem pentax_lookup_model_fails_closed:
  "case pentax_lookup_model v pid name of (ok, m, ext) \<Rightarrow>
     (if ok then v = 0x25fb \<and> name \<noteq> None \<and> (ext = 0) = (m = PENTAX_MODEL_645D) \<and>
        length (filter (\<lambda>c. cap_model_no c = m) pentax_model_capability_table) = 1
      else m = 0 \<and> ext = 0 \<and> \<not> has_cap gate m)"
proof -
  obtain ok m ext where r: "pentax_lookup_model v pid name = (ok, m, ext)"
    by (cases "pentax_lookup_model v pid name")
  have "length (filter (\<lambda>c. cap_model_no c = m) pentax_model_capability_table) = 1"
    if "m \<in> cap_model_no ` set pentax_model_capability_table"
    using that unfolding capability_models
    by (auto simp: pentax_model_capability_table_def zero_caps_def)
  with lookup_cases [OF r] r show ?thesis by (auto split: if_splits)
qed

text \<open>
  The K-3 III and its Monochrome variant are never confused. On whatever the lookup
  accepts, the held-Bulb action is supported exactly when the model is not the Monochrome,
  the list of Bulb seconds is synthesised for the colour K-3 III only, and the controls
  that the colour body alone has (colour temperature, cross process) are closed on the
  Monochrome while the shared ones (detailed custom image, PC live view) are open on both.
\<close>

theorem pentax_monochrome_gates:
  assumes "pentax_lookup_model v pid name = (True, m, ext)"
  shows "(pentax_bulb_action_model_supported m pid = (m \<noteq> PENTAX_MODEL_K3_MARK_III_MONOCHROME)) \<and>
    (pentax_shutter_list_may_synthesise_bulb m pid = (m = PENTAX_MODEL_K3_MARK_III)) \<and>
    (pentax_model_supports_color_temperature m = (m = PENTAX_MODEL_K3_MARK_III)) \<and>
    (pentax_model_supports_cross_process m = (m = PENTAX_MODEL_K3_MARK_III)) \<and>
    (pentax_model_supports_ci_detail m =
      (m \<in> {PENTAX_MODEL_K3_MARK_III, PENTAX_MODEL_K3_MARK_III_MONOCHROME})) \<and>
    (pentax_model_supports_pc_live_view m =
      (m \<in> {PENTAX_MODEL_K3_MARK_III, PENTAX_MODEL_K3_MARK_III_MONOCHROME}))"
proof -
  have m: "m \<in> cap_model_no ` set pentax_model_capability_table"
    and pid: "m = PENTAX_MODEL_K3_MARK_III \<longrightarrow> pid = 0x0189"
    using lookup_cases [OF assms] by auto
  have "pentax_bulb_action_model_supported m pid = (m \<noteq> PENTAX_MODEL_K3_MARK_III_MONOCHROME)"
    "pentax_shutter_list_may_synthesise_bulb m pid = (m = PENTAX_MODEL_K3_MARK_III)"
    using m [folded capabilities_Some_iff] pid
    by (auto simp: pentax_bulb_action_model_supported_def
        pentax_shutter_list_may_synthesise_bulb_def)
  moreover from m have
    "pentax_model_supports_color_temperature m = (m = PENTAX_MODEL_K3_MARK_III)"
    "pentax_model_supports_cross_process m = (m = PENTAX_MODEL_K3_MARK_III)"
    "pentax_model_supports_ci_detail m =
      (m \<in> {PENTAX_MODEL_K3_MARK_III, PENTAX_MODEL_K3_MARK_III_MONOCHROME})"
    "pentax_model_supports_pc_live_view m =
      (m \<in> {PENTAX_MODEL_K3_MARK_III, PENTAX_MODEL_K3_MARK_III_MONOCHROME})"
    unfolding capability_models pentax_model_supports_color_temperature_def
      pentax_model_supports_cross_process_def pentax_model_supports_ci_detail_def
      pentax_model_supports_pc_live_view_def
    by (auto simp: has_cap_def pentax_model_capabilities_def pentax_model_capability_table_def
        zero_caps_def)
  ultimately show ?thesis by blast
qed

lemma pentax_monochrome_gates_witness:
  "\<not> pentax_bulb_action_model_supported PENTAX_MODEL_K3_MARK_III_MONOCHROME 0x018f \<and>
   \<not> pentax_model_supports_color_temperature PENTAX_MODEL_K3_MARK_III_MONOCHROME"
proof -
  have "pentax_lookup_model 0x25fb 0x018f (Some ''PENTAX K-3 Mark III Monochrome'')
    = (True, PENTAX_MODEL_K3_MARK_III_MONOCHROME, 1)"
    by (simp add: pentax_lookup_model_def has_prefix_def)
  from pentax_monochrome_gates [OF this] show ?thesis by simp
qed

text \<open>
  C36. The shutter-write gate. With \<open>CAN_CHANGE_TV\<close> every value may be written; without it
  and without \<open>BULB_TIMER\<close> none may. With the timer alone a request is admitted exactly
  when its denominator is 1 and its non-zero seconds are in the advertised domain (in the
  published list, when none was advertised): a sparse domain is not closed up.
\<close>

theorem pentax_shutter_write_gate:
  "pentax_shutter_write_permitted caps v adv =
    (caps AND PENTAX_CONDITION_CAN_CHANGE_TV \<noteq> 0 \<or>
     caps AND PENTAX_CONDITION_BULB_TIMER \<noteq> 0 \<and>
     (\<exists>s. v = pentax_whole_second_shutter_value s \<and> s \<noteq> 0 \<and>
       s \<in> set (case adv of None \<Rightarrow> pentax_bulb_list_seconds
                 | Some ss \<Rightarrow> if ss = [] then pentax_bulb_list_seconds else ss)))"
proof -
  have v: "v = pentax_whole_second_shutter_value (shutter_numerator v)"
    if d: "shutter_denominator v = 1"
  proof (rule bit_word_eqI)
    fix n
    assume n: "n < LENGTH(64)"
    have "bit (shutter_denominator v) (n - 32) = bit (1 :: u32) (n - 32)"
      using d by simp
    with n show "bit v n = bit (pentax_whole_second_shutter_value (shutter_numerator v)) n"
      by (cases "n < 32") (auto simp: pentax_whole_second_shutter_value_def bit_simps)
  qed
  let ?secs = "case adv of None \<Rightarrow> pentax_bulb_list_seconds
    | Some ss \<Rightarrow> if ss = [] then pentax_bulb_list_seconds else ss"
  define d where "d = shutter_denominator v"
  define n where "n = shutter_numerator v"
  have whole: "(\<exists>s. v = pentax_whole_second_shutter_value s \<and> s \<noteq> 0 \<and> s \<in> set ?secs) =
    (d = 1 \<and> n \<noteq> 0 \<and> n \<in> set ?secs)"
    unfolding d_def n_def using v
    by (metis (no_types, lifting) shutter_denominator_whole shutter_numerator_whole)
  have "pentax_shutter_write_permitted caps v adv =
    (caps AND PENTAX_CONDITION_CAN_CHANGE_TV \<noteq> 0 \<or>
     caps AND PENTAX_CONDITION_BULB_TIMER \<noteq> 0 \<and> d = 1 \<and> n \<noteq> 0 \<and> n \<in> set ?secs)"
    unfolding pentax_shutter_write_permitted_def pentax_shutter_value_is_bulb_seconds_def
      d_def [symmetric] n_def [symmetric]
    by (simp split: option.split list.split)
  with whole show ?thesis by simp
qed

theorem pentax_shutter_write_gate_witness:
  "pentax_shutter_write_permitted PENTAX_CONDITION_BULB_TIMER (pentax_whole_second_shutter_value 30) None"
proof -
  have "\<exists>s. pentax_whole_second_shutter_value 30 = pentax_whole_second_shutter_value s \<and> s \<noteq> 0 \<and>
      s \<in> set pentax_bulb_list_seconds"
    by (rule exI [of _ 30]) (simp add: pentax_bulb_list_seconds_def)
  then show ?thesis
    using pentax_shutter_write_gate [of PENTAX_CONDITION_BULB_TIMER "pentax_whole_second_shutter_value 30" None]
    by simp
qed

text \<open>
  The two editors of the writing-file-format payload touch only their own bytes. On a
  valid payload and a known label they succeed, leave the payload valid, write bytes 4 and
  5 (the format), respectively byte 8 (the raw kind), and no others; the stored raw kind
  reads back as its label. On an invalid payload or an unknown label they return -1 and
  change nothing.
\<close>

theorem pentax_wff_edits_preserve:
  "(if pentax_wff_payload_is_valid (Some p) \<and> 0 \<le> pentax_wff_format_byte v
    then \<exists>b. pentax_wff_set_format (Some p) v = (0, Some (p[4 := b, 5 := b])) \<and>
      uint b = pentax_wff_format_byte v \<and> pentax_wff_payload_is_valid (Some (p[4 := b, 5 := b]))
    else pentax_wff_set_format (Some p) v = (- 1, Some p)) \<and>
   (if pentax_wff_payload_is_valid (Some p) \<and> 0 \<le> pentax_wff_raw_kind_byte w
    then \<exists>b. pentax_wff_set_raw_kind (Some p) w = (0, Some (p[8 := b])) \<and>
      pentax_wff_raw_kind_label b = w \<and> pentax_wff_payload_is_valid (Some (p[8 := b]))
    else pentax_wff_set_raw_kind (Some p) w = (- 1, Some p))"
proof (rule conjI)
  show "if pentax_wff_payload_is_valid (Some p) \<and> 0 \<le> pentax_wff_format_byte v
    then \<exists>b. pentax_wff_set_format (Some p) v = (0, Some (p[4 := b, 5 := b])) \<and>
      uint b = pentax_wff_format_byte v \<and> pentax_wff_payload_is_valid (Some (p[4 := b, 5 := b]))
    else pentax_wff_set_format (Some p) v = (- 1, Some p)"
  proof (cases "pentax_wff_payload_is_valid (Some p) \<and> 0 \<le> pentax_wff_format_byte v")
    case True
    then have "pentax_wff_format_byte v \<in> {0, 1, 2, 3}" using wff_byte_range(1) by blast
    with True show ?thesis
      by (auto simp: pentax_wff_set_format_def wff_valid_updates Let_def)
  qed (auto simp: pentax_wff_set_format_def Let_def)
next
  show "if pentax_wff_payload_is_valid (Some p) \<and> 0 \<le> pentax_wff_raw_kind_byte w
    then \<exists>b. pentax_wff_set_raw_kind (Some p) w = (0, Some (p[8 := b])) \<and>
      pentax_wff_raw_kind_label b = w \<and> pentax_wff_payload_is_valid (Some (p[8 := b]))
    else pentax_wff_set_raw_kind (Some p) w = (- 1, Some p)"
    by (auto simp: pentax_wff_set_raw_kind_def wff_valid_updates raw_kind_label_byte Let_def)
qed

end
