(* ===== verification/PentaxConditions.thy ===== *)
theory PentaxConditions
  imports PentaxModel
begin

text \<open>
  \<open>camlibs/ptp2/pentax-utils.c\<close>, the conditions half: decoding of the GetAllConditions
  frame, the admission, reconciliation and readiness decisions made from it, the
  obligation and orphan policy, live-view payloads, focus steps and the timeout budgets.
  A frame is an optional byte list: \<open>None\<close> is a NULL pointer and the list's length is the
  \<open>size\<close> argument that travels with the pointer in C.
\<close>

section \<open>Session and capture bookkeeping\<close>

definition pentax_session_error_needs_close_reset :: "u16 \<Rightarrow> u32 \<Rightarrow> bool" where
  "pentax_session_error_needs_close_reset response attempt \<longleftrightarrow>
     attempt < 3 \<and> (response = 0x02fa \<or> response = 0x02fd \<or> response = 0x02ff)"

abbreviation PTP_PENTAX_WRITING_FORMAT_RAW_JPEG :: u32
  where "PTP_PENTAX_WRITING_FORMAT_RAW_JPEG \<equiv> 2"
abbreviation PTP_PENTAX_WRITING_FORMAT_TIFF :: u32 where "PTP_PENTAX_WRITING_FORMAT_TIFF \<equiv> 3"

definition pentax_expected_extra_candidates :: "byte list option \<Rightarrow> u32" where
  "pentax_expected_extra_candidates data =
     (case data of
        None \<Rightarrow> 0
      | Some d \<Rightarrow>
          if length d < 528 then 0
          else if le32 d 524 = PTP_PENTAX_WRITING_FORMAT_RAW_JPEG then 1 else 0)"

datatype PentaxCaptureCleanup =
  PENTAX_CAPTURE_CLEANUP_ABORT | PENTAX_CAPTURE_CLEANUP_PRESERVE_CANDIDATE

definition pentax_capture_cleanup_decision :: "bool \<Rightarrow> PentaxCaptureCleanup" where
  "pentax_capture_cleanup_decision capture_accepted =
     (if capture_accepted then PENTAX_CAPTURE_CLEANUP_PRESERVE_CANDIDATE
      else PENTAX_CAPTURE_CLEANUP_ABORT)"

definition pentax_capture_output_obligation_resolved :: "bool \<Rightarrow> bool \<Rightarrow> bool \<Rightarrow> bool" where
  "pentax_capture_output_obligation_resolved capture_accepted primary_published all_published \<longleftrightarrow>
     \<not> capture_accepted \<or> (primary_published \<and> all_published)"

definition pentax_candidate_output_published :: "bool \<Rightarrow> bool \<Rightarrow> bool \<Rightarrow> bool" where
  "pentax_candidate_output_published transferred filename_known published \<longleftrightarrow>
     transferred \<and> filename_known \<and> published"

definition pentax_capture_initiate_response_ambiguous :: "u16 \<Rightarrow> bool" where
  "pentax_capture_initiate_response_ambiguous response \<longleftrightarrow> 0x02f9 \<le> response \<and> response \<le> 0x02ff"

definition pentax_capture_output_contract_known :: "byte list option \<Rightarrow> bool" where
  "pentax_capture_output_contract_known data =
     (case data of
        None \<Rightarrow> False
      | Some d \<Rightarrow>
          if length d < 528 then False else le32 d 524 \<le> PTP_PENTAX_WRITING_FORMAT_TIFF)"

section \<open>Admission, reconciliation, readiness\<close>

text \<open>\<open>PENTAX_CONDITION_ACTIVITY_UNSAFE\<close>: the union of its seven activity bits.\<close>

definition PENTAX_CONDITION_ACTIVITY_UNSAFE :: u32 where
  "PENTAX_CONDITION_ACTIVITY_UNSAFE =
     0x1 OR 0x2 OR 0x200 OR 0x800 OR 0x1000 OR 0x8000 OR 0x100000"

abbreviation PENTAX_CONDITIONS_MIN_SIZE :: nat where "PENTAX_CONDITIONS_MIN_SIZE \<equiv> 508"

datatype PentaxAdmissionPolicy = PENTAX_ADMISSION_STRICT | PENTAX_ADMISSION_OUTPUT_SAFE

datatype PentaxAdmissionBlockReason =
    PENTAX_ADMISSION_BLOCK_NONE
  | PENTAX_ADMISSION_BLOCK_UNREADABLE
  | PENTAX_ADMISSION_BLOCK_UNSAFE_ACTIVITY
  | PENTAX_ADMISSION_BLOCK_TRANSFER_CANDIDATE_AVAILABLE
  | PENTAX_ADMISSION_BLOCK_SELECTOR_PRESENT
  | PENTAX_ADMISSION_BLOCK_OUTPUT_UNRESOLVED

definition pentax_admission_block_reason ::
  "byte list option \<Rightarrow> PentaxAdmissionPolicy \<Rightarrow> PentaxAdmissionBlockReason" where
  "pentax_admission_block_reason data policy =
     (case data of
        None \<Rightarrow> PENTAX_ADMISSION_BLOCK_UNREADABLE
      | Some d \<Rightarrow>
          if length d < 508 then PENTAX_ADMISSION_BLOCK_UNREADABLE
          else if policy = PENTAX_ADMISSION_STRICT \<and>
                  le32 d 104 AND PENTAX_CONDITION_ACTIVITY_UNSAFE \<noteq> 0
          then PENTAX_ADMISSION_BLOCK_UNSAFE_ACTIVITY
          else if le32 d 32 = 1 then PENTAX_ADMISSION_BLOCK_TRANSFER_CANDIDATE_AVAILABLE
          else if le32 d 36 \<noteq> 0 then PENTAX_ADMISSION_BLOCK_SELECTOR_PRESENT
          else PENTAX_ADMISSION_BLOCK_NONE)"

definition pentax_admission_probe_ok :: "byte list option \<Rightarrow> PentaxAdmissionPolicy \<Rightarrow> bool" where
  "pentax_admission_probe_ok data policy \<longleftrightarrow>
     pentax_admission_block_reason data policy = PENTAX_ADMISSION_BLOCK_NONE"

fun pentax_admission_block_reason_name :: "PentaxAdmissionBlockReason \<Rightarrow> string" where
  "pentax_admission_block_reason_name PENTAX_ADMISSION_BLOCK_NONE = ''none''"
| "pentax_admission_block_reason_name PENTAX_ADMISSION_BLOCK_UNREADABLE = ''conditions-unreadable''"
| "pentax_admission_block_reason_name PENTAX_ADMISSION_BLOCK_UNSAFE_ACTIVITY = ''unsafe-activity''"
| "pentax_admission_block_reason_name PENTAX_ADMISSION_BLOCK_TRANSFER_CANDIDATE_AVAILABLE =
     ''transfer-candidate-available''"
| "pentax_admission_block_reason_name PENTAX_ADMISSION_BLOCK_SELECTOR_PRESENT = ''selector-present''"
| "pentax_admission_block_reason_name PENTAX_ADMISSION_BLOCK_OUTPUT_UNRESOLVED =
     ''output-obligation-unresolved''"

fun pentax_admission_recovery_action :: "PentaxAdmissionBlockReason \<Rightarrow> string" where
  "pentax_admission_recovery_action PENTAX_ADMISSION_BLOCK_NONE = []"
| "pentax_admission_recovery_action PENTAX_ADMISSION_BLOCK_UNREADABLE = ''re-probe-before-retry''"
| "pentax_admission_recovery_action PENTAX_ADMISSION_BLOCK_UNSAFE_ACTIVITY =
     ''hold-shutter; wait-for-idle-without-timed-retry''"
| "pentax_admission_recovery_action PENTAX_ADMISSION_BLOCK_TRANSFER_CANDIDATE_AVAILABLE =
     ''recover-output-with-ownership''"
| "pentax_admission_recovery_action PENTAX_ADMISSION_BLOCK_SELECTOR_PRESENT =
     ''recover-output-with-ownership''"
| "pentax_admission_recovery_action PENTAX_ADMISSION_BLOCK_OUTPUT_UNRESOLVED =
     ''keep-shutter-blocked; recover-output-with-ownership''"

definition pentax_recovery_probe_can_clear :: "PentaxAdmissionBlockReason \<Rightarrow> bool \<Rightarrow> bool" where
  "pentax_recovery_probe_can_clear reason capture_output_pending \<longleftrightarrow>
     reason = PENTAX_ADMISSION_BLOCK_NONE \<and> \<not> capture_output_pending"

definition pentax_output_obligation_releasable ::
  "PentaxAdmissionBlockReason \<Rightarrow> bool \<Rightarrow> u32 \<Rightarrow> u32 \<Rightarrow> bool" where
  "pentax_output_obligation_releasable camera_reason own_in_flight camera_capture camera_candidate =
     (if own_in_flight then False
      else if camera_reason \<noteq> PENTAX_ADMISSION_BLOCK_NONE then False
      else if camera_capture \<noteq> 0 \<or> camera_candidate \<noteq> 0 then False
      else True)"

definition pentax_orphan_candidate_claimable ::
  "PentaxAdmissionBlockReason \<Rightarrow> bool \<Rightarrow> u32 \<Rightarrow> bool" where
  "pentax_orphan_candidate_claimable reason own_in_flight candidate_handle =
     (if own_in_flight then False
      else if candidate_handle = 0 then False
      else (case reason of
          PENTAX_ADMISSION_BLOCK_TRANSFER_CANDIDATE_AVAILABLE \<Rightarrow> True
        | PENTAX_ADMISSION_BLOCK_SELECTOR_PRESENT \<Rightarrow> True
        | PENTAX_ADMISSION_BLOCK_NONE \<Rightarrow> False
        | PENTAX_ADMISSION_BLOCK_UNREADABLE \<Rightarrow> False
        | PENTAX_ADMISSION_BLOCK_UNSAFE_ACTIVITY \<Rightarrow> False
        | PENTAX_ADMISSION_BLOCK_OUTPUT_UNRESOLVED \<Rightarrow> False))"

definition pentax_orphan_delete_permitted :: "bool \<Rightarrow> bool \<Rightarrow> bool" where
  "pentax_orphan_delete_permitted orphan_claim durable_owner =
     (if \<not> orphan_claim then True else durable_owner)"

definition pentax_recovery_probe_ok :: "byte list option \<Rightarrow> bool" where
  "pentax_recovery_probe_ok data = pentax_admission_probe_ok data PENTAX_ADMISSION_STRICT"

definition pentax_stale_candidate_baseline :: "byte list option \<Rightarrow> u32" where
  "pentax_stale_candidate_baseline data =
     (case data of
        None \<Rightarrow> 0
      | Some d \<Rightarrow>
          if length d < PENTAX_CONDITIONS_MIN_SIZE then 0
          else if le32 d 32 \<noteq> 1 then 0 else le32 d 36)"

datatype PentaxReconcileDecision =
    PENTAX_RECONCILE_IDLE
  | PENTAX_RECONCILE_STALE_CANDIDATE
  | PENTAX_RECONCILE_UNSAFE
  | PENTAX_RECONCILE_UNREADABLE

text \<open>The second component is what is written to \<open>*candidate_out\<close>, if anything.\<close>

definition pentax_reconcile_conditions ::
  "byte list option \<Rightarrow> PentaxReconcileDecision \<times> u32 option" where
  "pentax_reconcile_conditions data =
     (case data of
        None \<Rightarrow> (PENTAX_RECONCILE_UNREADABLE, None)
      | Some d \<Rightarrow>
          if length d < PENTAX_CONDITIONS_MIN_SIZE then (PENTAX_RECONCILE_UNREADABLE, None)
          else if le32 d 104 AND PENTAX_CONDITION_ACTIVITY_UNSAFE \<noteq> 0
          then (PENTAX_RECONCILE_UNSAFE, None)
          else if le32 d 36 \<noteq> 0 then (PENTAX_RECONCILE_STALE_CANDIDATE, Some (le32 d 36))
          else (PENTAX_RECONCILE_IDLE, None))"

datatype PentaxReadiness =
  PENTAX_READINESS_IDLE | PENTAX_READINESS_BUSY | PENTAX_READINESS_UNKNOWN

definition pentax_camera_readiness :: "byte list option \<Rightarrow> PentaxReadiness" where
  "pentax_camera_readiness data =
     (case data of
        None \<Rightarrow> PENTAX_READINESS_UNKNOWN
      | Some d \<Rightarrow>
          if length d < PENTAX_CONDITIONS_MIN_SIZE then PENTAX_READINESS_UNKNOWN
          else if le32 d 104 AND PENTAX_CONDITION_ACTIVITY_UNSAFE = 0 \<and> le32 d 36 = 0
          then PENTAX_READINESS_IDLE
          else PENTAX_READINESS_BUSY)"

datatype PentaxTransferTimeoutReason =
    PENTAX_TRANSFER_TIMEOUT_OK
  | PENTAX_TRANSFER_TIMEOUT_STALLED
  | PENTAX_TRANSFER_TIMEOUT_CEILING

definition pentax_transfer_timeout_reason :: "u64 \<Rightarrow> u64 \<Rightarrow> PentaxTransferTimeoutReason" where
  "pentax_transfer_timeout_reason total_ms idle_ms =
     (if 60000 \<le> idle_ms then PENTAX_TRANSFER_TIMEOUT_STALLED
      else if 1800000 \<le> total_ms then PENTAX_TRANSFER_TIMEOUT_CEILING
      else PENTAX_TRANSFER_TIMEOUT_OK)"

section \<open>The conditions frame\<close>

record PentaxConditions =
  operation_state :: u8
  activity_flags :: u32
  exposure_mode :: u32
  user_mode :: u32
  exposure_step :: u32
  bulb_timer_seconds :: u32
  bulb_timer_denominator :: u32
  aperture_numerator :: u32
  aperture_denominator :: u32
  exposure_comp_numerator :: i32
  exposure_comp_denominator :: u32
  iso :: u32
  open_av_num :: u32
  astro_status_flags :: u32
  drive_mode :: u32
  white_balance :: u32
  af_mode :: u32
  capability_flags :: u32
  astro_limit_seconds :: u32
  has_astro_limit :: bool

definition pentax_parse_conditions :: "byte list option \<Rightarrow> int \<times> PentaxConditions option" where
  "pentax_parse_conditions data =
     (case data of
        None \<Rightarrow> (GP_ERROR_BAD_PARAMETERS, None)
      | Some d \<Rightarrow>
          if length d < PENTAX_CONDITIONS_MIN_SIZE then (GP_ERROR_CORRUPTED_DATA, None)
          else (GP_OK, Some \<lparr>
            operation_state = ucast (le32 d 24),
            activity_flags = le32 d 104,
            exposure_mode = le32 d 184,
            user_mode = le32 d 40,
            exposure_step = le32 d 168,
            bulb_timer_seconds = le32 d 272,
            bulb_timer_denominator = le32 d 276,
            aperture_numerator = le32 d 280,
            aperture_denominator = le32 d 284,
            exposure_comp_numerator = le32 d 288,
            exposure_comp_denominator = le32 d 292,
            iso = le32 d 312,
            open_av_num = le32 d 328,
            astro_status_flags = le32 d 320,
            drive_mode = le32 d 492,
            white_balance = le32 d 120,
            af_mode = le32 d 196,
            capability_flags = le32 d 504,
            astro_limit_seconds = (if 532 \<le> length d then le32 d 528 else 0),
            has_astro_limit = (532 \<le> length d)\<rparr>))"

definition pentax_conditions_are_idle :: "PentaxConditions option \<Rightarrow> bool" where
  "pentax_conditions_are_idle conditions =
     (case conditions of
        None \<Rightarrow> False
      | Some c \<Rightarrow> capability_flags c AND PENTAX_CONDITION_TASK_CHANGING = 0 \<and>
                  activity_flags c AND (0x1 OR 0x2) = 0)"

definition pentax_it2_release_mode :: "u32 \<Rightarrow> PentaxConditions option \<Rightarrow> int \<times> u32 option" where
  "pentax_it2_release_mode vendor_ext_version conditions =
     (case conditions of
        None \<Rightarrow> (GP_ERROR_BAD_PARAMETERS, None)
      | Some c \<Rightarrow>
          if vendor_ext_version = 0 then (GP_OK, Some 0)
          else
            (let mode =
               (if (exposure_mode c = 9 \<or> exposure_mode c = 12 \<or>
                    exposure_mode c = PENTAX_EXP_MODE_ASTROTRACER) \<and>
                   capability_flags c AND PENTAX_CONDITION_BULB_TIMER = 0 then 2
                else if activity_flags c AND 0x100 \<noteq> 0 then 3 else 0)
             in (GP_OK, Some (if drive_mode c = 4 \<or> drive_mode c = 5 \<or> drive_mode c = 6 then 1
                              else mode))))"

definition pentax_minimum_focus_displacement :: "u32 \<Rightarrow> int \<Rightarrow> int \<times> i32 option" where
  "pentax_minimum_focus_displacement av direction =
     (if direction \<noteq> - 1 \<and> direction \<noteq> 1 then (GP_ERROR_BAD_PARAMETERS, None)
      else
        (let magnitude = (ucast av * 5) div 6 :: u64
         in if magnitude = 0 \<or> 0x7fffffff < magnitude then (GP_ERROR_CORRUPTED_DATA, None)
            else (GP_OK, Some (if 0 < direction then - ucast magnitude else ucast magnitude))))"

definition pentax_old_focus_protocol_direction :: "int \<Rightarrow> int \<times> u32 option" where
  "pentax_old_focus_protocol_direction direction =
     (if direction \<noteq> - 1 \<and> direction \<noteq> 1 then (GP_ERROR_BAD_PARAMETERS, None)
      else (GP_OK, Some (if 0 < direction then 0 else 1)))"

section \<open>Lemmas on the decisions\<close>

lemmas frame_defs = pentax_admission_block_reason_def pentax_admission_probe_ok_def
  pentax_recovery_probe_ok_def pentax_reconcile_conditions_def pentax_camera_readiness_def
  pentax_stale_candidate_baseline_def

definition transfer_flag :: "byte list option \<Rightarrow> bool" where
  "transfer_flag data = (case data of None \<Rightarrow> False | Some d \<Rightarrow> le32 d 32 = 1)"


text \<open>
  The output policy cannot both give up and claim the same camera output: an obligation
  is released only with no capture and no candidate left and nothing of our own in flight, an
  orphan is claimed only from a blocked camera with a real handle, so no state admits both,
  an own transfer in flight or an unresolved output blocks both, and the frame classified as
  releasable shows no candidate selector.
\<close>

theorem pentax_output_policy_exclusive:
  "\<not> (pentax_output_obligation_releasable r own cap cand \<and>
      pentax_orphan_candidate_claimable r own h) \<and>
   \<not> pentax_output_obligation_releasable r True cap cand \<and>
   \<not> pentax_orphan_candidate_claimable r True h \<and>
   \<not> pentax_orphan_candidate_claimable r own 0 \<and>
   pentax_output_obligation_releasable (pentax_admission_block_reason data policy) own cap cand =
     (\<not> own \<and> cap = 0 \<and> cand = 0 \<and> pentax_admission_probe_ok data policy) \<and>
   pentax_orphan_candidate_claimable (pentax_admission_block_reason data PENTAX_ADMISSION_OUTPUT_SAFE)
       own h =
     (\<not> own \<and> h \<noteq> 0 \<and>
      (\<exists>d. data = Some d \<and> 508 \<le> length d \<and> (le32 d 32 = 1 \<or> le32 d 36 \<noteq> 0)))"
  by (cases data)
     (auto simp: pentax_output_obligation_releasable_def pentax_orphan_candidate_claimable_def
       frame_defs transfer_flag_def split: PentaxAdmissionBlockReason.splits)

theorem pentax_output_policy_exclusive_witness:
  "\<not> pentax_orphan_candidate_claimable
       (pentax_admission_block_reason (Some (replicate 508 0)) PENTAX_ADMISSION_OUTPUT_SAFE) False 5"
  using pentax_output_policy_exclusive [where own = False and h = 5 and data = "Some (replicate 508 0)"]
  by (simp add: le32_def)

text \<open>
  Decoding a conditions frame never looks outside it: NULL and short frames are refused
  with their own error codes and without a record, a frame of 508 to 531 bytes is decoded
  from its first 508 bytes, with no astro limit, and a longer one from its first 532.
\<close>

theorem pentax_parse_conditions_window:
  "pentax_parse_conditions None = (GP_ERROR_BAD_PARAMETERS, None) \<and>
   (if length d < 508 then pentax_parse_conditions (Some d) = (GP_ERROR_CORRUPTED_DATA, None)
    else fst (pentax_parse_conditions (Some d)) = GP_OK \<and>
         pentax_parse_conditions (Some d) =
           pentax_parse_conditions (Some (take (if length d < 532 then 508 else 532) d)) \<and>
         map_option has_astro_limit (snd (pentax_parse_conditions (Some d))) =
           Some (532 \<le> length d))"
proof -
  have "le32 (take n d) i = le32 d i" if "i + 4 \<le> n" for n i
    using that by (intro le32_cong [of n]) auto
  then show ?thesis by (simp add: pentax_parse_conditions_def)
qed

lemma sint_small: "0 \<le> n \<Longrightarrow> n \<le> 2147483647 \<Longrightarrow> sint (word_of_int n :: i32) = n"
  by (simp add: int_word_sint)

lemma sint_small_neg: "0 \<le> n \<Longrightarrow> n \<le> 2147483647 \<Longrightarrow> sint (word_of_int (- n) :: i32) = - n"
  by (simp only: int_word_sint) simp

text \<open>
  A focus step is refused unless its direction is plus or minus one and its size fits
  the signed field; an accepted one is five sixths of the aperture number, rounded down, with
  the sign opposite to the direction, so it is never zero and never wraps.
\<close>

theorem pentax_minimum_focus_displacement_spec:
  "pentax_minimum_focus_displacement av direction =
     (if direction \<noteq> - 1 \<and> direction \<noteq> 1 then (GP_ERROR_BAD_PARAMETERS, None)
      else if unat av < 2 \<or> 2576980377 < unat av then (GP_ERROR_CORRUPTED_DATA, None)
      else (GP_OK, snd (pentax_minimum_focus_displacement av direction))) \<and>
   (case snd (pentax_minimum_focus_displacement av direction) of None \<Rightarrow> True
    | Some d \<Rightarrow> sint d = - direction * (5 * int (unat av) div 6))"
proof -
  define m where "m = (ucast av * 5) div (6 :: u64)"
  have av: "unat av < 2 ^ 32" using unsigned_less [of av] by simp
  have a: "unat (ucast av :: u64) = unat av"
    using av by (simp add: unsigned_ucast_eq take_bit_nat_eq_self)
  have b: "unat (ucast av * 5 :: u64) = unat av * 5"
    using av a by (simp add: unat_mult_lem [THEN iffD1])
  have m: "unat m = unat av * 5 div 6" using b by (simp add: m_def unat_div)
  have m0: "m = 0 \<longleftrightarrow> unat av < 2"
    using m by (simp flip: unat_eq_zero add: div_eq_0_iff) presburger
  have m1: "0x7fffffff < m \<longleftrightarrow> 2576980377 < unat av"
    by (simp add: word_less_nat_alt m) linarith
  have s: "sint (ucast m :: i32) = int (unat m)" "sint (- ucast m :: i32) = - int (unat m)"
    if "\<not> 0x7fffffff < m"
  proof -
    have less: "uint m \<le> 2147483647" using that by (simp add: word_less_def)
    have w: "(ucast m :: i32) = word_of_int (uint m)" by transfer simp
    have "sint (ucast m :: i32) = uint m" "sint (- ucast m :: i32) = - uint m"
      unfolding w wi_hom_neg using less by (simp_all only: sint_small sint_small_neg unsigned_greater_eq)
    then show "sint (ucast m :: i32) = int (unat m)" "sint (- ucast m :: i32) = - int (unat m)"
      by (simp_all only: uint_nat)
  qed
  show ?thesis
    using m0 m1 s m
    by (auto simp: pentax_minimum_focus_displacement_def m_def [symmetric] Let_def zdiv_int)
qed

end
