(* ===== verification/PentaxTiming.thy ===== *)
theory PentaxTiming
  imports PentaxConditions
begin

text \<open>
  \<open>camlibs/ptp2/pentax-utils.c\<close>: live-view payloads and retries, the capture and exposure
  budgets computed from a conditions record, and the bounded wait for idle. Milliseconds
  are \<open>uint64_t\<close> as in the code; the callbacks of the wait are functions on the state
  behind their \<open>user_data\<close>.
\<close>

section \<open>Live view\<close>

record PentaxLiveViewGeometry =
  area_width :: u16
  area_height :: u16
  active_width :: u16
  active_height :: u16
  contrast_af_active_width :: u16
  contrast_af_active_height :: u16
  contrast_af_spot_width :: u16
  contrast_af_spot_height :: u16

definition pentax_parse_live_view_geometry ::
  "byte list option \<Rightarrow> int \<times> PentaxLiveViewGeometry option" where
  "pentax_parse_live_view_geometry data =
     (case data of
        None \<Rightarrow> (GP_ERROR_BAD_PARAMETERS, None)
      | Some d \<Rightarrow>
          if length d < 20 then (GP_ERROR_CORRUPTED_DATA, None)
          else
            (let g = \<lparr>area_width = le16 d 4, area_height = le16 d 6,
                      active_width = le16 d 8, active_height = le16 d 10,
                      contrast_af_active_width = le16 d 12,
                      contrast_af_active_height = le16 d 14,
                      contrast_af_spot_width = le16 d 16,
                      contrast_af_spot_height = le16 d 18\<rparr>
             in if area_width g = 0 \<or> area_height g = 0 \<or>
                   area_width g < active_width g \<or> area_height g < active_height g \<or>
                   area_width g < contrast_af_active_width g \<or>
                   area_height g < contrast_af_active_height g \<or>
                   contrast_af_active_width g < contrast_af_spot_width g \<or>
                   contrast_af_active_height g < contrast_af_spot_height g
                then (GP_ERROR_CORRUPTED_DATA, None)
                else (GP_OK, Some g)))"

definition pentax_parse_live_view_af_position ::
  "byte list option \<Rightarrow> PentaxLiveViewGeometry option \<Rightarrow> int \<times> (u16 \<times> u16) option" where
  "pentax_parse_live_view_af_position data geometry =
     (case (data, geometry) of
        (Some d, Some g) \<Rightarrow>
          if length d \<noteq> 8 then (GP_ERROR_CORRUPTED_DATA, None)
          else if d ! 0 \<noteq> 2 then (GP_ERROR_CORRUPTED_DATA, None)
          else
            (let x = le16 d 4; y = le16 d 6
             in if area_width g \<le> x \<or> area_height g \<le> y then (GP_ERROR_CORRUPTED_DATA, None)
                else (GP_OK, Some (x, y)))
      | _ \<Rightarrow> (GP_ERROR_BAD_PARAMETERS, None))"

text \<open>The encoders fill a caller's array of 8, respectively 12 bytes.\<close>

definition pentax_encode_live_view_af_position :: "u16 \<Rightarrow> u16 \<Rightarrow> byte list" where
  "pentax_encode_live_view_af_position x y =
     (replicate 8 0)[0 := 2, 4 := ucast x, 5 := ucast (drop_bit 8 x),
                     6 := ucast y, 7 := ucast (drop_bit 8 y)]"

definition pentax_encode_live_view_zoom :: "u16 \<Rightarrow> u16 \<Rightarrow> u8 \<Rightarrow> int \<times> byte list option" where
  "pentax_encode_live_view_zoom x y magnification =
     (if magnification = 0 then (GP_ERROR_BAD_PARAMETERS, None)
      else (GP_OK, Some ((replicate 12 0)[0 := 4, 4 := ucast x, 5 := ucast (drop_bit 8 x),
                     6 := ucast y, 7 := ucast (drop_bit 8 y), 8 := magnification])))"

definition pentax_live_view_stop_response_ok :: "u16 \<Rightarrow> bool" where
  "pentax_live_view_stop_response_ok response \<longleftrightarrow> response = 0x2001 \<or> response = 0xa005"

text \<open>\<open>Some f\<close>: the fallback magnification was stored and 1 returned.\<close>

definition pentax_live_view_zoom_fallback :: "u8 \<Rightarrow> u16 \<Rightarrow> u8 option" where
  "pentax_live_view_zoom_fallback requested response =
     (if requested \<noteq> 16 \<or> response \<noteq> 0x201c then None else Some 10)"

definition pentax_live_view_frame_should_retry :: "u16 \<Rightarrow> u32 \<Rightarrow> u32 \<Rightarrow> u32 \<Rightarrow> bool" where
  "pentax_live_view_frame_should_retry response attempts elapsed_ms data_size =
     (if response = 0xa008 \<or> (response = 0x2002 \<and> data_size = 0)
      then attempts < 30 \<and> elapsed_ms < 1500 else False)"

section \<open>Budgets\<close>

abbreviation PENTAX_CONDITION_ASTRO_SHIFT_MODE :: u32
  where "PENTAX_CONDITION_ASTRO_SHIFT_MODE \<equiv> 0x400"
abbreviation PENTAX_CONDITION_ACTIVITY_MULTI_MODE :: u32
  where "PENTAX_CONDITION_ACTIVITY_MULTI_MODE \<equiv> 0x4000"
abbreviation PENTAX_CONDITION_ACTIVITY_MULTI_CAPTURE :: u32
  where "PENTAX_CONDITION_ACTIVITY_MULTI_CAPTURE \<equiv> 0x8000"
abbreviation PENTAX_CAPTURE_TIMEOUT_MS_BASE :: u64 where "PENTAX_CAPTURE_TIMEOUT_MS_BASE \<equiv> 60000"
abbreviation PENTAX_CAPTURE_PROCESSING_MARGIN_MS :: u64
  where "PENTAX_CAPTURE_PROCESSING_MARGIN_MS \<equiv> 30000"
abbreviation PENTAX_PIXEL_SHIFT_MULTIPLIER :: u64 where "PENTAX_PIXEL_SHIFT_MULTIPLIER \<equiv> 4"
abbreviation PENTAX_CAPTURE_TIMEOUT_MS_MAX :: u64 where "PENTAX_CAPTURE_TIMEOUT_MS_MAX \<equiv> 86400000"

definition pentax_clamp_timeout_ms :: "u64 \<Rightarrow> u32" where
  "pentax_clamp_timeout_ms ms =
     (if PENTAX_CAPTURE_TIMEOUT_MS_MAX < ms then ucast PENTAX_CAPTURE_TIMEOUT_MS_MAX else ucast ms)"

definition pentax_processing_allowance_ms :: "u64 \<Rightarrow> u64" where
  "pentax_processing_allowance_ms known_exposure_ms =
     (if known_exposure_ms = 0 then PENTAX_CAPTURE_PROCESSING_MARGIN_MS
      else known_exposure_ms + PENTAX_CAPTURE_PROCESSING_MARGIN_MS)"

text \<open>\<open>((uint64_t) seconds + 1) * 1000\<close>.\<close>

definition settled_ms :: "u32 \<Rightarrow> u64" where
  "settled_ms seconds = (ucast seconds + 1) * 1000"

definition pentax_conditions_in_astro_mode :: "PentaxConditions option \<Rightarrow> bool" where
  "pentax_conditions_in_astro_mode conditions =
     (case conditions of
        None \<Rightarrow> False
      | Some c \<Rightarrow>
          if exposure_mode c = PENTAX_EXP_MODE_ASTROTRACER then True
          else if astro_status_flags c AND PENTAX_CONDITION_ASTRO_SHIFT_MODE \<noteq> 0 then True
          else False)"

definition multi_shot :: "PentaxConditions \<Rightarrow> bool" where
  "multi_shot c \<longleftrightarrow> activity_flags c AND
     (PENTAX_CONDITION_ACTIVITY_MULTI_MODE OR PENTAX_CONDITION_ACTIVITY_MULTI_CAPTURE) \<noteq> 0"

text \<open>
  \<open>if (x > timeout) timeout = x;\<close>, and the four blocks of the budget in the order of the
  code, each from the value of \<open>timeout\<close> before it to the value after it.
\<close>

definition raise_to :: "u64 \<Rightarrow> u64 \<Rightarrow> u64" where
  "raise_to timeout x = (if timeout < x then x else timeout)"

definition astro_shift_block :: "PentaxConditions \<Rightarrow> u64 \<Rightarrow> u64" where
  "astro_shift_block c timeout =
     (if astro_status_flags c AND PENTAX_CONDITION_ASTRO_SHIFT_MODE \<noteq> 0
      then
        (let limit_ms = (if has_astro_limit c then settled_ms (astro_limit_seconds c) else 0);
             timeout = raise_to timeout limit_ms;
             timeout = timeout + pentax_processing_allowance_ms
                                   (if has_astro_limit c then limit_ms else 0)
         in ucast (pentax_clamp_timeout_ms timeout))
      else timeout)"

definition bulb_block :: "PentaxConditions \<Rightarrow> u64 \<Rightarrow> u64" where
  "bulb_block c timeout =
     (if 0 < bulb_timer_seconds c
      then
        (let bulb_ms = settled_ms (bulb_timer_seconds c);
             bulb_ms = bulb_ms + pentax_processing_allowance_ms bulb_ms
         in raise_to timeout (ucast (pentax_clamp_timeout_ms bulb_ms)))
      else timeout)"

definition multi_shot_block :: "PentaxConditions \<Rightarrow> u64 \<Rightarrow> u64" where
  "multi_shot_block c timeout =
     (if multi_shot c
      then
        (let known_exposure_ms =
               (if 0 < bulb_timer_seconds c
                then settled_ms (bulb_timer_seconds c) * PENTAX_PIXEL_SHIFT_MULTIPLIER else 0);
             multi_ms =
               (if 0 < bulb_timer_seconds c then known_exposure_ms
                else PENTAX_CAPTURE_TIMEOUT_MS_BASE * PENTAX_PIXEL_SHIFT_MULTIPLIER);
             multi_ms = multi_ms + pentax_processing_allowance_ms known_exposure_ms
         in raise_to timeout (ucast (pentax_clamp_timeout_ms multi_ms)))
      else timeout)"

definition astro_tracer_block :: "PentaxConditions \<Rightarrow> u64 \<Rightarrow> u64" where
  "astro_tracer_block c timeout =
     (if pentax_conditions_in_astro_mode (Some c) \<and>
         astro_status_flags c AND PENTAX_CONDITION_ASTRO_SHIFT_MODE = 0
      then
        (let astro_ms =
               (if has_astro_limit c
                then settled_ms (astro_limit_seconds c) +
                     pentax_processing_allowance_ms (settled_ms (astro_limit_seconds c))
                else PENTAX_CAPTURE_TIMEOUT_MS_BASE + PENTAX_CAPTURE_PROCESSING_MARGIN_MS)
         in raise_to timeout (ucast (pentax_clamp_timeout_ms astro_ms)))
      else timeout)"

definition pentax_capture_timeout_ms :: "PentaxConditions \<Rightarrow> u32" where
  "pentax_capture_timeout_ms c =
     (let timeout = PENTAX_CAPTURE_TIMEOUT_MS_BASE;
          timeout = astro_shift_block c timeout;
          timeout = bulb_block c timeout;
          timeout = multi_shot_block c timeout;
          timeout = astro_tracer_block c timeout
      in ucast timeout)"

definition bulb_phase :: "PentaxConditions \<Rightarrow> u64 \<Rightarrow> u64" where
  "bulb_phase c exposure_ms =
     (if 0 < bulb_timer_seconds c
      then raise_to exposure_ms
             (ucast (pentax_clamp_timeout_ms (settled_ms (bulb_timer_seconds c))))
      else exposure_ms)"

definition multi_shot_phase :: "PentaxConditions \<Rightarrow> u64 \<Rightarrow> u64" where
  "multi_shot_phase c exposure_ms =
     (if multi_shot c
      then
        (let multi_ms =
               (if 0 < bulb_timer_seconds c
                then settled_ms (bulb_timer_seconds c) * PENTAX_PIXEL_SHIFT_MULTIPLIER
                else PENTAX_CAPTURE_TIMEOUT_MS_BASE * PENTAX_PIXEL_SHIFT_MULTIPLIER)
         in raise_to exposure_ms (ucast (pentax_clamp_timeout_ms multi_ms)))
      else exposure_ms)"

definition astro_phase :: "PentaxConditions \<Rightarrow> u64 \<Rightarrow> u64" where
  "astro_phase c exposure_ms =
     (if pentax_conditions_in_astro_mode (Some c)
      then
        (let astro_ms = (if has_astro_limit c then settled_ms (astro_limit_seconds c)
                         else PENTAX_CAPTURE_TIMEOUT_MS_BASE)
         in raise_to exposure_ms (ucast (pentax_clamp_timeout_ms astro_ms)))
      else exposure_ms)"

definition pentax_exposure_phase_ms :: "PentaxConditions \<Rightarrow> u32" where
  "pentax_exposure_phase_ms c =
     (let exposure_ms = PENTAX_CAPTURE_TIMEOUT_MS_BASE;
          exposure_ms = bulb_phase c exposure_ms;
          exposure_ms = multi_shot_phase c exposure_ms;
          exposure_ms = astro_phase c exposure_ms
      in ucast exposure_ms)"

datatype PentaxCaptureTimeoutState =
    PENTAX_CAPTURE_TIMEOUT_STATE_UNKNOWN
  | PENTAX_CAPTURE_TIMEOUT_STATE_EXPOSING
  | PENTAX_CAPTURE_TIMEOUT_STATE_PROCESSING

definition pentax_capture_timeout_state :: "u32 \<Rightarrow> PentaxCaptureTimeoutState" where
  "pentax_capture_timeout_state flags =
     (if flags AND 0x2 \<noteq> 0 then PENTAX_CAPTURE_TIMEOUT_STATE_PROCESSING
      else if flags AND 0x1 \<noteq> 0 then PENTAX_CAPTURE_TIMEOUT_STATE_EXPOSING
      else PENTAX_CAPTURE_TIMEOUT_STATE_UNKNOWN)"

definition pentax_capture_needs_idle_wait :: "PentaxConditions option \<Rightarrow> bool" where
  "pentax_capture_needs_idle_wait conditions =
     (case conditions of
        None \<Rightarrow> False
      | Some c \<Rightarrow>
          if multi_shot c then True
          else if pentax_conditions_in_astro_mode conditions then True
          else if 0 < bulb_timer_seconds c then True
          else False)"

section \<open>Waiting for idle\<close>

text \<open>
  \<open>read_cb\<close> returns its code, the frame it produced and the state behind \<open>user_data\<close>;
  \<open>cancel_cb\<close> is optional. The loop adds 500 ms per poll; \<open>usleep\<close> is not modelled.
  \<open>int\<close> overflow of \<open>waited_ms\<close> would need a bound within 500 ms of \<open>INT_MAX\<close>.
\<close>

type_synonym 'u read_cb = "'u \<Rightarrow> int \<times> byte list option \<times> 'u"
type_synonym 'c cancel_cb = "'c \<Rightarrow> bool \<times> 'c"

function wait_for_idle_loop ::
  "'u read_cb \<Rightarrow> 'u \<Rightarrow> 'c cancel_cb option \<Rightarrow> 'c \<Rightarrow> int \<Rightarrow> int \<Rightarrow> int \<times> 'u \<times> 'c" where
  "wait_for_idle_loop read_cb u cancel_cb c max_ms waited_ms =
     (if waited_ms < max_ms
      then
        (let (cancelled, c) = (case cancel_cb of None \<Rightarrow> (False, c) | Some f \<Rightarrow> f c)
         in if cancelled then (- 1, u, c)
            else
              (let (rc, idata, u) = read_cb u
               in if rc \<noteq> 0 then wait_for_idle_loop read_cb u cancel_cb c max_ms (waited_ms + 500)
                  else if pentax_camera_readiness idata = PENTAX_READINESS_IDLE then (1, u, c)
                  else wait_for_idle_loop read_cb u cancel_cb c max_ms (waited_ms + 500)))
      else (0, u, c))"
  by pat_completeness auto
termination
  by (relation "measure (\<lambda>(_, _, _, _, max_ms, waited_ms). nat (max_ms - waited_ms))") auto

declare wait_for_idle_loop.simps [simp del]

definition pentax_wait_for_idle ::
  "'u read_cb \<Rightarrow> 'u \<Rightarrow> 'c cancel_cb option \<Rightarrow> 'c \<Rightarrow> int \<Rightarrow> int \<times> 'u \<times> 'c" where
  "pentax_wait_for_idle read_cb u cancel_cb c max_ms =
     wait_for_idle_loop read_cb u cancel_cb c max_ms 0"

section \<open>Lemmas on the budgets\<close>

lemma unat32_less: "unat (s :: u32) < 2 ^ 32"
  using unsigned_less [of s] by simp

lemma unat_plus64: "unat a + unat b < 2 ^ 64 \<Longrightarrow> unat (a + b :: u64) = unat a + unat b"
  by (simp add: unat_add_lem [THEN iffD1])
lemma unat_mult64: "unat a * unat b < 2 ^ 64 \<Longrightarrow> unat (a * b :: u64) = unat a * unat b"
  by (simp add: unat_mult_lem [THEN iffD1])
lemma unat_ucast64 [simp]: "unat (ucast (s :: u32) :: u64) = unat s"
  using unat32_less [of s] by (simp add: unsigned_ucast_eq take_bit_nat_eq_self)
lemma unat_settled_ms: "unat (settled_ms s) = (unat s + 1) * 1000"
proof -
  have "unat (ucast s + 1 :: u64) = unat s + 1"
    using unat32_less [of s] by (simp add: unat_plus64)
  then show ?thesis
    unfolding settled_ms_def using unat32_less [of s] by (subst unat_mult64) simp_all
qed

lemma unat_clamp: "unat (pentax_clamp_timeout_ms ms) = min 86400000 (unat ms)"
proof (cases "PENTAX_CAPTURE_TIMEOUT_MS_MAX < ms")
  case True
  then show ?thesis by (simp add: pentax_clamp_timeout_ms_def word_less_nat_alt)
next
  case False
  then have "unat ms \<le> 86400000" by (simp add: word_less_nat_alt)
  with False show ?thesis
    by (simp add: pentax_clamp_timeout_ms_def unsigned_ucast_eq take_bit_nat_eq_self)
qed

lemma unat_ucast32: "unat (x :: u64) < 2 ^ 32 \<Longrightarrow> unat (ucast x :: u32) = unat x"
  by (simp add: unsigned_ucast_eq take_bit_nat_eq_self)

lemma unat_raise_to: "unat (raise_to t x) = max (unat t) (unat x)"
  by (simp add: raise_to_def word_less_nat_alt max_def)

text \<open>An exposure of \<open>s\<close> seconds with its settle second.\<close>

abbreviation exposure_claim :: "u32 \<Rightarrow> nat" where
  "exposure_claim s \<equiv> (unat s + 1) * 1000"

abbreviation clamped :: "nat \<Rightarrow> nat" where
  "clamped n \<equiv> min 86400000 n"

lemma unat_settled_less: "unat (settled_ms s) < 2 ^ 50"
  using unat32_less [of s] by (simp add: unat_settled_ms)

lemma settled_ms_nonzero [simp]: "settled_ms s \<noteq> 0" "settled_ms s * 4 \<noteq> 0"
proof -
  have "unat (settled_ms s * 4) = 4 * unat (settled_ms s)"
    using unat_settled_less [of s] by (subst unat_mult64) auto
  then show "settled_ms s \<noteq> 0" "settled_ms s * 4 \<noteq> 0"
    by (auto simp: unat_settled_ms simp flip: unat_eq_zero)
qed

lemma unat_settled_mult: "unat (settled_ms s * 4) = 4 * exposure_claim s"
  using unat_settled_less [of s] by (subst unat_mult64) (auto simp: unat_settled_ms)

lemma unat_allowance:
  "unat k < 2 ^ 63 \<Longrightarrow>
     unat (pentax_processing_allowance_ms k) = (if k = 0 then 30000 else unat k + 30000)"
  by (simp add: pentax_processing_allowance_ms_def unat_plus64)

lemma unat_doubled:
  "unat k < 2 ^ 60 \<Longrightarrow> k \<noteq> 0 \<Longrightarrow>
     unat (k + pentax_processing_allowance_ms k) = 2 * unat k + 30000"
  by (subst unat_plus64) (auto simp: unat_allowance)

lemma unat_astro_shift_block:
  assumes "unat t < 2 ^ 50"
  shows "unat (astro_shift_block c t) =
    (if astro_status_flags c AND PENTAX_CONDITION_ASTRO_SHIFT_MODE \<noteq> 0
     then let L = (if has_astro_limit c then exposure_claim (astro_limit_seconds c) else 0)
          in clamped (max (unat t) L + L + 30000)
     else unat t)"
proof -
  let ?k = "if has_astro_limit c then settled_ms (astro_limit_seconds c) else 0"
  let ?L = "if has_astro_limit c then exposure_claim (astro_limit_seconds c) else 0"
  have k: "unat ?k = ?L" "unat ?k < 2 ^ 50"
    using unat_settled_less [of "astro_limit_seconds c"] by (auto simp: unat_settled_ms)
  have "unat (raise_to t ?k + pentax_processing_allowance_ms ?k) = max (unat t) ?L + ?L + 30000"
  proof (subst unat_plus64)
    have a: "unat (pentax_processing_allowance_ms ?k) = ?L + 30000"
      using k by (auto simp: unat_allowance)
    show "unat (raise_to t ?k) + unat (pentax_processing_allowance_ms ?k) < 2 ^ 64"
      using a k assms by (simp add: unat_raise_to max_def split: if_splits)
    show "unat (raise_to t ?k) + unat (pentax_processing_allowance_ms ?k) = max (unat t) ?L + ?L + 30000"
      using a k by (simp add: unat_raise_to)
  qed
  then show ?thesis
    by (cases "has_astro_limit c") (simp_all add: astro_shift_block_def unat_clamp Let_def)
qed

text \<open>What each block claims, zero when it does not apply.\<close>

definition shift_claim :: "PentaxConditions \<Rightarrow> nat" where
  "shift_claim c =
     (if astro_status_flags c AND PENTAX_CONDITION_ASTRO_SHIFT_MODE \<noteq> 0
      then let L = (if has_astro_limit c then exposure_claim (astro_limit_seconds c) else 0)
           in clamped (max 60000 L + L + 30000)
      else 60000)"

definition bulb_claim :: "PentaxConditions \<Rightarrow> nat" where
  "bulb_claim c = (if 0 < bulb_timer_seconds c
     then clamped (2 * exposure_claim (bulb_timer_seconds c) + 30000) else 0)"

definition multi_claim :: "PentaxConditions \<Rightarrow> nat" where
  "multi_claim c = (if multi_shot c
     then clamped (if 0 < bulb_timer_seconds c
       then 8 * exposure_claim (bulb_timer_seconds c) + 30000 else 270000) else 0)"

definition tracer_claim :: "PentaxConditions \<Rightarrow> nat" where
  "tracer_claim c =
     (if exposure_mode c = PENTAX_EXP_MODE_ASTROTRACER \<and>
         astro_status_flags c AND PENTAX_CONDITION_ASTRO_SHIFT_MODE = 0
      then clamped (if has_astro_limit c
        then 2 * exposure_claim (astro_limit_seconds c) + 30000 else 90000) else 0)"

definition bulb_exposure :: "PentaxConditions \<Rightarrow> nat" where
  "bulb_exposure c = (if 0 < bulb_timer_seconds c
     then clamped (exposure_claim (bulb_timer_seconds c)) else 0)"

definition multi_exposure :: "PentaxConditions \<Rightarrow> nat" where
  "multi_exposure c = (if multi_shot c
     then clamped (if 0 < bulb_timer_seconds c
       then 4 * exposure_claim (bulb_timer_seconds c) else 240000) else 0)"

definition astro_exposure :: "PentaxConditions \<Rightarrow> nat" where
  "astro_exposure c = (if pentax_conditions_in_astro_mode (Some c)
     then clamped (if has_astro_limit c
       then exposure_claim (astro_limit_seconds c) else 60000) else 0)"

lemmas claim_defs = shift_claim_def bulb_claim_def multi_claim_def tracer_claim_def
  bulb_exposure_def multi_exposure_def astro_exposure_def

lemma unat_bulb_block: "unat (bulb_block c t) = max (unat t) (bulb_claim c)"
  using unat_settled_less [of "bulb_timer_seconds c"] unat_settled_ms [of "bulb_timer_seconds c"]
  by (simp add: bulb_block_def bulb_claim_def unat_raise_to unat_clamp unat_doubled Let_def)

lemma unat_multi_shot_block: "unat (multi_shot_block c t) = max (unat t) (multi_claim c)"
proof -
  have "unat (settled_ms s * 4) < 2 ^ 60" for s
    using unat_settled_less [of s] by (simp add: unat_settled_mult unat_settled_ms)
  then show ?thesis
    by (simp add: multi_shot_block_def multi_claim_def unat_raise_to unat_clamp unat_doubled
        unat_settled_mult Let_def pentax_processing_allowance_ms_def [of 0])
qed

lemma unat_astro_tracer_block: "unat (astro_tracer_block c t) = max (unat t) (tracer_claim c)"
  using unat_settled_less [of "astro_limit_seconds c"] unat_settled_ms [of "astro_limit_seconds c"]
  by (simp add: astro_tracer_block_def tracer_claim_def pentax_conditions_in_astro_mode_def
      unat_raise_to unat_clamp unat_doubled Let_def)

lemma unat_bulb_phase: "unat (bulb_phase c t) = max (unat t) (bulb_exposure c)"
  by (simp add: bulb_phase_def bulb_exposure_def unat_raise_to unat_clamp unat_settled_ms)

lemma unat_multi_shot_phase: "unat (multi_shot_phase c t) = max (unat t) (multi_exposure c)"
  by (simp add: multi_shot_phase_def multi_exposure_def unat_raise_to unat_clamp
      unat_settled_mult Let_def)

lemma unat_astro_phase: "unat (astro_phase c t) = max (unat t) (astro_exposure c)"
  by (simp add: astro_phase_def astro_exposure_def unat_raise_to unat_clamp unat_settled_ms Let_def)

lemma claims_clamped:
  "shift_claim c \<le> 86400000" "bulb_claim c \<le> 86400000" "multi_claim c \<le> 86400000"
  "tracer_claim c \<le> 86400000" "bulb_exposure c \<le> 86400000" "multi_exposure c \<le> 86400000"
  "astro_exposure c \<le> 86400000"
  by (simp_all add: claim_defs Let_def)

text \<open>The budget is the greatest claim, the exposure phase the greatest exposure.\<close>

lemma capture_timeout_claims:
  "unat (pentax_capture_timeout_ms c) =
     Max {shift_claim c, bulb_claim c, multi_claim c, tracer_claim c}"
proof -
  have "unat (astro_shift_block c 60000) = shift_claim c"
    by (simp add: unat_astro_shift_block shift_claim_def)
  then have eq: "unat (astro_tracer_block c (multi_shot_block c (bulb_block c (astro_shift_block c 60000))))
      = Max {shift_claim c, bulb_claim c, multi_claim c, tracer_claim c}"
    by (simp add: unat_astro_tracer_block unat_multi_shot_block unat_bulb_block max.assoc)
  moreover have "Max {shift_claim c, bulb_claim c, multi_claim c, tracer_claim c} \<le> 86400000"
    using claims_clamped by simp
  ultimately show ?thesis
    unfolding pentax_capture_timeout_ms_def Let_def by (subst unat_ucast32) auto
qed

lemma exposure_phase_claims:
  "unat (pentax_exposure_phase_ms c) =
     Max {60000, bulb_exposure c, multi_exposure c, astro_exposure c}"
proof -
  have eq: "unat (astro_phase c (multi_shot_phase c (bulb_phase c 60000)))
      = Max {60000, bulb_exposure c, multi_exposure c, astro_exposure c}"
    by (simp add: unat_astro_phase unat_multi_shot_phase unat_bulb_phase max.assoc)
  moreover have "Max {60000, bulb_exposure c, multi_exposure c, astro_exposure c} \<le> 86400000"
    using claims_clamped by simp
  ultimately show ?thesis
    unfolding pentax_exposure_phase_ms_def Let_def by (subst unat_ucast32) auto
qed

lemma exposures_below_claims:
  "bulb_exposure c \<le> bulb_claim c" "multi_exposure c \<le> multi_claim c"
  "astro_exposure c \<le> max (shift_claim c) (tracer_claim c)" "60000 \<le> shift_claim c"
  by (auto simp: claim_defs pentax_conditions_in_astro_mode_def Let_def)

text \<open>
  C31. The capture timeout is a usable bound: it never falls below the base of one minute, never
  exceeds a day, and is never shorter than the exposure phase computed from the same
  conditions record, whatever values the camera put in the record's 32-bit fields (no
  overflow of the 64-bit sums cuts a budget short).
\<close>

theorem pentax_capture_timeout_bounds:
  "60000 \<le> pentax_exposure_phase_ms c \<and>
   pentax_exposure_phase_ms c \<le> pentax_capture_timeout_ms c \<and>
   pentax_capture_timeout_ms c \<le> 86400000"
  using exposures_below_claims [of c] claims_clamped [of c]
  by (auto simp: word_le_nat_alt capture_timeout_claims exposure_phase_claims)

section \<open>Lemmas on the wait\<close>

text \<open>
  The states behind the two \<open>user_data\<close> pointers after \<open>k\<close> calls, and what the \<open>k\<close>-th calls
  return. Poll \<open>k\<close> sees idle when its read succeeds with a frame that is positively idle.
\<close>

definition read_state :: "'u read_cb \<Rightarrow> 'u \<Rightarrow> nat \<Rightarrow> 'u" where
  "read_state read_cb u k = ((\<lambda>u. snd (snd (read_cb u))) ^^ k) u"

definition idle_at :: "'u read_cb \<Rightarrow> 'u \<Rightarrow> nat \<Rightarrow> bool" where
  "idle_at read_cb u k =
     (case read_cb (read_state read_cb u k) of
        (rc, idata, _) \<Rightarrow> rc = 0 \<and> pentax_camera_readiness idata = PENTAX_READINESS_IDLE)"

fun cancelled_at :: "'c cancel_cb option \<Rightarrow> 'c \<Rightarrow> nat \<Rightarrow> bool" where
  "cancelled_at None c k = False"
| "cancelled_at (Some f) c k = fst (f (((\<lambda>c. snd (f c)) ^^ k) c))"

definition idle_polls :: "int \<Rightarrow> nat" where
  "idle_polls ms = nat ((ms + 499) div 500)"

lemma idle_polls_0: "\<not> 0 < ms \<Longrightarrow> idle_polls ms = 0"
proof -
  assume "\<not> 0 < ms"
  then have "(ms + 499) div 500 \<le> 0" using zdiv_mono1 [of "ms + 499" 499 500] by simp
  then show ?thesis by (simp add: idle_polls_def)
qed

lemma idle_polls_Suc: "0 < ms \<Longrightarrow> idle_polls ms = Suc (idle_polls (ms - 500))"
proof -
  assume ms: "0 < ms"
  have "(ms + 499) div 500 = (ms - 500 + 499) div 500 + 1"
    using div_mult_self1 [of 500 "ms - 500 + 499" 1] by (simp add: algebra_simps)
  moreover have "0 \<le> (ms - 500 + 499) div 500" using ms by (simp add: pos_imp_zdiv_nonneg_iff)
  ultimately show ?thesis by (simp add: idle_polls_def nat_add_distrib)
qed

lemma idle_polls_cases:
  obtains "\<not> w < m" "idle_polls (m - w) = 0"
  | "w < m" "idle_polls (m - w) = Suc (idle_polls (m - (w + 500)))"
  using idle_polls_0 [of "m - w"] idle_polls_Suc [of "m - w"] by (cases "w < m") (auto simp: diff_diff_eq)

fun next_cancel :: "'c cancel_cb option \<Rightarrow> 'c \<Rightarrow> 'c" where
  "next_cancel None c = c"
| "next_cancel (Some f) c = snd (f c)"

lemma read_state_simps [simp]:
  "read_state rd u 0 = u"
  "read_state rd (snd (snd (rd u))) k = read_state rd u (Suc k)"
  by (simp_all add: read_state_def funpow_Suc_right del: funpow.simps)

lemma idle_at_Suc [simp]: "idle_at rd (snd (snd (rd u))) k = idle_at rd u (Suc k)"
  by (simp add: idle_at_def)

lemma cancelled_at_Suc [simp]: "cancelled_at cb (next_cancel cb c) k = cancelled_at cb c (Suc k)"
  by (cases cb) (simp_all add: funpow_Suc_right del: funpow.simps)

text \<open>One poll: cancelled, idle, or on to the next poll with 500 ms more.\<close>

lemma wait_for_idle_unroll:
  "wait_for_idle_loop rd u cb c max_ms w =
     (if w < max_ms
      then if cancelled_at cb c 0 then (- 1, u, next_cancel cb c)
           else if idle_at rd u 0 then (1, snd (snd (rd u)), next_cancel cb c)
           else wait_for_idle_loop rd (snd (snd (rd u))) cb (next_cancel cb c) max_ms (w + 500)
      else (0, u, c))"
  by (subst wait_for_idle_loop.simps)
     (cases cb; simp add: idle_at_def split: prod.split)

lemma ex_less_Suc: "(\<exists>k < Suc n. P k) \<longleftrightarrow> P 0 \<or> (\<exists>k < n. P (Suc k))"
  using less_Suc_eq_0_disj by auto

lemma all_le_Suc: "(\<forall>j \<le> Suc k. P j) \<longleftrightarrow> P 0 \<and> (\<forall>j \<le> k. P (Suc j))"
  by (metis Suc_le_mono not0_implies_Suc zero_le)

lemma all_lt_Suc: "(\<forall>j < Suc k. P j) \<longleftrightarrow> P 0 \<and> (\<forall>j < k. P (Suc j))"
  using less_Suc_eq_0_disj by auto

lemma wait_for_idle_loop_outcome:
  assumes "idle_polls (max_ms - w) = n"
  shows "fst (wait_for_idle_loop rd u cb c max_ms w) =
     (if \<exists>k < n. idle_at rd u k \<and> (\<forall>j \<le> k. \<not> cancelled_at cb c j) then 1
      else if \<exists>k < n. cancelled_at cb c k \<and> (\<forall>j < k. \<not> idle_at rd u j) then - 1
      else 0)"
  using assms
proof (induction n arbitrary: u c w)
  case 0
  then have "\<not> w < max_ms" by (cases rule: idle_polls_cases [of w max_ms]) simp_all
  then show ?case by (simp add: wait_for_idle_unroll)
next
  case (Suc n)
  from Suc.prems have w: "w < max_ms" "idle_polls (max_ms - (w + 500)) = n"
    by (cases rule: idle_polls_cases [of w max_ms]; simp)+
  show ?case
    unfolding ex_less_Suc all_le_Suc all_lt_Suc
    using w(1) Suc.IH [OF w(2), of "snd (snd (rd u))" "next_cancel cb c"]
    by (subst wait_for_idle_unroll) auto
qed

lemma wait_for_idle_loop_reads:
  "\<exists>k \<le> idle_polls (max_ms - w). fst (snd (wait_for_idle_loop rd u cb c max_ms w)) = read_state rd u k"
proof (induction "idle_polls (max_ms - w)" arbitrary: u c w)
  case 0
  then have "\<not> w < max_ms" by (cases rule: idle_polls_cases [of w max_ms]) simp_all
  then show ?case by (auto simp: wait_for_idle_unroll intro: exI [of _ 0])
next
  case (Suc n)
  then have w: "w < max_ms" "n = idle_polls (max_ms - (w + 500))"
    by (cases rule: idle_polls_cases [of w max_ms]; simp)+
  obtain k where "k \<le> n"
    "fst (snd (wait_for_idle_loop rd (snd (snd (rd u))) cb (next_cancel cb c) max_ms (w + 500))) =
       read_state rd u (Suc k)"
    using Suc.hyps(1) [OF w(2), of "snd (snd (rd u))" "next_cancel cb c"]
    unfolding w(2) [symmetric] read_state_simps by blast
  moreover have "\<exists>k \<le> Suc n. u = read_state rd u k" by (rule exI [of _ 0]) simp
  moreover have "\<exists>k \<le> Suc n. snd (snd (rd u)) = read_state rd u k"
    by (rule exI [of _ 1]) (simp add: read_state_def)
  ultimately show ?case
    using w(1) Suc.hyps(2) by (subst wait_for_idle_unroll) (auto intro: exI [of _ "Suc k"])
qed

text \<open>
  C32. The idle wait always returns, and decides exactly as documented: 1 only when some
  poll within the bound saw a positively idle frame with no cancellation up to it, -1 when a
  cancellation came before any idle frame, 0 when the bound ran out; it polls at most
  \<open>max_ms / 500\<close> times rounded up, so a camera that never answers cannot hold it longer.
\<close>

theorem pentax_wait_for_idle_outcome:
  "fst (pentax_wait_for_idle rd u cb c max_ms) =
     (if \<exists>k < idle_polls max_ms. idle_at rd u k \<and> (\<forall>j \<le> k. \<not> cancelled_at cb c j) then 1
      else if \<exists>k < idle_polls max_ms. cancelled_at cb c k \<and> (\<forall>j < k. \<not> idle_at rd u j) then - 1
      else 0) \<and>
   (\<exists>k \<le> idle_polls max_ms.
      fst (snd (pentax_wait_for_idle rd u cb c max_ms)) = read_state rd u k)"
  using wait_for_idle_loop_outcome [of max_ms 0 _ rd u cb c]
    wait_for_idle_loop_reads [of max_ms 0 rd u cb c]
  by (simp add: pentax_wait_for_idle_def)

theorem pentax_wait_for_idle_outcome_witness:
  "fst (pentax_wait_for_idle
      (\<lambda>n :: nat. (0, if n < 2 then None else Some (replicate 508 0), Suc n)) 0 None () 2000) = 1"
proof -
  let ?rd = "\<lambda>n :: nat. (0 :: int, if n < 2 then None else Some (replicate 508 (0 :: byte)), Suc n)"
  have "idle_at ?rd 0 2"
    by (simp add: idle_at_def read_state_def numeral_2_eq_2 pentax_camera_readiness_def le32_def)
  moreover have "idle_polls 2000 = 4" by (simp add: idle_polls_def)
  ultimately have "\<exists>k < idle_polls 2000. idle_at ?rd 0 k \<and> (\<forall>j \<le> k. \<not> cancelled_at None () j)"
    by (intro exI [of _ 2]) simp
  then show ?thesis using pentax_wait_for_idle_outcome [of ?rd 0 None "()" 2000] by simp
qed

section \<open>Lemmas on live view\<close>

lemma u16_bytes: "ucast (ucast (x :: u16) :: u8) OR push_bit 8 (ucast (ucast (drop_bit 8 x) :: u8)) = x"
  by (rule bit_word_eqI) (auto simp: bit_simps)

text \<open>
  An auto-focus position is recovered exactly from the command the driver encodes for
  it when it lies inside the live-view area, and is refused as corrupted otherwise: encoder
  and parser agree on byte order, selector byte and offsets.
\<close>

theorem pentax_live_view_af_position_roundtrip:
  "pentax_parse_live_view_af_position (Some (pentax_encode_live_view_af_position x y)) (Some g) =
     (if x < area_width g \<and> y < area_height g then (GP_OK, Some (x, y))
      else (GP_ERROR_CORRUPTED_DATA, None))"
  by (auto simp: pentax_parse_live_view_af_position_def pentax_encode_live_view_af_position_def
      le16_def u16_bytes not_le not_less Let_def)

end
