(* ===== verification/PentaxNames.thy ===== *)
theory PentaxNames
  imports PentaxModel
begin

text \<open>
  The text and byte scanners of \<open>camlibs/ptp2/pentax-utils.c\<close>: the shutter labels and their
  parsers, the destination path of a recovered orphan, candidate filenames, the RAW+JPEG
  companion test and the search for a JPEG in a preview block. Strings are the characters in
  front of the terminating NUL; a result \<open>None\<close> stands for the failure code of the function,
  in which case the output buffer is not read by any caller.
\<close>

section \<open>Shutter labels\<close>

text \<open>\<open>snprintf\<close> succeeded and the text fits with its NUL.\<close>

definition fits :: "nat \<Rightarrow> string \<Rightarrow> string option" where
  "fits buflen s = (if length s < buflen then Some s else None)"

definition pentax_format_shutter_speed :: "u64 \<Rightarrow> nat \<Rightarrow> string option" where
  "pentax_format_shutter_speed value buflen =
     (if buflen < 4 then None
      else if value = 0 then fits buflen ''Auto''
      else
        (let denominator = shutter_denominator value; numerator = shutter_numerator value
         in if denominator = 1
            then fits buflen (dec_pad 2 (unat (numerator div 60)) @ '':'' @
                              dec_pad 2 (unat (numerator mod 60)))
            else if numerator = 1 then fits buflen (''1/'' @ dec (unat denominator))
            else fits buflen (dec (unat numerator) @ ''/'' @ dec (unat denominator))))"

abbreviation UINT32_MAX :: nat where "UINT32_MAX \<equiv> 4294967295"

definition starts_digit :: "string \<Rightarrow> bool" where
  "starts_digit s = (case s of [] \<Rightarrow> False | c # _ \<Rightarrow> isdigit c)"

text \<open>\<open>first * 60 + remainder\<close>, refused when it does not fit 32 bits.\<close>

definition minutes_seconds :: "nat \<Rightarrow> nat \<Rightarrow> u32 option" where
  "minutes_seconds first remainder =
     (if (UINT32_MAX - remainder) div 60 < first then None
      else Some (of_nat (first * 60 + remainder)))"

definition pentax_parse_shutter_duration :: "string \<Rightarrow> u32 option" where
  "pentax_parse_shutter_duration value =
     (if \<not> starts_digit value then None
      else
        (let (first, rest, range) = strtoull value
         in if rest = value \<or> range then None
            else (case rest of
              [] \<Rightarrow> None
            | c # after \<Rightarrow>
              if c = CHR '':'' then
                (if \<not> starts_digit after then None
                 else
                   (let (remainder, seconds_end, range) = strtoull after
                    in if seconds_end = after \<or> range \<or> seconds_end \<noteq> [] \<or> 60 \<le> remainder
                       then None else minutes_seconds first remainder))
              else if c = CHR ''s'' \<and> after = [] then
                (if UINT32_MAX < first then None else Some (of_nat first))
              else if c \<noteq> CHR ''m'' then None
              else if after = [] then minutes_seconds first 0
              else if \<not> starts_digit after then None
              else
                (let (remainder, seconds_end, range) = strtoull after
                 in if seconds_end = after \<or> range \<or> seconds_end \<noteq> ''s'' \<or> 60 \<le> remainder
                    then None else minutes_seconds first remainder))))"

definition pentax_parse_legacy_shutter_denominator :: "string \<Rightarrow> u32 option" where
  "pentax_parse_legacy_shutter_denominator value =
     (if \<not> starts_digit value then None
      else
        (let (parsed, rest, range) = strtoull value
         in if rest = value \<or> rest \<noteq> [] \<or> range \<or> parsed = 0 \<or> UINT32_MAX < parsed then None
            else Some (of_nat parsed)))"

section \<open>Recovery paths\<close>

definition safe_char :: "char \<Rightarrow> bool" where
  "safe_char c =
     (let n = (of_char c :: nat)
      in 65 \<le> n \<and> n \<le> 90 \<or> 97 \<le> n \<and> n \<le> 122 \<or> 48 \<le> n \<and> n \<le> 57 \<or>
         c = CHR ''.'' \<or> c = CHR ''_'' \<or> c = CHR ''-'')"

definition final_component :: "string \<Rightarrow> string" where
  "final_component camera_name =
     (case strrchr camera_name (CHR ''/'') of None \<Rightarrow> camera_name
      | Some i \<Rightarrow> drop (i + 1) camera_name)"

text \<open>
  \<open>leaf\<close> after the copy loop (at most 95 characters), the stripping of trailing dots and the
  fallback stem.
\<close>

definition recovery_leaf :: "string \<Rightarrow> string" where
  "recovery_leaf camera_name =
     (let leaf = map (\<lambda>c. if safe_char c then c else CHR ''_'')
                   (take 95 (final_component camera_name));
          leaf = rev (dropWhile (\<lambda>c. c = CHR ''.'') (rev leaf))
      in if leaf = [] then ''unknown'' else leaf)"

definition recovery_retry :: "int \<Rightarrow> string" where
  "recovery_retry attempt = (if 0 < attempt then ''-retry-'' @ dec (nat attempt) else [])"

definition pentax_orphan_recovery_path_unique ::
  "string option \<Rightarrow> string option \<Rightarrow> u64 \<Rightarrow> int \<Rightarrow> nat \<Rightarrow> string option" where
  "pentax_orphan_recovery_path_unique dir camera_name capture_id attempt out_len =
     (case (dir, camera_name) of
        (Some d, Some name) \<Rightarrow>
          if d = [] \<or> name = [] \<or> out_len < 16 then None
          else if hd d \<noteq> CHR ''/'' then None
          else
            (let leaf = recovery_leaf name;
                 retry = recovery_retry attempt;
                 orphan = ''-orphan-'' @ dec (unat capture_id) @ retry
             in if 0 < attempt \<and> 32 \<le> length retry then None
                else (case strrchr leaf (CHR ''.'') of
                    Some dot \<Rightarrow>
                      if dot \<noteq> 0
                      then fits out_len (d @ ''/'' @ take dot leaf @ orphan @ drop dot leaf)
                      else fits out_len (d @ ''/'' @ leaf @ orphan)
                  | None \<Rightarrow> fits out_len (d @ ''/'' @ leaf @ orphan)))
      | _ \<Rightarrow> None)"

definition pentax_orphan_recovery_path ::
  "string option \<Rightarrow> string option \<Rightarrow> u64 \<Rightarrow> nat \<Rightarrow> string option" where
  "pentax_orphan_recovery_path dir camera_name capture_id out_len =
     pentax_orphan_recovery_path_unique dir camera_name capture_id 0 out_len"

section \<open>Candidate filenames\<close>

text \<open>
  The loop of \<open>pentax_candidate_filename\<close> from character \<open>i\<close> of \<open>characters\<close>, with the output
  so far; \<open>size\<close> is the length of \<open>data\<close>.
\<close>

fun candidate_chars :: "byte list \<Rightarrow> nat \<Rightarrow> nat list \<Rightarrow> string \<Rightarrow> int \<times> string" where
  "candidate_chars data filename_size [] output = (GP_OK, output)"
| "candidate_chars data filename_size (i # is) output =
     (let character = le16 data (4 + i * 2)
      in if character = 0 then (GP_OK, output)
         else if character < 0x20 \<or> 0x7e < character \<or> character = 0x2f \<or> character = 0x5c
         then (GP_ERROR_CORRUPTED_DATA, output)
         else if filename_size \<le> length output + 1 then (GP_ERROR_FIXED_LIMIT_EXCEEDED, output)
         else candidate_chars data filename_size is (output @ [char_of (unat character)]))"

definition pentax_candidate_filename ::
  "byte list option \<Rightarrow> nat \<Rightarrow> int \<times> string option" where
  "pentax_candidate_filename data filename_size =
     (case data of
        None \<Rightarrow> (GP_ERROR_BAD_PARAMETERS, None)
      | Some d \<Rightarrow>
          if length d < 4 \<or> filename_size < 2 then (GP_ERROR_BAD_PARAMETERS, None)
          else
            (let characters = unat (d ! 3)
             in if (length d - 4) div 2 < characters \<or> characters = 0
                then (GP_ERROR_CORRUPTED_DATA, None)
                else
                  (let (ret, output) = candidate_chars d filename_size [0..<characters] []
                   in if ret \<noteq> GP_OK then (ret, None)
                      else if output = [] then (GP_ERROR_CORRUPTED_DATA, None)
                      else if output = ''.'' \<or> output = ''..'' then (GP_ERROR_CORRUPTED_DATA, None)
                      else (GP_OK, Some output))))"

section \<open>RAW+JPEG companions\<close>

definition pentax_image_extension_equal :: "string \<Rightarrow> string \<Rightarrow> bool" where
  "pentax_image_extension_equal left right =
     (if length left \<noteq> length right then False
      else list_all2 (\<lambda>a b. tolower a = tolower b) left right)"

definition known_extensions :: "string list" where
  "known_extensions = [''.jpg'', ''.jpeg'', ''.dng'', ''.pef'', ''.raw'']"

definition pentax_known_image_extension :: "string \<Rightarrow> bool" where
  "pentax_known_image_extension extension =
     list_ex (\<lambda>known. length extension = length known \<and>
                      pentax_image_extension_equal extension known) known_extensions"

definition pentax_candidate_is_same_exposure_companion ::
  "string option \<Rightarrow> string option \<Rightarrow> bool" where
  "pentax_candidate_is_same_exposure_companion primary_name candidate_name =
     (case (primary_name, candidate_name) of
        (Some p, Some c) \<Rightarrow>
          if p = [] \<or> c = [] then False
          else (case (strrchr p (CHR ''.''), strrchr c (CHR ''.'')) of
              (Some pd, Some cd) \<Rightarrow>
                if pd = 0 \<or> cd = 0 then False
                else if pd \<noteq> cd \<or> take pd p \<noteq> take pd c then False
                else if strcmp p c = 0 then False
                else if \<not> pentax_known_image_extension (drop pd p) \<or>
                        \<not> pentax_known_image_extension (drop cd c) then False
                else \<not> pentax_image_extension_equal (drop pd p) (drop cd c)
            | _ \<Rightarrow> False)
      | _ \<Rightarrow> False)"

section \<open>JPEG bounds\<close>

text \<open>\<open>for (i = from; i + 1 < size; i++) if (data[i] == 0xff && data[i + 1] == mark) break;\<close>\<close>

function find_marker :: "byte list \<Rightarrow> byte \<Rightarrow> nat \<Rightarrow> nat" where
  "find_marker data mark i =
     (if i + 1 < length data
      then if data ! i = 0xff \<and> data ! (i + 1) = mark then i else find_marker data mark (i + 1)
      else i)"
  by pat_completeness auto
termination
  by (relation "measure (\<lambda>(data, _, i). length data - i)") auto

declare find_marker.simps [simp del]

text \<open>The code, \<open>*offset\<close> and \<open>*length\<close>; with a NULL argument nothing is written.\<close>

definition pentax_jpeg_bounds :: "byte list option \<Rightarrow> int \<times> (nat \<times> nat) option" where
  "pentax_jpeg_bounds data =
     (case data of
        None \<Rightarrow> (GP_ERROR_BAD_PARAMETERS, None)
      | Some d \<Rightarrow>
          (let start = find_marker d 0xd8 0
           in if length d \<le> start + 1 then (GP_ERROR_CORRUPTED_DATA, Some (0, 0))
              else
                (let e = find_marker d 0xd9 (start + 2)
                 in if e + 1 < length d then (GP_OK, Some (start, e + 2 - start))
                    else (GP_ERROR_CORRUPTED_DATA, Some (0, 0)))))"

section \<open>Lemmas on labels\<close>

lemma length_dec: "n < 10 ^ k \<Longrightarrow> 0 < k \<Longrightarrow> length (dec n) \<le> k"
proof (induction k arbitrary: n)
  case (Suc k)
  show ?case
  proof (cases "n < 10")
    case False
    then have "0 < k" using Suc.prems by (cases k) auto
    moreover have "n div 10 < 10 ^ k" using Suc.prems by (simp add: less_mult_imp_div_less)
    ultimately have "length (dec (n div 10)) \<le> k" using Suc.IH by blast
    then show ?thesis using False by (subst dec.simps) simp
  qed (simp add: dec.simps)
qed simp

lemma starts_digit_iff: "starts_digit s \<longleftrightarrow> s \<noteq> [] \<and> isdigit (hd s)"
  by (cases s) (simp_all add: starts_digit_def)

lemma starts_digit_append: "ds \<noteq> [] \<Longrightarrow> \<forall>c \<in> set ds. isdigit c \<Longrightarrow> starts_digit (ds @ r)"
  by (cases ds) (simp_all add: starts_digit_def)

lemma dec_pad_all: "\<forall>c \<in> set (dec_pad w n). isdigit c"
  using dec_pad_digits by blast

lemma dec_all: "\<forall>c \<in> set (dec n). isdigit c"
  using dec_digits by blast

lemma not_isdigit_punct [simp]:
  "\<not> isdigit (CHR '':'')" "\<not> isdigit (CHR ''/'')" "\<not> isdigit (CHR ''A'')"
  "\<not> isdigit (CHR ''-'')" "\<not> isdigit (CHR ''.'')"
  by (simp_all add: isdigit_def)

lemma parse_mm_ss:
  assumes "m * 60 + s < 2 ^ 32" "s < 60"
  shows "pentax_parse_shutter_duration (dec_pad 2 m @ '':'' @ dec_pad 2 s) = Some (of_nat (m * 60 + s))"
    and "pentax_parse_legacy_shutter_denominator (dec_pad 2 m @ '':'' @ dec_pad 2 s) = None"
proof -
  have 1: "strtoull (dec_pad 2 m @ '':'' @ dec_pad 2 s) = (m, '':'' @ dec_pad 2 s, False)"
    using assms by (subst strtoull_digits) (auto simp: dec_pad_all)
  have 2: "strtoull (dec_pad 2 s) = (s, [], False)"
    using assms strtoull_digits [of "dec_pad 2 s" "[]"] by (simp add: dec_pad_all)
  have 3: "starts_digit (dec_pad 2 m @ x)" "starts_digit (dec_pad 2 s)" for x
    using starts_digit_append [of "dec_pad 2 m" x] starts_digit_append [of "dec_pad 2 s" "[]"]
    by (simp_all add: dec_pad_all)
  have 4: "\<not> (UINT32_MAX - s) div 60 < m" using assms by (simp add: div_less_iff_less_mult)
  show "pentax_parse_shutter_duration (dec_pad 2 m @ '':'' @ dec_pad 2 s) = Some (of_nat (m * 60 + s))"
    using assms 1 2 3 4 dec_pad_nonempty [of 2 s, symmetric]
    by (simp add: pentax_parse_shutter_duration_def minutes_seconds_def)
  show "pentax_parse_legacy_shutter_denominator (dec_pad 2 m @ '':'' @ dec_pad 2 s) = None"
    using 1 by (simp add: pentax_parse_legacy_shutter_denominator_def)
qed

lemma whole_second_nonzero [simp]: "pentax_whole_second_shutter_value s \<noteq> 0"
proof
  assume "pentax_whole_second_shutter_value s = 0"
  then have "shutter_denominator (pentax_whole_second_shutter_value s) = shutter_denominator 0"
    by (rule arg_cong)
  moreover have "shutter_denominator 0 = 0" by (rule bit_word_eqI) (simp add: bit_simps)
  ultimately show False by simp
qed

text \<open>
  C37. Every whole-second shutter value survives display and parsing: the MM:SS label
  written for it parses back to exactly its number of seconds, for all 2^32 of them (the
  camera's UINT64 wire value is rebuilt from it), the label always fits twelve characters,
  and it is never taken for a legacy 1/n speed.
\<close>

theorem pentax_shutter_label_roundtrip:
  assumes "12 \<le> buflen"
  shows "\<exists>label. pentax_format_shutter_speed (pentax_whole_second_shutter_value s) buflen = Some label \<and>
     pentax_parse_shutter_duration label = Some s \<and>
     pentax_parse_legacy_shutter_denominator label = None"
proof -
  let ?m = "unat (s div 60)" and ?r = "unat (s mod 60)"
  let ?l = "dec_pad 2 ?m @ '':'' @ dec_pad 2 ?r"
  have s: "unat s < 2 ^ 32" using unsigned_less [of s] by simp
  have mr: "?m * 60 + ?r = unat s" "?r < 60" "?m < 10 ^ 8"
    using s by (simp_all add: unat_div unat_mod_distrib)
  have "length (dec ?m) \<le> 8" "length (dec ?r) \<le> 2" using mr by (auto intro!: length_dec)
  then have "length ?l < 12" by (simp add: dec_pad_def)
  then have "pentax_format_shutter_speed (pentax_whole_second_shutter_value s) buflen = Some ?l"
    using assms by (simp add: pentax_format_shutter_speed_def fits_def Let_def)
  moreover have "pentax_parse_shutter_duration ?l = Some s"
    using parse_mm_ss(1) [of ?m ?r] mr s by simp
  ultimately show ?thesis using parse_mm_ss(2) [of ?m ?r] mr s by simp
qed

theorem pentax_shutter_label_roundtrip_witness:
  "\<exists>label. pentax_format_shutter_speed (pentax_whole_second_shutter_value 70) 16 = Some label \<and>
     pentax_parse_shutter_duration label = Some 70 \<and>
     pentax_parse_legacy_shutter_denominator label = None"
  by (rule pentax_shutter_label_roundtrip) simp

lemma strtoull_rest:
  assumes "ds \<noteq> []" "\<forall>c \<in> set ds. isdigit c" "r = [] \<or> \<not> isdigit (hd r)"
  shows "fst (snd (strtoull (ds @ r))) = r"
proof -
  obtain c t where ds: "ds = c # t" using assms(1) by (cases ds) auto
  have c: "isdigit c" using assms(2) ds by simp
  then have ns: "\<not> isspace c" "c \<noteq> CHR ''-''" "c \<noteq> CHR ''+''"
    by (auto simp: isdigit_def isspace_def Let_def)
  have "takeWhile isdigit (ds @ r) = ds" "dropWhile isdigit (ds @ r) = r"
    using assms(2,3) by (cases r; simp add: takeWhile_append2 dropWhile_append2)+
  then show ?thesis
    using ns unfolding strtoull_def ds by (simp add: Let_def)
qed

lemma slash_label:
  assumes "d \<noteq> []" "\<forall>c \<in> set d. isdigit c"
  shows "pentax_parse_shutter_duration (d @ ''/'' @ r) = None"
    and "pentax_parse_legacy_shutter_denominator (d @ ''/'' @ r) = None"
  using strtoull_rest [of d "''/'' @ r"] assms
  by (auto simp: pentax_parse_shutter_duration_def pentax_parse_legacy_shutter_denominator_def
      split: prod.splits)

lemma legacy_dec:
  assumes "n < 2 ^ 64"
  shows "pentax_parse_legacy_shutter_denominator (dec n) =
    (if n = 0 \<or> UINT32_MAX < n then None else Some (of_nat n))"
  using assms strtoull_digits [of "dec n" "[]"] starts_digit_append [of "dec n" "[]"]
    dec_nonempty [of n, symmetric]
  by (simp add: pentax_parse_legacy_shutter_denominator_def dec_all)

lemma parsers_exclusive:
  "pentax_parse_shutter_duration t = None \<or> pentax_parse_legacy_shutter_denominator t = None"
  by (auto simp: pentax_parse_shutter_duration_def pentax_parse_legacy_shutter_denominator_def
      split: prod.splits list.splits)

text \<open>
  No shutter label is read as a different speed: no text is accepted by both the
  duration parser and the legacy parser, the legacy parser accepts the decimal spelling of
  exactly the numbers 1 to 2^32 - 1 as that denominator, and the labels the formatter emits
  for \<open>Auto\<close> and for true fractions are refused by both, so they cannot come back as a
  whole-second or legacy speed.
\<close>

theorem pentax_shutter_parsers_disjoint:
  "(pentax_parse_shutter_duration t = None \<or> pentax_parse_legacy_shutter_denominator t = None) \<and>
   pentax_parse_legacy_shutter_denominator (dec (unat (d :: u64))) =
     (if unat d = 0 \<or> UINT32_MAX < unat d then None else Some (ucast d)) \<and>
   (case pentax_format_shutter_speed v buflen of None \<Rightarrow> True
    | Some label \<Rightarrow> v \<noteq> 0 \<and> shutter_denominator v = 1 \<or>
        pentax_parse_shutter_duration label = None \<and>
        pentax_parse_legacy_shutter_denominator label = None)"
proof -
  have a: "starts_digit (''Auto'') = False" by (simp add: starts_digit_def)
  have d: "unat d < 2 ^ 64" using unsigned_less [of d] by simp
  have c: "of_nat (unat d) = (ucast d :: u32)" by simp
  have one: "\<forall>x \<in> set ''1''. isdigit x" by (simp add: isdigit_def)
  have f: "pentax_parse_shutter_duration label = None \<and>
        pentax_parse_legacy_shutter_denominator label = None"
    if "pentax_format_shutter_speed v buflen = Some label" "v = 0 \<or> shutter_denominator v \<noteq> 1"
    for label
    using that slash_label [OF dec_nonempty dec_all] slash_label [of "''1''"] one a
    by (auto simp: pentax_format_shutter_speed_def fits_def Let_def pentax_parse_shutter_duration_def
        [of "''Auto''"] pentax_parse_legacy_shutter_denominator_def [of "''Auto''"] split: if_splits)
  have "case pentax_format_shutter_speed v buflen of None \<Rightarrow> True
    | Some label \<Rightarrow> v \<noteq> 0 \<and> shutter_denominator v = 1 \<or>
        pentax_parse_shutter_duration label = None \<and>
        pentax_parse_legacy_shutter_denominator label = None"
    using f by (cases "pentax_format_shutter_speed v buflen") (simp, simp, blast)
  then show ?thesis
    using parsers_exclusive [of t] legacy_dec [OF d] unfolding c by blast
qed

section \<open>Lemmas on recovery paths\<close>

lemma recovery_leaf_nonempty: "recovery_leaf name \<noteq> []"
  by (simp add: recovery_leaf_def Let_def)

lemma dropWhile_last: "dropWhile P xs \<noteq> [] \<Longrightarrow> \<not> P (hd (dropWhile P xs))"
  by (simp add: hd_dropWhile)

lemma recovery_leaf_last: "last (recovery_leaf name) \<noteq> CHR ''.''"
  using dropWhile_last [of "\<lambda>c. c = CHR ''.''"]
  by (simp add: recovery_leaf_def Let_def last_rev)

lemma literals_safe: "list_all safe_char ''unknown''" "list_all safe_char ''-orphan-''"
  "list_all safe_char ''-retry-''" "safe_char (CHR ''_'')"
  by code_simp+

lemma recovery_leaf_safe: "list_all safe_char (recovery_leaf name)"
proof -
  let ?m = "map (\<lambda>c. if safe_char c then c else CHR ''_'') (take 95 (final_component name))"
  have "list_all safe_char ?m" using literals_safe(4) by (auto simp: list_all_iff)
  moreover have "set (rev (dropWhile P (rev ?m))) \<subseteq> set ?m" for P
    using set_dropWhileD [of _ P "rev ?m"] by auto
  ultimately have "list_all safe_char (rev (dropWhile P (rev ?m)))" for P
    unfolding list_all_iff by blast
  then show ?thesis using literals_safe(1) unfolding recovery_leaf_def Let_def by (simp only: simp_thms split: if_split)
qed

lemma not_safe_slash: "\<not> safe_char (CHR ''/'')"
  by (simp add: safe_char_def Let_def)

lemma digit_safe: "isdigit c \<Longrightarrow> safe_char c"
  by (auto simp: safe_char_def isdigit_def Let_def)

text \<open>The stem and the extension of a leaf, as the final \<open>snprintf\<close> splits it.\<close>

definition leaf_stem :: "string \<Rightarrow> string" where
  "leaf_stem leaf = (case strrchr leaf (CHR ''.'') of
     Some dot \<Rightarrow> if dot \<noteq> 0 then take dot leaf else leaf | None \<Rightarrow> leaf)"

definition leaf_ext :: "string \<Rightarrow> string" where
  "leaf_ext leaf = (case strrchr leaf (CHR ''.'') of
     Some dot \<Rightarrow> if dot \<noteq> 0 then drop dot leaf else [] | None \<Rightarrow> [])"

lemma leaf_split: "leaf_stem leaf @ leaf_ext leaf = leaf"
  by (cases "strrchr leaf (CHR ''.'')") (simp_all add: leaf_stem_def leaf_ext_def del: strrchr_None)

lemma recovery_path_cases:
  assumes "pentax_orphan_recovery_path_unique dir name cid attempt n = Some p"
  obtains d nm where "dir = Some d" "name = Some nm" "d \<noteq> []" "hd d = CHR ''/''" "length p < n"
    "p = d @ ''/'' @ leaf_stem (recovery_leaf nm) @ ''-orphan-'' @ dec (unat cid) @
       recovery_retry attempt @ leaf_ext (recovery_leaf nm)"
proof -
  obtain d nm where dn: "dir = Some d" "name = Some nm"
    using assms by (auto simp: pentax_orphan_recovery_path_unique_def split: option.splits)
  with assms that [OF dn] show thesis
    by (auto simp: pentax_orphan_recovery_path_unique_def leaf_stem_def leaf_ext_def fits_def Let_def
        split: option.splits if_splits)
qed

text \<open>
  C38. Whatever name the camera gave an object, the recovered file is a new single
  component directly below the configured absolute directory: the directory, a slash, and a
  non-empty name made of letters, digits, dot, underscore and minus only, which is neither
  \<open>.\<close> nor \<open>..\<close>, ends in the sanitised extension, and fits the output buffer.
\<close>

theorem pentax_orphan_recovery_path_confined:
  assumes "pentax_orphan_recovery_path_unique dir name cid attempt n = Some p"
  shows "\<exists>d leaf. dir = Some d \<and> hd d = CHR ''/'' \<and> p = d @ ''/'' @ leaf \<and> length p < n \<and>
     (\<forall>c \<in> set leaf. safe_char c \<and> c \<noteq> CHR ''/'') \<and> 2 < length leaf"
proof (rule recovery_path_cases [OF assms])
  fix d nm
  let ?l = "recovery_leaf nm"
  let ?leaf = "leaf_stem ?l @ ''-orphan-'' @ dec (unat cid) @ recovery_retry attempt @ leaf_ext ?l"
  assume d: "dir = Some d" "hd d = CHR ''/''" "length p < n" and p: "p = d @ ''/'' @ ?leaf"
  have "list_all safe_char (leaf_stem ?l)" "list_all safe_char (leaf_ext ?l)"
    using recovery_leaf_safe [of nm] by (metis leaf_split list_all_append)+
  moreover have "list_all safe_char (dec k)" for k
    by (auto simp: list_all_iff dest!: dec_digits digit_safe)
  ultimately have "list_all safe_char ?leaf"
    using literals_safe(2,3) by (simp only: list_all_append recovery_retry_def split: if_split) simp
  then have "\<forall>c \<in> set ?leaf. safe_char c" by (simp only: list_all_iff)
  then have "\<forall>c \<in> set ?leaf. safe_char c \<and> c \<noteq> CHR ''/''" using not_safe_slash by blast
  then show ?thesis using d p by (intro exI [of _ d] exI [of _ ?leaf]) simp
qed

theorem pentax_orphan_recovery_path_confined_witness:
  "\<exists>d leaf. Some ''/r'' = Some d \<and> hd d = CHR ''/'' \<and> ''/r/P-orphan-7.D'' = d @ ''/'' @ leaf \<and>
     length ''/r/P-orphan-7.D'' < 64 \<and> list_all safe_char leaf \<and> 2 < length leaf"
proof -
  have p: "pentax_orphan_recovery_path_unique (Some ''/r'') (Some ''a/P.D.'') 7 0 64 = Some ''/r/P-orphan-7.D''"
    by code_simp
  from pentax_orphan_recovery_path_confined [OF p] obtain d leaf where *: "Some ''/r'' = Some d"
    "hd d = CHR ''/''" "''/r/P-orphan-7.D'' = d @ ''/'' @ leaf" "length ''/r/P-orphan-7.D'' < 64"
    "\<forall>c \<in> set leaf. safe_char c \<and> c \<noteq> CHR ''/''" "2 < length leaf"
    by (elim exE conjE)
  have "list_all safe_char leaf" using *(5) unfolding list_all_iff by blast
  with *(1-4,6) show ?thesis by (intro exI [of _ d] exI [of _ leaf] conjI)
qed

lemma takeWhile_digits: "takeWhile isdigit (dec n @ recovery_retry a) = dec n"
proof -
  have "takeWhile isdigit (dec n @ r) = dec n @ takeWhile isdigit r" for r
    by (rule takeWhile_append2) (rule dec_digits)
  moreover have "takeWhile isdigit (recovery_retry a) = []" by (simp add: recovery_retry_def)
  ultimately show ?thesis by simp
qed

lemma orphan_tag_inject:
  assumes "dec i @ recovery_retry a = dec j @ recovery_retry b" "0 \<le> a" "0 \<le> b"
  shows "i = j \<and> a = b"
proof -
  have "dec i = dec j" using assms(1) takeWhile_digits [of i a] takeWhile_digits [of j b] by simp
  then have i: "i = j" by simp
  with assms(1) have "recovery_retry a = recovery_retry b" by simp
  with assms(2,3) have "a = b" by (auto simp: recovery_retry_def split: if_splits)
  with i show ?thesis by simp
qed

text \<open>
  A recovery never overwrites another: for one directory and camera name, two requests
  produce the same path only when both their capture ids and their attempts are equal.
\<close>

theorem pentax_orphan_recovery_path_distinct:
  assumes "pentax_orphan_recovery_path_unique dir name cid attempt n = Some p"
    and "pentax_orphan_recovery_path_unique dir name cid' attempt' n' = Some p"
    and "0 \<le> attempt" "0 \<le> attempt'"
  shows "cid = cid' \<and> attempt = attempt'"
proof (rule recovery_path_cases [OF assms(1)], rule recovery_path_cases [OF assms(2)])
  fix d nm d' nm'
  assume "dir = Some d" "name = Some nm" "dir = Some d'" "name = Some nm'"
    and "p = d @ ''/'' @ leaf_stem (recovery_leaf nm) @ ''-orphan-'' @ dec (unat cid) @
       recovery_retry attempt @ leaf_ext (recovery_leaf nm)"
    and "p = d' @ ''/'' @ leaf_stem (recovery_leaf nm') @ ''-orphan-'' @ dec (unat cid') @
       recovery_retry attempt' @ leaf_ext (recovery_leaf nm')"
  then have "(dec (unat cid) @ recovery_retry attempt) @ leaf_ext (recovery_leaf nm) =
      (dec (unat cid') @ recovery_retry attempt') @ leaf_ext (recovery_leaf nm)"
    by simp
  then have "unat cid = unat cid' \<and> attempt = attempt'"
    using orphan_tag_inject assms(3,4) by blast
  then show ?thesis using word_unat_eq_iff [of cid cid'] by blast
qed

theorem pentax_orphan_recovery_path_distinct_witness:
  "(7 :: u64) = 7 \<and> (2 :: int) = 2"
  by (rule pentax_orphan_recovery_path_distinct [of "Some ''/r''" "Some ''P.D''" 7 2 64
      "''/r/P-orphan-7-retry-2.D''" 7 2 80]) (code_simp, code_simp, simp_all)

section \<open>Lemmas on filenames\<close>

definition name_unit_ok :: "u16 \<Rightarrow> bool" where
  "name_unit_ok u \<longleftrightarrow> 0x20 \<le> u \<and> u \<le> 0x7e \<and> u \<noteq> 0x2f \<and> u \<noteq> 0x5c"

lemma candidate_chars_ok:
  assumes "i \<le> n" "candidate_chars d fs [i..<n] out = (GP_OK, f)"
  shows "\<exists>k. i \<le> k \<and> k \<le> n \<and> f = out @ map (\<lambda>j. char_of (unat (le16 d (4 + j * 2)))) [i..<k] \<and>
     (\<forall>j. i \<le> j \<and> j < k \<longrightarrow> name_unit_ok (le16 d (4 + j * 2))) \<and>
     (k < n \<longrightarrow> le16 d (4 + k * 2) = 0) \<and> (out \<noteq> f \<longrightarrow> length f < fs)"
  using assms
proof (induction "n - i" arbitrary: i out)
  case 0
  then show ?case by (intro exI [of _ n]) auto
next
  case (Suc m)
  then have i: "i < n" "[i..<n] = i # [Suc i..<n]" by (simp_all add: upt_conv_Cons)
  let ?u = "le16 d (4 + i * 2)"
  show ?case
  proof (cases "?u = 0")
    case True
    with Suc.prems i show ?thesis by (intro exI [of _ i]) auto
  next
    case False
    with Suc.prems i(2) have u: "name_unit_ok ?u" "length out + 1 < fs"
      and rec: "candidate_chars d fs [Suc i..<n] (out @ [char_of (unat ?u)]) = (GP_OK, f)"
      by (auto simp: name_unit_ok_def Let_def not_less split: if_splits)
    have "m = n - Suc i" using Suc.hyps(2) by simp
    from Suc.hyps(1) [OF this _ rec] i obtain k where k: "Suc i \<le> k" "k \<le> n"
      "f = (out @ [char_of (unat ?u)]) @ map (\<lambda>j. char_of (unat (le16 d (4 + j * 2)))) [Suc i..<k]"
      "\<forall>j. Suc i \<le> j \<and> j < k \<longrightarrow> name_unit_ok (le16 d (4 + j * 2))"
      "k < n \<longrightarrow> le16 d (4 + k * 2) = 0" "out @ [char_of (unat ?u)] \<noteq> f \<longrightarrow> length f < fs"
      by auto
    moreover have "[i..<k] = i # [Suc i..<k]" using k(1) by (simp add: upt_conv_Cons)
    moreover have "\<forall>j. i \<le> j \<and> j < k \<longrightarrow> name_unit_ok (le16 d (4 + j * 2))"
      using k(4) u(1) by (metis le_eq_less_or_eq Suc_leI)
    moreover have "length f < fs" using k(6) u(2) by (cases "out @ [char_of (unat ?u)] = f") auto
    ultimately show ?thesis using i(1) by (intro exI [of _ k]) auto
  qed
qed

text \<open>
  A filename accepted from a candidate's metadata is a safe single component: it is the
  initial run of the announced UTF-16 units, all read inside the metadata block, every one
  printable ASCII and neither a slash nor a backslash, it stops only at the announced length
  or a zero unit, is neither empty nor \<open>.\<close> nor \<open>..\<close>, and fits the buffer with its NUL.
\<close>

theorem pentax_candidate_filename_safe:
  assumes "pentax_candidate_filename (Some d) fs = (GP_OK, Some f)"
  shows "f = map (\<lambda>j. char_of (unat (le16 d (4 + j * 2)))) [0..<length f] \<and>
     4 + 2 * length f \<le> length d \<and> length f < fs \<and>
     (\<forall>j < length f. name_unit_ok (le16 d (4 + j * 2))) \<and>
     length f \<le> unat (d ! 3) \<and>
     (length f < unat (d ! 3) \<longrightarrow> le16 d (4 + length f * 2) = 0) \<and>
     f \<noteq> [] \<and> f \<noteq> ''.'' \<and> f \<noteq> ''..''"
proof -
  let ?n = "unat (d ! 3)"
  obtain ret out where c: "candidate_chars d fs [0..<?n] [] = (ret, out)" by fastforce
  have *: "4 \<le> length d" "?n \<le> (length d - 4) div 2" "f \<noteq> []" "f \<noteq> ''.''" "f \<noteq> ''..''"
    "candidate_chars d fs [0..<?n] [] = (GP_OK, f)"
    using assms unfolding pentax_candidate_filename_def Let_def
    by (simp_all add: c not_less split: if_split_asm)
  obtain k where k': "0 \<le> k" "k \<le> ?n"
    "f = [] @ map (\<lambda>j. char_of (unat (le16 d (4 + j * 2)))) [0..<k]"
    "\<forall>j. 0 \<le> j \<and> j < k \<longrightarrow> name_unit_ok (le16 d (4 + j * 2))"
    "k < ?n \<longrightarrow> le16 d (4 + k * 2) = 0" "[] \<noteq> f \<longrightarrow> length f < fs"
    using candidate_chars_ok [OF le0 *(6)] by (elim exE conjE) (rule that)
  then have k: "k \<le> ?n" "f = map (\<lambda>j. char_of (unat (le16 d (4 + j * 2)))) [0..<k]"
    "\<forall>j < k. name_unit_ok (le16 d (4 + j * 2))"
    by (simp_all only: append_Nil le0 simp_thms)
  have len: "length f = k" by (simp add: k(2))
  have "2 * ?n \<le> length d - 4" using *(2) by (simp add: less_eq_div_iff_mult_less_eq)
  then have "4 + 2 * k \<le> length d" using k(1) *(1) by linarith
  then show ?thesis using *(3-5) k k'(5,6) len by simp
qed

theorem pentax_candidate_filename_safe_witness:
  "''I'' = map (\<lambda>j. char_of (unat (le16 [0, 0, 0, 2, 73, 0, 0, 0 :: byte] (4 + j * 2)))) [0..<length ''I''] \<and>
     4 + 2 * length ''I'' \<le> length [0, 0, 0, 2, 73, 0, 0, 0 :: byte] \<and> length ''I'' < 128 \<and>
     name_unit_ok (le16 [0, 0, 0, 2, 73, 0, 0, 0] 4) \<and> le16 [0, 0, 0, 2, 73, 0, 0, 0 :: byte] 6 = 0"
proof -
  have f: "pentax_candidate_filename (Some [0, 0, 0, 2, 73, 0, 0, 0]) 128 = (GP_OK, Some ''I'')" by code_simp
  show ?thesis using pentax_candidate_filename_safe [OF f] by simp
qed

section \<open>Lemmas on companions\<close>

lemma extension_equal_iff:
  "pentax_image_extension_equal l r \<longleftrightarrow> map tolower l = map tolower r"
  by (auto simp: pentax_image_extension_equal_def list_all2_conv_all_nth list_eq_iff_nth_eq)

lemma known_extensions_shape:
  "list_all (\<lambda>x. map tolower x = x \<and> hd x = CHR ''.'' \<and> x \<noteq> [] \<and> CHR ''.'' \<notin> set (tl x)) known_extensions"
  by code_simp

lemma tolower_dot [simp]: "tolower c = CHR ''.'' \<longleftrightarrow> c = CHR ''.''"
proof (cases "65 \<le> (of_char c :: nat) \<and> (of_char c :: nat) \<le> 90")
  case True
  then have "(of_char (tolower c) :: nat) = of_char c + 32" by (simp add: tolower_def)
  moreover have "(of_char (CHR ''.'') :: nat) = 46" by simp
  ultimately show ?thesis using True by auto
next
  case False
  then show ?thesis by (auto simp: tolower_def Let_def)
qed

lemma known_extension_iff:
  "pentax_known_image_extension e \<longleftrightarrow> map tolower e \<in> set known_extensions"
proof -
  have "pentax_known_image_extension e \<longleftrightarrow> (\<exists>x \<in> set known_extensions. map tolower e = x)"
    using known_extensions_shape unfolding pentax_known_image_extension_def list_ex_iff
      extension_equal_iff list_all_iff
    by (metis length_map)
  then show ?thesis by simp
qed

lemma known_extension_dot:
  assumes "pentax_known_image_extension e"
  shows "\<exists>t. e = CHR ''.'' # t \<and> CHR ''.'' \<notin> set t"
proof -
  have *: "map tolower e \<noteq> []" "hd (map tolower e) = CHR ''.''" "CHR ''.'' \<notin> set (tl (map tolower e))"
    using known_extensions_shape assms unfolding known_extension_iff list_all_iff by auto
  then obtain c t where e: "e = c # t" by (cases e) auto
  have "tolower (CHR ''.'') = CHR ''.''" by simp
  with *(3) have "CHR ''.'' \<notin> set t" unfolding e by (metis image_eqI list.map(2) list.sel(3) list.set_map)
  with *(2) show ?thesis unfolding e by simp
qed

text \<open>
  Two names are companions of one exposure exactly when they are one non-empty stem
  followed by two known image extensions that differ even without regard to case; so the
  relation is symmetric, never relates a name to itself, and never relates two spellings of
  one format.
\<close>

theorem pentax_companion_iff:
  "pentax_candidate_is_same_exposure_companion (Some p) (Some c) =
     (\<exists>stem e f. p = stem @ e \<and> c = stem @ f \<and> stem \<noteq> [] \<and>
        pentax_known_image_extension e \<and> pentax_known_image_extension f \<and>
        map tolower e \<noteq> map tolower f)"
    (is "?l = ?r")
proof
  assume ?l
  then obtain n where n: "strrchr p (CHR ''.'') = Some n" "strrchr c (CHR ''.'') = Some n"
    "n \<noteq> 0" "p \<noteq> []" "take n p = take n c" "pentax_known_image_extension (drop n p)"
    "pentax_known_image_extension (drop n c)" "map tolower (drop n p) \<noteq> map tolower (drop n c)"
    by (auto simp: pentax_candidate_is_same_exposure_companion_def extension_equal_iff
        simp del: strrchr_None split: option.splits if_splits)
  have "p = take n p @ drop n p" by simp
  moreover have "take n p \<noteq> []" using n(3,4) by simp
  moreover have "c = take n p @ drop n c" unfolding n(5) by simp
  ultimately show ?r using n(6-8) by blast
next
  assume ?r
  then obtain stem e f where *: "p = stem @ e" "c = stem @ f" "stem \<noteq> []"
    "pentax_known_image_extension e" "pentax_known_image_extension f" "map tolower e \<noteq> map tolower f"
    by blast
  obtain t u where tu: "e = CHR ''.'' # t" "CHR ''.'' \<notin> set t" "f = CHR ''.'' # u" "CHR ''.'' \<notin> set u"
    using known_extension_dot *(4,5) by blast
  have s: "strrchr p (CHR ''.'') = Some (length stem)" "strrchr c (CHR ''.'') = Some (length stem)"
    using tu by (simp_all add: *(1,2) strrchr_last)
  have "p \<noteq> c" using * by auto
  then show ?l
    using s * by (simp add: pentax_candidate_is_same_exposure_companion_def extension_equal_iff)
qed

section \<open>Lemmas on JPEG bounds\<close>

definition marker_at :: "byte list \<Rightarrow> byte \<Rightarrow> nat \<Rightarrow> bool" where
  "marker_at d m i \<longleftrightarrow> i + 1 < length d \<and> d ! i = 0xff \<and> d ! (i + 1) = m"

lemma find_marker_spec:
  "i \<le> find_marker d m i \<and> (\<forall>j. i \<le> j \<and> j < find_marker d m i \<longrightarrow> \<not> marker_at d m j) \<and>
   (find_marker d m i + 1 < length d \<longrightarrow> marker_at d m (find_marker d m i))"
proof (induction d m i rule: find_marker.induct)
  case (1 d m i)
  show ?case
  proof (cases "i + 1 < length d \<and> \<not> marker_at d m i")
    case True
    then have eq: "find_marker d m i = find_marker d m (i + 1)"
      by (subst find_marker.simps) (auto simp: marker_at_def)
    have "\<not> marker_at d m j" if "i \<le> j" "j < find_marker d m i" for j
      using that True 1 eq by (cases "j = i") (auto simp: marker_at_def)
    then show ?thesis using 1 True unfolding eq by (auto simp: marker_at_def)
  next
    case False
    then have "find_marker d m i = i" by (subst find_marker.simps) (auto simp: marker_at_def)
    with False show ?thesis by auto
  qed
qed

text \<open>
  The preview search returns a block that lies inside the data, starts at the first
  start-of-image marker and ends with the first end-of-image marker behind it; it fails only
  when there is no such pair, and then reports an empty block.
\<close>

theorem pentax_jpeg_bounds_spec:
  "case pentax_jpeg_bounds (Some d) of
     (ret, Some (off, len)) \<Rightarrow>
       if ret = GP_OK then
         4 \<le> len \<and> off + len \<le> length d \<and> marker_at d 0xd8 off \<and>
         marker_at d 0xd9 (off + len - 2) \<and> (\<forall>i < off. \<not> marker_at d 0xd8 i) \<and>
         (\<forall>i. off + 2 \<le> i \<and> i < off + len - 2 \<longrightarrow> \<not> marker_at d 0xd9 i)
       else ret = GP_ERROR_CORRUPTED_DATA \<and> off = 0 \<and> len = 0 \<and>
         \<not> (\<exists>i j. marker_at d 0xd8 i \<and> (\<forall>k < i. \<not> marker_at d 0xd8 k) \<and>
                marker_at d 0xd9 j \<and> i + 2 \<le> j)
   | (_, None) \<Rightarrow> False"
proof -
  define s where "s = find_marker d 0xd8 0"
  define e where "e = find_marker d 0xd9 (s + 2)"
  have e': "find_marker d 0xd9 (Suc (Suc s)) = e" by (simp add: e_def)
  note S = find_marker_spec [where i = 0 and d = d and m = "0xd8", folded s_def]
  note E = find_marker_spec [where i = "s + 2" and d = d and m = "0xd9", folded e_def]
  have first: "i = s" if "marker_at d 0xd8 i" "\<forall>k < i. \<not> marker_at d 0xd8 k" for i
  proof (rule linorder_cases [of i s])
    assume "s < i"
    moreover have "s + 1 < length d" using that \<open>s < i\<close> by (simp add: marker_at_def)
    ultimately show ?thesis using S that(2) by blast
  qed (use S that in auto)
  consider "length d \<le> s + 1" | "s + 1 < length d" "length d \<le> e + 1" | "s + 1 < length d" "e + 1 < length d"
    by linarith
  then show ?thesis
  proof cases
    case 1
    then have "\<not> marker_at d 0xd8 i" for i using S unfolding marker_at_def
      by (metis add_le_cancel_right le0 le_less_trans not_le)
    then show ?thesis using 1 by (simp add: pentax_jpeg_bounds_def s_def [symmetric])
  next
    case 2
    have no: "\<not> marker_at d 0xd9 j" if "s + 2 \<le> j" for j
      using E 2(2) that unfolding marker_at_def by (metis add_le_cancel_right le_less_trans not_le)
    have r: "pentax_jpeg_bounds (Some d) = (GP_ERROR_CORRUPTED_DATA, Some (0, 0))"
      using 2 by (simp add: pentax_jpeg_bounds_def s_def [symmetric] e' Let_def)
    show ?thesis unfolding r using first no by auto
  next
    case 3
    then have m: "marker_at d 0xd8 s" "marker_at d 0xd9 e" "s + 2 \<le> e" using S E by simp_all
    have r: "pentax_jpeg_bounds (Some d) = (GP_OK, Some (s, e + 2 - s))"
      using 3 by (simp add: pentax_jpeg_bounds_def s_def [symmetric] e' Let_def)
    have "s + (e + 2 - s) = e + 2" using m by simp
    then show ?thesis unfolding r using m S E by (auto simp: marker_at_def)
  qed
qed

theorem pentax_jpeg_bounds_spec_witness:
  "case pentax_jpeg_bounds (Some [7, 0xff, 0xd8, 1, 0xff, 0xd9, 0]) of
     (ret, Some (off, len)) \<Rightarrow> ret = GP_OK \<and> off = 1 \<and> len = 5 \<and>
       marker_at [7, 0xff, 0xd8, 1, 0xff, 0xd9, 0] 0xd9 (off + len - 2)
   | (_, None) \<Rightarrow> False"
proof -
  have "pentax_jpeg_bounds (Some [7, 0xff, 0xd8, 1, 0xff, 0xd9, 0]) = (GP_OK, Some (1, 5))"
    by (simp add: pentax_jpeg_bounds_def find_marker.simps)
  then show ?thesis
    using pentax_jpeg_bounds_spec [of "[7, 0xff, 0xd8, 1, 0xff, 0xd9, 0]"] by simp
qed

end
