(* ===== verification/PentaxTransfer.thy ===== *)
theory PentaxTransfer
  imports PentaxNames PentaxConditions
begin

text \<open>
  The capture transfer of \<open>camlibs/ptp2/pentax-utils.c\<close>: the growing capture buffer, the
  interpreter of the camera's transfer commands that fills it, and the reconciliation of the
  extra candidates of one exposure. Sizes are \<open>size_t\<close> words of 64 bits. The callback
  tables of the code are records of functions on the state behind \<open>user_data\<close>.

  Results of the form \<open>None\<close> mark executions C gives no meaning to: a write through a NULL
  data pointer or outside the allocated block, signed overflow, or a loop that never ends.
\<close>

text \<open>The environment of the buffer: the memory and the file-size budget.\<close>

record env = mem_env +
  max_file_size :: u64

section \<open>The capture buffer\<close>

abbreviation PENTAX_CAPTURE_MAX_FILE_SIZE_DEFAULT :: u64
  where "PENTAX_CAPTURE_MAX_FILE_SIZE_DEFAULT \<equiv> 2147483648"
abbreviation PENTAX_CAPTURE_MIN_FILE_SIZE :: u64
  where "PENTAX_CAPTURE_MIN_FILE_SIZE \<equiv> 1048576"

text \<open>The argument is the environment variable; the value is computed once per process.\<close>

definition pentax_capture_max_file_size :: "string option \<Rightarrow> u64" where
  "pentax_capture_max_file_size env =
     (case env of
        None \<Rightarrow> PENTAX_CAPTURE_MAX_FILE_SIZE_DEFAULT
      | Some s \<Rightarrow>
          if s = [] then PENTAX_CAPTURE_MAX_FILE_SIZE_DEFAULT
          else
            (let (value, rest, _) = strtoull s
             in if rest = [] \<and> unat PENTAX_CAPTURE_MIN_FILE_SIZE \<le> value \<and> value \<le> 2 ^ 64 - 1
                then of_nat value else PENTAX_CAPTURE_MAX_FILE_SIZE_DEFAULT))"

record PentaxCaptureBuffer =
  buf_data :: "byte list option"
  buf_size :: u64
  buf_capacity :: u64
  buf_offset :: u64

definition empty_buffer :: PentaxCaptureBuffer where
  "empty_buffer = \<lparr>buf_data = None, buf_size = 0, buf_capacity = 0, buf_offset = 0\<rparr>"

text \<open>The \<open>while\<close> loop of the reservation; it would not end from a capacity of zero.\<close>

partial_function (option) grow_capacity :: "u64 \<Rightarrow> u64 \<Rightarrow> u64 \<Rightarrow> u64 option" where
  "grow_capacity limit required capacity =
     (if capacity < required
      then if limit div 2 < capacity then Some limit
           else grow_capacity limit required (capacity * 2)
      else Some capacity)"

definition pentax_capture_buffer_reserve ::
  "env \<Rightarrow> PentaxCaptureBuffer \<Rightarrow> u64 \<Rightarrow> (int \<times> PentaxCaptureBuffer) option" where
  "pentax_capture_buffer_reserve e buffer required =
     (if max_file_size e < required then Some (GP_ERROR_FIXED_LIMIT_EXCEEDED, buffer)
      else if required \<le> buf_capacity buffer then Some (GP_OK, buffer)
      else
        (case grow_capacity (max_file_size e) required
                (if buf_capacity buffer \<noteq> 0 then buf_capacity buffer else 1024 * 1024) of
           None \<Rightarrow> None
         | Some capacity \<Rightarrow>
             (case c_realloc e (buf_data buffer) (unat capacity) of
                None \<Rightarrow> Some (GP_ERROR_NO_MEMORY, buffer)
              | Some block \<Rightarrow>
                  Some (GP_OK, buffer\<lparr>buf_data := Some block, buf_capacity := capacity\<rparr>))))"

text \<open>
  \<open>data\<close> is what the pointer argument points to, \<open>n_bytes\<close> the length passed with it. Of
  \<open>memcpy\<close> both sides have to be valid.
\<close>

definition pentax_capture_buffer_write ::
  "env \<Rightarrow> PentaxCaptureBuffer \<Rightarrow> byte list option \<Rightarrow> u64 \<Rightarrow> (int \<times> PentaxCaptureBuffer) option" where
  "pentax_capture_buffer_write e buffer data n_bytes =
     (if data = None \<and> n_bytes \<noteq> 0 then Some (GP_ERROR_BAD_PARAMETERS, buffer)
      else if max_file_size e - buf_offset buffer < n_bytes
      then Some (GP_ERROR_FIXED_LIMIT_EXCEEDED, buffer)
      else
        (let end = buf_offset buffer + n_bytes
         in case pentax_capture_buffer_reserve e buffer end of
              None \<Rightarrow> None
            | Some (ret, buffer) \<Rightarrow>
                if ret < GP_OK then Some (ret, buffer)
                else
                  (let zeros = (if buf_size buffer < buf_offset buffer
                                then replicate (unat (buf_offset buffer - buf_size buffer)) 0
                                else []);
                       src = (case data of None \<Rightarrow> [] | Some d \<Rightarrow> d)
                   in case mem_write (buf_data buffer) (unat (buf_size buffer)) zeros of
                        None \<Rightarrow> None
                      | Some block \<Rightarrow>
                          if length src < unat n_bytes then None
                          else
                            (case mem_write block (unat (buf_offset buffer)) (take (unat n_bytes) src) of
                               None \<Rightarrow> None
                             | Some block \<Rightarrow>
                                 Some (GP_OK, buffer\<lparr>buf_data := block, buf_offset := end,
                                   buf_size := (if buf_size buffer < end then end
                                                else buf_size buffer)\<rparr>)))))"

definition pentax_capture_buffer_seek ::
  "env \<Rightarrow> PentaxCaptureBuffer \<Rightarrow> u8 \<Rightarrow> i32 \<Rightarrow> (int \<times> PentaxCaptureBuffer) option" where
  "pentax_capture_buffer_seek e buffer operation displacement =
     (case (if operation = 4 then Some 0
            else if operation = 5 then Some (sint (buf_offset buffer))
            else if operation = 6 then Some (sint (buf_size buffer))
            else None) of
        None \<Rightarrow> Some (GP_ERROR_BAD_PARAMETERS, buffer)
      | Some base \<Rightarrow>
          (let destination = base + sint displacement
           in if destination < - (2 ^ 63) \<or> 2 ^ 63 \<le> destination then None
              else if destination < 0 \<or> max_file_size e < word_of_int destination
              then Some (GP_ERROR_BAD_PARAMETERS, buffer)
              else Some (GP_OK, buffer\<lparr>buf_offset := word_of_int destination\<rparr>)))"

definition pentax_capture_buffer_disown_on_success ::
  "PentaxCaptureBuffer \<Rightarrow> int \<Rightarrow> int \<times> PentaxCaptureBuffer" where
  "pentax_capture_buffer_disown_on_success buffer ownership_result =
     (if ownership_result < GP_OK then (ownership_result, buffer)
      else (ownership_result, buffer\<lparr>buf_data := None, buf_size := 0\<rparr>))"

section \<open>The transfer interpreter\<close>

record 'u PentaxTransferOps =
  max_block_size :: u32
  get_command :: "('u \<Rightarrow> (int \<times> u8 \<times> i32) \<times> 'u) option"
  get_block :: "('u \<Rightarrow> u32 \<Rightarrow> (int \<times> byte list option \<times> u32) \<times> 'u) option"
  is_cancelled :: "('u \<Rightarrow> bool \<times> 'u) option"
  is_timed_out :: "('u \<Rightarrow> bool \<times> 'u) option"

definition probe :: "('u \<Rightarrow> bool \<times> 'u) option \<Rightarrow> 'u \<Rightarrow> bool \<times> 'u" where
  "probe cb u = (case cb of None \<Rightarrow> (False, u) | Some f \<Rightarrow> f u)"

definition pentax_transfer_interrupted :: "'u PentaxTransferOps \<Rightarrow> 'u \<Rightarrow> int \<times> 'u" where
  "pentax_transfer_interrupted ops u =
     (let (cancelled, u) = probe (is_cancelled ops) u
      in if cancelled then (GP_ERROR_CANCEL, u)
         else
           (let (timed_out, u) = probe (is_timed_out ops) u
            in if timed_out then (GP_ERROR_TIMEOUT, u) else (GP_OK, u)))"

lemma block_shrinks:
  assumes "request = (if m < r then m else r)" "transferred \<noteq> 0" "\<not> request < transferred"
  shows "unat (r - transferred :: u32) < unat r"
proof -
  have "transferred \<le> r" using assms by (auto simp: not_less split: if_splits)
  moreover have "0 < unat transferred" using assms(2) by (simp add: unat_gt_0)
  ultimately show ?thesis by (simp add: unat_sub word_le_nat_alt)
qed

text \<open>
  The inner \<open>while (remaining)\<close>. Every return of it is an error; \<open>GP_OK\<close> means that the
  segment was stored and the next command is read.
\<close>

function transfer_blocks ::
  "env \<Rightarrow> 'u PentaxTransferOps \<Rightarrow> ('u \<Rightarrow> u32 \<Rightarrow> (int \<times> byte list option \<times> u32) \<times> 'u) \<Rightarrow>
   PentaxCaptureBuffer \<Rightarrow> 'u \<Rightarrow> u32 \<Rightarrow> (int \<times> PentaxCaptureBuffer \<times> 'u) option" where
  "transfer_blocks e ops read_block buffer u remaining =
     (if remaining = 0 then Some (GP_OK, buffer, u)
      else
        (let (ret, u) = pentax_transfer_interrupted ops u
         in if ret < GP_OK then Some (ret, buffer, u)
            else
              (let request = (if max_block_size ops < remaining then max_block_size ops
                              else remaining);
                   ((ret, data, transferred), u) = read_block u request
               in if ret < GP_OK then Some (ret, buffer, u)
                  else if data = None \<or> transferred = 0 \<or> request < transferred
                  then Some (GP_ERROR_CORRUPTED_DATA, buffer, u)
                  else
                    (case pentax_capture_buffer_write e buffer data (ucast transferred) of
                       None \<Rightarrow> None
                     | Some (ret, buffer) \<Rightarrow>
                         if ret < GP_OK then Some (ret, buffer, u)
                         else if transferred < request
                         then Some (GP_ERROR_CORRUPTED_DATA, buffer, u)
                         else transfer_blocks e ops read_block buffer u
                                (remaining - transferred)))))"
  by pat_completeness auto
termination
proof (relation "measure (\<lambda>(_, _, _, _, _, remaining). unat remaining)", goal_cases)
  case 2
  then show ?case by (simp only: in_measure prod.case) (rule block_shrinks, assumption, simp_all)
qed simp

declare transfer_blocks.simps [simp del]

text \<open>
  The outer loop, from the count of commands read so far: the 100001st would exceed the limit.
\<close>

function transfer_loop ::
  "env \<Rightarrow> 'u PentaxTransferOps \<Rightarrow> ('u \<Rightarrow> (int \<times> u8 \<times> i32) \<times> 'u) \<Rightarrow>
   ('u \<Rightarrow> u32 \<Rightarrow> (int \<times> byte list option \<times> u32) \<times> 'u) \<Rightarrow>
   PentaxCaptureBuffer \<Rightarrow> 'u \<Rightarrow> nat \<Rightarrow> (int \<times> PentaxCaptureBuffer \<times> 'u) option" where
  "transfer_loop e ops read_command read_block buffer u command_count =
     (let command_count = command_count + 1
      in if 100000 < command_count then Some (GP_ERROR_FIXED_LIMIT_EXCEEDED, buffer, u)
         else
           (let (ret, u) = pentax_transfer_interrupted ops u
            in if ret < GP_OK then Some (ret, buffer, u)
               else
                 (let ((ret, operation, operation_info), u) = read_command u
                  in if ret < GP_OK then Some (ret, buffer, u)
                     else if command_count = 1
                     then if operation \<noteq> 1 then Some (GP_ERROR_CORRUPTED_DATA, buffer, u)
                          else transfer_loop e ops read_command read_block buffer u command_count
                     else if operation = 1 then Some (GP_ERROR_CORRUPTED_DATA, buffer, u)
                     else if operation = 2
                     then Some (if buf_size buffer \<noteq> 0 then GP_OK else GP_ERROR_CORRUPTED_DATA,
                                buffer, u)
                     else if operation = 3
                     then if sint operation_info \<le> 0
                          then Some (GP_ERROR_CORRUPTED_DATA, buffer, u)
                          else
                            (case transfer_blocks e ops read_block buffer u operation_info of
                               None \<Rightarrow> None
                             | Some (ret, buffer, u) \<Rightarrow>
                                 if ret < GP_OK then Some (ret, buffer, u)
                                 else transfer_loop e ops read_command read_block buffer u
                                        command_count)
                     else if 4 \<le> operation \<and> operation \<le> 6
                     then (case pentax_capture_buffer_seek e buffer operation operation_info of
                             None \<Rightarrow> None
                           | Some (ret, buffer) \<Rightarrow>
                               if ret < GP_OK then Some (ret, buffer, u)
                               else transfer_loop e ops read_command read_block buffer u
                                      command_count)
                     else Some (GP_ERROR_NOT_SUPPORTED, buffer, u))))"
  by pat_completeness auto
termination
  by (relation "measure (\<lambda>(_, _, _, _, _, _, command_count). 100001 - command_count)") auto

declare transfer_loop.simps [simp del]

definition pentax_transfer_run ::
  "env \<Rightarrow> PentaxCaptureBuffer \<Rightarrow> 'u PentaxTransferOps \<Rightarrow> 'u \<Rightarrow>
   (int \<times> PentaxCaptureBuffer \<times> 'u) option" where
  "pentax_transfer_run e buffer ops u =
     (case (get_command ops, get_block ops) of
        (Some read_command, Some read_block) \<Rightarrow>
          if max_block_size ops = 0 then Some (GP_ERROR_BAD_PARAMETERS, buffer, u)
          else transfer_loop e ops read_command read_block buffer u 0
      | _ \<Rightarrow> Some (GP_ERROR_BAD_PARAMETERS, buffer, u))"

section \<open>The buffer as a file\<close>

text \<open>The abstract view of a buffer is a file and a position.\<close>

definition content :: "PentaxCaptureBuffer \<Rightarrow> byte list" where
  "content b = (case buf_data b of None \<Rightarrow> [] | Some r \<Rightarrow> take (unat (buf_size b)) r)"

definition position :: "PentaxCaptureBuffer \<Rightarrow> nat" where
  "position b = unat (buf_offset b)"

definition env_ok :: "env \<Rightarrow> bool" where
  "env_ok e \<longleftrightarrow> unat PENTAX_CAPTURE_MIN_FILE_SIZE \<le> unat (max_file_size e) \<and>
     unat (max_file_size e) < 2 ^ 62"

definition buffer_ok :: "env \<Rightarrow> PentaxCaptureBuffer \<Rightarrow> bool" where
  "buffer_ok e b \<longleftrightarrow>
     (case buf_data b of None \<Rightarrow> buf_capacity b = 0
      | Some r \<Rightarrow> length r = unat (buf_capacity b) \<and> buf_capacity b \<noteq> 0) \<and>
     unat (buf_size b) \<le> unat (buf_capacity b) \<and>
     unat (buf_capacity b) \<le> unat (max_file_size e) \<and>
     unat (buf_offset b) \<le> unat (max_file_size e)"

lemma empty_buffer_ok [simp]: "buffer_ok e empty_buffer"
  by (simp add: buffer_ok_def empty_buffer_def)

lemma content_length: "buffer_ok e b \<Longrightarrow> length (content b) = unat (buf_size b)"
  by (auto simp: content_def buffer_ok_def split: option.splits)

text \<open>The reservation loop ends, at a capacity between the request and the limit.\<close>

lemma grow_capacity_ok:
  assumes "0 < unat c" "unat c \<le> unat l" "unat r \<le> unat l" "unat l < 2 ^ 62"
  shows "\<exists>c'. grow_capacity l r c = Some c' \<and> unat r \<le> unat c' \<and> unat c \<le> unat c' \<and>
     unat c' \<le> unat l"
  using assms
proof (induction "unat r - unat c" arbitrary: c rule: less_induct)
  case less
  have half: "unat (l div 2) = unat l div 2" by (simp add: unat_div)
  consider "unat r \<le> unat c" | "unat c < unat r" "unat l div 2 < unat c"
    | "unat c < unat r" "unat c \<le> unat l div 2" by linarith
  then show ?case
  proof cases
    case 1
    then show ?thesis using less.prems by (subst grow_capacity.simps) (simp add: word_less_nat_alt)
  next
    case 2
    then show ?thesis using less.prems half
      by (subst grow_capacity.simps) (simp add: word_less_nat_alt)
  next
    case 3
    have d: "unat (c * 2) = unat c * 2"
      using less.prems by (subst unat_mult_lem [THEN iffD1]) simp_all
    have "\<exists>c'. grow_capacity l r (c * 2) = Some c' \<and> unat r \<le> unat c' \<and> unat (c * 2) \<le> unat c' \<and>
       unat c' \<le> unat l"
      using less.prems 3 d by (intro less.hyps) linarith+
    then show ?thesis using 3 half d
      by (subst grow_capacity.simps) (auto simp: word_less_nat_alt)
  qed
qed

lemma reserve_ok:
  assumes "env_ok e" "buffer_ok e b"
  obtains (limit) "unat (max_file_size e) < unat r"
      "pentax_capture_buffer_reserve e b r = Some (GP_ERROR_FIXED_LIMIT_EXCEEDED, b)"
    | (memory) n where "\<not> realloc_ok e n" "n \<le> unat (max_file_size e)"
      "pentax_capture_buffer_reserve e b r = Some (GP_ERROR_NO_MEMORY, b)"
    | (granted) b' where "pentax_capture_buffer_reserve e b r = Some (GP_OK, b')" "buffer_ok e b'"
      "unat r \<le> unat (buf_capacity b')" "content b' = content b" "buf_offset b' = buf_offset b"
      "buf_size b' = buf_size b"
proof -
  consider "unat (max_file_size e) < unat r" | "unat r \<le> unat (max_file_size e)" "unat r \<le> unat (buf_capacity b)"
    | "unat r \<le> unat (max_file_size e)" "unat (buf_capacity b) < unat r" by linarith
  then show thesis
  proof cases
    case 1
    then show ?thesis by (intro limit) (simp_all add: pentax_capture_buffer_reserve_def word_less_nat_alt)
  next
    case 2
    then show ?thesis using assms
      by (intro granted [of b]) (simp_all add: pentax_capture_buffer_reserve_def word_less_nat_alt word_le_nat_alt)
  next
    case 3
    let ?c = "if buf_capacity b \<noteq> 0 then buf_capacity b else 1024 * 1024"
    have "0 < unat ?c" "unat ?c \<le> unat (max_file_size e)"
      using assms by (auto simp: buffer_ok_def env_ok_def unat_gt_0)
    then obtain c where c: "grow_capacity (max_file_size e) r ?c = Some c" "unat r \<le> unat c"
      "unat ?c \<le> unat c" "unat c \<le> unat (max_file_size e)" "0 < unat c"
      using grow_capacity_ok [of ?c "max_file_size e" r] 3 assms(1) by (auto simp: env_ok_def)
    have res: "pentax_capture_buffer_reserve e b r =
      (case c_realloc e (buf_data b) (unat c) of None \<Rightarrow> Some (GP_ERROR_NO_MEMORY, b)
       | Some block \<Rightarrow> Some (GP_OK, b\<lparr>buf_data := Some block, buf_capacity := c\<rparr>))"
      using 3 c(1) by (simp add: pentax_capture_buffer_reserve_def word_less_nat_alt word_le_nat_alt)
    show ?thesis
    proof (cases "realloc_ok e (unat c)")
      case False
      then show ?thesis using res c by (intro memory [of "unat c"]) (simp_all add: c_realloc_def)
    next
      case True
      define old where "old = (case buf_data b of None \<Rightarrow> [] | Some r \<Rightarrow> r)"
      define block where "block = take (unat c) old @ map (fresh e) [length old..<unat c]"
      have old: "length old = unat (buf_capacity b)" "content b = take (unat (buf_size b)) old"
        "unat (buf_size b) \<le> length old" "length old \<le> unat c"
        using assms(2) c(2) 3(2) by (auto simp: old_def buffer_ok_def content_def split: option.splits)
      have r: "pentax_capture_buffer_reserve e b r = Some (GP_OK, b\<lparr>buf_data := Some block, buf_capacity := c\<rparr>)"
        using res True by (simp add: c_realloc_def old_def block_def Let_def)
      show ?thesis
        using assms(2) old c
        by (intro granted [OF r]) (auto simp: buffer_ok_def content_def block_def unat_gt_0)
    qed
  qed
qed

lemma mem_write_inside:
  "i + length bs \<le> length r \<Longrightarrow>
     mem_write (Some r) i bs = Some (Some (take i r @ bs @ drop (i + length bs) r))"
  by (simp add: mem_write_def)

text \<open>Filling the gap and copying leaves the written file in the block.\<close>

lemma fill_and_copy:
  assumes "n \<le> length r" "p + length bs \<le> length r"
  defines "r' \<equiv> take n r @ replicate (p - n) 0 @ drop (n + (p - n)) r"
  shows "take (max n (p + length bs)) (take p r' @ bs @ drop (p + length bs) r') =
    file_write (take n r) p bs"
proof (cases "n \<le> p")
  case True
  then have "take p r' = take n r @ replicate (p - n) 0" "max n (p + length bs) = p + length bs"
    using assms by simp_all
  then show ?thesis using True assms(1,2) by (simp add: file_write_def)
next
  case False
  then have "r' = r" "min n p = p" by (simp_all add: r'_def)
  then show ?thesis using False assms(1,2)
    by (cases "n \<le> p + length bs") (simp_all add: file_write_def min_def drop_take)
qed

lemma unat_plus_offset:
  assumes "env_ok e" "unat a \<le> unat (max_file_size e)" "\<not> max_file_size e - a < b"
  shows "unat (a + b :: u64) = unat a + unat b" "unat a + unat b \<le> unat (max_file_size e)"
proof -
  have "unat (max_file_size e - a) = unat (max_file_size e) - unat a"
    using assms(2) by (simp add: unat_sub word_le_nat_alt)
  then have le: "unat a + unat b \<le> unat (max_file_size e)"
    using assms(2,3) by (simp add: word_less_nat_alt)
  then show "unat a + unat b \<le> unat (max_file_size e)" .
  show "unat (a + b) = unat a + unat b"
    using le assms(1) by (simp add: env_ok_def unat_add_lem [THEN iffD1])
qed

lemma write_ok:
  assumes "env_ok e" "buffer_ok e b" "unat n \<le> length d"
  obtains (refused) ret where "pentax_capture_buffer_write e b (Some d) n = Some (ret, b)"
      "ret = GP_ERROR_FIXED_LIMIT_EXCEEDED \<and> unat (max_file_size e) < position b + unat n \<or>
       ret = GP_ERROR_NO_MEMORY \<and> (\<exists>k \<le> unat (max_file_size e). \<not> realloc_ok e k)"
    | (written) b' where "pentax_capture_buffer_write e b (Some d) n = Some (GP_OK, b')"
      "buffer_ok e b'" "content b' = file_write (content b) (position b) (take (unat n) d)"
      "position b' = position b + unat n" "position b' \<le> unat (max_file_size e)"
proof (cases "max_file_size e - buf_offset b < n")
  case True
  have "unat (max_file_size e - buf_offset b) = unat (max_file_size e) - unat (buf_offset b)"
    using assms(2) by (simp add: buffer_ok_def unat_sub word_le_nat_alt)
  with True show ?thesis
    by (intro refused) (auto simp: pentax_capture_buffer_write_def position_def word_less_nat_alt)
next
  case False
  define en where "en = buf_offset b + n"
  have off: "unat (buf_offset b) \<le> unat (max_file_size e)" using assms(2) by (simp add: buffer_ok_def)
  note en = unat_plus_offset [OF assms(1) off False, folded en_def]
  show ?thesis
  proof (rule reserve_ok [OF assms(1,2), of en])
    assume "unat (max_file_size e) < unat en"
    with en show ?thesis by simp
  next
    fix k
    assume "\<not> realloc_ok e k" "k \<le> unat (max_file_size e)"
      "pentax_capture_buffer_reserve e b en = Some (GP_ERROR_NO_MEMORY, b)"
    then show ?thesis using False
      by (intro refused) (auto simp: pentax_capture_buffer_write_def en_def [symmetric] Let_def)
  next
    fix b'
    assume r: "pentax_capture_buffer_reserve e b en = Some (GP_OK, b')" "buffer_ok e b'"
      "unat en \<le> unat (buf_capacity b')" "content b' = content b" "buf_offset b' = buf_offset b"
      "buf_size b' = buf_size b"
    let ?sz = "unat (buf_size b)" and ?p = "position b" and ?bs = "take (unat n) d"
    have bs: "length ?bs = unat n" "?p + length ?bs = unat en"
      using assms(3) en by (simp_all add: position_def)
    show ?thesis
    proof (cases "buf_data b'")
      case None
      then have z: "buf_capacity b' = 0" "buf_size b = 0" "n = 0" "buf_offset b = 0" "en = 0"
        using r en by (auto simp: buffer_ok_def simp flip: unat_eq_zero)
      have w: "pentax_capture_buffer_write e b (Some d) n = Some (GP_OK, b'\<lparr>buf_offset := 0\<rparr>)"
        using False z r(1) None
        by (simp add: pentax_capture_buffer_write_def mem_write_def r(5,6) Let_def)
      have "content b' = []" using None by (simp add: content_def)
      then show ?thesis
        using w z r(2-6) None by (intro written [OF w]) (auto simp: buffer_ok_def content_def position_def file_write_def)
    next
      case (Some m)
      then have m: "length m = unat (buf_capacity b')" "?sz \<le> length m" "?p + length ?bs \<le> length m"
        "content b = take ?sz m"
        using r(2,3,4,6) bs by (simp_all add: buffer_ok_def content_def)
      define m' where "m' = take ?sz m @ replicate (?p - ?sz) 0 @ drop (?sz + (?p - ?sz)) m"
      define m'' where "m'' = take ?p m' @ ?bs @ drop (?p + length ?bs) m'"
      have lm: "length m' = length m" "length m'' = length m"
        using m by (simp_all add: m'_def m''_def)
      have gap: "unat (buf_offset b - buf_size b) = ?p - ?sz" if "buf_size b < buf_offset b"
        using that by (simp add: unat_sub position_def word_less_nat_alt word_le_nat_alt)
      have w1: "mem_write (Some m) ?sz (if buf_size b < buf_offset b
          then replicate (unat (buf_offset b - buf_size b)) 0 else []) = Some (Some m')"
      proof (cases "buf_size b < buf_offset b")
        case True
        then show ?thesis using gap m by (simp add: mem_write_inside m'_def)
      next
        case False
        then have "?p - ?sz = 0" by (simp add: position_def word_less_nat_alt)
        then show ?thesis using False by (simp add: mem_write_def m'_def)
      qed
      have w2: "mem_write (Some m') ?p ?bs = Some (Some m'')"
        using m lm by (simp add: mem_write_inside m''_def)
      let ?b = "b'\<lparr>buf_data := Some m'', buf_offset := en,
          buf_size := (if buf_size b < en then en else buf_size b)\<rparr>"
      have mx: "unat (if buf_size b < en then en else buf_size b) = max ?sz (unat en)"
        by (simp add: max_def word_less_nat_alt)
      have w: "pentax_capture_buffer_write e b (Some d) n = Some (GP_OK, ?b)"
        using False Some assms(3) r(1) [unfolded en_def] w1 [folded r(5,6)]
          w2 [unfolded position_def, folded r(5)]
        unfolding pentax_capture_buffer_write_def Let_def en_def r(6) [symmetric]
        by (simp split del: if_split)
      have c: "content ?b = file_write (content b) ?p ?bs"
        unfolding m(4) using fill_and_copy [OF m(2,3)] mx bs(2)
        by (simp add: content_def m''_def m'_def)
      show ?thesis
      proof (rule written [OF w _ c])
        show "buffer_ok e ?b"
          using r(2,3) Some lm m(1) en mx
          by (simp add: buffer_ok_def r(6) split del: if_split)
        show "position ?b = position b + unat n" "position ?b \<le> unat (max_file_size e)"
          using en by (simp_all add: position_def)
      qed
    qed
  qed
qed

text \<open>Where a seek leads in a file of length \<open>n\<close> from position \<open>p\<close>, if it is allowed.\<close>

definition file_seek :: "nat \<Rightarrow> nat \<Rightarrow> nat \<Rightarrow> u8 \<Rightarrow> int \<Rightarrow> nat option" where
  "file_seek limit n p operation displacement =
     (if operation = 4 \<or> operation = 5 \<or> operation = 6
      then (let d = (if operation = 4 then 0 else if operation = 5 then int p else int n) + displacement
            in if 0 \<le> d \<and> d \<le> int limit then Some (nat d) else None)
      else None)"

lemma uint_below: "unat (x :: u64) < 2 ^ 62 \<Longrightarrow> uint x < 2 ^ 62"
proof -
  assume "unat x < 2 ^ 62"
  then have "int (unat x) < int (2 ^ 62)" by (simp only: of_nat_less_iff)
  then show ?thesis by simp
qed

lemma sint_eq_unat: "unat (x :: u64) < 2 ^ 62 \<Longrightarrow> sint x = int (unat x)"
proof -
  assume "unat x < 2 ^ 62"
  then have x: "uint x < 2 ^ 62" by (rule uint_below)
  have "sint (word_of_int n :: u64) = n" if "0 \<le> n" "n < 2 ^ 62" for n
    using that by (simp only: int_word_sint) simp
  from this [of "uint x"] x have "sint x = uint x" by simp
  then show ?thesis by (simp only: uint_nat)
qed

lemma sint32_bounds: "- (2 ^ 31) \<le> sint (d :: i32)" "sint (d :: i32) < 2 ^ 31"
  using sint_greater_eq [of d] sint_less [of d] by simp_all

lemma seek_ok:
  assumes "env_ok e" "buffer_ok e b"
  shows "pentax_capture_buffer_seek e b op d = Some
    (case file_seek (unat (max_file_size e)) (length (content b)) (position b) op (sint d) of
       None \<Rightarrow> (GP_ERROR_BAD_PARAMETERS, b)
     | Some p \<Rightarrow> (GP_OK, b\<lparr>buf_offset := of_nat p\<rparr>))"
proof -
  have b: "unat (buf_offset b) < 2 ^ 62" "unat (buf_size b) < 2 ^ 62"
    using assms by (auto simp: env_ok_def buffer_ok_def)
  note sb = sint_eq_unat [OF b(1)] sint_eq_unat [OF b(2)] content_length [OF assms(2)]
  define base where "base = (if op = 4 then 0 else if op = 5 then int (position b)
      else int (length (content b)))"
  have base: "0 \<le> base" "base < 2 ^ 62" using uint_below [OF b(1)] uint_below [OF b(2)] sb
    by (auto simp: base_def position_def)
  have dest: "- (2 ^ 63) < base + sint d" "base + sint d < 2 ^ 63"
    using base sint32_bounds [of d] by simp_all
  define D where "D = base + sint d"
  define M where "M = unat (max_file_size e)"
  have u: "unat (word_of_int D :: u64) = nat D" "(word_of_int D :: u64) = of_nat (nat D)" if "0 \<le> D"
    using that dest(2) by (simp_all add: D_def [symmetric] unsigned_of_int take_bit_int_eq_self nat_less_iff)
  have le: "max_file_size e < word_of_int D \<longleftrightarrow> int M < D" if "0 \<le> D"
    using u(1) [OF that] that by (simp add: word_less_nat_alt M_def [symmetric] zless_nat_eq_int_zless)
  show ?thesis
  proof (cases "op = 4 \<or> op = 5 \<or> op = 6")
    case True
    then have b: "(if op = 4 then Some 0 else if op = 5 then Some (sint (buf_offset b))
      else if op = 6 then Some (sint (buf_size b)) else None) = Some base"
      by (auto simp: base_def sb position_def)
    have seek: "pentax_capture_buffer_seek e b op d =
      (if D < - (2 ^ 63) \<or> 2 ^ 63 \<le> D then None
       else if D < 0 \<or> max_file_size e < word_of_int D then Some (GP_ERROR_BAD_PARAMETERS, b)
       else Some (GP_OK, b\<lparr>buf_offset := word_of_int D\<rparr>))"
      unfolding pentax_capture_buffer_seek_def b by (simp only: option.case Let_def D_def)
    have fs: "file_seek M (length (content b)) (position b) op (sint d) =
      (if 0 \<le> D \<and> D \<le> int M then Some (nat D) else None)"
      using True by (auto simp: file_seek_def base_def D_def Let_def)
    have in_range: "\<not> (D < - (2 ^ 63) \<or> 2 ^ 63 \<le> D)" using dest by (simp add: D_def)
    show ?thesis
    proof (cases "0 \<le> D")
      case True
      show ?thesis unfolding seek fs [unfolded M_def] if_not_P [OF in_range] le [OF True]
        using True by (simp add: M_def)
    next
      case neg: False
      then have "D < 0" by simp
      then show ?thesis
        unfolding seek fs [unfolded M_def] if_not_P [OF in_range] by simp
    qed
  next
    case False
    then show ?thesis by (simp add: pentax_capture_buffer_seek_def file_seek_def)
  qed
qed

lemma seek_keeps_ok:
  assumes "env_ok e" "buffer_ok e b"
    and "file_seek (unat (max_file_size e)) n q op x = Some p"
  shows "buffer_ok e (b\<lparr>buf_offset := of_nat p\<rparr>)" "position (b\<lparr>buf_offset := of_nat p\<rparr>) = p"
    "content (b\<lparr>buf_offset := of_nat p\<rparr>) = content b"
proof -
  have "p \<le> unat (max_file_size e)"
    using assms(3) by (auto simp: file_seek_def Let_def nat_le_iff split: if_splits)
  then have "unat (of_nat p :: u64) = p" "p \<le> unat (max_file_size e)"
    using assms(1) by (simp_all add: env_ok_def unsigned_of_nat take_bit_nat_eq_self)
  then show "buffer_ok e (b\<lparr>buf_offset := of_nat p\<rparr>)" "position (b\<lparr>buf_offset := of_nat p\<rparr>) = p"
    "content (b\<lparr>buf_offset := of_nat p\<rparr>) = content b"
    using assms(2) by (simp_all add: buffer_ok_def position_def content_def split: option.splits)
qed

section \<open>The sink interface\<close>

text \<open>
  What the interpreter needs of the place it stores to: total writes that either refuse and
  change nothing, or behave as a file write within the limit.
\<close>

locale byte_sink =
  fixes ok :: "'b \<Rightarrow> bool" and cont :: "'b \<Rightarrow> byte list" and pos :: "'b \<Rightarrow> nat"
    and limit :: nat and put :: "'b \<Rightarrow> byte list \<Rightarrow> (int \<times> 'b) option"
  assumes put_total: "ok b \<Longrightarrow> length bs < 2 ^ 32 \<Longrightarrow> \<exists>r b'. put b bs = Some (r, b')"
    and put_law: "ok b \<Longrightarrow> length bs < 2 ^ 32 \<Longrightarrow> put b bs = Some (r, b') \<Longrightarrow>
      ok b' \<and> (r = GP_OK \<and> cont b' = file_write (cont b) (pos b) bs \<and>
                pos b' = pos b + length bs \<and> pos b' \<le> limit \<or> r < GP_OK \<and> b' = b)"
begin

lemma put_cases:
  assumes "ok b" "length bs < 2 ^ 32"
  obtains (stored) b' where "put b bs = Some (GP_OK, b')" "ok b'"
      "cont b' = file_write (cont b) (pos b) bs" "pos b' = pos b + length bs" "pos b' \<le> limit"
    | (refused) r where "put b bs = Some (r, b)" "r < GP_OK"
  using put_total [OF assms] put_law [OF assms] by blast

text \<open>Two consecutive chunks are stored as their concatenation would be.\<close>

lemma put_chain:
  assumes "ok b" "length xs < 2 ^ 32" "put b xs = Some (GP_OK, b1)"
  shows "file_write (cont b1) (pos b1) ys = file_write (cont b) (pos b) (xs @ ys)"
    and "pos b1 + length ys = pos b + length (xs @ ys)"
  using put_law [OF assms] by (auto simp: file_write_append)

end

interpretation buffer_sink: byte_sink "\<lambda>b. env_ok e \<and> buffer_ok e b" content position
  "unat (max_file_size e)"
  "\<lambda>b bs. pentax_capture_buffer_write e b (Some bs) (of_nat (length bs))" for e
proof (unfold_locales, goal_cases)
  case (1 b bs)
  then have "unat (of_nat (length bs) :: u64) \<le> length bs"
    by (simp add: unsigned_of_nat take_bit_nat_eq_self)
  with 1 show ?case by (auto elim!: write_ok [of e b "of_nat (length bs)" bs])
next
  case (2 b bs r b')
  then have n: "unat (of_nat (length bs) :: u64) = length bs"
    by (simp add: unsigned_of_nat take_bit_nat_eq_self)
  from 2 show ?case
    by (elim conjE) (rule write_ok [of e b "of_nat (length bs)" bs], simp_all add: n, auto)
qed


section \<open>Lemmas on the interpreter\<close>

text \<open>A block callback that succeeds hands over at least as many bytes as it reports.\<close>

definition blocks_ok :: "('u \<Rightarrow> u32 \<Rightarrow> (int \<times> byte list option \<times> u32) \<times> 'u) \<Rightarrow> bool" where
  "blocks_ok read_block \<longleftrightarrow>
     (\<forall>u request ret d t u'. read_block u request = ((ret, Some d, t), u') \<and> GP_OK \<le> ret \<longrightarrow>
        unat t \<le> length d)"

lemma write_take:
  "unat n \<le> length d \<Longrightarrow> pentax_capture_buffer_write e b (Some d) n =
     pentax_capture_buffer_write e b (Some (take (unat n) d)) (of_nat (length (take (unat n) d)))"
  by (simp add: pentax_capture_buffer_write_def Let_def split: option.split prod.split)

lemma interrupted_cases:
  obtains (go) u' where "pentax_transfer_interrupted ops u = (GP_OK, u')"
    | (stop) ret u' where "pentax_transfer_interrupted ops u = (ret, u')" "ret < GP_OK"
  by (cases "pentax_transfer_interrupted ops u")
     (auto simp: pentax_transfer_interrupted_def split: prod.splits if_splits)

lemma transfer_blocks_safe:
  assumes "env_ok e" "buffer_ok e b" "blocks_ok rb"
  shows "\<exists>ret b' u'. transfer_blocks e ops rb b u remaining = Some (ret, b', u') \<and> buffer_ok e b' \<and>
     ret \<le> GP_OK \<and>
     (ret = GP_OK \<and> remaining \<noteq> 0 \<longrightarrow>
        (\<exists>bs. length bs = unat remaining \<and> content b' = file_write (content b) (position b) bs \<and>
              position b' = position b + length bs))"
  using assms(2)
proof (induction "unat remaining" arbitrary: b u remaining rule: less_induct)
  case less
  show ?case
  proof (cases "remaining = 0")
    case True
    then show ?thesis using less.prems by (simp add: transfer_blocks.simps)
  next
    case nz: False
    show ?thesis
    proof (cases rule: interrupted_cases [of ops u])
      case (stop ret u')
      then show ?thesis using less.prems nz by (simp add: transfer_blocks.simps)
    next
      case (go u0)
      define request where "request = (if max_block_size ops < remaining then max_block_size ops else remaining)"
      obtain ret data t u1 where rb: "rb u0 request = ((ret, data, t), u1)" by (metis prod_cases3 surj_pair)
      note unroll = transfer_blocks.simps [of e ops rb b u remaining, folded request_def] nz go rb
      show ?thesis
      proof (cases "ret < GP_OK \<or> data = None \<or> t = 0 \<or> request < t")
        case True
        then show ?thesis using less.prems by (auto simp: unroll Let_def request_def [symmetric])
      next
        case False
        then obtain d where d: "data = Some d" by auto
        have t: "unat t \<le> length d" "t \<noteq> 0" "\<not> request < t" "\<not> ret < GP_OK"
          using assms(3) rb False d unfolding blocks_ok_def by (metis not_less, simp_all)
        let ?xs = "take (unat t) d"
        have xs: "length ?xs = unat t" "length ?xs < 2 ^ 32"
          using t(1) unsigned_less [of t] by simp_all
        have w: "pentax_capture_buffer_write e b data (ucast t) =
            pentax_capture_buffer_write e b (Some ?xs) (of_nat (length ?xs))"
          unfolding d using write_take [of "ucast t" d e b] t(1)
          by (simp add: unsigned_ucast_eq take_bit_nat_eq_self unsigned_less [of t, THEN less_trans])
        have ok: "env_ok e \<and> buffer_ok e b" using assms(1) less.prems by simp
        show ?thesis
        proof (cases rule: buffer_sink.put_cases [OF ok xs(2)])
          case (2 r)
          then show ?thesis using t d less.prems
            by (auto simp: unroll w [unfolded d] Let_def request_def [symmetric])
        next
          case (1 b1)
          show ?thesis
          proof (cases "t < request")
            case True
            then show ?thesis using t d 1
              by (auto simp: unroll w [unfolded d] Let_def request_def [symmetric])
          next
            case False
            have rec: "transfer_blocks e ops rb b u remaining = transfer_blocks e ops rb b1 u1 (remaining - t)"
            proof -
              have rt: "request = t" using False t(3) by simp
              show ?thesis using t d 1
                by (simp add: unroll w [unfolded d] Let_def request_def [symmetric] rt rb [unfolded rt])
            qed
            have dec: "unat (remaining - t) < unat remaining"
              using block_shrinks [OF request_def t(2,3)] .
            have "t \<le> remaining" using t(3) by (auto simp: request_def not_less split: if_splits)
            then have tr: "unat t \<le> unat remaining" "unat (remaining - t) = unat remaining - unat t"
              by (simp_all add: unat_sub word_le_nat_alt)
            obtain ret' b' u' where r: "transfer_blocks e ops rb b1 u1 (remaining - t) = Some (ret', b', u')"
              "buffer_ok e b'" "ret' \<le> GP_OK"
              "ret' = GP_OK \<and> remaining - t \<noteq> 0 \<longrightarrow>
                 (\<exists>bs. length bs = unat (remaining - t) \<and> content b' = file_write (content b1) (position b1) bs \<and>
                       position b' = position b1 + length bs)"
              using less.hyps [OF dec, of b1 u1] 1 by blast
            have "\<exists>bs. length bs = unat remaining \<and> content b' = file_write (content b) (position b) bs \<and>
                position b' = position b + length bs" if z: "ret' = GP_OK"
            proof (cases "remaining - t = 0")
              case True
              then have "b' = b1" "unat t = unat remaining" using r(1) by (simp_all add: transfer_blocks.simps)
              then show ?thesis using 1 xs by (intro exI [of _ ?xs]) simp
            next
              case False
              then obtain bs where bs: "length bs = unat (remaining - t)"
                "content b' = file_write (content b1) (position b1) bs"
                "position b' = position b1 + length bs" using r(4) z by blast
              then show ?thesis
                using buffer_sink.put_chain [OF ok xs(2) 1(1), of bs] xs tr
                by (intro exI [of _ "?xs @ bs"]) simp
            qed
            then show ?thesis unfolding rec using r(1-3) by simp
          qed
        qed
      qed
    qed
  qed
qed

text \<open>
  Whatever the camera and the callbacks do, the interpreter returns, keeps the buffer
  consistent and reports success only with a non-empty file.
\<close>

lemma transfer_loop_safe:
  assumes "env_ok e" "buffer_ok e b" "blocks_ok rb"
  shows "\<exists>ret b' u'. transfer_loop e ops rc rb b u n = Some (ret, b', u') \<and> buffer_ok e b' \<and>
     ret \<le> GP_OK \<and> (ret = GP_OK \<longrightarrow> content b' \<noteq> [])"
  using assms(2)
proof (induction "100001 - n" arbitrary: b u n rule: less_induct)
  case less
  show ?case
  proof (cases "100000 < n + 1")
    case True
    then show ?thesis using less.prems by (subst transfer_loop.simps) simp
  next
    case False
    then have n: "\<not> 100000 < Suc n" "100001 - Suc n < 100001 - n" by simp_all
    note IH = less.hyps [OF n(2)]
    show ?thesis
    proof (cases rule: interrupted_cases [of ops u])
      case (stop ret u')
      then show ?thesis using less.prems n by (subst transfer_loop.simps) simp
    next
      case (go u0)
      obtain ret op info u1 where c: "rc u0 = ((ret, op, info), u1)" by (metis prod_cases3 surj_pair)
      note unroll = transfer_loop.simps [of e ops rc rb b u n] n(1) go c
      consider "ret < GP_OK" | "\<not> ret < GP_OK" "n = 0" | "\<not> ret < GP_OK" "n \<noteq> 0" "op = 1"
        | "\<not> ret < GP_OK" "n \<noteq> 0" "op = 2" | "\<not> ret < GP_OK" "n \<noteq> 0" "op = 3"
        | "\<not> ret < GP_OK" "n \<noteq> 0" "op \<noteq> 1" "op \<noteq> 2" "op \<noteq> 3" by blast
      then show ?thesis
      proof cases
        case 2
        have "transfer_loop e ops rc rb b u n = (if op \<noteq> 1 then Some (GP_ERROR_CORRUPTED_DATA, b, u1)
            else transfer_loop e ops rc rb b u1 (Suc n))"
          unfolding unroll(1) using 2 by (simp add: unroll(3,4))
        then show ?thesis using IH [OF less.prems, of u1] less.prems by simp
      next
        case 4
        have "content b \<noteq> []" if "buf_size b \<noteq> 0"
          using content_length [OF less.prems] that by (auto simp flip: unat_eq_zero)
        with 4 show ?thesis using less.prems by (simp add: unroll)
      next
        case 5
        obtain ret' b' u' where t: "transfer_blocks e ops rb b u1 info = Some (ret', b', u')"
          "buffer_ok e b'" "ret' \<le> GP_OK"
          using transfer_blocks_safe [OF assms(1) less.prems assms(3)] by blast
        then show ?thesis using 5 IH [OF t(2), of u'] less.prems by (auto simp: unroll)
      next
        case 6
        obtain s where s: "pentax_capture_buffer_seek e b op info = Some s"
          using seek_ok [OF assms(1) less.prems] by blast
        have "buffer_ok e (snd s) \<and> fst s \<le> GP_OK"
          using s seek_ok [OF assms(1) less.prems, of op info]
            seek_keeps_ok(1) [OF assms(1) less.prems] less.prems
          by (auto split: option.splits)
        then show ?thesis using 6 s IH [of "snd s" u1] less.prems
          by (cases s) (auto simp: unroll)
      qed (use less.prems in \<open>simp_all add: unroll\<close>)
    qed
  qed
qed

section \<open>Properties of the buffer\<close>

text \<open>
  C10. A write to a consistent buffer is a file write: it either stores exactly the given
  bytes at the position, zero-filling a gap, and advances the position past them, or refuses
  with the limit or memory error and changes nothing; it never writes outside the block,
  never computes a wrapped size, and keeps the buffer consistent.
\<close>

theorem pentax_capture_buffer_write_refines:
  assumes "env_ok e" "buffer_ok e b" "unat n \<le> length d"
  shows "case pentax_capture_buffer_write e b (Some d) n of None \<Rightarrow> False
    | Some (ret, b') \<Rightarrow> buffer_ok e b' \<and>
        (ret = GP_OK \<and> content b' = file_write (content b) (position b) (take (unat n) d) \<and>
           position b' = position b + unat n \<and> position b' \<le> unat (max_file_size e) \<or>
         b' = b \<and> (ret = GP_ERROR_FIXED_LIMIT_EXCEEDED \<and>
                       unat (max_file_size e) < position b + unat n \<or>
                     ret = GP_ERROR_NO_MEMORY \<and> (\<exists>k \<le> unat (max_file_size e). \<not> realloc_ok e k)))"
  using assms(2) by (cases rule: write_ok [OF assms]) auto

definition plain_env :: env where
  "plain_env = \<lparr>realloc_ok = (\<lambda>_. True), fresh = (\<lambda>_. 0xaa),
     max_file_size = PENTAX_CAPTURE_MAX_FILE_SIZE_DEFAULT\<rparr>"

lemma plain_env_ok: "env_ok plain_env"
  by (simp add: env_ok_def plain_env_def)

theorem pentax_capture_buffer_write_refines_witness:
  "\<exists>b'. pentax_capture_buffer_write plain_env (empty_buffer\<lparr>buf_offset := 2\<rparr>) (Some [1, 2, 3]) 3 =
     Some (GP_OK, b') \<and> buffer_ok plain_env b' \<and> content b' = [0, 0, 1, 2, 3]"
proof -
  have ok: "buffer_ok plain_env (empty_buffer\<lparr>buf_offset := 2\<rparr>)"
    by (simp add: buffer_ok_def empty_buffer_def plain_env_def)
  let ?b = "empty_buffer\<lparr>buf_offset := 2\<rparr>"
  have two: "replicate 2 (0 :: byte) = [0, 0]" by (simp add: numeral_2_eq_2)
  have ev: "unat (max_file_size plain_env) = 2147483648" "realloc_ok plain_env k" "position ?b = 2"
    "unat (3 :: u64) = 3" "file_write (content ?b) 2 [1, 2, 3] = [0, 0, 1, 2, 3]" for k
    by (simp_all add: plain_env_def position_def content_def empty_buffer_def file_write_def two)
  have "unat (3 :: u64) \<le> length [1, 2, 3 :: byte]" by simp
  from pentax_capture_buffer_write_refines [OF plain_env_ok ok this]
  show ?thesis by (auto simp: ev split: option.splits)
qed

text \<open>
  A seek follows the file model on every operation and displacement: relative to the
  start, the position or the end, it moves exactly when the destination lies between zero and
  the size limit, and otherwise fails and leaves the buffer unchanged; the signed 64-bit sum
  never overflows. The content is untouched.
\<close>

theorem pentax_capture_buffer_seek_spec:
  assumes "env_ok e" "buffer_ok e b"
  shows "\<exists>ret b'. pentax_capture_buffer_seek e b op d = Some (ret, b') \<and> buffer_ok e b' \<and>
     content b' = content b \<and>
     (case file_seek (unat (max_file_size e)) (length (content b)) (position b) op (sint d) of
        None \<Rightarrow> ret = GP_ERROR_BAD_PARAMETERS \<and> b' = b
      | Some p \<Rightarrow> ret = GP_OK \<and> position b' = p)"
  using seek_ok [OF assms, of op d] seek_keeps_ok [OF assms] assms(2)
  by (auto split: option.splits)

theorem pentax_capture_buffer_seek_spec_witness:
  "\<exists>ret b'. pentax_capture_buffer_seek plain_env (empty_buffer\<lparr>buf_offset := 7\<rparr>) 5 (- 3) = Some (ret, b') \<and>
     buffer_ok plain_env b' \<and> content b' = content (empty_buffer\<lparr>buf_offset := 7\<rparr>) \<and>
     (case file_seek (unat (max_file_size plain_env)) (length (content (empty_buffer\<lparr>buf_offset := 7\<rparr>)))
             (position (empty_buffer\<lparr>buf_offset := 7\<rparr>)) 5 (sint (- 3 :: i32)) of
        None \<Rightarrow> ret = GP_ERROR_BAD_PARAMETERS \<and> b' = empty_buffer\<lparr>buf_offset := 7\<rparr>
      | Some p \<Rightarrow> ret = GP_OK \<and> position b' = p)"
  by (rule pentax_capture_buffer_seek_spec [OF plain_env_ok])
     (simp add: buffer_ok_def empty_buffer_def plain_env_def)

text \<open>
  The size budget is never below one mebibyte; a decimal setting of at least that is
  taken exactly, a smaller one and an absent or empty one give the two-gibibyte default. A
  negative setting is not refused but wraps to the largest 64-bit size, as \<open>strtoull\<close> converts
  it.
\<close>

theorem pentax_capture_max_file_size_spec:
  "unat PENTAX_CAPTURE_MIN_FILE_SIZE \<le> unat (pentax_capture_max_file_size env) \<and>
   pentax_capture_max_file_size (Some (dec (unat (n :: u64)))) =
     (if n < PENTAX_CAPTURE_MIN_FILE_SIZE then PENTAX_CAPTURE_MAX_FILE_SIZE_DEFAULT else n) \<and>
   pentax_capture_max_file_size None = PENTAX_CAPTURE_MAX_FILE_SIZE_DEFAULT \<and>
   pentax_capture_max_file_size (Some []) = PENTAX_CAPTURE_MAX_FILE_SIZE_DEFAULT \<and>
   pentax_capture_max_file_size (Some ''-1'') = 18446744073709551615"
proof (intro conjI)
  have small: "v \<le> 18446744073709551615 \<Longrightarrow> unat (of_nat v :: u64) = v" for v
    by (simp add: unsigned_of_nat take_bit_nat_eq_self)
  show "unat PENTAX_CAPTURE_MIN_FILE_SIZE \<le> unat (pentax_capture_max_file_size env)"
    by (auto simp: pentax_capture_max_file_size_def small split: option.splits prod.splits)
  have "unat n < 2 ^ 64" using unsigned_less [of n] by simp
  then have "strtoull (dec (unat n)) = (unat n, [], False)"
    using strtoull_digits [of "dec (unat n)" "[]"] by (simp add: dec_all)
  then show "pentax_capture_max_file_size (Some (dec (unat n))) =
     (if n < PENTAX_CAPTURE_MIN_FILE_SIZE then PENTAX_CAPTURE_MAX_FILE_SIZE_DEFAULT else n)"
    using \<open>unat n < 2 ^ 64\<close>
    by (simp add: pentax_capture_max_file_size_def word_less_nat_alt)
  have "strtoull ''-1'' = (2 ^ 64 - 1, [], False)"
    by (simp add: strtoull_def isspace_def isdigit_def digits_value_def)
  then show "pentax_capture_max_file_size (Some ''-1'') = 18446744073709551615"
    unfolding pentax_capture_max_file_size_def by simp
qed (simp_all add: pentax_capture_max_file_size_def)

section \<open>Properties of the interpreter\<close>

text \<open>
  C9. Whatever commands, codes and blocks the camera callbacks return, and whenever the run is
  cancelled, times out or runs out of memory, the transfer returns (within its 100000
  commands), with no access outside the buffer, a consistent buffer and a code that is not
  positive; success means a non-empty file.
\<close>

theorem pentax_transfer_run_safe:
  assumes "env_ok e" "buffer_ok e b"
    and "case get_block ops of None \<Rightarrow> True | Some rb \<Rightarrow> blocks_ok rb"
  shows "\<exists>ret b' u'. pentax_transfer_run e b ops u = Some (ret, b', u') \<and> buffer_ok e b' \<and>
     ret \<le> GP_OK \<and> (ret = GP_OK \<longrightarrow> content b' \<noteq> [])"
proof (cases "get_command ops = None \<or> get_block ops = None \<or> max_block_size ops = 0")
  case True
  then show ?thesis using assms(2) by (auto simp: pentax_transfer_run_def split: option.splits)
next
  case False
  then obtain rc rb where "get_command ops = Some rc" "get_block ops = Some rb" "max_block_size ops \<noteq> 0"
    by auto
  then show ?thesis
    using transfer_loop_safe [OF assms(1,2), of rb ops rc u 0] assms(3)
    by (simp add: pentax_transfer_run_def)
qed

text \<open>
  A camera that plays a script: its state is the rest of the current data segment and the
  commands still to come.
\<close>

datatype cam_cmd = CmdStart | CmdEnd | CmdData "byte list" | CmdSeek u8 i32

fun cam_command :: "byte list \<times> cam_cmd list \<Rightarrow> (int \<times> u8 \<times> i32) \<times> (byte list \<times> cam_cmd list)" where
  "cam_command (seg, []) = ((GP_ERROR_IO, 0, 0), (seg, []))"
| "cam_command (seg, CmdStart # cs) = ((GP_OK, 1, 0), ([], cs))"
| "cam_command (seg, CmdEnd # cs) = ((GP_OK, 2, 0), ([], cs))"
| "cam_command (seg, CmdData bs # cs) = ((GP_OK, 3, of_nat (length bs)), (bs, cs))"
| "cam_command (seg, CmdSeek op d # cs) = ((GP_OK, op, d), ([], cs))"

fun cam_block ::
  "byte list \<times> cam_cmd list \<Rightarrow> u32 \<Rightarrow> (int \<times> byte list option \<times> u32) \<times> (byte list \<times> cam_cmd list)" where
  "cam_block (seg, cs) request =
     (let xs = take (unat request) seg
      in ((GP_OK, Some xs, of_nat (length xs)), (drop (unat request) seg, cs)))"

definition camera_ops :: "u32 \<Rightarrow> (byte list \<times> cam_cmd list) PentaxTransferOps" where
  "camera_ops m = \<lparr>max_block_size = m, get_command = Some cam_command, get_block = Some cam_block,
     is_cancelled = None, is_timed_out = None\<rparr>"

text \<open>The file a script of segments and seeks describes, if it stays within the limit.\<close>

fun file_run :: "nat \<Rightarrow> byte list \<times> nat \<Rightarrow> cam_cmd list \<Rightarrow> (byte list \<times> nat) option" where
  "file_run limit (c, p) [] = Some (c, p)"
| "file_run limit (c, p) (CmdData bs # cs) =
     (if bs \<noteq> [] \<and> length bs < 2 ^ 31 \<and> p + length bs \<le> limit
      then file_run limit (file_write c p bs, p + length bs) cs else None)"
| "file_run limit (c, p) (CmdSeek op d # cs) =
     (case file_seek limit (length c) p op (sint d) of
        None \<Rightarrow> None | Some p \<Rightarrow> file_run limit (c, p) cs)"
| "file_run limit (c, p) (cmd # cs) = None"

definition memory_ok :: "env \<Rightarrow> bool" where
  "memory_ok e \<longleftrightarrow> env_ok e \<and> (\<forall>n. realloc_ok e n)"

lemma write_stored:
  assumes "memory_ok e" "buffer_ok e b" "length bs < 2 ^ 32"
    and "position b + length bs \<le> unat (max_file_size e)"
  obtains b' where "pentax_capture_buffer_write e b (Some bs) (of_nat (length bs)) = Some (GP_OK, b')"
    "buffer_ok e b'" "content b' = file_write (content b) (position b) bs"
    "position b' = position b + length bs"
proof -
  have e: "env_ok e" using assms(1) by (simp add: memory_ok_def)
  have n: "unat (of_nat (length bs) :: u64) = length bs"
    using assms(3) by (simp add: unsigned_of_nat take_bit_nat_eq_self)
  show thesis
  proof (rule write_ok [OF e assms(2), of "of_nat (length bs)" bs])
    show "unat (of_nat (length bs) :: u64) \<le> length bs" by (simp only: n)
  qed (use that n assms in \<open>auto simp: memory_ok_def\<close>)
qed

lemma camera_interrupted [simp]: "pentax_transfer_interrupted (camera_ops m) u = (GP_OK, u)"
  by (simp add: pentax_transfer_interrupted_def camera_ops_def probe_def)

lemma cam_block_exact:
  "unat q \<le> length seg \<Longrightarrow>
     cam_block (seg, cs) q = ((GP_OK, Some (take (unat q) seg), q), (drop (unat q) seg, cs))"
  by (simp add: min_absorb2)

lemma camera_segment:
  assumes "memory_ok e" "m \<noteq> 0" "buffer_ok e b" "unat r = length seg"
    and "position b + length seg \<le> unat (max_file_size e)" "seg \<noteq> [] \<or> position b \<le> length (content b)"
  shows "\<exists>b'. transfer_blocks e (camera_ops m) cam_block b (seg, cs) r = Some (GP_OK, b', ([], cs)) \<and>
    buffer_ok e b' \<and> content b' = file_write (content b) (position b) seg \<and>
    position b' = position b + length seg"
  using assms(3-)
proof (induction "length seg" arbitrary: b seg r rule: less_induct)
  case less
  show ?case
  proof (cases "r = 0")
    case True
    then show ?thesis using less.prems
      by (simp add: transfer_blocks.simps file_write_def)
  next
    case False
    define q where "q = (if max_block_size (camera_ops m) < r then max_block_size (camera_ops m) else r)"
    have q: "q \<noteq> 0" "unat q \<le> length seg" "q \<le> r"
      using False assms(2) less.prems(2)
      by (auto simp: q_def camera_ops_def word_less_nat_alt word_le_nat_alt)
    let ?xs = "take (unat q) seg" and ?ys = "drop (unat q) seg"
    have "0 < unat q" "unat q < 2 ^ 32" using q(1) unsigned_less [of q] by (simp_all add: unat_gt_0)
    then have len: "length ?xs = unat q" "length ?xs < 2 ^ 32" "length ?ys < length seg"
      using q(2) unfolding length_take length_drop by linarith+
    have uq: "(ucast q :: u64) = of_nat (length ?xs)" using q(2) by simp
    obtain b1 where b1: "pentax_capture_buffer_write e b (Some ?xs) (of_nat (length ?xs)) = Some (GP_OK, b1)"
      "buffer_ok e b1" "content b1 = file_write (content b) (position b) ?xs"
      "position b1 = position b + length ?xs"
      by (rule write_stored [OF assms(1) less.prems(1) len(2)]) (use less.prems(3) q(2) in simp_all)
    have rec: "transfer_blocks e (camera_ops m) cam_block b (seg, cs) r =
        transfer_blocks e (camera_ops m) cam_block b1 (?ys, cs) (r - q)"
      using False q(1) b1(1) unfolding transfer_blocks.simps [of e "camera_ops m" cam_block b "(seg, cs)" r]
      by (simp add: q_def [symmetric] uq cam_block_exact [OF q(2)] del: cam_block.simps)
    have "unat (r - q) = length ?ys" using q(3) less.prems(2) by (simp add: unat_sub word_le_nat_alt)
    moreover have "position b1 + length ?ys \<le> unat (max_file_size e)"
      using less.prems(3) b1(4) len(1) q(2) by simp
    moreover have "?ys \<noteq> [] \<or> position b1 \<le> length (content b1)"
      by (simp add: b1(3,4) length_file_write)
    ultimately obtain b' where b': "transfer_blocks e (camera_ops m) cam_block b1 (?ys, cs) (r - q) = Some (GP_OK, b', ([], cs))"
      "buffer_ok e b'" "content b' = file_write (content b1) (position b1) ?ys"
      "position b' = position b1 + length ?ys"
      using less.hyps [OF len(3) b1(2)] by blast
    have "env_ok e \<and> buffer_ok e b" using assms(1) less.prems(1) by (simp add: memory_ok_def)
    from buffer_sink.put_chain [OF this len(2) b1(1), of ?ys]
    show ?thesis unfolding rec using b' by simp
  qed
qed

lemma sint_of_nat_pos: "0 < n \<Longrightarrow> n < 2 ^ 31 \<Longrightarrow> \<not> sint (of_nat n :: i32) \<le> 0 \<and> unat (of_nat n :: u32) = n"
proof -
  assume n: "0 < n" "n < 2 ^ 31"
  have "sint (word_of_int (int n) :: i32) = int n"
    using n by (simp only: int_word_sint) simp
  then show ?thesis using n by (simp add: unsigned_of_nat take_bit_nat_eq_self)
qed

lemma camera_body:
  assumes "memory_ok e" "m \<noteq> 0" "buffer_ok e b" "c \<noteq> []" "1 \<le> n" "n + length body < 100000"
    and "file_run (unat (max_file_size e)) (content b, position b) body = Some (c, p)"
  shows "\<exists>b'. transfer_loop e (camera_ops m) cam_command cam_block b (seg, body @ [CmdEnd]) n =
     Some (GP_OK, b', ([], [])) \<and> content b' = c"
  using assms(3,5,6,7)
proof (induction body arbitrary: b n seg)
  case Nil
  have "buf_size b \<noteq> 0"
    using content_length [OF Nil.prems(1)] Nil.prems(4) assms(4) by auto
  then show ?case using Nil.prems by (subst transfer_loop.simps) simp
next
  case (Cons cmd body)
  have e: "env_ok e" using assms(1) by (simp add: memory_ok_def)
  have n: "\<not> 100000 < Suc n" "n \<noteq> 0" "1 \<le> Suc n" "Suc n + length body < 100000"
    using Cons.prems(2,3) by simp_all
  note unroll = transfer_loop.simps [of e "camera_ops m" cam_command cam_block b "(seg, (cmd # body) @ [CmdEnd])" n]
  show ?case
  proof (cases cmd)
    case CmdStart
    with Cons.prems(4) show ?thesis by simp
  next
    case CmdEnd
    with Cons.prems(4) show ?thesis by simp
  next
    case (CmdData bs)
    then have bs: "bs \<noteq> []" "length bs < 2 ^ 31" "position b + length bs \<le> unat (max_file_size e)"
      "file_run (unat (max_file_size e)) (file_write (content b) (position b) bs, position b + length bs) body = Some (c, p)"
      using Cons.prems(4) by (auto split: if_splits)
    note w = sint_of_nat_pos [of "length bs"]
    obtain b1 where b1: "transfer_blocks e (camera_ops m) cam_block b (bs, body @ [CmdEnd]) (of_nat (length bs)) =
        Some (GP_OK, b1, ([], body @ [CmdEnd]))" "buffer_ok e b1"
      "content b1 = file_write (content b) (position b) bs" "position b1 = position b + length bs"
      using camera_segment [OF assms(1,2) Cons.prems(1), of "of_nat (length bs)" bs "body @ [CmdEnd]"] bs w by auto
    have "transfer_loop e (camera_ops m) cam_command cam_block b (seg, (cmd # body) @ [CmdEnd]) n =
      transfer_loop e (camera_ops m) cam_command cam_block b1 ([], body @ [CmdEnd]) (Suc n)"
      unfolding unroll using n(1,2) b1(1) bs w by (simp add: CmdData)
    then show ?thesis using Cons.IH [OF b1(2) n(3,4)] bs(4) b1(3,4) by simp
  next
    case (CmdSeek op d)
    then obtain q where q: "file_seek (unat (max_file_size e)) (length (content b)) (position b) op (sint d) = Some q"
      "file_run (unat (max_file_size e)) (content b, q) body = Some (c, p)"
      using Cons.prems(4) by (auto split: option.splits)
    have op: "op = 4 \<or> op = 5 \<or> op = 6" using q(1) by (auto simp: file_seek_def split: if_splits)
    let ?b1 = "b\<lparr>buf_offset := of_nat q\<rparr>"
    note b1 = seek_keeps_ok [OF e Cons.prems(1) q(1)]
    have s: "pentax_capture_buffer_seek e b op d = Some (GP_OK, ?b1)"
      using seek_ok [OF e Cons.prems(1), of op d] q(1) by simp
    have "op \<noteq> 1" "op \<noteq> 2" "op \<noteq> 3" "4 \<le> op \<and> op \<le> 6" using op by auto
    then have "transfer_loop e (camera_ops m) cam_command cam_block b (seg, (cmd # body) @ [CmdEnd]) n =
      transfer_loop e (camera_ops m) cam_command cam_block ?b1 ([], body @ [CmdEnd]) (Suc n)"
      unfolding unroll using n(1,2) s by (simp add: CmdSeek)
    then show ?thesis using Cons.IH [OF b1(1) n(3,4)] q(2) b1(2,3) by simp
  qed
qed

text \<open>
  C2. A capture is stored exactly: for a camera that sends the start command, any script of
  at most 99998 data segments and seeks that describes a non-empty file within the size
  budget, and the end command, the transfer succeeds and the buffer holds precisely the file
  the script describes, whatever the block size the segments are cut into.
\<close>

theorem pentax_transfer_run_stores_script:
  assumes "memory_ok e" "m \<noteq> 0" "length body \<le> 99998"
    and "file_run (unat (max_file_size e)) ([], 0) body = Some (c, p)" "c \<noteq> []"
  shows "\<exists>b. pentax_transfer_run e empty_buffer (camera_ops m) ([], CmdStart # body @ [CmdEnd]) =
     Some (GP_OK, b, ([], [])) \<and> content b = c"
proof -
  have "content empty_buffer = []" "position empty_buffer = 0"
    by (simp_all add: content_def position_def empty_buffer_def)
  then have "\<exists>b. transfer_loop e (camera_ops m) cam_command cam_block empty_buffer ([], body @ [CmdEnd]) 1 =
     Some (GP_OK, b, ([], [])) \<and> content b = c"
    using assms by (intro camera_body) simp_all
  moreover have "transfer_loop e (camera_ops m) cam_command cam_block empty_buffer ([], CmdStart # body @ [CmdEnd]) 0 =
     transfer_loop e (camera_ops m) cam_command cam_block empty_buffer ([], body @ [CmdEnd]) 1"
    by (subst transfer_loop.simps) simp
  ultimately show ?thesis
    using assms(2) by (simp add: pentax_transfer_run_def camera_ops_def)
qed

theorem pentax_transfer_run_stores_script_witness:
  "\<exists>b. pentax_transfer_run plain_env empty_buffer (camera_ops 2)
     ([], CmdStart # [CmdData [1, 2, 3], CmdSeek 4 1, CmdData [9]] @ [CmdEnd]) =
     Some (GP_OK, b, ([], [])) \<and> content b = [1, 9, 3]"
proof (rule pentax_transfer_run_stores_script)
  show "memory_ok plain_env" using plain_env_ok by (simp add: memory_ok_def) (simp add: plain_env_def)
  show "file_run (unat (max_file_size plain_env)) ([], 0)
      [CmdData [1, 2, 3], CmdSeek 4 1, CmdData [9]] = Some ([1, 9, 3], 2)"
    by (simp add: file_seek_def file_write_def plain_env_def)
qed simp_all

lemma cam_blocks_ok: "blocks_ok cam_block"
  by (auto simp: blocks_ok_def Let_def unsigned_of_nat
      intro: order_trans [OF take_bit_nat_less_eq_self])

theorem pentax_transfer_run_safe_witness:
  "\<exists>ret b' u'. pentax_transfer_run plain_env empty_buffer (camera_ops 4) ([], [CmdStart, CmdData [7], CmdEnd]) =
     Some (ret, b', u') \<and> buffer_ok plain_env b' \<and> ret \<le> GP_OK"
  using pentax_transfer_run_safe [OF plain_env_ok empty_buffer_ok, of "camera_ops 4" "([], [CmdStart, CmdData [7], CmdEnd])"]
  by (auto simp: cam_blocks_ok camera_ops_def)

text \<open>
  Disowning a buffer does not reset it: after the data has been handed over, a consistent
  buffer with storage keeps its capacity and position, so a further write that fits the old
  capacity skips the reservation and stores through the NULL data pointer.
\<close>

theorem pentax_capture_buffer_disown_unusable:
  assumes "env_ok e" "buffer_ok e b" "n \<noteq> 0" "GP_OK \<le> result"
    and "unat (buf_offset b) + unat n \<le> unat (buf_capacity b)"
  shows "pentax_capture_buffer_write e (snd (pentax_capture_buffer_disown_on_success b result)) (Some d) n = None"
proof -
  have cap: "unat (buf_capacity b) \<le> unat (max_file_size e)" "unat (max_file_size e) < 2 ^ 62"
    using assms(1,2) by (simp_all add: env_ok_def buffer_ok_def)
  have sum: "unat (buf_offset b + n) = unat (buf_offset b) + unat n"
    using assms(5) cap by (simp add: unat_add_lem [THEN iffD1])
  have sub: "unat (max_file_size e - buf_offset b) = unat (max_file_size e) - unat (buf_offset b)"
    using assms(5) cap by (simp add: unat_sub word_le_nat_alt)
  have n: "0 < unat n" using assms(3) by (simp add: unat_gt_0)
  have d: "snd (pentax_capture_buffer_disown_on_success b result) = b\<lparr>buf_data := None, buf_size := 0\<rparr>"
    using assms(4) by (simp add: pentax_capture_buffer_disown_on_success_def)
  have r: "pentax_capture_buffer_reserve e (b\<lparr>buf_data := None, buf_size := 0\<rparr>) (buf_offset b + n) =
      Some (GP_OK, b\<lparr>buf_data := None, buf_size := 0\<rparr>)"
    using assms(5) cap sum by (simp add: pentax_capture_buffer_reserve_def word_less_nat_alt word_le_nat_alt)
  have "\<not> max_file_size e - buf_offset b < n"
    using assms(5) cap sub by (simp add: word_less_nat_alt)
  then show ?thesis
    unfolding d using r n
    by (auto simp: pentax_capture_buffer_write_def mem_write_def word_less_nat_alt Let_def)
qed

theorem pentax_capture_buffer_disown_unusable_witness:
  "pentax_capture_buffer_write plain_env (snd (pentax_capture_buffer_disown_on_success
     \<lparr>buf_data = Some [1, 2], buf_size = 1, buf_capacity = 2, buf_offset = 1\<rparr> 0)) (Some [5]) 1 = None"
  by (rule pentax_capture_buffer_disown_unusable [OF plain_env_ok])
     (simp_all add: buffer_ok_def plain_env_def)


end
