(* ===== verification/PentaxReconcile.thy ===== *)
theory PentaxReconcile
  imports PentaxTransfer "HOL-Library.Signed_Division"
begin

text \<open>
  \<open>pentax_reconcile_extra_candidates\<close> of \<open>camlibs/ptp2/pentax-utils.c\<close>: after the primary
  candidate of an exposure, the bounded loop that finds, claims, transfers and deletes its
  further candidates. The callbacks, the monotonic clock and \<open>usleep\<close> act on one state. The
  loop is a partial function: \<open>None\<close> means that it never returns, which only a clock that
  stands still can cause.
\<close>

section \<open>The loop\<close>

text \<open>
  \<open>transfer_candidate\<close> fills a buffer local to the iteration, which is freed at its end, so
  only its code and state remain. Candidate metadata is shorter than four gibibytes.
\<close>

record 'u PentaxReconcileOps =
  get_conditions :: "'u \<Rightarrow> (int \<times> byte list option) \<times> 'u"
  get_candidate_info :: "('u \<Rightarrow> (int \<times> byte list option) \<times> 'u) option"
  candidate_is_owned :: "('u \<Rightarrow> u32 \<Rightarrow> byte list \<Rightarrow> string \<Rightarrow> bool \<times> 'u) option"
  transfer_candidate :: "'u \<Rightarrow> int \<times> 'u"
  delete_candidate :: "'u \<Rightarrow> int \<times> 'u"
  reconcile_cancelled :: "('u \<Rightarrow> bool \<times> 'u) option"
  clock_gettime :: "'u \<Rightarrow> int \<times> int"
  usleep_200ms :: "'u \<Rightarrow> 'u"

definition time_spent :: "int \<times> int \<Rightarrow> int \<times> int \<Rightarrow> int" where
  "time_spent start now = (fst now - fst start) * 1000 + (snd now - snd start) sdiv 1000000"

text \<open>
  The part of an iteration behind the ownership gate: \<open>Inl\<close> a code that ends the loop, or
  \<open>Inr\<close> after a finalised candidate. \<open>names\<close> is the caller's array, if any.
\<close>

definition claim_candidate ::
  "'u PentaxReconcileOps \<Rightarrow> u32 \<Rightarrow> nat \<Rightarrow> (nat \<Rightarrow> string) option \<Rightarrow> 'u \<Rightarrow>
   (int + unit) \<times> (nat \<Rightarrow> string) option \<times> 'u" where
  "claim_candidate ops handle cnt names u =
     (case (get_candidate_info ops, candidate_is_owned ops) of
        (Some get_info, Some is_owned) \<Rightarrow>
          (let ((err, cinfo), u) = get_info u
           in if err < GP_OK \<or> cinfo = None \<or> cinfo = Some []
              then (Inl (if err < GP_OK then err else GP_ERROR_CORRUPTED_DATA), names, u)
              else
                (let (err, name) = pentax_candidate_filename cinfo 128
                 in if err < GP_OK then (Inl err, names, u)
                    else
                      (let (owned, u) = is_owned u handle (the cinfo) (the name)
                       in if \<not> owned then (Inl GP_ERROR_CAMERA_BUSY, names, u)
                          else
                            (let names = map_option (\<lambda>a. a(cnt := the name)) names;
                                 (err, u) = transfer_candidate ops u
                             in if err < GP_OK then (Inl err, names, u)
                                else
                                  (let (err, u) = delete_candidate ops u
                                   in if err < GP_OK then (Inl err, names, u)
                                      else (Inr (), names, u))))))
      | _ \<Rightarrow> (Inl GP_ERROR_CAMERA_BUSY, names, u))"

partial_function (option) reconcile_loop ::
  "'u PentaxReconcileOps \<Rightarrow> nat \<Rightarrow> int \<Rightarrow> nat \<Rightarrow> int \<times> int \<Rightarrow> nat \<Rightarrow> (nat \<Rightarrow> string) option \<Rightarrow>
   'u \<Rightarrow> (int \<times> nat \<times> (nat \<Rightarrow> string) option \<times> 'u) option" where
  "reconcile_loop ops max_count max_ms required_count start cnt names u =
     (let (cancelled, u) = probe (reconcile_cancelled ops) u
      in if cancelled then Some (GP_ERROR_CANCEL, cnt, names, u)
         else
           (let ((ret, cdata), u) = get_conditions ops u;
                late = max_ms \<le> time_spent start (clock_gettime ops u)
            in if ret < GP_OK
               then if late then Some (GP_ERROR_TIMEOUT, cnt, names, u)
                    else reconcile_loop ops max_count max_ms required_count start cnt names
                           (usleep_200ms ops u)
               else
                 (let cd = (case cdata of None \<Rightarrow> [] | Some d \<Rightarrow> d)
                  in if length cd < 528 then Some (GP_ERROR_CORRUPTED_DATA, cnt, names, u)
                     else
                       (let handle = (if le32 cd 32 = 1 then le32 cd 36 else 0);
                            cycle_active = (le32 cd 32 \<noteq> 0 \<or> le32 cd 36 \<noteq> 0 \<or>
                              le32 cd 104 AND PENTAX_CONDITION_ACTIVITY_UNSAFE \<noteq> 0)
                        in if handle = 0
                           then if required_count \<le> cnt \<and> \<not> cycle_active
                                then Some (ret, cnt, names, u)
                                else if late then Some (GP_ERROR_TIMEOUT, cnt, names, u)
                                else reconcile_loop ops max_count max_ms required_count start cnt
                                       names (usleep_200ms ops u)
                           else if max_count \<le> cnt then Some (GP_ERROR_TIMEOUT, cnt, names, u)
                           else if late then Some (GP_ERROR_TIMEOUT, cnt, names, u)
                           else
                             (case claim_candidate ops handle cnt names u of
                                (Inl err, names, u) \<Rightarrow>
                                  if err < GP_OK then Some (err, cnt, names, u)
                                  else reconcile_loop ops max_count max_ms required_count start
                                         cnt names u
                              | (Inr _, names, u) \<Rightarrow>
                                  reconcile_loop ops max_count max_ms required_count start
                                    (cnt + 1) names u)))))"

definition pentax_reconcile_extra_candidates ::
  "'u PentaxReconcileOps \<Rightarrow> int \<Rightarrow> u32 \<Rightarrow> u32 \<Rightarrow> (nat \<Rightarrow> string) option \<Rightarrow> 'u \<Rightarrow>
   (int \<times> nat \<times> (nat \<Rightarrow> string) option \<times> 'u) option" where
  "pentax_reconcile_extra_candidates ops max_count max_ms min_count names u =
     (let max_count = (if max_count < 1 then 4 else max_count);
          max_ms = (if max_ms = 0 then 60000 else max_ms)
      in reconcile_loop ops (nat max_count) (int (unat max_ms)) (unat min_count)
           (clock_gettime ops u) 0 names u)"

section \<open>What the loop does to the camera\<close>

text \<open>
  The callbacks with a record of their calls, newest first: any table of callbacks can be
  wrapped this way, and the loop cannot tell the difference.
\<close>

datatype event =
    Conditions int "byte list option"
  | Info int
  | Owned u32 string bool
  | Transferred int
  | Deleted int

definition log_call :: "('r \<Rightarrow> event) \<Rightarrow> ('u \<Rightarrow> 'r \<times> 'u) \<Rightarrow> 'u \<times> event list \<Rightarrow> 'r \<times> ('u \<times> event list)" where
  "log_call ev f s = (let (r, u) = f (fst s) in (r, (u, ev r # snd s)))"

definition logged :: "'u PentaxReconcileOps \<Rightarrow> ('u \<times> event list) PentaxReconcileOps" where
  "logged ops =
    \<lparr>get_conditions = log_call (case_prod Conditions) (get_conditions ops),
     get_candidate_info = map_option (log_call (\<lambda>r. Info (fst r))) (get_candidate_info ops),
     candidate_is_owned = map_option (\<lambda>f s h i n. log_call (Owned h n) (\<lambda>u. f u h i n) s)
                            (candidate_is_owned ops),
     transfer_candidate = log_call Transferred (transfer_candidate ops),
     delete_candidate = log_call Deleted (delete_candidate ops),
     reconcile_cancelled = map_option (\<lambda>f s. (let (b, u) = f (fst s) in (b, (u, snd s))))
                             (reconcile_cancelled ops),
     clock_gettime = (\<lambda>s. clock_gettime ops (fst s)),
     usleep_200ms = (\<lambda>s. (usleep_200ms ops (fst s), snd s))\<rparr>"

text \<open>
  Every delete comes right after a successful transfer, and that right after a positive
  ownership answer, for the handle of the frame read last.
\<close>

fun log_ok :: "event list \<Rightarrow> bool" where
  "log_ok (Deleted r # es) =
     (case es of
        Transferred t # Owned h n owned # Info i # Conditions c (Some d) # rest \<Rightarrow>
          GP_OK \<le> t \<and> owned \<and> GP_OK \<le> i \<and> GP_OK \<le> c \<and> 528 \<le> length d \<and>
          le32 d 32 = 1 \<and> h = le32 d 36 \<and> h \<noteq> 0 \<and> log_ok rest
      | _ \<Rightarrow> False)"
| "log_ok (e # es) = log_ok es"
| "log_ok [] = True"

fun deletions :: "event list \<Rightarrow> nat" where
  "deletions [] = 0"
| "deletions (Deleted r # es) = (if GP_OK \<le> r then 1 else 0) + deletions es"
| "deletions (e # es) = deletions es"

definition idle_frame :: "byte list \<Rightarrow> bool" where
  "idle_frame d \<longleftrightarrow> 528 \<le> length d \<and> le32 d 32 = 0 \<and> le32 d 36 = 0 \<and>
     le32 d 104 AND PENTAX_CONDITION_ACTIVITY_UNSAFE = 0"

definition ends_idle :: "event list \<Rightarrow> bool" where
  "ends_idle log = (case log of Conditions c (Some d) # _ \<Rightarrow> idle_frame d | _ \<Rightarrow> False)"

lemma logged_sel [simp]:
  "get_conditions (logged ops) = log_call (case_prod Conditions) (get_conditions ops)"
  "get_candidate_info (logged ops) = map_option (log_call (\<lambda>r. Info (fst r))) (get_candidate_info ops)"
  "transfer_candidate (logged ops) = log_call Transferred (transfer_candidate ops)"
  "delete_candidate (logged ops) = log_call Deleted (delete_candidate ops)"
  "clock_gettime (logged ops) = (\<lambda>s. clock_gettime ops (fst s))"
  "usleep_200ms (logged ops) = (\<lambda>s. (usleep_200ms ops (fst s), snd s))"
  "candidate_is_owned (logged ops) = map_option (\<lambda>f s h i n. log_call (Owned h n) (\<lambda>u. f u h i n) s)
                            (candidate_is_owned ops)"
  by (simp_all add: logged_def)

lemma logged_cancel [simp]: "snd (snd (probe (reconcile_cancelled (logged ops)) s)) = snd s"
  by (simp add: logged_def probe_def split: option.split prod.split)

lemma log_callE:
  assumes "log_call ev f s = (r, s')"
  obtains u where "f (fst s) = (r, u)" "s' = (u, ev r # snd s)"
  using assms by (auto simp: log_call_def split: prod.splits)

text \<open>What the gated part of an iteration adds to the log.\<close>

lemma claim_candidate_log:
  assumes "claim_candidate (logged ops) h cnt names s = (res, names', s')"
    and "snd s = Conditions c (Some d) # rest" "GP_OK \<le> c" "528 \<le> length d" "le32 d 32 = 1"
    and "h = le32 d 36" "h \<noteq> 0" "log_ok rest"
  shows "log_ok (snd s') \<and>
     (case res of Inl err \<Rightarrow> err < GP_OK \<and> deletions (snd s') = deletions (snd s)
      | Inr _ \<Rightarrow> deletions (snd s') = deletions (snd s) + 1)"
proof (cases "get_candidate_info ops = None \<or> candidate_is_owned ops = None")
  case True
  then show ?thesis using assms by (auto simp: claim_candidate_def split: option.splits)
next
  case False
  then obtain gi io where g: "get_candidate_info ops = Some gi" "candidate_is_owned ops = Some io" by auto
  obtain err ci s1 where i: "log_call (\<lambda>r. Info (fst r)) gi s = ((err, ci), s1)" by (metis prod.exhaust)
  then have s1: "snd s1 = Info err # snd s" by (auto elim: log_callE)
  show ?thesis
  proof (cases "err < GP_OK \<or> ci = None \<or> ci = Some []")
    case True
    then show ?thesis using assms g i s1
      by (auto simp: claim_candidate_def)
  next
    case ok1: False
    obtain err2 nm where f: "pentax_candidate_filename ci 128 = (err2, nm)" by fastforce
    show ?thesis
    proof (cases "err2 < GP_OK")
      case True
      then show ?thesis using assms g i s1 ok1 f by (auto simp: claim_candidate_def)
    next
      case ok2: False
      obtain ow s2 where o: "log_call (Owned h (the nm)) (\<lambda>u. io u h (the ci) (the nm)) s1 = (ow, s2)" by (metis prod.exhaust)
      then have s2: "snd s2 = Owned h (the nm) ow # snd s1" by (auto elim: log_callE)
      show ?thesis
      proof (cases ow)
        case False
        then show ?thesis using assms g i s1 ok1 f ok2 o s2 by (auto simp: claim_candidate_def)
      next
        case ow: True
        obtain tr s3 where t: "log_call Transferred (transfer_candidate ops) s2 = (tr, s3)" by (metis prod.exhaust)
        then have s3: "snd s3 = Transferred tr # snd s2" by (auto elim: log_callE)
        show ?thesis
        proof (cases "tr < GP_OK")
          case True
          then show ?thesis using assms g i s1 ok1 f ok2 o s2 ow t s3 by (auto simp: claim_candidate_def)
        next
          case ok3: False
          obtain dl s4 where dl: "log_call Deleted (delete_candidate ops) s3 = (dl, s4)" by (metis prod.exhaust)
          then have s4: "snd s4 = Deleted dl # snd s3" by (auto elim: log_callE)
          show ?thesis using assms g i s1 ok1 f ok2 o s2 ow t s3 ok3 dl s4
            by (auto simp: claim_candidate_def Let_def split: if_split_asm)
        qed
      qed
    qed
  qed
qed

definition loop_post :: "nat \<Rightarrow> nat \<Rightarrow> int \<times> nat \<times> (nat \<Rightarrow> string) option \<times> ('u \<times> event list) \<Rightarrow> bool" where
  "loop_post mc req r = (case r of (ret, cnt, names, s) \<Rightarrow>
     log_ok (snd s) \<and> cnt \<le> mc \<and> cnt = deletions (snd s) \<and>
     (GP_OK \<le> ret \<longrightarrow> req \<le> cnt \<and> ends_idle (snd s)))"

lemma reconcile_loop_log:
  fixes ops :: "'u PentaxReconcileOps"
  assumes "reconcile_loop (logged ops) mc ms req start cnt names s = Some r"
    and "log_ok (snd s)" "cnt \<le> mc" "cnt = deletions (snd s)"
  shows "loop_post mc req r"
proof -
  define P where "P = (\<lambda>o' mc (ms :: int) req (start :: int \<times> int) cnt (names :: (nat \<Rightarrow> string) option)
      (s :: 'u \<times> event list)
      (r :: int \<times> nat \<times> (nat \<Rightarrow> string) option \<times> ('u \<times> event list)).
    o' = logged ops \<longrightarrow> log_ok (snd s) \<longrightarrow> cnt \<le> mc \<longrightarrow> cnt = deletions (snd s) \<longrightarrow> loop_post mc req r)"
  have "P (logged ops) mc ms req start cnt names s r"
  proof (rule reconcile_loop.raw_induct [where P = P, OF _ assms(1)], goal_cases)
    case (1 rec o' mc ms req start cnt names s r)
    note IH = 1(1) and body = 1(2)
    show ?case
      unfolding P_def
    proof (intro impI)
      assume o: "o' = logged ops" and inv: "log_ok (snd s)" "cnt \<le> mc" "cnt = deletions (snd s)"
      have rec: "loop_post mc req r"
        if "rec (logged ops) mc ms req start c n x = Some r" "log_ok (snd x)" "c \<le> mc" "c = deletions (snd x)" for c n x
        using IH [OF that(1)] that(2-4) by (simp add: P_def)
      obtain canc s0 where p: "probe (reconcile_cancelled (logged ops)) s = (canc, s0)" by (metis prod.exhaust)
      then have s0: "snd s0 = snd s" using logged_cancel [of ops s] by simp
      obtain ret cd s1 where g: "log_call (case_prod Conditions) (get_conditions ops) s0 = ((ret, cd), s1)"
        by (metis prod.exhaust)
      then have s1: "snd s1 = Conditions ret cd # snd s" using s0 by (auto elim: log_callE)
      define late where "late = (ms \<le> time_spent start (clock_gettime ops (fst s1)))"
      define h where "h = (if le32 (the cd) 32 = 1 then le32 (the cd) 36 else 0)"
      have inv1: "log_ok (snd s1)" "cnt = deletions (snd s1)" using inv s1 by simp_all
      note b = body [unfolded o, simplified p, simplified]
      consider (cancelled) "canc" | (failed) "\<not> canc" "ret < GP_OK"
        | (short) "\<not> canc" "\<not> ret < GP_OK" "length (case cd of None \<Rightarrow> [] | Some d \<Rightarrow> d) < 528"
        | (full) d where "\<not> canc" "\<not> ret < GP_OK" "cd = Some d" "\<not> length d < 528"
        by (cases canc; cases "ret < GP_OK"; cases cd; cases "length (the cd) < 528") auto
      then show "loop_post mc req r"
      proof cases
        case cancelled
        then show ?thesis using b inv s0 by (auto simp: g late_def [symmetric] loop_post_def)
      next
        case failed
        then show ?thesis using b inv inv1 rec [of cnt names "(usleep_200ms ops (fst s1), snd s1)"]
          by (auto simp: g late_def [symmetric] loop_post_def split: if_splits)
      next
        case short
        then show ?thesis using b inv inv1 by (auto simp: g late_def [symmetric] loop_post_def)
      next
        case full
        have h: "h = (if le32 d 32 = 1 then le32 d 36 else 0)" by (simp add: h_def full)
        show ?thesis
        proof (cases "h = 0")
          case True
          have "ends_idle (snd s1)" if "le32 d 32 = 0" "le32 d 36 = 0"
            "le32 d 104 AND PENTAX_CONDITION_ACTIVITY_UNSAFE = 0"
            using that full s1 by (simp add: ends_idle_def idle_frame_def)
          with True show ?thesis
            using b full h inv inv1 rec [of cnt names "(usleep_200ms ops (fst s1), snd s1)"]
            by (auto simp: g late_def [symmetric] loop_post_def split: if_split_asm)
        next
          case False
          then have h': "le32 d 32 = 1" "le32 d 36 = h" using h by (simp_all split: if_splits)
          obtain res names1 s2 where c: "claim_candidate (logged ops) h cnt names s1 = (res, names1, s2)"
            by (metis prod_cases3)
          have log: "log_ok (snd s2) \<and> (case res of Inl err \<Rightarrow> err < GP_OK \<and> deletions (snd s2) = deletions (snd s1)
              | Inr _ \<Rightarrow> deletions (snd s2) = deletions (snd s1) + 1)"
            using claim_candidate_log [OF c, of ret d "snd s"] s1 full h' False inv by simp
          show ?thesis
          proof (cases res)
            case (Inl err)
            then show ?thesis using b full h' False inv inv1 c log
              by (auto simp: g late_def [symmetric] loop_post_def split: if_split_asm)
          next
            case (Inr x)
            then show ?thesis using b full h' False inv inv1 c log rec [of "cnt + 1" names1 s2]
              by (auto simp: g late_def [symmetric] loop_post_def split: if_split_asm)
          qed
        qed
      qed
    qed
  qed
  with assms show ?thesis by (simp add: P_def)
qed

text \<open>
  C1. The reconciliation never deletes what it does not own: whatever the camera and the
  callbacks answer, each delete follows, with nothing in between, a successful transfer, a
  positive ownership answer for the very handle of a complete conditions frame that offers a
  candidate, and that frame. The reported count is the number of successful deletes and stays
  within the bound; a successful return has met the required count and saw the camera idle in
  the frame read last.
\<close>

theorem pentax_reconcile_deletes_owned_only:
  assumes "pentax_reconcile_extra_candidates (logged ops) max_count max_ms min_count names (u, []) =
      Some (ret, cnt, names', (u', log))"
  shows "log_ok log \<and> cnt = deletions log \<and>
    cnt \<le> (if max_count < 1 then 4 else nat max_count) \<and>
    (GP_OK \<le> ret \<longrightarrow> unat min_count \<le> cnt \<and> ends_idle log)"
  using reconcile_loop_log [OF assms [unfolded pentax_reconcile_extra_candidates_def Let_def]]
  by (auto simp: loop_post_def split: if_splits)

section \<open>The loop returns\<close>

text \<open>A clock in nanoseconds that the sleep advances and no callback turns back.\<close>

definition clock_ok :: "('u \<Rightarrow> nat) \<Rightarrow> 'u PentaxReconcileOps \<Rightarrow> bool" where
  "clock_ok t ops \<longleftrightarrow>
     (\<forall>u. clock_gettime ops u = (int (t u) div 1000000000, int (t u) mod 1000000000)) \<and>
     (\<forall>u. t u + 200000000 \<le> t (usleep_200ms ops u)) \<and>
     (\<forall>u. t u \<le> t (snd (get_conditions ops u))) \<and>
     (\<forall>u. t u \<le> t (snd (probe (reconcile_cancelled ops) u))) \<and>
     (\<forall>u. t u \<le> t (snd (transfer_candidate ops u))) \<and>
     (\<forall>u. t u \<le> t (snd (delete_candidate ops u))) \<and>
     (case get_candidate_info ops of None \<Rightarrow> True | Some f \<Rightarrow> \<forall>u. t u \<le> t (snd (f u))) \<and>
     (case candidate_is_owned ops of None \<Rightarrow> True
      | Some f \<Rightarrow> \<forall>u h i n. t u \<le> t (snd (f u h i n)))"

text \<open>Measured milliseconds lag the clock by at most two.\<close>

lemma time_spent_lower:
  assumes "(a :: nat) \<le> b"
  shows "(int b - int a) \<le> 1000000 * (time_spent (int a div 1000000000, int a mod 1000000000)
     (int b div 1000000000, int b mod 1000000000) + 1)"
proof -
  define A B where "A = int a mod 1000000000" and "B = int b mod 1000000000"
  define q where "q = (B - A) sdiv 1000000"
  have d: "int a = int a div 1000000000 * 1000000000 + A" "int b = int b div 1000000000 * 1000000000 + B"
    by (simp_all add: A_def B_def)
  have "B - A \<le> 1000000 * (q + 1)"
  proof (cases "0 \<le> B - A")
    case True
    then have "q = (B - A) div 1000000" by (simp add: q_def signed_divide_int_def sgn_if)
    then show ?thesis
      using mult_div_mod_eq [of 1000000 "B - A"] pos_mod_bound [of 1000000 "B - A"] by simp
  next
    case False
    then have "q = - ((A - B) div 1000000)" by (simp add: q_def signed_divide_int_def sgn_if)
    then show ?thesis
      using mult_div_mod_eq [of 1000000 "A - B"] pos_mod_sign [of 1000000 "A - B"] by simp
  qed
  then show ?thesis using d by (simp add: time_spent_def A_def [symmetric] B_def [symmetric] q_def [symmetric] algebra_simps)
qed

lemma claim_candidate_clock:
  assumes "clock_ok t ops" "claim_candidate ops h cnt names u = (res, names', u')"
  shows "t u \<le> t u' \<and> (\<forall>err. res = Inl err \<longrightarrow> err < GP_OK)"
proof (cases "get_candidate_info ops = None \<or> candidate_is_owned ops = None")
  case True
  then show ?thesis using assms(2) by (auto simp: claim_candidate_def split: option.splits)
next
  case False
  then obtain gi io where g: "get_candidate_info ops = Some gi" "candidate_is_owned ops = Some io" by auto
  have m: "t x \<le> t (snd (gi x))" "t x \<le> t (snd (io x h' i n))" "t x \<le> t (snd (transfer_candidate ops x))"
    "t x \<le> t (snd (delete_candidate ops x))" for x h' i n
    using assms(1) g by (simp_all add: clock_ok_def)
  obtain err ci u1 where i: "gi u = ((err, ci), u1)" by (metis prod.exhaust)
  obtain err2 nm where f: "pentax_candidate_filename ci 128 = (err2, nm)" by (metis prod.exhaust)
  obtain ow u2 where o: "io u1 h (the ci) (the nm) = (ow, u2)" by (metis prod.exhaust)
  obtain tr u3 where tr: "transfer_candidate ops u2 = (tr, u3)" by (metis prod.exhaust)
  obtain dl u4 where dl: "delete_candidate ops u3 = (dl, u4)" by (metis prod.exhaust)
  have mono: "t u \<le> t u1" "t u1 \<le> t u2" "t u2 \<le> t u3" "t u3 \<le> t u4"
    using m(1) [of u] m(2) [of u1 h "the ci" "the nm"] m(3) [of u2] m(4) [of u3] i o tr dl by simp_all
  have "u' = u1 \<or> u' = u2 \<or> u' = u3 \<or> u' = u4"
    using assms(2) g i f o tr dl by (auto simp: claim_candidate_def Let_def split: if_split_asm)
  moreover have "\<forall>err. res = Inl err \<longrightarrow> err < GP_OK"
    using assms(2) g i f o tr dl by (auto simp: claim_candidate_def Let_def split: if_split_asm)
  ultimately show ?thesis using mono by (elim disjE) simp_all
qed

lemma reconcile_loop_returns:
  assumes "clock_ok t ops" "t0 \<le> t u" "0 \<le> ms"
  defines "start \<equiv> (int t0 div 1000000000, int t0 mod 1000000000)"
  shows "\<exists>r. reconcile_loop ops mc ms req start cnt names u = Some r"
  using assms(2)
proof (induction "(mc - cnt) + (nat ((ms + 2) * 1000000) - (t u - t0))" arbitrary: cnt names u
    rule: less_induct)
  case less
  have clk: "clock_gettime ops x = (int (t x) div 1000000000, int (t x) mod 1000000000)"
    "t x + 200000000 \<le> t (usleep_200ms ops x)" "t x \<le> t (snd (get_conditions ops x))"
    "t x \<le> t (snd (probe (reconcile_cancelled ops) x))" for x
    using assms(1) by (simp_all add: clock_ok_def)
  obtain canc u0 where p: "probe (reconcile_cancelled ops) u = (canc, u0)" by (metis prod.exhaust)
  obtain ret cd u1 where g: "get_conditions ops u0 = ((ret, cd), u1)" by (metis prod.exhaust)
  define late where "late = (ms \<le> time_spent start (clock_gettime ops u1))"
  have t1: "t u \<le> t u1" using clk(4) [of u] clk(3) [of u0] p g by simp
  have early: "int (t u1 - t0) < (ms + 1) * 1000000" if "\<not> late"
    using time_spent_lower [of t0 "t u1"] that t1 less.prems
    by (simp add: late_def start_def clk(1) of_nat_diff algebra_simps)
  have budget: "t u1 - t0 < nat ((ms + 2) * 1000000)" if "\<not> late"
  proof -
    have "int (t u1 - t0) < (ms + 2) * 1000000" using early [OF that] by simp
    then show ?thesis by (simp only: zless_nat_eq_int_zless)
  qed
  have slept: "\<exists>r. reconcile_loop ops mc ms req start cnt names (usleep_200ms ops u1) = Some r" if "\<not> late"
  proof (rule less.hyps)
    show "t0 \<le> t (usleep_200ms ops u1)" using clk(2) [of u1] t1 less.prems by linarith
    show "mc - cnt + (nat ((ms + 2) * 1000000) - (t (usleep_200ms ops u1) - t0))
      < mc - cnt + (nat ((ms + 2) * 1000000) - (t u - t0))"
      using clk(2) [of u1] t1 less.prems budget [OF that] by linarith
  qed
  have claimed: "\<exists>r. reconcile_loop ops mc ms req start (cnt + 1) names1 u2 = Some r"
    if "claim_candidate ops h cnt names u1 = (Inr x, names1, u2)" "cnt < mc" for h x names1 u2
  proof (rule less.hyps)
    have "t u1 \<le> t u2" using claim_candidate_clock [OF assms(1) that(1)] by simp
    then show "t0 \<le> t u2" "mc - (cnt + 1) + (nat ((ms + 2) * 1000000) - (t u2 - t0))
      < mc - cnt + (nat ((ms + 2) * 1000000) - (t u - t0))"
      using t1 less.prems that(2) by linarith+
  qed
  have case_claim: "\<exists>r. (case claim_candidate ops h cnt names u1 of
        (Inl err, names, u) \<Rightarrow> if err < GP_OK then Some (err, cnt, names, u)
            else reconcile_loop ops mc ms req start cnt names u
      | (Inr _, names, u) \<Rightarrow> reconcile_loop ops mc ms req start (cnt + 1) names u) = Some r"
    if "cnt < mc" for h
  proof (cases "claim_candidate ops h cnt names u1")
    case (fields res names1 u2)
    then show ?thesis
      using claimed [of h _ names1 u2] claim_candidate_clock [OF assms(1), of h cnt names u1 res names1 u2] that
      by (cases res) auto
  qed
  show ?case
    using slept case_claim
    by (subst reconcile_loop.simps)
      (simp add: p g Let_def late_def [symmetric] not_le)
qed

text \<open>
  C15. The reconciliation returns: whenever the monotonic clock advances with the sleeps and
  no callback turns it back, the loop ends for every camera, whatever it reports and however
  long it stays busy, including bounds of zero, which mean the defaults.
\<close>

theorem pentax_reconcile_returns:
  assumes "clock_ok t ops"
  shows "\<exists>r. pentax_reconcile_extra_candidates ops max_count max_ms min_count names u = Some r"
proof -
  have "clock_gettime ops u = (int (t u) div 1000000000, int (t u) mod 1000000000)"
    using assms by (simp add: clock_ok_def)
  then show ?thesis
    using reconcile_loop_returns [OF assms order_refl [of "t u"]]
    by (simp add: pentax_reconcile_extra_candidates_def Let_def)
qed

text \<open>A camera that stays busy, with a clock its sleeps advance.\<close>

definition busy_camera :: "nat PentaxReconcileOps" where
  "busy_camera = \<lparr>get_conditions = (\<lambda>u. ((GP_OK, Some (replicate 528 1)), u)),
     get_candidate_info = None, candidate_is_owned = None,
     transfer_candidate = (\<lambda>u. (GP_OK, u)), delete_candidate = (\<lambda>u. (GP_OK, u)),
     reconcile_cancelled = None,
     clock_gettime = (\<lambda>u. (int u div 1000000000, int u mod 1000000000)),
     usleep_200ms = (\<lambda>u. u + 200000000)\<rparr>"

theorem pentax_reconcile_returns_witness:
  "\<exists>r. pentax_reconcile_extra_candidates busy_camera 0 1000 1 None 7 = Some r"
  by (rule pentax_reconcile_returns [of id]) (simp add: clock_ok_def busy_camera_def probe_def)

text \<open>A camera with one companion of its own, which becomes idle when that is deleted.\<close>

definition frame :: "u32 \<Rightarrow> u32 \<Rightarrow> byte list" where
  "frame state handle = replicate 32 0 @ put32 state @ put32 handle @ replicate 488 0"

definition one_companion :: "bool PentaxReconcileOps" where
  "one_companion = \<lparr>get_conditions = (\<lambda>p. ((GP_OK, Some (if p then frame 1 9 else frame 0 0)), p)),
     get_candidate_info = Some (\<lambda>p. ((GP_OK, Some [0, 0, 0, 1, 73, 0]), p)),
     candidate_is_owned = Some (\<lambda>p h i n. (True, p)),
     transfer_candidate = (\<lambda>p. (GP_OK, p)), delete_candidate = (\<lambda>p. (GP_OK, False)),
     reconcile_cancelled = None, clock_gettime = (\<lambda>p. (0, 0)), usleep_200ms = (\<lambda>p. p)\<rparr>"

theorem pentax_reconcile_deletes_owned_only_witness:
  "pentax_reconcile_extra_candidates (logged one_companion) 2 0 1 None (True, []) =
     Some (0, 1, None, (False, [Conditions 0 (Some (frame 0 0)), Deleted 0, Transferred 0, Owned 9 ''I'' True,
       Info 0, Conditions 0 (Some (frame 1 9))])) \<and>
   log_ok [Conditions 0 (Some (frame 0 0)), Deleted 0, Transferred 0, Owned 9 ''I'' True, Info 0,
      Conditions 0 (Some (frame 1 9))] \<and>
   ends_idle [Conditions 0 (Some (frame 0 0)), Deleted 0, Transferred 0, Owned 9 ''I'' True, Info 0,
      Conditions 0 (Some (frame 1 9))]"
proof -
  have f: "length (frame s h) = 528" "le32 (frame s h) 32 = s" "le32 (frame s h) 36 = h" "le32 (frame s h) 104 = 0" for s h
  proof -
    have "le32 (replicate 32 0 @ put32 s @ t) 32 = s" for t
      using le_append(2) [of "replicate 32 0" "put32 s @ t" 0] by simp
    moreover have "le32 (replicate 32 0 @ put32 s @ put32 h @ t) 36 = h" for t
      using le_append(2) [of "replicate 32 0 @ put32 s" "put32 h @ t" 0] by simp
    moreover have "le32 (replicate 32 0 @ put32 s @ put32 h @ t) 104 = le32 t 64" for t
      using le_append(2) [of "replicate 32 0 @ put32 s @ put32 h" t 64] by simp
    moreover have "le32 (replicate 488 0) 64 = 0" by (simp add: le32_def)
    ultimately show "length (frame s h) = 528" "le32 (frame s h) 32 = s" "le32 (frame s h) 36 = h"
      "le32 (frame s h) 104 = 0"
      by (simp_all add: frame_def)
  qed
  have n: "pentax_candidate_filename (Some [0, 0, 0, 1, 73, 0]) 128 = (GP_OK, Some ''I'')" by code_simp
  have run: "pentax_reconcile_extra_candidates (logged one_companion) 2 0 1 None (True, []) =
    Some (0, 1, None, (False, [Conditions 0 (Some (frame 0 0)), Deleted 0, Transferred 0, Owned 9 ''I'' True, Info 0,
      Conditions 0 (Some (frame 1 9))]))"
    by (simp add: pentax_reconcile_extra_candidates_def reconcile_loop.simps probe_def logged_def one_companion_def
       log_call_def claim_candidate_def n f time_spent_def)
  show ?thesis using run pentax_reconcile_deletes_owned_only [OF run] by simp
qed

end
