(* ===== verification/Host.thy ===== *)
theory Host
  imports Prelude
begin

text \<open>
  The part of the C library and of POSIX that \<open>libgphoto2/gphoto2-file.c\<close> uses: open file
  descriptors over regular files or streams, named files, the environment and the clock.
  Every transfer asks a plan how it ends: \<open>io_plan n = None\<close> makes the \<open>n\<close>-th transfer fail,
  \<open>Some k\<close> lets it move at most \<open>k\<close> bytes, so short and empty transfers are all there. A
  \<open>read\<close> or \<open>write\<close> that returns -1 is the value \<open>None\<close>.
\<close>

record ofile =
  of_bytes :: "byte list"
  of_pos :: nat
  of_seekable :: bool

record host =
  hs_fds :: "int \<Rightarrow> ofile option"
  hs_files :: "string \<Rightarrow> (byte list \<times> int) option"
  hs_openable :: "string \<Rightarrow> bool"
  hs_getenv :: "string \<Rightarrow> string option"
  hs_time :: int
  hs_io :: "nat \<Rightarrow> nat option"
  hs_calls :: nat
  hs_next_fd :: int

definition next_io :: "host \<Rightarrow> nat option \<times> host" where
  "next_io h = (hs_io h (hs_calls h), h\<lparr>hs_calls := Suc (hs_calls h)\<rparr>)"

definition c_write :: "host \<Rightarrow> int \<Rightarrow> byte list \<Rightarrow> nat option \<times> host" where
  "c_write h fd bs =
     (let (io, h) = next_io h
      in case (io, hs_fds h fd) of
           (Some k, Some f) \<Rightarrow>
             (let n = min k (length bs)
              in (Some n, h\<lparr>hs_fds := (hs_fds h)(fd := Some (f\<lparr>
                     of_bytes := (if n = 0 then of_bytes f
                                  else file_write (of_bytes f) (of_pos f) (take n bs)),
                     of_pos := of_pos f + n\<rparr>))\<rparr>))
         | _ \<Rightarrow> (None, h))"

definition c_read :: "host \<Rightarrow> int \<Rightarrow> nat \<Rightarrow> byte list option \<times> host" where
  "c_read h fd n =
     (let (io, h) = next_io h
      in case (io, hs_fds h fd) of
           (Some k, Some f) \<Rightarrow>
             (let bs = take (min k n) (drop (of_pos f) (of_bytes f))
              in (Some bs, h\<lparr>hs_fds := (hs_fds h)(fd := Some (f\<lparr>of_pos := of_pos f + length bs\<rparr>))\<rparr>))
         | _ \<Rightarrow> (None, h))"

text \<open>
  \<open>lseek\<close> to an offset from the start, the position or the end: \<open>None\<close> is -1, with \<open>errno\<close>
  \<open>EBADF\<close> exactly when the descriptor is not open.
\<close>

datatype whence = SEEK_SET | SEEK_CUR | SEEK_END

definition c_lseek :: "host \<Rightarrow> int \<Rightarrow> nat \<Rightarrow> whence \<Rightarrow> nat option \<times> host" where
  "c_lseek h fd off wh =
     (case hs_fds h fd of
        None \<Rightarrow> (None, h)
      | Some f \<Rightarrow>
          if \<not> of_seekable f then (None, h)
          else
            (let p = (case wh of SEEK_SET \<Rightarrow> off | SEEK_CUR \<Rightarrow> of_pos f + off
                      | SEEK_END \<Rightarrow> length (of_bytes f) + off)
             in (Some p, h\<lparr>hs_fds := (hs_fds h)(fd := Some (f\<lparr>of_pos := p\<rparr>))\<rparr>)))"

definition c_truncate :: "host \<Rightarrow> int \<Rightarrow> host" where
  "c_truncate h fd =
     (case hs_fds h fd of
        None \<Rightarrow> h
      | Some f \<Rightarrow> if of_seekable f then h\<lparr>hs_fds := (hs_fds h)(fd := Some (f\<lparr>of_bytes := []\<rparr>))\<rparr>
                 else h)"

definition c_close :: "host \<Rightarrow> int \<Rightarrow> host" where
  "c_close h fd = h\<lparr>hs_fds := (hs_fds h)(fd := None)\<rparr>"

text \<open>
  \<open>fopen\<close> for writing truncates the file and for appending keeps it; \<open>fwrite\<close> appends what the
  plan grants; files written now carry the present time.
\<close>

definition c_fopen_w :: "host \<Rightarrow> string \<Rightarrow> host option" where
  "c_fopen_w h nm =
     (if hs_openable h nm then Some (h\<lparr>hs_files := (hs_files h)(nm \<mapsto> ([], hs_time h))\<rparr>)
      else None)"

definition c_fopen_a :: "host \<Rightarrow> string \<Rightarrow> host option" where
  "c_fopen_a h nm =
     (if hs_openable h nm
      then Some (case hs_files h nm of None \<Rightarrow> h\<lparr>hs_files := (hs_files h)(nm \<mapsto> ([], hs_time h))\<rparr>
                 | Some _ \<Rightarrow> h)
      else None)"

definition c_fwrite :: "host \<Rightarrow> string \<Rightarrow> byte list \<Rightarrow> nat \<times> host" where
  "c_fwrite h nm bs =
     (let (io, h) = next_io h;
          n = (case io of None \<Rightarrow> 0 | Some k \<Rightarrow> min k (length bs));
          old = (case hs_files h nm of None \<Rightarrow> [] | Some (c, _) \<Rightarrow> c)
      in (n, h\<lparr>hs_files := (hs_files h)(nm \<mapsto> (old @ take n bs, hs_time h))\<rparr>))"

definition c_unlink :: "host \<Rightarrow> string \<Rightarrow> host" where
  "c_unlink h nm = h\<lparr>hs_files := (hs_files h)(nm := None)\<rparr>"

definition c_utime :: "host \<Rightarrow> string \<Rightarrow> int \<Rightarrow> host" where
  "c_utime h nm t =
     (case hs_files h nm of None \<Rightarrow> h
      | Some (c, _) \<Rightarrow> h\<lparr>hs_files := (hs_files h)(nm \<mapsto> (c, t))\<rparr>)"

text \<open>\<open>fread\<close> of a whole file: \<open>None\<close> when the stream reports an error.\<close>

definition c_fread_all :: "host \<Rightarrow> byte list \<Rightarrow> byte list option \<times> host" where
  "c_fread_all h c =
     (let (io, h) = next_io h in (map_option (\<lambda>k. take k c) io, h))"

definition chars_to_bytes :: "string \<Rightarrow> byte list" where
  "chars_to_bytes s = map (\<lambda>c. of_nat (of_char c)) s"

section \<open>Complete transfers\<close>

text \<open>
  The loops that write or read until everything is moved, or until a transfer fails or makes
  no progress; the result is \<open>GP_OK\<close> or the given error.
\<close>

function write_all :: "host \<Rightarrow> int \<Rightarrow> byte list \<Rightarrow> int \<times> host" where
  "write_all h fd bs =
     (if bs = [] then (GP_OK, h)
      else (case c_write h fd bs of
          (None, h) \<Rightarrow> (GP_ERROR_IO_WRITE, h)
        | (Some n, h) \<Rightarrow> if n = 0 then (GP_ERROR_IO_WRITE, h) else write_all h fd (drop n bs)))"
  by pat_completeness auto
termination by (relation "measure (\<lambda>(_, _, bs). length bs)") auto

function read_all :: "host \<Rightarrow> int \<Rightarrow> nat \<Rightarrow> byte list \<Rightarrow> int \<times> byte list \<times> host" where
  "read_all h fd n acc =
     (if n = 0 then (GP_OK, acc, h)
      else (case c_read h fd n of
          (None, h) \<Rightarrow> (GP_ERROR_IO_READ, acc, h)
        | (Some bs, h) \<Rightarrow>
            if bs = [] then (GP_ERROR_IO_READ, acc, h)
            else read_all h fd (n - length bs) (acc @ bs)))"
  by pat_completeness auto
termination by (relation "measure (\<lambda>(_, _, n, _). n)") auto

declare write_all.simps [simp del] read_all.simps [simp del]

text \<open>A complete write is one file write at the position; a complete read is the next bytes.\<close>

lemma write_all_ok:
  assumes "write_all h fd bs = (r, h')" "hs_fds h fd = Some f" "of_pos f \<le> length (of_bytes f)"
  shows "r = GP_OK \<and> hs_fds h' fd = Some (f\<lparr>of_bytes := file_write (of_bytes f) (of_pos f) bs,
       of_pos := of_pos f + length bs\<rparr>) \<or> r = GP_ERROR_IO_WRITE"
  using assms
proof (induction h fd bs arbitrary: f rule: write_all.induct)
  case (1 h fd bs)
  show ?case
  proof (cases "bs = []")
    case True
    then show ?thesis using "1.prems" by (auto simp: write_all.simps file_write_def)
  next
    case False
    obtain io h1 where w: "c_write h fd bs = (io, h1)" by fastforce
    show ?thesis
    proof (cases "io = None \<or> io = Some 0")
      case True
      with False w "1.prems"(1) show ?thesis by (subst (asm) write_all.simps) auto
    next
      case not0: False
      then obtain n where n: "io = Some n" "n \<noteq> 0" by auto
      define g where "g = f\<lparr>of_bytes := file_write (of_bytes f) (of_pos f) (take n bs),
        of_pos := of_pos f + n\<rparr>"
      have h1: "hs_fds h1 fd = Some g" "n \<le> length bs"
        using w n "1.prems"(2)
        by (auto simp: c_write_def next_io_def Let_def g_def min_def split: option.splits if_splits)
      have fw: "file_write (of_bytes g) (of_pos g) (drop n bs) = file_write (of_bytes f) (of_pos f) bs"
        using file_write_append [of "of_bytes f" "of_pos f" "take n bs" "drop n bs"] h1(2)
        by (simp add: g_def min_absorb2)
      have len: "of_pos g \<le> length (of_bytes g)" "of_pos g + length (drop n bs) = of_pos f + length bs"
        using h1(2) by (simp_all add: g_def length_file_write)
      have "write_all h1 fd (drop n bs) = (r, h')"
        using "1.prems"(1) False w n by (subst (asm) write_all.simps) auto
      from "1.IH" [OF False w [symmetric, unfolded n(1)] refl n(2) this h1(1) len(1)]
      show ?thesis unfolding fw len(2) by (auto simp: g_def)
    qed
  qed
qed

text \<open>A memory that grants every request and a quiet host, for concrete runs.\<close>

definition plain_mem :: mem_env where
  "plain_mem = \<lparr>realloc_ok = (\<lambda>_. True), fresh = (\<lambda>_. 0xaa)\<rparr>"

definition h0 :: host where
  "h0 = \<lparr>hs_fds = (\<lambda>_. None), hs_files = (\<lambda>_. None), hs_openable = (\<lambda>_. True),
     hs_getenv = (\<lambda>_. None), hs_time = 1700000000, hs_io = (\<lambda>_. Some 4096), hs_calls = 0,
     hs_next_fd = 3\<rparr>"

end
