(* ===== verification/CamFile.thy ===== *)
theory CamFile
  imports Host
begin

text \<open>
  \<open>libgphoto2/gphoto2-file.c\<close>: the \<open>CameraFile\<close> objects that carry the pictures, with their
  three kinds of storage (memory, a file descriptor, a handler of the front end). A \<open>file\<close>
  argument \<open>None\<close> is NULL. The data pointer is NULL, a block, or dangling after a \<open>free\<close> that
  left it in place. A result \<open>None\<close> of an operation is undefined behaviour of the C code: an
  access outside a block or array, or through a NULL or dangling pointer. The out-parameters
  are assumed to be valid pointers where the code only checks them for NULL.
\<close>

section \<open>State\<close>

datatype CameraFileAccessType =
  GP_FILE_ACCESSTYPE_MEMORY | GP_FILE_ACCESSTYPE_FD | GP_FILE_ACCESSTYPE_HANDLER

datatype CameraFileType =
  GP_FILE_TYPE_PREVIEW | GP_FILE_TYPE_NORMAL | GP_FILE_TYPE_RAW | GP_FILE_TYPE_AUDIO
  | GP_FILE_TYPE_EXIF | GP_FILE_TYPE_METADATA

datatype block = Null | Block "byte list" | Freed

text \<open>
  The front end's handler works on its private data; \<open>size\<close> and the lengths are in-out
  parameters. A NULL function pointer is \<open>None\<close>.
\<close>

record 'p CameraFileHandler =
  h_size :: "('p \<Rightarrow> u64 \<Rightarrow> (int \<times> u64) \<times> 'p) option"
  h_read :: "('p \<Rightarrow> u64 \<Rightarrow> (int \<times> byte list \<times> u64) \<times> 'p) option"
  h_write :: "('p \<Rightarrow> byte list \<Rightarrow> u64 \<Rightarrow> (int \<times> u64) \<times> 'p) option"

record 'p CameraFile =
  cf_mime_type :: string
  cf_name :: string
  cf_ref_count :: int
  cf_mtime :: int
  cf_accesstype :: CameraFileAccessType
  cf_size :: u64
  cf_data :: block
  cf_offset :: u64
  cf_fd :: int
  cf_handler :: "('p CameraFileHandler \<times> 'p) option"

text \<open>
  The arrays \<open>name [256]\<close> and \<open>mime_type [64]\<close> hold the characters up to their NUL: a full
  array has no terminator, and reading it as a string runs past its end.
\<close>

abbreviation MAX_PATH :: nat where "MAX_PATH \<equiv> 256"
abbreviation MIME_SIZE :: nat where "MIME_SIZE \<equiv> 64"

definition cstring :: "nat \<Rightarrow> string \<Rightarrow> string option" where
  "cstring n s = (if length s < n then Some s else None)"

definition strncpy :: "nat \<Rightarrow> string \<Rightarrow> string" where
  "strncpy n s = take n s"

definition read_block :: "block \<Rightarrow> nat \<Rightarrow> nat \<Rightarrow> byte list option" where
  "read_block b i n =
     (if n = 0 then Some []
      else (case b of Block d \<Rightarrow> if i + n \<le> length d then Some (take n (drop i d)) else None
            | _ \<Rightarrow> None))"

definition c_free :: "block \<Rightarrow> unit option" where
  "c_free b = (if b = Freed then None else Some ())"

section \<open>Creation and reference counts\<close>

text \<open>The first argument tells whether \<open>calloc\<close> succeeds.\<close>

definition empty_file :: "'p CameraFile" where
  "empty_file = \<lparr>cf_mime_type = ''unknown/unknown'', cf_name = [], cf_ref_count = 1, cf_mtime = 0,
     cf_accesstype = GP_FILE_ACCESSTYPE_MEMORY, cf_size = 0, cf_data = Null, cf_offset = 0,
     cf_fd = 0, cf_handler = None\<rparr>"

definition gp_file_new :: "bool \<Rightarrow> int \<times> 'p CameraFile option" where
  "gp_file_new ok = (if ok then (GP_OK, Some empty_file) else (GP_ERROR_NO_MEMORY, None))"

definition gp_file_new_from_fd :: "bool \<Rightarrow> int \<Rightarrow> int \<times> 'p CameraFile option" where
  "gp_file_new_from_fd ok fd =
     (if ok
      then (GP_OK, Some (empty_file\<lparr>cf_accesstype := GP_FILE_ACCESSTYPE_FD, cf_fd := fd\<rparr>))
      else (GP_ERROR_NO_MEMORY, None))"

definition gp_file_new_from_handler ::
  "bool \<Rightarrow> 'p CameraFileHandler \<Rightarrow> 'p \<Rightarrow> int \<times> 'p CameraFile option" where
  "gp_file_new_from_handler ok handler private =
     (if ok
      then (GP_OK, Some (empty_file\<lparr>cf_accesstype := GP_FILE_ACCESSTYPE_HANDLER,
              cf_handler := Some (handler, private)\<rparr>))
      else (GP_ERROR_NO_MEMORY, None))"

definition gp_file_clean :: "'p CameraFile option \<Rightarrow> (int \<times> 'p CameraFile option) option" where
  "gp_file_clean file =
     (case file of
        None \<Rightarrow> Some (GP_ERROR_BAD_PARAMETERS, None)
      | Some f \<Rightarrow>
          (case cf_accesstype f of
             GP_FILE_ACCESSTYPE_MEMORY \<Rightarrow>
               (case c_free (cf_data f) of
                  None \<Rightarrow> None
                | Some _ \<Rightarrow> Some (GP_OK, Some (f\<lparr>cf_data := Null, cf_size := 0, cf_name := []\<rparr>)))
           | _ \<Rightarrow> Some (GP_OK, Some (f\<lparr>cf_name := []\<rparr>))))"

text \<open>After \<open>free\<close> there is no object: the second component is \<open>None\<close>.\<close>

definition gp_file_free ::
  "host \<Rightarrow> 'p CameraFile option \<Rightarrow> (int \<times> 'p CameraFile option \<times> host) option" where
  "gp_file_free h file =
     (case file of
        None \<Rightarrow> Some (GP_ERROR_BAD_PARAMETERS, None, h)
      | Some f \<Rightarrow>
          (case gp_file_clean (Some f) of
             None \<Rightarrow> None
           | Some (r, f') \<Rightarrow>
               if r < 0 then Some (r, f', h)
               else Some (GP_OK, None,
                      if cf_accesstype f = GP_FILE_ACCESSTYPE_FD then c_close h (cf_fd f) else h)))"

definition gp_file_ref :: "'p CameraFile option \<Rightarrow> int \<times> 'p CameraFile option" where
  "gp_file_ref file =
     (case file of
        None \<Rightarrow> (GP_ERROR_BAD_PARAMETERS, None)
      | Some f \<Rightarrow> (GP_OK, Some (f\<lparr>cf_ref_count := cf_ref_count f + 1\<rparr>)))"

definition gp_file_unref ::
  "host \<Rightarrow> 'p CameraFile option \<Rightarrow> (int \<times> 'p CameraFile option \<times> host) option" where
  "gp_file_unref h file =
     (case file of
        None \<Rightarrow> Some (GP_ERROR_BAD_PARAMETERS, None, h)
      | Some f \<Rightarrow>
          (let f = f\<lparr>cf_ref_count := cf_ref_count f - 1\<rparr>
           in if cf_ref_count f = 0
              then (case gp_file_free h (Some f) of
                      None \<Rightarrow> None
                    | Some (r, f', h) \<Rightarrow> if r < 0 then Some (r, f', h) else Some (GP_OK, f', h))
              else Some (GP_OK, Some f, h)))"

text \<open>
  Shared files are objects in a store, addressed by number; \<open>None\<close> in the store is a file that
  was freed, and using it is undefined.
\<close>

type_synonym 'p file_store = "nat \<Rightarrow> 'p CameraFile option"

definition store_ref :: "'p file_store \<Rightarrow> nat \<Rightarrow> 'p file_store option" where
  "store_ref st a =
     (case st a of None \<Rightarrow> None | Some f \<Rightarrow> Some (st(a := snd (gp_file_ref (Some f)))))"

definition store_unref :: "host \<Rightarrow> 'p file_store \<Rightarrow> nat \<Rightarrow> (host \<times> 'p file_store) option" where
  "store_unref h st a =
     (case st a of
        None \<Rightarrow> None
      | Some f \<Rightarrow>
          (case gp_file_unref h (Some f) of
             None \<Rightarrow> None | Some (_, f', h) \<Rightarrow> Some (h, st(a := f'))))"

text \<open>Giving up a reference: the last one frees the file.\<close>

definition drop_ref :: "'p CameraFile \<Rightarrow> 'p CameraFile option" where
  "drop_ref f = (if cf_ref_count f = 1 then None else Some (f\<lparr>cf_ref_count := cf_ref_count f - 1\<rparr>))"

lemma store_unref_ok:
  assumes "st a = Some f" "0 < cf_ref_count f" "cf_data f \<noteq> Freed"
  shows "\<exists>h'. store_unref h st a = Some (h', st(a := drop_ref f))"
  using assms
  by (cases "cf_accesstype f")
     (auto simp: store_unref_def gp_file_unref_def gp_file_free_def gp_file_clean_def c_free_def
        drop_ref_def Let_def)

section \<open>Appending and reading\<close>

text \<open>
  \<open>data\<close> is what the caller's pointer points to (\<open>None\<close>: NULL) and \<open>n\<close> the length passed
  with it. \<open>C_MEM\<close> tests the result of \<open>realloc\<close> only after it was stored.
\<close>

definition source_bytes :: "byte list option \<Rightarrow> nat \<Rightarrow> byte list option" where
  "source_bytes data n =
     (case data of None \<Rightarrow> if n = 0 then Some [] else None
      | Some d \<Rightarrow> if n \<le> length d then Some (take n d) else None)"

definition block_contents :: "block \<Rightarrow> byte list option option" where
  "block_contents b = (case b of Null \<Rightarrow> Some None | Block d \<Rightarrow> Some (Some d) | Freed \<Rightarrow> None)"

definition to_block :: "byte list option \<Rightarrow> block" where
  "to_block d = (case d of None \<Rightarrow> Null | Some d \<Rightarrow> Block d)"

definition gp_file_append ::
  "'m mem_env_scheme \<Rightarrow> host \<Rightarrow> 'p CameraFile option \<Rightarrow> byte list option \<Rightarrow> u64 \<Rightarrow>
   (int \<times> 'p CameraFile option \<times> host) option" where
  "gp_file_append e h file data n =
     (case file of
        None \<Rightarrow> Some (GP_ERROR_BAD_PARAMETERS, None, h)
      | Some f \<Rightarrow>
          (case cf_accesstype f of
             GP_FILE_ACCESSTYPE_MEMORY \<Rightarrow>
               (case block_contents (cf_data f) of
                  None \<Rightarrow> None
                | Some old \<Rightarrow>
                    (case c_realloc e old (unat (cf_size f + n)) of
                       None \<Rightarrow> Some (GP_ERROR_NO_MEMORY, Some (f\<lparr>cf_data := Null\<rparr>), h)
                     | Some d \<Rightarrow>
                         (case source_bytes data (unat n) of
                            None \<Rightarrow> None
                          | Some bs \<Rightarrow>
                              (case mem_write (Some d) (unat (cf_size f)) bs of
                                 None \<Rightarrow> None
                               | Some d \<Rightarrow>
                                   Some (GP_OK, Some (f\<lparr>cf_data := to_block d,
                                     cf_size := cf_size f + n\<rparr>), h)))))
           | GP_FILE_ACCESSTYPE_FD \<Rightarrow>
               (case source_bytes data (unat n) of
                  None \<Rightarrow> None
                | Some bs \<Rightarrow> (let (r, h) = write_all h (cf_fd f) bs in Some (r, file, h)))
           | GP_FILE_ACCESSTYPE_HANDLER \<Rightarrow>
               (case cf_handler f of
                  None \<Rightarrow> None
                | Some (hnd, p) \<Rightarrow>
                    (case h_write hnd of
                       None \<Rightarrow> Some (GP_ERROR_BAD_PARAMETERS, file, h)
                     | Some wr \<Rightarrow>
                         (case source_bytes data (unat n) of
                            None \<Rightarrow> None
                          | Some bs \<Rightarrow>
                              (let ((r, _), p) = wr p bs n
                               in Some (r, Some (f\<lparr>cf_handler := Some (hnd, p)\<rparr>), h)))))))"

text \<open>
  The result of \<open>gp_file_slurp\<close>: the code, the bytes stored behind \<open>data\<close>, and the value of
  \<open>*readlen\<close> when it was set. \<open>has_readlen\<close> tells whether \<open>readlen\<close> is a valid pointer; the
  handler branch writes through it unchecked.
\<close>

definition gp_file_slurp ::
  "host \<Rightarrow> 'p CameraFile option \<Rightarrow> u64 \<Rightarrow> bool \<Rightarrow>
   (int \<times> byte list \<times> u64 option \<times> 'p CameraFile option \<times> host) option" where
  "gp_file_slurp h file n has_readlen =
     (case file of
        None \<Rightarrow> Some (GP_ERROR_BAD_PARAMETERS, [], None, None, h)
      | Some f \<Rightarrow>
          (case cf_accesstype f of
             GP_FILE_ACCESSTYPE_MEMORY \<Rightarrow>
               (let n = (if cf_size f - cf_offset f < n then cf_size f - cf_offset f else n)
                in case read_block (cf_data f) (unat (cf_offset f)) (unat n) of
                     None \<Rightarrow> None
                   | Some bs \<Rightarrow>
                       Some (GP_OK, bs, if has_readlen then Some n else None,
                         Some (f\<lparr>cf_offset := cf_offset f + n\<rparr>), h))
           | GP_FILE_ACCESSTYPE_FD \<Rightarrow>
               (let (r, bs, h) = read_all h (cf_fd f) (unat n) []
                in Some (r, bs,
                     if has_readlen \<and> bs \<noteq> [] then Some (of_nat (length bs)) else None, file, h))
           | GP_FILE_ACCESSTYPE_HANDLER \<Rightarrow>
               (case cf_handler f of
                  None \<Rightarrow> None
                | Some (hnd, p) \<Rightarrow>
                    (case h_read hnd of
                       None \<Rightarrow> Some (GP_ERROR_BAD_PARAMETERS, [], None, file, h)
                     | Some rd \<Rightarrow>
                         (let ((r, bs, len), p) = rd p n
                          in if \<not> has_readlen \<or> unat n < length bs then None
                             else Some (r, bs, Some len, Some (f\<lparr>cf_handler := Some (hnd, p)\<rparr>), h))))))"

section \<open>Setting and getting the whole contents\<close>

text \<open>
  The write loop of \<open>gp_file_set_data_and_size\<close> counts in an \<open>unsigned int\<close> and compares it
  with an \<open>unsigned long\<close>.
\<close>

partial_function (option) set_data_loop ::
  "host \<Rightarrow> int \<Rightarrow> byte list \<Rightarrow> u64 \<Rightarrow> u32 \<Rightarrow> (int \<times> host) option" where
  "set_data_loop h fd d nbytes curwritten =
     (if ucast curwritten < nbytes
      then (case c_write h fd (take (unat (nbytes - ucast curwritten)) (drop (unat curwritten) d)) of
          (None, h) \<Rightarrow> Some (GP_ERROR_IO_WRITE, h)
        | (Some n, h) \<Rightarrow>
            if n = 0 then Some (GP_ERROR_IO_WRITE, h)
            else set_data_loop h fd d nbytes (curwritten + of_nat n))
      else Some (GP_OK, h))"

definition gp_file_set_data_and_size ::
  "host \<Rightarrow> 'p CameraFile option \<Rightarrow> byte list option \<Rightarrow> u64 \<Rightarrow>
   (int \<times> 'p CameraFile option \<times> host) option" where
  "gp_file_set_data_and_size h file data nbytes =
     (case file of
        None \<Rightarrow> Some (GP_ERROR_BAD_PARAMETERS, None, h)
      | Some f \<Rightarrow>
          (case cf_accesstype f of
             GP_FILE_ACCESSTYPE_MEMORY \<Rightarrow>
               (case c_free (cf_data f) of
                  None \<Rightarrow> None
                | Some _ \<Rightarrow>
                    Some (GP_OK, Some (f\<lparr>cf_data := to_block data, cf_size := nbytes\<rparr>), h))
           | GP_FILE_ACCESSTYPE_FD \<Rightarrow>
               (case source_bytes data (unat nbytes) of
                  None \<Rightarrow> None
                | Some bs \<Rightarrow>
                    (let (_, h) = c_lseek h (cf_fd f) 0 SEEK_SET;
                         h = c_truncate h (cf_fd f)
                     in case set_data_loop h (cf_fd f) bs nbytes 0 of
                          None \<Rightarrow> None
                        | Some (r, h) \<Rightarrow> Some (r, file, h)))
           | GP_FILE_ACCESSTYPE_HANDLER \<Rightarrow>
               (case cf_handler f of
                  None \<Rightarrow> None
                | Some (hnd, p) \<Rightarrow>
                    (case h_write hnd of
                       None \<Rightarrow> Some (GP_ERROR_BAD_PARAMETERS, file, h)
                     | Some wr \<Rightarrow>
                         (case source_bytes data (unat nbytes) of
                            None \<Rightarrow> None
                          | Some bs \<Rightarrow>
                              (let ((r, _), p) = wr p bs nbytes
                               in Some (r, Some (f\<lparr>cf_handler := Some (hnd, p)\<rparr>), h)))))))"

text \<open>
  The result of \<open>gp_file_get_data_and_size\<close>: the code and what \<open>*data\<close> and \<open>*size\<close> were set
  to. \<open>want_data\<close> and \<open>want_size\<close> tell which out-parameters are not NULL. A block that was
  freed again after a failed read is still in \<open>*data\<close>.
\<close>

definition gp_file_get_data_and_size ::
  "'m mem_env_scheme \<Rightarrow> host \<Rightarrow> 'p CameraFile option \<Rightarrow> bool \<Rightarrow> bool \<Rightarrow>
   (int \<times> block option \<times> u64 option \<times> 'p CameraFile option \<times> host) option" where
  "gp_file_get_data_and_size e h file want_data want_size =
     (case file of
        None \<Rightarrow> Some (GP_ERROR_BAD_PARAMETERS, None, None, None, h)
      | Some f \<Rightarrow>
          (case cf_accesstype f of
             GP_FILE_ACCESSTYPE_MEMORY \<Rightarrow>
               Some (GP_OK, if want_data then Some (cf_data f) else None,
                 if want_size then Some (cf_size f) else None, file, h)
           | GP_FILE_ACCESSTYPE_FD \<Rightarrow>
               (let (e1, h1) = c_lseek h (cf_fd f) 0 SEEK_END
                in if e1 = None \<and> hs_fds h (cf_fd f) = None
                   then Some (GP_ERROR_IO, None, None, file, h1)
                   else
                     (let (off, h2) = c_lseek h1 (cf_fd f) 0 SEEK_CUR
                      in case off of
                           None \<Rightarrow> Some (GP_ERROR_IO_READ, None, None, file, h2)
                         | Some offset \<Rightarrow>
                             (let (e3, h3) = c_lseek h2 (cf_fd f) 0 SEEK_SET;
                                  nbytes = (if want_size then Some (of_nat offset) else None)
                              in if e3 = None then Some (GP_ERROR_IO_READ, None, None, file, h3)
                                 else if \<not> want_data then Some (GP_OK, None, nbytes, file, h3)
                                 else if \<not> realloc_ok e offset
                                 then Some (GP_ERROR_NO_MEMORY, Some Null, nbytes, file, h3)
                                 else
                                   (let (r, bs, h4) = read_all h3 (cf_fd f) offset []
                                    in Some (r, Some (if r < GP_OK then Freed else Block bs), nbytes,
                                         file, h4)))))
           | GP_FILE_ACCESSTYPE_HANDLER \<Rightarrow>
               (case cf_handler f of
                  None \<Rightarrow> None
                | Some (hnd, p) \<Rightarrow>
                    (case h_read hnd of
                       None \<Rightarrow> Some (GP_ERROR_BAD_PARAMETERS, None, None, file, h)
                     | Some rd \<Rightarrow>
                         (case h_size hnd of
                            None \<Rightarrow> None
                          | Some sz \<Rightarrow>
                              (let ((r, xsize), p) = sz p 0;
                                   file = Some (f\<lparr>cf_handler := Some (hnd, p)\<rparr>)
                               in if r \<noteq> GP_OK then Some (r, None, None, file, h)
                                  else
                                    (let nbytes = (if want_size then Some xsize else None)
                                     in if \<not> want_data then Some (GP_OK, None, nbytes, file, h)
                                        else if \<not> realloc_ok e (unat xsize)
                                        then Some (GP_ERROR_NO_MEMORY, Some Null, nbytes, file, h)
                                        else
                                          (let ((r, bs, _), p) = rd p xsize;
                                               file = Some (f\<lparr>cf_handler := Some (hnd, p)\<rparr>)
                                           in if unat xsize < length bs then None
                                              else if r \<noteq> GP_OK then Some (r, Some Null, nbytes, file, h)
                                              else Some (r, Some (Block (take (unat xsize)
                                                     (bs @ map (fresh e) [length bs..<unat xsize]))),
                                                     nbytes, file, h)))))))))"

section \<open>The capture ledger\<close>

text \<open>
  \<open>polaris_capture_event\<close>: a JPEG saved below the media root gets a row in the ledger file.
\<close>

definition int_dec :: "int \<Rightarrow> string" where
  "int_dec n = (if n < 0 then CHR ''-'' # dec (nat (- n)) else dec (nat n))"

definition getenv_or :: "host \<Rightarrow> string \<Rightarrow> string \<Rightarrow> string" where
  "getenv_or h v dflt =
     (case hs_getenv h v of None \<Rightarrow> dflt | Some s \<Rightarrow> if s = [] then dflt else s)"

definition strcasecmp_eq :: "string \<Rightarrow> string \<Rightarrow> bool" where
  "strcasecmp_eq a b \<longleftrightarrow> map tolower a = map tolower b"

definition event_row :: "int \<Rightarrow> string \<Rightarrow> byte list \<times> int \<Rightarrow> string" where
  "event_row now filename st =
     int_dec now @ CHR 0x09 # filename @ CHR 0x09 # dec (length (fst st)) @ CHR 0x09 #
     int_dec (snd st) @ [CHR 0x0A]"

definition event_wanted :: "host \<Rightarrow> string \<Rightarrow> bool" where
  "event_wanted h filename \<longleftrightarrow>
     (let media_root = getenv_or h ''POLARIS_CAPTURE_EVENT_MEDIA_ROOT'' ''/app/sd/''
      in last media_root = CHR ''/'' \<and> take (length media_root) filename = media_root \<and>
         (case strrchr filename (CHR ''.'') of
            None \<Rightarrow> False
          | Some i \<Rightarrow> strcasecmp_eq (drop i filename) ''.jpg'' \<or>
                     strcasecmp_eq (drop i filename) ''.jpeg'') \<and>
         CHR 0x09 \<notin> set filename \<and> CHR 0x0D \<notin> set filename \<and> CHR 0x0A \<notin> set filename)"

definition polaris_capture_event :: "host \<Rightarrow> string \<Rightarrow> host" where
  "polaris_capture_event h filename =
     (if \<not> event_wanted h filename then h
      else case hs_files h filename of
          None \<Rightarrow> h
        | Some st \<Rightarrow>
            (let ledger = getenv_or h ''POLARIS_CAPTURE_EVENT_LEDGER''
                            ''/app/sd/polaris-astro/capture-events.tsv''
             in case c_fopen_a h ledger of
                  None \<Rightarrow> h
                | Some h1 \<Rightarrow>
                    snd (c_fwrite h1 ledger (chars_to_bytes (event_row (hs_time h) filename st)))))"

section \<open>Saving and opening\<close>

text \<open>The copy loop of \<open>gp_file_save\<close> for descriptor files, in chunks of 65536 bytes.\<close>

function save_chunks :: "host \<Rightarrow> int \<Rightarrow> string \<Rightarrow> nat \<Rightarrow> int \<times> host" where
  "save_chunks h fd filename left =
     (if left = 0 then (GP_OK, h)
      else (case c_read h fd (min 65536 left) of
          (None, h) \<Rightarrow> (GP_ERROR_IO_READ, c_unlink h filename)
        | (Some bs, h) \<Rightarrow>
            if bs = [] then (GP_ERROR_IO_READ, c_unlink h filename)
            else
              (let (n, h) = c_fwrite h filename bs
               in if n \<noteq> length bs then (GP_ERROR, c_unlink h filename)
                  else save_chunks h fd filename (left - length bs))))"
  by pat_completeness auto
termination by (relation "measure (\<lambda>(_, _, _, left). left)") auto

declare save_chunks.simps [simp del]

definition save_finish :: "'p CameraFile \<Rightarrow> host \<Rightarrow> string \<Rightarrow> int \<times> host" where
  "save_finish f h filename =
     (let h = (if cf_mtime f \<noteq> 0 then c_utime h filename (cf_mtime f) else h)
      in (GP_OK, polaris_capture_event h filename))"

definition gp_file_save ::
  "'m mem_env_scheme \<Rightarrow> host \<Rightarrow> 'p CameraFile option \<Rightarrow> string option \<Rightarrow> (int \<times> host) option" where
  "gp_file_save e h file filename =
     (case (file, filename) of
        (Some f, Some nm) \<Rightarrow>
          (case cf_accesstype f of
             GP_FILE_ACCESSTYPE_MEMORY \<Rightarrow>
               (case c_fopen_w h nm of
                  None \<Rightarrow> Some (GP_ERROR, h)
                | Some h \<Rightarrow>
                    (case read_block (cf_data f) 0 (unat (cf_size f)) of
                       None \<Rightarrow> None
                     | Some bs \<Rightarrow>
                         (let (n, h) = c_fwrite h nm bs
                          in if n \<noteq> length bs then Some (GP_ERROR, c_unlink h nm)
                             else Some (save_finish f h nm))))
           | GP_FILE_ACCESSTYPE_FD \<Rightarrow>
               (let (e1, h) = c_lseek h (cf_fd f) 0 SEEK_END
                in if e1 = None then Some (GP_ERROR_IO, h)
                   else
                     (let (off, h) = c_lseek h (cf_fd f) 0 SEEK_CUR
                      in case off of
                           None \<Rightarrow> Some (GP_ERROR_IO_READ, h)
                         | Some offset \<Rightarrow>
                             (let (e3, h) = c_lseek h (cf_fd f) 0 SEEK_SET
                              in if e3 = None then Some (GP_ERROR_IO_READ, h)
                                 else if \<not> realloc_ok e 65536 then Some (GP_ERROR_NO_MEMORY, h)
                                 else
                                   (case c_fopen_w h nm of
                                      None \<Rightarrow> Some (GP_ERROR, h)
                                    | Some h \<Rightarrow>
                                        (let (r, h) = save_chunks h (cf_fd f) nm offset
                                         in if r < GP_OK then Some (r, h)
                                            else Some (save_finish f h nm))))))
           | GP_FILE_ACCESSTYPE_HANDLER \<Rightarrow> Some (GP_ERROR, h))
      | _ \<Rightarrow> Some (GP_ERROR_BAD_PARAMETERS, h))"

abbreviation "GP_MIME_TXT \<equiv> ''text/plain''"
abbreviation "GP_MIME_WAV \<equiv> ''audio/wav''"
abbreviation "GP_MIME_RAW \<equiv> ''image/x-raw''"
abbreviation "GP_MIME_PNG \<equiv> ''image/png''"
abbreviation "GP_MIME_PGM \<equiv> ''image/x-portable-graymap''"
abbreviation "GP_MIME_PPM \<equiv> ''image/x-portable-pixmap''"
abbreviation "GP_MIME_PNM \<equiv> ''image/x-portable-anymap''"
abbreviation "GP_MIME_JPEG \<equiv> ''image/jpeg''"
abbreviation "GP_MIME_TIFF \<equiv> ''image/tiff''"
abbreviation "GP_MIME_BMP \<equiv> ''image/bmp''"
abbreviation "GP_MIME_QTKN \<equiv> ''image/qtkn''"
abbreviation "GP_MIME_QTKT \<equiv> ''image/qtkt''"
abbreviation "GP_MIME_AVI \<equiv> ''video/x-msvideo''"
abbreviation "GP_MIME_CRW \<equiv> ''image/x-canon-raw''"
abbreviation "GP_MIME_CR2 \<equiv> ''image/x-canon-cr2''"
abbreviation "GP_MIME_CR3 \<equiv> ''image/x-canon-cr3''"
abbreviation "GP_MIME_NEF \<equiv> ''image/x-nikon-nef''"
abbreviation "GP_MIME_UNKNOWN \<equiv> ''application/octet-stream''"
abbreviation "GP_MIME_MP3 \<equiv> ''audio/mpeg''"
abbreviation "GP_MIME_OGG \<equiv> ''application/ogg''"
abbreviation "GP_MIME_WMA \<equiv> ''audio/x-wma''"
abbreviation "GP_MIME_ASF \<equiv> ''audio/x-asf''"
abbreviation "GP_MIME_MPEG \<equiv> ''video/mpeg''"
abbreviation "GP_MIME_AVCHD \<equiv> ''video/mp2t''"
abbreviation "GP_MIME_ARW \<equiv> ''image/x-sony-arw''"
abbreviation "GP_MIME_RAF \<equiv> ''image/x-fuji-raf''"
abbreviation "GP_MIME_DNG \<equiv> ''image/x-adobe-dng''"

definition mime_table :: "(string \<times> string) list" where
  "mime_table =
     [(''bmp'', GP_MIME_BMP), (''jpg'', GP_MIME_JPEG), (''tif'', GP_MIME_TIFF),
      (''ppm'', GP_MIME_PPM), (''pgm'', GP_MIME_PGM), (''pnm'', GP_MIME_PNM),
      (''png'', GP_MIME_PNG), (''wav'', GP_MIME_WAV), (''avi'', GP_MIME_AVI),
      (''mp3'', GP_MIME_MP3), (''wma'', GP_MIME_WMA), (''asf'', GP_MIME_ASF),
      (''ogg'', GP_MIME_OGG), (''mpg'', GP_MIME_MPEG), (''raw'', GP_MIME_RAW),
      (''mts'', GP_MIME_AVCHD), (''m2ts'', GP_MIME_AVCHD), (''arw'', GP_MIME_ARW),
      (''raf'', GP_MIME_RAF), (''txt'', GP_MIME_TXT), (''qtk'', GP_MIME_QTKT),
      (''qtk'', GP_MIME_QTKN), (''dng'', GP_MIME_DNG)]"

text \<open>
  The MIME type from the name: \<open>None\<close> when \<open>sprintf\<close> overruns the array. The suffix starts at
  the last dot of the whole path.
\<close>

definition mime_of_filename :: "string \<Rightarrow> string option" where
  "mime_of_filename filename =
     (case strrchr filename (CHR ''.'') of
        None \<Rightarrow> Some (strncpy MIME_SIZE GP_MIME_UNKNOWN)
      | Some dot \<Rightarrow>
          (let suffix = drop (Suc dot) filename
           in case find (\<lambda>(x, _). strcasecmp_eq x suffix) mime_table of
                Some (_, t) \<Rightarrow> Some (strncpy MIME_SIZE t)
              | None \<Rightarrow>
                  (let t = ''image/'' @ suffix
                   in if length t < MIME_SIZE then Some t else None)))"

definition path_basename :: "string \<Rightarrow> string" where
  "path_basename filename =
     (case strrchr filename (CHR ''/'') of None \<Rightarrow> filename | Some i \<Rightarrow> drop (Suc i) filename)"

definition open_finish ::
  "'p CameraFile \<Rightarrow> host \<Rightarrow> string \<Rightarrow> (int \<times> 'p CameraFile option \<times> host) option" where
  "open_finish f h filename =
     (case mime_of_filename filename of
        None \<Rightarrow> None
      | Some t \<Rightarrow>
          Some (GP_OK, Some (f\<lparr>cf_name := strncpy MAX_PATH (path_basename filename),
            cf_mime_type := t,
            cf_mtime := (case hs_files h filename of Some (_, m) \<Rightarrow> m | None \<Rightarrow> hs_time h)\<rparr>), h))"

definition gp_file_open ::
  "'m mem_env_scheme \<Rightarrow> host \<Rightarrow> 'p CameraFile option \<Rightarrow> string option \<Rightarrow>
   (int \<times> 'p CameraFile option \<times> host) option" where
  "gp_file_open e h file filename =
     (case (file, filename) of
        (Some f, Some nm) \<Rightarrow>
          (case gp_file_clean (Some f) of
             None \<Rightarrow> None
           | Some (_, None) \<Rightarrow> None
           | Some (_, Some f) \<Rightarrow>
               (case hs_files h nm of
                  None \<Rightarrow> Some (GP_ERROR, Some f, h)
                | Some (c, m) \<Rightarrow>
                    if \<not> hs_openable h nm then Some (GP_ERROR, Some f, h)
                    else
                      (case cf_accesstype f of
                         GP_FILE_ACCESSTYPE_MEMORY \<Rightarrow>
                           (case c_realloc e None (length c + 1) of
                              None \<Rightarrow> Some (GP_ERROR_NO_MEMORY, Some f, h)
                            | Some d \<Rightarrow>
                                (let (rd, h) = c_fread_all h c
                                 in case rd of
                                      None \<Rightarrow>
                                        (case gp_file_clean (Some (f\<lparr>cf_data := Block d\<rparr>)) of
                                           None \<Rightarrow> None
                                         | Some (_, f) \<Rightarrow> Some (GP_ERROR, f, h))
                                    | Some bs \<Rightarrow>
                                        open_finish (f\<lparr>cf_data := Block (bs @ 0 # drop (length bs + 1) d),
                                            cf_size := of_nat (length bs)\<rparr>) h nm))
                       | GP_FILE_ACCESSTYPE_FD \<Rightarrow>
                           if cf_fd f = - 1
                           then open_finish (f\<lparr>cf_fd := hs_next_fd h\<rparr>)
                                  (h\<lparr>hs_fds := (hs_fds h)(hs_next_fd h \<mapsto>
                                       \<lparr>of_bytes = c, of_pos = 0, of_seekable = True\<rparr>),
                                     hs_next_fd := hs_next_fd h + 1\<rparr>) nm
                           else Some (GP_ERROR, Some f, h)
                       | GP_FILE_ACCESSTYPE_HANDLER \<Rightarrow> open_finish f h nm)))
      | _ \<Rightarrow> Some (GP_ERROR_BAD_PARAMETERS, file, h))"

section \<open>Copying\<close>

text \<open>
  Descriptor to descriptor: blocks of 65536 bytes until a short one. A write without
  progress ends the block silently.
\<close>

function copy_block :: "host \<Rightarrow> int \<Rightarrow> byte list \<Rightarrow> int \<times> host" where
  "copy_block h fd bs =
     (if bs = [] then (GP_OK, h)
      else (case c_write h fd bs of
          (None, h) \<Rightarrow> (GP_ERROR_IO_WRITE, h)
        | (Some n, h) \<Rightarrow> if n = 0 then (GP_OK, h) else copy_block h fd (drop n bs)))"
  by pat_completeness auto
termination by (relation "measure (\<lambda>(_, _, bs). length bs)") auto

declare copy_block.simps [simp del]

partial_function (option) copy_fd_loop :: "host \<Rightarrow> int \<Rightarrow> int \<Rightarrow> (int \<times> host) option" where
  "copy_fd_loop h dst src =
     (case c_read h src 65536 of
        (None, h) \<Rightarrow> Some (GP_ERROR_IO_READ, h)
      | (Some bs, h) \<Rightarrow>
          if bs = [] then Some (GP_OK, h)
          else
            (let (r, h) = copy_block h dst bs
             in if r < GP_OK then Some (r, h)
                else if length bs < 65536 then Some (GP_OK, h)
                else copy_fd_loop h dst src))"

text \<open>Memory to handler: the handler reports through \<open>tmpsize\<close> how much it took.\<close>

partial_function (option) copy_handler_loop ::
  "('p \<Rightarrow> byte list \<Rightarrow> u64 \<Rightarrow> (int \<times> u64) \<times> 'p) option \<Rightarrow> 'p \<Rightarrow> byte list \<Rightarrow> u64 \<Rightarrow> u64 \<Rightarrow>
   (int \<times> 'p) option" where
  "copy_handler_loop wr p d nbytes curwritten =
     (if curwritten < nbytes
      then (case wr of
          None \<Rightarrow> None
        | Some w \<Rightarrow>
            (let ((res, tmpsize), p) = w p (drop (unat curwritten) d) (nbytes - curwritten)
             in if res < GP_OK then Some (res, p)
                else if tmpsize = 0 then Some (GP_ERROR_IO_WRITE, p)
                else copy_handler_loop wr p d nbytes (curwritten + tmpsize)))
      else Some (GP_OK, p))"

definition gp_file_copy ::
  "'m mem_env_scheme \<Rightarrow> host \<Rightarrow> 'p CameraFile option \<Rightarrow> 'p CameraFile option \<Rightarrow>
   (int \<times> 'p CameraFile option \<times> host) option" where
  "gp_file_copy e h destination source =
     (case (destination, source) of
        (Some d0, Some s) \<Rightarrow>
          (let d = d0\<lparr>cf_name := cf_name s, cf_mime_type := cf_mime_type s, cf_mtime := cf_mtime s\<rparr>
           in case (cf_accesstype d, cf_accesstype s) of
                (GP_FILE_ACCESSTYPE_MEMORY, GP_FILE_ACCESSTYPE_MEMORY) \<Rightarrow>
                  (case c_free (cf_data d) of
                     None \<Rightarrow> None
                   | Some _ \<Rightarrow>
                       (let d = d\<lparr>cf_data := Null, cf_size := cf_size s\<rparr>
                        in if \<not> realloc_ok e (unat (cf_size s))
                           then Some (GP_ERROR_NO_MEMORY, Some d, h)
                           else (case read_block (cf_data s) 0 (unat (cf_size s)) of
                               None \<Rightarrow> None
                             | Some bs \<Rightarrow> Some (GP_OK, Some (d\<lparr>cf_data := Block bs\<rparr>), h))))
              | (GP_FILE_ACCESSTYPE_MEMORY, GP_FILE_ACCESSTYPE_FD) \<Rightarrow>
                  (case c_free (cf_data d) of
                     None \<Rightarrow> None
                   | Some _ \<Rightarrow>
                       (let d = d\<lparr>cf_data := Null\<rparr>;
                            (e1, h1) = c_lseek h (cf_fd s) 0 SEEK_END
                        in if e1 = None \<and> hs_fds h (cf_fd s) = None
                           then Some (GP_ERROR_IO, Some d, h1)
                           else
                             (let (off, h2) = c_lseek h1 (cf_fd s) 0 SEEK_CUR
                              in case off of
                                   None \<Rightarrow> Some (GP_ERROR_IO_READ, Some d, h2)
                                 | Some offset \<Rightarrow>
                                     (let (e3, h3) = c_lseek h2 (cf_fd s) 0 SEEK_SET;
                                          d' = d\<lparr>cf_size := of_nat offset\<rparr>
                                      in if e3 = None then Some (GP_ERROR_IO_READ, Some d, h3)
                                         else if \<not> realloc_ok e offset
                                         then Some (GP_ERROR_NO_MEMORY, Some d', h3)
                                         else
                                           (let (r, bs, h4) = read_all h3 (cf_fd s) offset []
                                            in Some (r, Some (d'\<lparr>cf_data :=
                                                 (if r < GP_OK then Freed else Block bs)\<rparr>), h4))))))
              | (GP_FILE_ACCESSTYPE_FD, GP_FILE_ACCESSTYPE_FD) \<Rightarrow>
                  (let (_, h) = c_lseek h (cf_fd d) 0 SEEK_SET;
                       h = c_truncate h (cf_fd d);
                       (_, h) = c_lseek h (cf_fd s) 0 SEEK_SET
                   in if \<not> realloc_ok e 65536 then Some (GP_ERROR_NO_MEMORY, Some d, h)
                      else (case copy_fd_loop h (cf_fd d) (cf_fd s) of
                          None \<Rightarrow> None
                        | Some (r, h) \<Rightarrow> Some (r, Some d, h)))
              | (GP_FILE_ACCESSTYPE_FD, GP_FILE_ACCESSTYPE_MEMORY) \<Rightarrow>
                  (case read_block (cf_data s) 0 (unat (cf_size s)) of
                     None \<Rightarrow> None
                   | Some bs \<Rightarrow> (let (r, h) = write_all h (cf_fd d) bs in Some (r, Some d, h)))
              | (GP_FILE_ACCESSTYPE_HANDLER, GP_FILE_ACCESSTYPE_MEMORY) \<Rightarrow>
                  (case (cf_handler d, read_block (cf_data s) 0 (unat (cf_size s))) of
                     (Some (hnd, p), Some bs) \<Rightarrow>
                       (case h_size hnd of
                          None \<Rightarrow> None
                        | Some sz \<Rightarrow>
                            (case copy_handler_loop (h_write hnd) (snd (sz p (cf_size s))) bs
                                    (cf_size s) 0 of
                               None \<Rightarrow> None
                             | Some (r, p) \<Rightarrow> Some (r, Some (d\<lparr>cf_handler := Some (hnd, p)\<rparr>), h)))
                   | _ \<Rightarrow> None)
              | _ \<Rightarrow> Some (GP_ERROR, Some d, h))
      | _ \<Rightarrow> Some (GP_ERROR_BAD_PARAMETERS, destination, h))"

section \<open>Names, MIME types and times\<close>

definition gp_file_get_name :: "'p CameraFile option \<Rightarrow> int \<times> string option" where
  "gp_file_get_name file =
     (case file of None \<Rightarrow> (GP_ERROR_BAD_PARAMETERS, None) | Some f \<Rightarrow> (GP_OK, Some (cf_name f)))"

definition type_prefix :: "CameraFileType \<Rightarrow> string" where
  "type_prefix ty =
     (case ty of GP_FILE_TYPE_RAW \<Rightarrow> ''raw_'' | GP_FILE_TYPE_EXIF \<Rightarrow> ''exif_''
      | GP_FILE_TYPE_PREVIEW \<Rightarrow> ''thumb_'' | GP_FILE_TYPE_METADATA \<Rightarrow> ''meta_''
      | GP_FILE_TYPE_AUDIO \<Rightarrow> ''audio_'' | GP_FILE_TYPE_NORMAL \<Rightarrow> [])"

text \<open>
  The new name is built in a buffer of exactly the computed length; the first argument tells
  whether its allocation succeeds. Comparing the pointers of a dot and a slash that were not
  found (NULL) behaves like positions below every found one.
\<close>

definition gp_file_get_name_by_type ::
  "bool \<Rightarrow> 'p CameraFile option \<Rightarrow> string option \<Rightarrow> CameraFileType \<Rightarrow>
   (int \<times> string option) option" where
  "gp_file_get_name_by_type ok file basename ty =
     (case (file, basename) of
        (Some f, Some b) \<Rightarrow>
          if ty = GP_FILE_TYPE_NORMAL \<and> strchr b (CHR ''.'') \<noteq> None
          then Some (if ok then (GP_OK, Some b) else (GP_ERROR_NO_MEMORY, None))
          else
            (case cstring MIME_SIZE (cf_mime_type f) of
               None \<Rightarrow> None
             | Some mime \<Rightarrow>
                 (let suffix = map_option fst (find (\<lambda>(_, t). t = mime) mime_table);
                      slash = strrchr b (CHR ''/'');
                      s = (case (slash, strrchr b (CHR ''.'')) of
                             (Some i, Some j) \<Rightarrow> if j < i then None else Some j
                           | (_, dot) \<Rightarrow> dot);
                      prefix = type_prefix ty;
                      new = (case s of
                          Some s \<Rightarrow>
                            (let suffix = (case suffix of None \<Rightarrow> drop (Suc s) b | Some x \<Rightarrow> x);
                                 front = (case slash of
                                     Some i \<Rightarrow> take (Suc i) b @ prefix @ take (s - i + 1) (drop (Suc i) b)
                                   | None \<Rightarrow> prefix @ take (Suc s) b)
                             in take (length prefix + s + 1) front @ suffix)
                        | None \<Rightarrow>
                            (let suffix = (case suffix of None \<Rightarrow> [] | Some x \<Rightarrow> x);
                                 front = (case slash of
                                     Some i \<Rightarrow> take (Suc i) b @ prefix @ drop (Suc i) b
                                   | None \<Rightarrow> prefix @ b)
                             in if suffix = [] then front else front @ CHR ''.'' # suffix))
                  in Some (if ok then (GP_OK, Some new) else (GP_ERROR_NO_MEMORY, None))))
      | _ \<Rightarrow> Some (GP_ERROR_BAD_PARAMETERS, None))"

definition gp_file_get_mime_type :: "'p CameraFile option \<Rightarrow> int \<times> string option" where
  "gp_file_get_mime_type file =
     (case file of None \<Rightarrow> (GP_ERROR_BAD_PARAMETERS, None)
      | Some f \<Rightarrow> (GP_OK, Some (cf_mime_type f)))"

definition gp_file_set_name ::
  "'p CameraFile option \<Rightarrow> string option \<Rightarrow> int \<times> 'p CameraFile option" where
  "gp_file_set_name file name =
     (case (file, name) of
        (Some f, Some n) \<Rightarrow> (GP_OK, Some (f\<lparr>cf_name := strncpy MAX_PATH n\<rparr>))
      | _ \<Rightarrow> (GP_ERROR_BAD_PARAMETERS, file))"

definition gp_file_set_mime_type ::
  "'p CameraFile option \<Rightarrow> string option \<Rightarrow> int \<times> 'p CameraFile option" where
  "gp_file_set_mime_type file mime_type =
     (case (file, mime_type) of
        (Some f, Some t) \<Rightarrow> (GP_OK, Some (f\<lparr>cf_mime_type := strncpy MIME_SIZE t\<rparr>))
      | _ \<Rightarrow> (GP_ERROR_BAD_PARAMETERS, file))"

definition TIFF_SOI_MARKER :: "byte list" where
  "TIFF_SOI_MARKER = [0x49, 0x49, 0x2A, 0x00, 0x08]"

definition JPEG_SOI_MARKER :: "byte list" where
  "JPEG_SOI_MARKER = [0xFF, 0xD8]"

text \<open>The decision on the first bytes; \<open>n\<close> of them are there.\<close>

definition detect_from :: "block \<Rightarrow> nat \<Rightarrow> string option" where
  "detect_from b n =
     (let tiff = (if 5 \<le> n then map_option (\<lambda>x. x = TIFF_SOI_MARKER) (read_block b 0 5)
                  else Some False);
          jpeg = (if 2 \<le> n then map_option (\<lambda>x. x = JPEG_SOI_MARKER) (read_block b 0 2)
                  else Some False)
      in case tiff of
           None \<Rightarrow> None
         | Some True \<Rightarrow> Some GP_MIME_TIFF
         | Some False \<Rightarrow>
             (case jpeg of None \<Rightarrow> None | Some True \<Rightarrow> Some GP_MIME_JPEG
              | Some False \<Rightarrow> Some GP_MIME_RAW))"

definition gp_file_detect_mime_type ::
  "host \<Rightarrow> 'p CameraFile option \<Rightarrow> (int \<times> 'p CameraFile option \<times> host) option" where
  "gp_file_detect_mime_type h file =
     (case file of
        None \<Rightarrow> Some (GP_ERROR_BAD_PARAMETERS, None, h)
      | Some f \<Rightarrow>
          (case cf_accesstype f of
             GP_FILE_ACCESSTYPE_MEMORY \<Rightarrow>
               (case detect_from (cf_data f) (unat (cf_size f)) of
                  None \<Rightarrow> None
                | Some t \<Rightarrow> Some (GP_OK, snd (gp_file_set_mime_type file (Some t)), h))
           | GP_FILE_ACCESSTYPE_FD \<Rightarrow>
               (let (offset, h) = c_lseek h (cf_fd f) 0 SEEK_SET;
                    (res, h) = c_read h (cf_fd f) 5
                in case res of
                     None \<Rightarrow> Some (GP_ERROR_IO_READ, file, h)
                   | Some bs \<Rightarrow>
                       (case detect_from (Block bs) (length bs) of
                          None \<Rightarrow> None
                        | Some t \<Rightarrow>
                            Some (GP_OK, snd (gp_file_set_mime_type file (Some t)),
                              (case offset of None \<Rightarrow> h
                               | Some off \<Rightarrow> snd (c_lseek h (cf_fd f) off SEEK_SET)))))
           | GP_FILE_ACCESSTYPE_HANDLER \<Rightarrow> Some (GP_OK, file, h)))"

definition adjust_table :: "(string \<times> string) list" where
  "adjust_table =
     [(GP_MIME_RAW, ''raw''), (GP_MIME_JPEG, ''jpg''), (GP_MIME_NEF, ''nef''),
      (GP_MIME_CRW, ''crw''), (GP_MIME_CR2, ''cr2''), (GP_MIME_CR3, ''cr3''),
      (GP_MIME_PNG, ''png''), (GP_MIME_PPM, ''ppm''), (GP_MIME_PGM, ''pgm''),
      (GP_MIME_PNM, ''pnm''), (GP_MIME_TIFF, ''tif''), (GP_MIME_WAV, ''wav''),
      (GP_MIME_BMP, ''bmp''), (GP_MIME_AVI, ''avi''), (GP_MIME_ARW, ''arw''),
      (GP_MIME_RAF, ''raf''), (GP_MIME_TXT, ''txt''), (GP_MIME_QTKT, ''qtk''),
      (GP_MIME_QTKN, ''qtk''), (GP_MIME_DNG, ''dng'')]"

definition gp_file_adjust_name_for_mime_type ::
  "'p CameraFile option \<Rightarrow> (int \<times> 'p CameraFile option) option" where
  "gp_file_adjust_name_for_mime_type file =
     (case file of
        None \<Rightarrow> Some (GP_ERROR_BAD_PARAMETERS, None)
      | Some f \<Rightarrow>
          (case (cstring MIME_SIZE (cf_mime_type f), cstring MAX_PATH (cf_name f)) of
             (Some mime, Some name) \<Rightarrow>
               (case map_of adjust_table mime of
                  None \<Rightarrow> Some (GP_OK, file)
                | Some ext \<Rightarrow>
                    (let stem = (case strrchr name (CHR ''.'') of
                                   None \<Rightarrow> name | Some i \<Rightarrow> take (Suc i) name)
                     in if length (stem @ ext) < MAX_PATH
                        then Some (GP_OK, Some (f\<lparr>cf_name := stem @ ext\<rparr>)) else None))
           | _ \<Rightarrow> None))"

definition gp_file_get_mtime :: "'p CameraFile option \<Rightarrow> int \<times> int option" where
  "gp_file_get_mtime file =
     (case file of None \<Rightarrow> (GP_ERROR_BAD_PARAMETERS, None) | Some f \<Rightarrow> (GP_OK, Some (cf_mtime f)))"

definition gp_file_set_mtime :: "'p CameraFile option \<Rightarrow> int \<Rightarrow> int \<times> 'p CameraFile option" where
  "gp_file_set_mtime file mtime =
     (case file of None \<Rightarrow> (GP_ERROR_BAD_PARAMETERS, None)
      | Some f \<Rightarrow> (GP_OK, Some (f\<lparr>cf_mtime := mtime\<rparr>)))"

section \<open>Memory files\<close>

declare unat_u64_less [simp] unat_u32_less [simp]

text \<open>
  A memory file is consistent when its block holds the counted bytes and the read position is
  within them.
\<close>

definition file_ok :: "'p CameraFile \<Rightarrow> bool" where
  "file_ok f \<longleftrightarrow>
     (case cf_data f of Null \<Rightarrow> cf_size f = 0 | Block d \<Rightarrow> unat (cf_size f) \<le> length d
      | Freed \<Rightarrow> False) \<and> cf_offset f \<le> cf_size f"

definition file_contents :: "'p CameraFile \<Rightarrow> byte list" where
  "file_contents f = (case cf_data f of Block d \<Rightarrow> take (unat (cf_size f)) d | _ \<Rightarrow> [])"

abbreviation memory_file :: "'p CameraFile \<Rightarrow> bool" where
  "memory_file f \<equiv> cf_accesstype f = GP_FILE_ACCESSTYPE_MEMORY"

lemma length_file_contents: "file_ok f \<Longrightarrow> length (file_contents f) = unat (cf_size f)"
  by (auto simp: file_ok_def file_contents_def split: block.splits)

lemma empty_file_ok [simp]: "file_ok empty_file" "file_contents empty_file = []"
    "memory_file empty_file" "cf_offset empty_file = 0"
  by (simp_all add: file_ok_def file_contents_def empty_file_def)

lemma read_block_ok:
  assumes "file_ok f" "i + n \<le> unat (cf_size f)"
  shows "read_block (cf_data f) i n = Some (take n (drop i (file_contents f)))"
  using assms by (auto simp: file_ok_def read_block_def file_contents_def drop_take min_def
      split: block.splits)

lemma file_append_ok:
  assumes "file_ok f" "memory_file f" "unat (cf_size f) + length bs < 2 ^ 64"
  obtains "gp_file_append e h (Some f) (Some bs) (of_nat (length bs)) =
      Some (GP_ERROR_NO_MEMORY, Some (f\<lparr>cf_data := Null\<rparr>), h)" "\<exists>n. \<not> realloc_ok e n"
  | f' where "gp_file_append e h (Some f) (Some bs) (of_nat (length bs)) = Some (GP_OK, Some f', h)"
      "file_ok f'" "memory_file f'" "file_contents f' = file_contents f @ bs"
      "cf_offset f' = cf_offset f"
proof -
  obtain old where old: "block_contents (cf_data f) = Some old"
      "length (case old of None \<Rightarrow> [] | Some r \<Rightarrow> r) \<ge> unat (cf_size f)"
      "file_contents f = take (unat (cf_size f)) (case old of None \<Rightarrow> [] | Some r \<Rightarrow> r)"
    using assms(1)
    by (auto simp: file_ok_def block_contents_def file_contents_def split: block.splits)
  have len: "unat (of_nat (length bs) :: u64) = length bs"
    using assms(3) by (simp add: unat_of_nat_u64)
  have sum: "unat (cf_size f + of_nat (length bs)) = unat (cf_size f) + length bs"
    using assms(3) len by (simp add: unat_add_u64)
  have le: "cf_offset f \<le> cf_size f + of_nat (length bs)"
    using assms(1) sum by (auto simp: file_ok_def word_le_nat_alt)
  show thesis
  proof (cases "realloc_ok e (unat (cf_size f) + length bs)")
    case False
    then show thesis
      by (intro that(1))
         (auto simp: gp_file_append_def assms(2) old(1) c_realloc_def sum Let_def)
  next
    case True
    let ?old = "case old of None \<Rightarrow> [] | Some r \<Rightarrow> r"
    let ?d = "take (unat (cf_size f) + length bs) ?old @
        map (fresh e) [length ?old..<unat (cf_size f) + length bs]"
    have "length ?d = unat (cf_size f) + length bs" using old(2) by auto
    moreover have "take (unat (cf_size f)) ?d = file_contents f"
      using old(2,3) by (simp add: min_def)
    ultimately show thesis
      using True
      by (intro that(2) [of "f\<lparr>cf_data := Block (file_contents f @ bs),
            cf_size := cf_size f + of_nat (length bs)\<rparr>"])
         (auto simp: gp_file_append_def assms(2) old(1) c_realloc_def sum Let_def source_bytes_def
            len mem_write_def to_block_def file_ok_def file_contents_def le
            length_file_contents [OF assms(1), unfolded file_contents_def]
            split: option.splits block.splits)
  qed
qed

lemma slurp_ok:
  assumes "file_ok f" "memory_file f"
  obtains f' bs where
    "gp_file_slurp h (Some f) n rl = Some (GP_OK, bs,
       if rl then Some (of_nat (length bs)) else None, Some f', h)"
    "bs = take (unat n) (drop (unat (cf_offset f)) (file_contents f))"
    "file_ok f'" "memory_file f'" "file_contents f' = file_contents f"
    "unat (cf_offset f') = unat (cf_offset f) + length bs"
proof -
  let ?k = "if cf_size f - cf_offset f < n then cf_size f - cf_offset f else n"
  have le: "cf_offset f \<le> cf_size f" using assms(1) by (simp add: file_ok_def)
  have sub: "unat (cf_size f - cf_offset f) = unat (cf_size f) - unat (cf_offset f)"
    using le by (simp add: unat_sub word_le_nat_alt)
  have k: "unat (cf_offset f) + unat ?k \<le> unat (cf_size f)"
    using le sub by (auto simp: word_le_nat_alt word_less_nat_alt)
  let ?bs = "take (unat n) (drop (unat (cf_offset f)) (file_contents f))"
  have bs: "take (unat ?k) (drop (unat (cf_offset f)) (file_contents f)) = ?bs"
    using length_file_contents [OF assms(1)] sub by (auto simp: word_less_nat_alt)
  have lbs: "length ?bs = unat ?k"
    using length_file_contents [OF assms(1)] sub by (auto simp: word_less_nat_alt)
  have sum: "unat (cf_offset f + ?k) = unat (cf_offset f) + unat ?k"
    by (rule unat_add_u64) (use k in \<open>auto intro: le_less_trans\<close>)
  have le': "cf_offset f + ?k \<le> cf_size f" unfolding word_le_nat_alt sum using k .
  have r: "read_block (cf_data f) (unat (cf_offset f)) (unat ?k) = Some ?bs"
    using read_block_ok [OF assms(1) k] bs by simp
  let ?f' = "f\<lparr>cf_offset := cf_offset f + ?k\<rparr>"
  show thesis
  proof (rule that [of ?bs ?f'])
    show "gp_file_slurp h (Some f) n rl = Some (GP_OK, ?bs,
       if rl then Some (of_nat (length ?bs)) else None, Some ?f', h)"
      unfolding lbs using r by (simp add: gp_file_slurp_def assms(2) Let_def)
    show "file_ok ?f'" using assms(1) le' by (auto simp: file_ok_def split: block.splits)
    show "unat (cf_offset ?f') = unat (cf_offset f) + length ?bs" unfolding lbs using sum by simp
  qed (use assms(2) in \<open>auto simp: file_contents_def split: block.splits\<close>)
qed

section \<open>Files as byte streams\<close>

text \<open>
  The interface the drivers and the front end rely on: bytes are appended at the end and read
  at a read position. The client lemma is the queue property of any interleaving.
\<close>

datatype stream_op = Append "byte list" | Slurp u64

fun stream_run ::
  "('s \<Rightarrow> byte list \<Rightarrow> (int \<times> 's) option) \<Rightarrow> ('s \<Rightarrow> u64 \<Rightarrow> (byte list \<times> 's) option) \<Rightarrow>
   's \<Rightarrow> stream_op list \<Rightarrow> (int \<times> byte list \<times> 's) option" where
  "stream_run put get s [] = Some (GP_OK, [], s)"
| "stream_run put get s (Append bs # ops) =
     (case put s bs of
        None \<Rightarrow> None
      | Some (r, s) \<Rightarrow> if r < GP_OK then Some (r, [], s) else stream_run put get s ops)"
| "stream_run put get s (Slurp n # ops) =
     (case get s n of
        None \<Rightarrow> None
      | Some (bs, s) \<Rightarrow>
          (case stream_run put get s ops of
             None \<Rightarrow> None | Some (r, out, s) \<Rightarrow> Some (r, bs @ out, s)))"

fun appended :: "stream_op list \<Rightarrow> byte list" where
  "appended [] = []"
| "appended (Append bs # ops) = bs @ appended ops"
| "appended (Slurp n # ops) = appended ops"

locale byte_stream =
  fixes ok :: "'s \<Rightarrow> bool" and cont :: "'s \<Rightarrow> byte list" and pos :: "'s \<Rightarrow> nat"
    and put :: "'s \<Rightarrow> byte list \<Rightarrow> (int \<times> 's) option"
    and get :: "'s \<Rightarrow> u64 \<Rightarrow> (byte list \<times> 's) option"
    and refused :: "int \<Rightarrow> bool"
  assumes pos_law: "ok s \<Longrightarrow> pos s \<le> length (cont s)"
    and put_law: "ok s \<Longrightarrow> length (cont s) + length bs < 2 ^ 64 \<Longrightarrow>
      \<exists>r s'. put s bs = Some (r, s') \<and>
        (r = GP_OK \<and> ok s' \<and> cont s' = cont s @ bs \<and> pos s' = pos s \<or> r < GP_OK \<and> refused r)"
    and get_law: "ok s \<Longrightarrow>
      \<exists>s'. get s n = Some (take (unat n) (drop (pos s) (cont s)), s') \<and> ok s' \<and>
        cont s' = cont s \<and> pos s' = pos s + length (take (unat n) (drop (pos s) (cont s)))"
begin

lemma run_fifo:
  assumes "ok s" "length (cont s) + length (appended ops) < 2 ^ 64"
  shows "\<exists>r out s'. stream_run put get s ops = Some (r, out, s') \<and>
    (r = GP_OK \<and> ok s' \<and> cont s' = cont s @ appended ops \<and> pos s' = pos s + length out \<and>
       out = take (length out) (drop (pos s) (cont s')) \<or> r < GP_OK \<and> refused r)"
  using assms
proof (induction ops arbitrary: s rule: appended.induct)
  case 1
  then show ?case by simp
next
  case (2 bs ops)
  obtain r s1 where p: "put s bs = Some (r, s1)"
    "r = GP_OK \<and> ok s1 \<and> cont s1 = cont s @ bs \<and> pos s1 = pos s \<or> r < GP_OK \<and> refused r"
    using put_law [of s bs] "2.prems" by auto
  show ?case
  proof (cases "r < GP_OK")
    case True
    then show ?thesis using p by auto
  next
    case False
    then show ?thesis using p "2.IH" [of s1] "2.prems"(2) by (fastforce simp: add.assoc)
  qed
next
  case (3 n ops)
  let ?bs = "take (unat n) (drop (pos s) (cont s))"
  obtain s1 where g: "get s n = Some (?bs, s1)" "ok s1" "cont s1 = cont s"
      "pos s1 = pos s + length ?bs"
    using get_law [OF "3.prems"(1)] by blast
  obtain r out s' where run: "stream_run put get s1 ops = Some (r, out, s')"
      "r = GP_OK \<and> ok s' \<and> cont s' = cont s @ appended ops \<and> pos s' = pos s1 + length out \<and>
       out = take (length out) (drop (pos s1) (cont s')) \<or> r < GP_OK \<and> refused r"
    using "3.IH" [of s1] g "3.prems"(2) by auto
  have "?bs @ out = take (length (?bs @ out)) (drop (pos s) (cont s'))"
    if "cont s' = cont s @ appended ops" "out = take (length out) (drop (pos s1) (cont s'))"
  proof -
    have le: "pos s \<le> length (cont s)" by (rule pos_law [OF "3.prems"(1)])
    have "take (length ?bs) (drop (pos s) (cont s')) = ?bs"
      using that(1) le by (simp add: min_def)
    moreover have "drop (length ?bs) (drop (pos s) (cont s')) = drop (pos s1) (cont s')"
      by (simp add: g(4) add.commute)
    ultimately show ?thesis
      using that(2) by (metis length_append take_add)
  qed
  then show ?case using g run by (auto simp del: length_take)
qed

end

definition mem_put :: "'m mem_env_scheme \<Rightarrow> host \<Rightarrow> 'p CameraFile \<Rightarrow> byte list \<Rightarrow> (int \<times> 'p CameraFile) option" where
  "mem_put e h f bs =
     (case gp_file_append e h (Some f) (Some bs) (of_nat (length bs)) of
        Some (r, Some f', _) \<Rightarrow> Some (r, f') | _ \<Rightarrow> None)"

definition mem_get :: "host \<Rightarrow> 'p CameraFile \<Rightarrow> u64 \<Rightarrow> (byte list \<times> 'p CameraFile) option" where
  "mem_get h f n =
     (case gp_file_slurp h (Some f) n True of
        Some (r, bs, _, Some f', _) \<Rightarrow> Some (bs, f') | _ \<Rightarrow> None)"

interpretation memory_stream: byte_stream "\<lambda>f. file_ok f \<and> memory_file f" file_contents
  "\<lambda>f. unat (cf_offset f)" "mem_put e h" "mem_get h"
  "\<lambda>r. r = GP_ERROR_NO_MEMORY \<and> (\<exists>n. \<not> realloc_ok e n)"
proof (unfold_locales, goal_cases)
  case (1 f)
  then show ?case by (simp add: length_file_contents) (simp add: file_ok_def word_le_nat_alt)
next
  case (2 f bs)
  then have "unat (cf_size f) + length bs < 2 ^ 64" by (simp add: length_file_contents)
  with 2(1) show ?case
    by (elim conjE) (rule file_append_ok [of f bs e h]; auto simp: mem_put_def)
next
  case (3 f n)
  then show ?case
    by (elim conjE) (rule slurp_ok [of f h n True]; auto simp: mem_get_def)
qed



text \<open>
  Cleaning a file, or giving it new contents, leaves the read position where it was: after
  something was read, the next read of the cleaned file computes a huge length and goes
  through the NULL pointer.
\<close>

theorem gp_file_clean_stale_offset:
  assumes "file_ok f" "memory_file f" "cf_offset f \<noteq> 0" "n \<noteq> 0"
  shows "\<exists>f'. gp_file_clean (Some f) = Some (GP_OK, Some f') \<and> gp_file_slurp h (Some f') n rl = None"
proof -
  have "cf_data f \<noteq> Freed" using assms(1) by (auto simp: file_ok_def)
  moreover have "unat (- cf_offset f) \<noteq> 0" "unat n \<noteq> 0"
    using assms(3,4) by (auto simp: unat_eq_zero)
  ultimately show ?thesis
    using assms(2) by (simp add: gp_file_clean_def c_free_def gp_file_slurp_def Let_def read_block_def)
qed

theorem gp_file_clean_stale_offset_witness:
  "\<exists>f'. gp_file_clean (Some (empty_file\<lparr>cf_data := Block [7], cf_size := 1, cf_offset := 1\<rparr> :: unit CameraFile))
      = Some (GP_OK, Some f') \<and> gp_file_slurp h0 (Some f') 4 True = None"
  by (rule gp_file_clean_stale_offset) (simp_all add: file_ok_def empty_file_def)

text \<open>
  A copy into a memory file that reports success has the name, type, time and all the bytes of
  its source, whether that is a memory file or a regular file behind a descriptor.
\<close>

definition whole_contents :: "host \<Rightarrow> 'p CameraFile \<Rightarrow> byte list option" where
  "whole_contents h s =
     (case cf_accesstype s of
        GP_FILE_ACCESSTYPE_MEMORY \<Rightarrow> Some (file_contents s)
      | GP_FILE_ACCESSTYPE_FD \<Rightarrow> map_option of_bytes (hs_fds h (cf_fd s))
      | GP_FILE_ACCESSTYPE_HANDLER \<Rightarrow> None)"

lemma read_all_ok:
  assumes "read_all h fd n acc = (r, bs, h')" "hs_fds h fd = Some f"
    "of_pos f + n \<le> length (of_bytes f)"
  shows "r = GP_OK \<and> bs = acc @ take n (drop (of_pos f) (of_bytes f)) \<or> r = GP_ERROR_IO_READ"
  using assms
proof (induction h fd n acc arbitrary: f rule: read_all.induct)
  case (1 h fd n acc)
  show ?case
  proof (cases "n = 0")
    case True
    then show ?thesis using "1.prems" by (simp add: read_all.simps)
  next
    case n: False
    obtain io h1 where rd: "c_read h fd n = (io, h1)" by fastforce
    show ?thesis
    proof (cases "io = None \<or> io = Some []")
      case True
      with n rd "1.prems"(1) show ?thesis by (subst (asm) read_all.simps) auto
    next
      case False
      then obtain xs where xs: "io = Some xs" "xs \<noteq> []" by auto
      define g where "g = f\<lparr>of_pos := of_pos f + length xs\<rparr>"
      have h1: "hs_fds h1 fd = Some g" "xs = take (length xs) (drop (of_pos f) (of_bytes f))"
          "length xs \<le> n"
        using rd xs "1.prems"(2)
        by (auto simp: c_read_def next_io_def Let_def g_def min_def split: option.splits)
      have rest: "take n (drop (of_pos f) (of_bytes f)) =
          xs @ take (n - length xs) (drop (of_pos g) (of_bytes g))"
        using h1(2,3) by (metis (no_types, lifting) add.commute drop_drop g_def
            le_add_diff_inverse ofile.select_convs(1,2) ofile.surjective ofile.update_convs(2) take_add)
      have "read_all h1 fd (n - length xs) (acc @ xs) = (r, bs, h')"
        using "1.prems"(1) n rd xs by (subst (asm) read_all.simps) auto
      from "1.IH" [OF n rd [symmetric, unfolded xs(1)] refl xs(2) this h1(1)] "1.prems"(3) h1(3)
      show ?thesis unfolding rest by (simp add: g_def)
    qed
  qed
qed

lemma lseek_ok:
  assumes "hs_fds h fd = Some f" "of_seekable f"
  shows "c_lseek h fd off wh =
    (let p = (case wh of SEEK_SET \<Rightarrow> off | SEEK_CUR \<Rightarrow> of_pos f + off | SEEK_END \<Rightarrow> length (of_bytes f) + off)
     in (Some p, h\<lparr>hs_fds := (hs_fds h)(fd \<mapsto> f\<lparr>of_pos := p\<rparr>)\<rparr>))"
  using assms by (simp add: c_lseek_def)

text \<open>The copy from a regular file behind a descriptor: the three seeks, then the read.\<close>

lemma copy_from_fd:
  assumes "memory_file d" "cf_accesstype s = GP_FILE_ACCESSTYPE_FD" "cf_data d \<noteq> Freed"
    "hs_fds h (cf_fd s) = Some f" "of_seekable f" "realloc_ok e (length (of_bytes f))"
  shows "\<exists>h3. hs_fds h3 (cf_fd s) = Some (f\<lparr>of_pos := 0\<rparr>) \<and>
    gp_file_copy e h (Some d) (Some s) =
      (let (r, bs, h4) = read_all h3 (cf_fd s) (length (of_bytes f)) []
       in Some (r, Some (d\<lparr>cf_name := cf_name s, cf_mime_type := cf_mime_type s,
            cf_mtime := cf_mtime s, cf_size := of_nat (length (of_bytes f)),
            cf_data := (if r < GP_OK then Freed else Block bs)\<rparr>), h4))"
  using assms
  by (intro exI [of _ "h\<lparr>hs_fds := (hs_fds h)(cf_fd s \<mapsto> f\<lparr>of_pos := 0\<rparr>)\<rparr>"])
     (simp add: gp_file_copy_def c_free_def lseek_ok [of _ _ f] lseek_ok [of _ _ "f\<lparr>of_pos := p\<rparr>" for p]
      Let_def split_beta)

lemma copy_from_fd_refused:
  assumes "memory_file d" "cf_accesstype s = GP_FILE_ACCESSTYPE_FD" "cf_data d \<noteq> Freed"
    "hs_fds h (cf_fd s) = Some f" "of_seekable f" "\<not> realloc_ok e (length (of_bytes f))"
  shows "\<exists>h3. gp_file_copy e h (Some d) (Some s) = Some (GP_ERROR_NO_MEMORY,
      Some (d\<lparr>cf_name := cf_name s, cf_mime_type := cf_mime_type s, cf_mtime := cf_mtime s,
        cf_data := Null, cf_size := of_nat (length (of_bytes f))\<rparr>), h3)"
  using assms
  by (simp add: gp_file_copy_def c_free_def lseek_ok [of _ _ f] lseek_ok [of _ _ "f\<lparr>of_pos := p\<rparr>" for p]
      Let_def split_beta)

text \<open>
  C39. A copy into a memory file always comes back. It has the name, type, time and all the bytes of
  its source, whether that is a memory file or a regular file behind a descriptor; or the
  allocation was refused and there are no bytes (but the new size); or reading the descriptor
  failed, and then the destination still points to the block that was just freed, so that
  cleaning it frees the block again.
\<close>

theorem gp_file_copy_outcome:
  assumes "memory_file d" "cf_data d \<noteq> Freed" "file_ok s" "whole_contents h s = Some c"
    "length c < 2 ^ 64" "\<forall>f. hs_fds h (cf_fd s) = Some f \<longrightarrow> of_seekable f"
  shows "\<exists>r d' h'. gp_file_copy e h (Some d) (Some s) = Some (r, Some d', h') \<and>
    cf_name d' = cf_name s \<and> cf_mime_type d' = cf_mime_type s \<and> cf_mtime d' = cf_mtime s \<and>
    cf_ref_count d' = cf_ref_count d \<and>
    (r = GP_OK \<and> file_contents d' = c \<or>
     r = GP_ERROR_NO_MEMORY \<and> \<not> realloc_ok e (length c) \<and> cf_data d' = Null \<and>
       unat (cf_size d') = length c \<or>
     r = GP_ERROR_IO_READ \<and> cf_accesstype s = GP_FILE_ACCESSTYPE_FD \<and> cf_data d' = Freed \<and>
       gp_file_clean (Some d') = None)"
proof (cases "cf_accesstype s")
  case GP_FILE_ACCESSTYPE_MEMORY
  then have c: "c = file_contents s" using assms(4) by (simp add: whole_contents_def)
  have "read_block (cf_data s) 0 (unat (cf_size s)) = Some (file_contents s)"
    using read_block_ok [OF assms(3), of 0 "unat (cf_size s)"] length_file_contents [OF assms(3)]
    by simp
  then show ?thesis
    using assms(1,2) GP_FILE_ACCESSTYPE_MEMORY c length_file_contents [OF assms(3)]
    by (cases "realloc_ok e (unat (cf_size s))")
       (simp_all add: gp_file_copy_def Let_def c_free_def file_contents_def [of "_\<lparr>cf_data := _\<rparr>"])
next
  case GP_FILE_ACCESSTYPE_FD
  then obtain f where f: "hs_fds h (cf_fd s) = Some f" "c = of_bytes f" "of_seekable f"
    using assms(4,6) by (auto simp: whole_contents_def)
  show ?thesis
  proof (cases "realloc_ok e (length c)")
    case False
    then obtain h3 where "gp_file_copy e h (Some d) (Some s) = Some (GP_ERROR_NO_MEMORY,
        Some (d\<lparr>cf_name := cf_name s, cf_mime_type := cf_mime_type s, cf_mtime := cf_mtime s,
          cf_data := Null, cf_size := of_nat (length (of_bytes f))\<rparr>), h3)"
      using copy_from_fd_refused [OF assms(1) GP_FILE_ACCESSTYPE_FD assms(2) f(1,3)] f(2) by blast
    then show ?thesis using f(2) assms(5) False by (simp add: unat_of_nat_u64)
  next
    case True
    obtain h3 where h3: "hs_fds h3 (cf_fd s) = Some (f\<lparr>of_pos := 0\<rparr>)"
      "gp_file_copy e h (Some d) (Some s) =
        (let (r, bs, h4) = read_all h3 (cf_fd s) (length (of_bytes f)) []
         in Some (r, Some (d\<lparr>cf_name := cf_name s, cf_mime_type := cf_mime_type s,
              cf_mtime := cf_mtime s, cf_size := of_nat (length (of_bytes f)),
              cf_data := (if r < GP_OK then Freed else Block bs)\<rparr>), h4))"
      using copy_from_fd [OF assms(1) GP_FILE_ACCESSTYPE_FD assms(2) f(1,3)] True f(2) by blast
    obtain r bs h4 where rd: "read_all h3 (cf_fd s) (length (of_bytes f)) [] = (r, bs, h4)"
      using prod_cases3 by blast
    from read_all_ok [OF rd h3(1)] h3(2) rd f(2) assms(1,5) GP_FILE_ACCESSTYPE_FD
    show ?thesis
      by (auto simp: Let_def file_contents_def unat_of_nat_u64 gp_file_clean_def c_free_def)
  qed
next
  case GP_FILE_ACCESSTYPE_HANDLER
  then show ?thesis using assms(4) by (simp add: whole_contents_def)
qed

theorem gp_file_copy_outcome_witness:
  "\<exists>r d' h'. gp_file_copy plain_mem (h0\<lparr>hs_fds := [5 \<mapsto> \<lparr>of_bytes = [1, 2], of_pos = 1, of_seekable = True\<rparr>],
        hs_io := (\<lambda>_. None)\<rparr>)
      (Some (empty_file :: unit CameraFile))
      (Some (empty_file\<lparr>cf_accesstype := GP_FILE_ACCESSTYPE_FD, cf_fd := 5\<rparr>)) = Some (r, Some d', h') \<and>
    r = GP_ERROR_IO_READ \<and> cf_data d' = Freed \<and> gp_file_clean (Some d') = None"
proof -
  let ?h = "h0\<lparr>hs_fds := [5 \<mapsto> \<lparr>of_bytes = [1, 2], of_pos = 1, of_seekable = True\<rparr>], hs_io := (\<lambda>_. None)\<rparr>"
  let ?s = "empty_file\<lparr>cf_accesstype := GP_FILE_ACCESSTYPE_FD, cf_fd := 5\<rparr> :: unit CameraFile"
  have "memory_file (empty_file :: unit CameraFile)" "cf_data (empty_file :: unit CameraFile) \<noteq> Freed"
    "file_ok ?s" "whole_contents ?h ?s = Some [1, 2]" "length [1 :: byte, 2] < 2 ^ 64"
    "\<forall>f. hs_fds ?h (cf_fd ?s) = Some f \<longrightarrow> of_seekable f"
    by (simp_all add: whole_contents_def empty_file_def file_ok_def h0_def)
  from gp_file_copy_outcome [OF this, of plain_mem]
  obtain r d' h' where o: "gp_file_copy plain_mem ?h (Some empty_file) (Some ?s) = Some (r, Some d', h')"
    "r = GP_OK \<or> r = GP_ERROR_NO_MEMORY \<or>
     r = GP_ERROR_IO_READ \<and> cf_data d' = Freed \<and> gp_file_clean (Some d') = None"
    by blast
  have "fst (the (gp_file_copy plain_mem ?h (Some empty_file) (Some ?s))) = GP_ERROR_IO_READ"
    by (simp add: gp_file_copy_def empty_file_def c_free_def c_lseek_def plain_mem_def
        read_all.simps [of _ _ "Suc (Suc 0)"] c_read_def next_io_def Let_def h0_def)
  with o show ?thesis by auto
qed

text \<open>The 32-bit counter of the write loop can only stop below 4 GiB.\<close>

lemma set_data_loop_le:
  assumes "set_data_loop h fd d n cw = Some (r, h')"
  shows "r = GP_OK \<longrightarrow> unat n < 2 ^ 32"
proof -
  have "\<forall>r h'. y = (r, h') \<longrightarrow> r = GP_OK \<longrightarrow> unat n < 2 ^ 32"
    if "set_data_loop h fd d n cw = Some y" for y
    using that
  proof (induct rule: set_data_loop.raw_induct [rotated, consumes 1, case_names step])
    case (step f h fd d n cw y)
    show ?case
    proof (cases "ucast cw < n")
      case True
      with step(2) show ?thesis
        by (auto split: prod.splits option.splits if_splits dest: step(1))
    next
      case False
      have "unat (ucast cw :: u64) < 2 ^ 32"
        using unat_u32_less [of cw] by (simp add: unat_ucast_u64)
      with False have "unat n < 2 ^ 32" by (simp add: word_less_nat_alt)
      then show ?thesis by simp
    qed
  qed
  with assms show ?thesis by blast
qed

text \<open>Below that, one complete write of the truncated file.\<close>

lemma set_data_loop_small:
  assumes "unat n < 2 ^ 32" "unat cw \<le> unat n" "length d = unat n"
  shows "set_data_loop h fd d n cw = Some (write_all h fd (drop (unat cw) d))"
  using assms
proof (induction "unat n - unat cw" arbitrary: h cw rule: less_induct)
  case less
  have u: "unat (ucast cw :: u64) = unat cw" by (rule unat_ucast_u64)
  have lt: "(ucast cw < n) = (unat cw < unat n)" by (simp add: word_less_nat_alt u)
  show ?case
  proof (cases "unat cw < unat n")
    case False
    with less.prems lt show ?thesis
      by (subst set_data_loop.simps) (simp add: write_all.simps)
  next
    case True
    have sub: "unat (n - ucast cw) = unat n - unat cw"
      using True by (simp add: unat_sub word_le_nat_alt u)
    have tk: "take (unat (n - ucast cw)) (drop (unat cw) d) = drop (unat cw) d"
      using less.prems(3) sub by simp
    have ne: "drop (unat cw) d \<noteq> []" using True less.prems(3) by simp
    obtain io h1 where w: "c_write h fd (drop (unat cw) d) = (io, h1)" by fastforce
    show ?thesis
    proof (cases "io = None \<or> io = Some 0")
      case bad: True
      then show ?thesis
        using ne True lt w
        by (subst set_data_loop.simps, subst write_all.simps) (auto simp: tk)
    next
      case False
      then obtain k where k: "io = Some k" "k \<noteq> 0" by auto
      have kle: "k \<le> unat n - unat cw"
        using w k less.prems(3) by (auto simp: c_write_def next_io_def Let_def split: option.splits)
      then have cw': "unat (cw + of_nat k) = unat cw + k"
        using less.prems(1) True
        by (subst unat_add_lem [THEN iffD1]) (auto simp: unsigned_of_nat take_bit_nat_eq_self)
      have "set_data_loop h1 fd d n (cw + of_nat k) = Some (write_all h1 fd (drop (unat (cw + of_nat k)) d))"
        by (rule less.hyps) (use cw' kle k(2) True less.prems in auto)
      then show ?thesis
        using ne True lt w k
        by (subst set_data_loop.simps, subst write_all.simps) (simp add: tk cw' add.commute)
    qed
  qed
qed

text \<open>
  Giving a descriptor file its contents: below 4 GiB the file is exactly the new bytes, or a
  write failed; from 4 GiB on success is never reported (a write fails, or the loop runs
  forever), because it counts in 32 bits.
\<close>

theorem gp_file_set_data_fd:
  assumes "cf_accesstype f = GP_FILE_ACCESSTYPE_FD" "hs_fds h (cf_fd f) = Some ofl"
    "of_seekable ofl" "source_bytes data (unat n) = Some bs"
  shows "(unat n < 2 ^ 32 \<longrightarrow>
      (\<exists>r h'. gp_file_set_data_and_size h (Some f) data n = Some (r, Some f, h') \<and>
         (r = GP_OK \<and> hs_fds h' (cf_fd f) = Some (ofl\<lparr>of_bytes := bs, of_pos := length bs\<rparr>) \<or>
          r = GP_ERROR_IO_WRITE))) \<and>
    (2 ^ 32 \<le> unat n \<longrightarrow>
      (\<forall>f' h'. gp_file_set_data_and_size h (Some f) data n \<noteq> Some (GP_OK, f', h')))"
proof -
  let ?h = "h\<lparr>hs_fds := (hs_fds h)(cf_fd f \<mapsto> ofl\<lparr>of_bytes := [], of_pos := 0\<rparr>)\<rparr>"
  have len: "length bs = unat n" using assms(4) by (auto simp: source_bytes_def split: option.splits if_splits)
  have h2: "c_truncate (snd (c_lseek h (cf_fd f) 0 SEEK_SET)) (cf_fd f) = ?h"
    using assms(2,3) by (cases ofl) (simp add: c_lseek_def c_truncate_def)
  have eq: "gp_file_set_data_and_size h (Some f) data n =
      (case set_data_loop ?h (cf_fd f) bs n 0 of None \<Rightarrow> None | Some (r, h) \<Rightarrow> Some (r, Some f, h))"
    using assms(1,4) h2 by (simp add: gp_file_set_data_and_size_def Let_def split_beta)
  obtain r h' where w: "write_all ?h (cf_fd f) bs = (r, h')" by fastforce
  have "r = GP_OK \<and> hs_fds h' (cf_fd f) = Some (ofl\<lparr>of_bytes := bs, of_pos := length bs\<rparr>) \<or>
      r = GP_ERROR_IO_WRITE"
    using write_all_ok [OF w, of "ofl\<lparr>of_bytes := [], of_pos := 0\<rparr>"] by (auto simp: file_write_def)
  moreover have "set_data_loop ?h (cf_fd f) bs n 0 = Some (r, h')" if "unat n < 2 ^ 32"
    using set_data_loop_small [OF that, of 0 bs ?h "cf_fd f"] len w by simp
  moreover have "gp_file_set_data_and_size h (Some f) data n \<noteq> Some (GP_OK, f', h'')"
    if "2 ^ 32 \<le> unat n" for f' h''
    using set_data_loop_le [of ?h "cf_fd f" bs n 0] that by (fastforce simp: eq split: option.splits)
  ultimately show ?thesis by (auto simp: eq)
qed

theorem gp_file_set_data_fd_witness:
  "\<exists>r h'. gp_file_set_data_and_size (h0\<lparr>hs_fds := [5 \<mapsto> \<lparr>of_bytes = [9, 9, 9], of_pos = 1, of_seekable = True\<rparr>]\<rparr>)
       (Some (empty_file\<lparr>cf_accesstype := GP_FILE_ACCESSTYPE_FD, cf_fd := 5\<rparr> :: unit CameraFile)) (Some [1, 2]) 2
       = Some (r, Some (empty_file\<lparr>cf_accesstype := GP_FILE_ACCESSTYPE_FD, cf_fd := 5\<rparr>), h') \<and>
     (r = GP_OK \<and> hs_fds h' 5 = Some \<lparr>of_bytes = [1, 2], of_pos = Suc (Suc 0), of_seekable = True\<rparr> \<or>
      r = GP_ERROR_IO_WRITE)"
  using gp_file_set_data_fd [of "empty_file\<lparr>cf_accesstype := GP_FILE_ACCESSTYPE_FD, cf_fd := 5\<rparr> :: unit CameraFile"
      "h0\<lparr>hs_fds := [5 \<mapsto> \<lparr>of_bytes = [9, 9, 9], of_pos = 1, of_seekable = True\<rparr>]\<rparr>"
      "\<lparr>of_bytes = [9, 9, 9], of_pos = 1, of_seekable = True\<rparr>" "Some [1, 2]" 2 "[1, 2]"]
  by (simp add: source_bytes_def)

section \<open>Saving and opening\<close>

lemma save_memory_ok:
  assumes "file_ok f" "memory_file f" "cf_mtime f \<noteq> 0" "hs_openable h nm"
    "hs_io h (hs_calls h) = Some k" "length (file_contents f) \<le> k"
  shows "\<exists>h1. gp_file_save e h (Some f) (Some nm) = Some (GP_OK, polaris_capture_event h1 nm) \<and>
    hs_files h1 nm = Some (file_contents f, cf_mtime f) \<and> hs_openable h1 = hs_openable h \<and>
    hs_getenv h1 = hs_getenv h \<and> hs_io h1 = hs_io h"
proof -
  have r: "read_block (cf_data f) 0 (unat (cf_size f)) = Some (file_contents f)"
    using read_block_ok [OF assms(1), of 0 "unat (cf_size f)"] length_file_contents [OF assms(1)]
    by simp
  show ?thesis
    using assms(2-)
    by (auto simp: gp_file_save_def c_fopen_w_def r c_fwrite_def next_io_def Let_def
        save_finish_def c_utime_def)
qed

lemma clean_event_row:
  assumes "event_wanted h f"
  shows "length (filter (\<lambda>c. c = CHR 0x09) (event_row t f st)) = 3"
    "length (filter (\<lambda>c. c = CHR 0x0A) (event_row t f st)) = 1"
proof -
  have d: "filter (\<lambda>c. c = x) (dec n) = []" if "\<not> isdigit x" for n x
    using that dec_digits by (auto simp: filter_empty_conv)
  have i: "filter (\<lambda>c. c = x) (int_dec n) = []" if "\<not> isdigit x" "x \<noteq> CHR ''-''" for n x
    using that d by (auto simp: int_dec_def)
  have f: "filter (\<lambda>c. c = x) f = []" if "x = CHR 0x09 \<or> x = CHR 0x0A" for x
    using assms that by (auto simp: event_wanted_def Let_def filter_empty_conv)
  have nd: "\<not> isdigit (CHR 0x09)" "\<not> isdigit (CHR 0x0A)"
    by (simp_all add: isdigit_def)
  show "length (filter (\<lambda>c. c = CHR 0x09) (event_row t f st)) = 3"
    "length (filter (\<lambda>c. c = CHR 0x0A) (event_row t f st)) = 1"
    using nd by (simp_all add: event_row_def d i f)
qed

definition event_ledger :: "host \<Rightarrow> string" where
  "event_ledger h =
     getenv_or h ''POLARIS_CAPTURE_EVENT_LEDGER'' ''/app/sd/polaris-astro/capture-events.tsv''"

text \<open>
  The capture event touches no file but the ledger. There it appends (a prefix of) one row with
  three tabs and one line end, whatever the saved file is called, and only for a saved file
  that is wanted.
\<close>

theorem polaris_capture_event_appends:
  "\<exists>v. hs_files (polaris_capture_event h f) = (hs_files h)(event_ledger h := v) \<and>
     hs_fds (polaris_capture_event h f) = hs_fds h \<and>
     (v = hs_files h (event_ledger h) \<or>
      (\<exists>st row n t. event_wanted h f \<and> hs_files h f = Some st \<and>
         v = Some ((case hs_files h (event_ledger h) of None \<Rightarrow> [] | Some (c, _) \<Rightarrow> c) @
                   take n (chars_to_bytes row), t) \<and>
         length (filter (\<lambda>c. c = CHR 0x09) row) = 3 \<and>
         length (filter (\<lambda>c. c = CHR 0x0A) row) = 1))"
proof (cases "event_wanted h f \<and> hs_files h f \<noteq> None \<and> hs_openable h (event_ledger h)")
  case False
  then have "polaris_capture_event h f = h"
    by (auto simp: polaris_capture_event_def event_ledger_def c_fopen_a_def Let_def
        split: option.splits)
  then show ?thesis by (intro exI [of _ "hs_files h (event_ledger h)"]) auto
next
  case True
  then obtain st where st: "hs_files h f = Some st" "event_wanted h f"
      "hs_openable h (event_ledger h)"
    by auto
  define h1 where "h1 = (case hs_files h (event_ledger h) of
      None \<Rightarrow> h\<lparr>hs_files := (hs_files h)(event_ledger h \<mapsto> ([], hs_time h))\<rparr> | Some _ \<Rightarrow> h)"
  define row where "row = event_row (hs_time h) f st"
  define n where "n = fst (c_fwrite h1 (event_ledger h) (chars_to_bytes row))"
  define old where "old = (case hs_files h (event_ledger h) of None \<Rightarrow> [] | Some (c, _) \<Rightarrow> c)"
  have pe: "polaris_capture_event h f = snd (c_fwrite h1 (event_ledger h) (chars_to_bytes row))"
    using st by (simp add: polaris_capture_event_def event_ledger_def [symmetric] c_fopen_a_def
        h1_def row_def Let_def)
  have h1: "hs_fds h1 = hs_fds h" "hs_time h1 = hs_time h"
      "(case hs_files h1 (event_ledger h) of None \<Rightarrow> [] | Some (c, _) \<Rightarrow> c) = old"
      "(hs_files h1)(event_ledger h := x) = (hs_files h)(event_ledger h := x)" for x
    by (auto simp: h1_def old_def split: option.splits)
  have "hs_files (polaris_capture_event h f) =
      (hs_files h)(event_ledger h := Some (old @ take n (chars_to_bytes row), hs_time h))"
    "hs_fds (polaris_capture_event h f) = hs_fds h"
    unfolding pe n_def using h1 by (simp_all add: c_fwrite_def next_io_def Let_def)
  then show ?thesis
    using st clean_event_row [OF st(2), of "hs_time h" st]
    by (intro exI [of _ "Some (old @ take n (chars_to_bytes row), hs_time h)"])
       (auto simp: old_def row_def)
qed

lemma polaris_keeps:
  "hs_openable (polaris_capture_event h f) = hs_openable h"
  "hs_io (polaris_capture_event h f) = hs_io h"
  by (auto simp: polaris_capture_event_def c_fopen_a_def c_fwrite_def next_io_def Let_def
      split: option.splits)

lemma open_memory_ok:
  assumes "memory_file g" "cf_data g \<noteq> Freed" "hs_files h nm = Some (c, m)" "hs_openable h nm"
    "realloc_ok e (length c + 1)" "hs_io h (hs_calls h) = Some k" "length c \<le> k" "length c < 2 ^ 64"
  shows "gp_file_open e h (Some g) (Some nm) =
    map_option (\<lambda>t. (GP_OK, Some (g\<lparr>cf_name := strncpy MAX_PATH (path_basename nm), cf_mime_type := t,
        cf_mtime := m, cf_data := Block (c @ 0 # drop (length c + 1) (map (fresh e) [0..<length c + 1])),
        cf_size := of_nat (length c)\<rparr>),
      h\<lparr>hs_calls := Suc (hs_calls h)\<rparr>)) (mime_of_filename nm)"
  using assms
  by (auto simp: gp_file_open_def gp_file_clean_def c_free_def c_realloc_def c_fread_all_def
      next_io_def Let_def open_finish_def split: option.splits)

text \<open>
  C40. What a memory file saves, another one opens: the bytes, the time and the base name, with the
  MIME type of the suffix.
\<close>

theorem gp_file_save_open:
  assumes "file_ok f" "memory_file f" "cf_mtime f \<noteq> 0" "hs_openable h nm"
    "\<forall>n. \<exists>k. hs_io h n = Some k \<and> length (file_contents f) \<le> k"
    "nm \<noteq> event_ledger h" "mime_of_filename nm = Some t"
    "memory_file g" "cf_data g \<noteq> Freed" "\<forall>n. realloc_ok e n"
  shows "\<exists>h1 g' h2. gp_file_save e h (Some f) (Some nm) = Some (GP_OK, h1) \<and>
    gp_file_open e h1 (Some g) (Some nm) = Some (GP_OK, Some g', h2) \<and>
    file_contents g' = file_contents f \<and> cf_mtime g' = cf_mtime f \<and>
    cf_name g' = strncpy MAX_PATH (path_basename nm) \<and> cf_mime_type g' = t"
proof -
  obtain k where k: "hs_io h (hs_calls h) = Some k" "length (file_contents f) \<le> k"
    using assms(5) by blast
  obtain h1 where h1: "gp_file_save e h (Some f) (Some nm) = Some (GP_OK, polaris_capture_event h1 nm)"
      "hs_files h1 nm = Some (file_contents f, cf_mtime f)" "hs_openable h1 = hs_openable h"
      "hs_getenv h1 = hs_getenv h" "hs_io h1 = hs_io h"
    using save_memory_ok [OF assms(1-4) k] by blast
  let ?h = "polaris_capture_event h1 nm"
  have el: "event_ledger h1 = event_ledger h" by (simp add: event_ledger_def getenv_or_def h1(4))
  have saved: "hs_files ?h nm = Some (file_contents f, cf_mtime f)"
    using polaris_capture_event_appends [of h1 nm] assms(6) h1(2) by (auto simp: el)
  obtain k2 where k2: "hs_io ?h (hs_calls ?h) = Some k2" "length (file_contents f) \<le> k2"
    using assms(5) by (auto simp: polaris_keeps h1(5))
  have len: "length (file_contents f) < 2 ^ 64"
    using length_file_contents [OF assms(1)] by simp
  have "hs_openable ?h nm" "realloc_ok e (length (file_contents f) + 1)"
    using assms(4,10) by (simp_all add: polaris_keeps h1(3))
  from open_memory_ok [OF assms(8,9) saved this k2 len] h1(1) assms(7) len
  show ?thesis by (simp add: file_contents_def [of "_\<lparr>cf_size := _\<rparr>"] unat_of_nat_u64)
qed

theorem gp_file_save_open_witness:
  "\<exists>h1 g' h2. gp_file_save plain_mem h0
       (Some (empty_file\<lparr>cf_data := Block [1, 2, 3], cf_size := 2, cf_mtime := 77\<rparr> :: unit CameraFile))
       (Some ''/app/sd/a.JPG'') = Some (GP_OK, h1) \<and>
    gp_file_open plain_mem h1 (Some (empty_file :: unit CameraFile)) (Some ''/app/sd/a.JPG'') =
      Some (GP_OK, Some g', h2) \<and>
    file_contents g' = [1, 2] \<and> cf_mtime g' = 77 \<and>
    cf_name g' = ''a.JPG'' \<and> cf_mime_type g' = GP_MIME_JPEG"
proof -
  let ?f = "empty_file\<lparr>cf_data := Block [1, 2, 3], cf_size := 2, cf_mtime := 77\<rparr> :: unit CameraFile"
  have "file_ok ?f" "memory_file ?f" "cf_mtime ?f \<noteq> 0" "file_contents ?f = [1, 2]"
    by (simp_all add: file_ok_def file_contents_def empty_file_def)
  moreover have "mime_of_filename ''/app/sd/a.JPG'' = Some GP_MIME_JPEG"
    by code_simp
  moreover have "''/app/sd/a.JPG'' \<noteq> event_ledger h0"
    by (simp add: event_ledger_def getenv_or_def h0_def)
  ultimately show ?thesis
    using gp_file_save_open [of ?f h0 "''/app/sd/a.JPG''" GP_MIME_JPEG "empty_file :: unit CameraFile" plain_mem]
    by (simp add: h0_def plain_mem_def empty_file_def path_basename_def strncpy_def)
qed

text \<open>
  \<open>gp_file_open\<close> writes the MIME type of an unknown suffix with \<open>sprintf\<close> into 64 bytes. Opening
  is undefined exactly for names whose part after the last dot (of the whole path) has 58
  characters or more and is no known suffix.
\<close>

theorem gp_file_open_suffix_overflow:
  assumes "memory_file f" "cf_data f \<noteq> Freed" "hs_files h nm = Some (c, m)" "hs_openable h nm"
    "realloc_ok e (length c + 1)" "hs_io h (hs_calls h) = Some k" "length c \<le> k" "length c < 2 ^ 64"
  shows "gp_file_open e h (Some f) (Some nm) = None \<longleftrightarrow>
    (\<exists>i. strrchr nm (CHR ''.'') = Some i \<and> 58 \<le> length (drop (Suc i) nm) \<and>
      find (\<lambda>(x, _). strcasecmp_eq x (drop (Suc i) nm)) mime_table = None)"
proof (cases "strrchr nm (CHR ''.'')")
  case None
  show ?thesis unfolding open_memory_ok [OF assms] mime_of_filename_def None by simp
next
  case (Some i)
  show ?thesis
    by (auto simp: open_memory_ok [OF assms] mime_of_filename_def Let_def Some
        split: option.splits if_splits)
qed

theorem gp_file_open_suffix_overflow_witness:
  "gp_file_open plain_mem (h0\<lparr>hs_files := [''a.'' @ replicate 58 (CHR ''x'') \<mapsto> ([1], 5)]\<rparr>)
     (Some (empty_file :: unit CameraFile)) (Some (''a.'' @ replicate 58 (CHR ''x''))) = None"
proof -
  let ?s = "replicate 58 (CHR ''x'')"
  have s: "CHR ''.'' \<notin> set ?s" by simp
  have dot: "strrchr (''a.'' @ ?s) (CHR ''.'') = Some 1"
    using strrchr_last [OF s, of "''a''"] by simp
  have "find (\<lambda>(x, _). strcasecmp_eq x ?s) mime_table = None"
    by (auto simp: find_None_iff mime_table_def strcasecmp_eq_def dest: arg_cong [where f = length])
  then show ?thesis
    using dot
    by (subst gp_file_open_suffix_overflow [where c = "[1]" and m = 5 and k = 4096])
       (simp_all add: h0_def plain_mem_def empty_file_def)
qed

text \<open>
  The name for a view of a file: the directory is kept, the prefix of the type is put in front
  of the base name, and the suffix of the MIME type replaces the old one; a normal file with a
  suffix keeps its name.
\<close>

theorem gp_file_get_name_by_type_spec:
  assumes "dir = [] \<or> last dir = CHR ''/''" "CHR ''/'' \<notin> set stem" "CHR ''/'' \<notin> set ext"
    "CHR ''.'' \<notin> set ext" "length (cf_mime_type f) < MIME_SIZE" "ty \<noteq> GP_FILE_TYPE_NORMAL"
  shows "gp_file_get_name_by_type True (Some f) (Some (dir @ stem @ CHR ''.'' # ext)) ty =
    Some (GP_OK, Some (dir @ type_prefix ty @ stem @ CHR ''.'' #
      (case find (\<lambda>(_, t). t = cf_mime_type f) mime_table of None \<Rightarrow> ext | Some (x, _) \<Rightarrow> x)))"
proof -
  let ?b = "dir @ stem @ CHR ''.'' # ext"
  have dot: "strrchr ?b (CHR ''.'') = Some (length dir + length stem)"
    using strrchr_last [OF assms(4), of "dir @ stem"] by simp
  show ?thesis
  proof (cases "dir = []")
    case True
    have slash: "strrchr (stem @ CHR ''.'' # ext) (CHR ''/'') = None" using assms(2,3) by simp
    with True dot assms(5,6) show ?thesis
      by (cases "find (\<lambda>(_, t). t = cf_mime_type f) mime_table")
         (simp_all add: slash True gp_file_get_name_by_type_def cstring_def Let_def split_beta)
  next
    case False
    then obtain d where d: "dir = d @ [CHR ''/'']" using assms(1) by (metis append_butlast_last_id)
    have "strrchr ?b (CHR ''/'') = Some (length d)"
      using strrchr_last [of "CHR ''/''" "stem @ CHR ''.'' # ext" d] assms(2,3) by (simp add: d)
    with d dot assms(5,6) show ?thesis
      by (cases "find (\<lambda>(_, t). t = cf_mime_type f) mime_table")
         (simp_all add: gp_file_get_name_by_type_def cstring_def Let_def split_beta)
  qed
qed

theorem gp_file_get_name_by_type_spec_witness:
  "gp_file_get_name_by_type True (Some (empty_file\<lparr>cf_mime_type := GP_MIME_JPEG\<rparr> :: unit CameraFile))
     (Some (''dcim.d/'' @ ''IMG.1'' @ ''.cr2'')) GP_FILE_TYPE_PREVIEW =
   Some (GP_OK, Some (''dcim.d/thumb_IMG.1.jpg''))"
  using gp_file_get_name_by_type_spec [of "''dcim.d/''" "''IMG.1''" "''cr2''"
      "empty_file\<lparr>cf_mime_type := GP_MIME_JPEG\<rparr> :: unit CameraFile" GP_FILE_TYPE_PREVIEW]
  by (simp add: mime_table_def type_prefix_def)

end
