(* ===== verification/PentaxPublication.thy ===== *)
theory PentaxPublication
  imports CamFile CamList "HOL-Library.Multiset"
begin

text \<open>
  \<open>camlibs/ptp2/pentax-publication.c\<close>: the ledger of captures that stay available below the
  virtual root folder. It has eight slots of a path and a file; a slot holds one reference to
  its file, which is an object of the file store.
\<close>

section \<open>State\<close>

record CameraFilePath =
  fp_name :: string
  fp_folder :: string

record publications =
  pub_vendor_mode :: bool
  pub_paths :: "CameraFilePath list"
  pub_files :: "nat option list"
  pub_count :: int

text \<open>Array accesses: outside the eight slots there is no meaning.\<close>

abbreviation slots :: nat where "slots \<equiv> 8"

definition zero_path :: CameraFilePath where
  "zero_path = \<lparr>fp_name = [], fp_folder = []\<rparr>"

section \<open>Operations\<close>

text \<open>The loop of the clear operation, over the slots that are left.\<close>

fun clear_slots ::
  "host \<Rightarrow> 'p file_store \<Rightarrow> publications \<Rightarrow> nat list \<Rightarrow> (host \<times> 'p file_store \<times> publications) option"
where
  "clear_slots h st p [] = Some (h, st, p)"
| "clear_slots h st p (i # is) =
     (if slots \<le> i then None
      else
        (case (case pub_files p ! i of None \<Rightarrow> Some (h, st) | Some a \<Rightarrow> store_unref h st a) of
           None \<Rightarrow> None
         | Some (h, st) \<Rightarrow>
             clear_slots h st (p\<lparr>pub_files := (pub_files p)[i := None],
               pub_paths := (pub_paths p)[i := zero_path]\<rparr>) is))"

definition pentax_capture_publications_clear ::
  "host \<Rightarrow> 'p file_store \<Rightarrow> publications option \<Rightarrow>
   (int \<times> host \<times> 'p file_store \<times> publications option) option" where
  "pentax_capture_publications_clear h st params =
     (case params of
        None \<Rightarrow> Some (GP_ERROR_BAD_PARAMETERS, h, st, None)
      | Some p \<Rightarrow>
          (case clear_slots h st p [0..<nat (pub_count p)] of
             None \<Rightarrow> None
           | Some (h, st, p) \<Rightarrow> Some (GP_OK, h, st, Some (p\<lparr>pub_count := 0\<rparr>))))"

definition pentax_capture_publication_add ::
  "'p file_store \<Rightarrow> publications option \<Rightarrow> CameraFilePath option \<Rightarrow> nat option \<Rightarrow>
   (int \<times> 'p file_store \<times> publications option) option" where
  "pentax_capture_publication_add st params path file =
     (case (params, path, file) of
        (Some p, Some pa, Some a) \<Rightarrow>
          (let slot = pub_count p
           in if slot < 0 \<or> int slots \<le> slot
              then Some (GP_ERROR_FIXED_LIMIT_EXCEEDED, st, Some p)
              else
                (let p = p\<lparr>pub_paths := (pub_paths p)[nat slot := pa],
                           pub_files := (pub_files p)[nat slot := Some a]\<rparr>
                 in case store_ref st a of
                      None \<Rightarrow> None
                    | Some st \<Rightarrow> Some (GP_OK, st, Some (p\<lparr>pub_count := slot + 1\<rparr>))))
      | _ \<Rightarrow> Some (GP_ERROR_BAD_PARAMETERS, st, params))"

text \<open>The first used slot with the path; \<open>Some None\<close>: there is none.\<close>

fun find_slot :: "publications \<Rightarrow> string \<Rightarrow> string \<Rightarrow> nat list \<Rightarrow> nat option option" where
  "find_slot p folder filename [] = Some None"
| "find_slot p folder filename (i # is) =
     (if slots \<le> i then None
      else
        (let path = pub_paths p ! i
         in if strcmp (fp_folder path) folder = 0 \<and> strcmp (fp_name path) filename = 0
            then Some (Some i) else find_slot p folder filename is))"

definition pentax_capture_publication_find ::
  "publications option \<Rightarrow> string option \<Rightarrow> string option \<Rightarrow> nat option option" where
  "pentax_capture_publication_find params folder filename =
     (case (params, folder, filename) of
        (Some p, Some fo, Some fi) \<Rightarrow>
          if \<not> pub_vendor_mode p then Some None
          else
            (case find_slot p fo fi [0..<nat (pub_count p)] of
               None \<Rightarrow> None
             | Some None \<Rightarrow> Some None
             | Some (Some i) \<Rightarrow> Some (pub_files p ! i))
      | _ \<Rightarrow> Some None)"

definition pentax_capture_publication_find_for_type ::
  "publications option \<Rightarrow> string option \<Rightarrow> string option \<Rightarrow> CameraFileType \<Rightarrow> nat option option" where
  "pentax_capture_publication_find_for_type params folder filename ty =
     (if ty \<noteq> GP_FILE_TYPE_NORMAL then Some None
      else pentax_capture_publication_find params folder filename)"

definition pentax_capture_publication_remove ::
  "host \<Rightarrow> 'p file_store \<Rightarrow> publications option \<Rightarrow> string option \<Rightarrow> string option \<Rightarrow>
   (int \<times> host \<times> 'p file_store \<times> publications option) option" where
  "pentax_capture_publication_remove h st params folder filename =
     (case (params, folder, filename) of
        (Some p, Some fo, Some fi) \<Rightarrow>
          (case find_slot p fo fi [0..<nat (pub_count p)] of
             None \<Rightarrow> None
           | Some None \<Rightarrow> Some (GP_OK, h, st, Some p)
           | Some (Some i) \<Rightarrow>
               (case (case pub_files p ! i of None \<Rightarrow> Some (h, st) | Some a \<Rightarrow> store_unref h st a) of
                  None \<Rightarrow> None
                | Some (h, st) \<Rightarrow>
                    (let last = nat (pub_count p - 1);
                         p = (if i \<noteq> last
                              then p\<lparr>pub_paths := (pub_paths p)[i := pub_paths p ! last],
                                     pub_files := (pub_files p)[i := pub_files p ! last]\<rparr>
                              else p);
                         p = p\<lparr>pub_files := (pub_files p)[last := None],
                               pub_paths := (pub_paths p)[last := zero_path],
                               pub_count := int last\<rparr>
                     in Some (GP_OK, h, st, Some p))))
      | _ \<Rightarrow> Some (GP_ERROR_BAD_PARAMETERS, h, st, params))"

text \<open>\<open>handled\<close> is the value stored behind the out-parameter, \<open>has_handled\<close> whether it is there.\<close>

definition pentax_capture_publication_delete_virtual ::
  "host \<Rightarrow> 'p file_store \<Rightarrow> publications option \<Rightarrow> string option \<Rightarrow> string option \<Rightarrow> bool \<Rightarrow>
   (int \<times> bool option \<times> host \<times> 'p file_store \<times> publications option) option" where
  "pentax_capture_publication_delete_virtual h st params folder filename has_handled =
     (case (params, folder, filename) of
        (Some p, Some fo, Some fi) \<Rightarrow>
          if \<not> has_handled then Some (GP_ERROR_BAD_PARAMETERS, None, h, st, params)
          else if \<not> pub_vendor_mode p \<or> strcmp fo ''/'' \<noteq> 0
          then Some (GP_OK, Some False, h, st, params)
          else
            (case pentax_capture_publication_remove h st params folder filename of
               None \<Rightarrow> None
             | Some (r, h, st, params) \<Rightarrow> Some (r, Some True, h, st, params))
      | _ \<Rightarrow> Some (GP_ERROR_BAD_PARAMETERS, None, h, st, params))"

text \<open>The list loop; the \<open>i\<close>-th append has its own allocations.\<close>

fun list_slots ::
  "(nat \<Rightarrow> alloc) \<Rightarrow> publications \<Rightarrow> CameraList option \<Rightarrow> nat list \<Rightarrow> (int \<times> CameraList option) option"
where
  "list_slots al p l [] = Some (GP_OK, l)"
| "list_slots al p l (i # is) =
     (if slots \<le> i then None
      else
        (case gp_list_append (al i) l (Some (fp_name (pub_paths p ! i))) None of
           None \<Rightarrow> None
         | Some (ret, l) \<Rightarrow> if ret < GP_OK then Some (ret, l) else list_slots al p l is))"

definition pentax_capture_publications_list ::
  "(nat \<Rightarrow> alloc) \<Rightarrow> publications option \<Rightarrow> CameraList option \<Rightarrow> (int \<times> CameraList option) option" where
  "pentax_capture_publications_list al params l =
     (case (params, l) of
        (Some p, Some _) \<Rightarrow> list_slots al p l [0..<nat (pub_count p)]
      | _ \<Rightarrow> Some (GP_ERROR_BAD_PARAMETERS, l))"

section \<open>The ledger and the references\<close>

text \<open>
  A ledger is well formed when its used slots are the first ones. \<open>ext a\<close> counts the
  references that others hold to file \<open>a\<close>; the references are balanced when every file's
  count is the sum of those and of the slots that hold it, and a file without references is
  gone from the store.
\<close>

definition pub_wf :: "publications \<Rightarrow> bool" where
  "pub_wf p \<longleftrightarrow> length (pub_paths p) = slots \<and> length (pub_files p) = slots \<and>
     0 \<le> pub_count p \<and> pub_count p \<le> int slots \<and>
     (\<forall>i < slots. pub_files p ! i = None \<longleftrightarrow> nat (pub_count p) \<le> i)"

definition holds :: "publications \<Rightarrow> nat \<Rightarrow> nat" where
  "holds p a = count (mset (pub_files p)) (Some a)"

definition refs_ok :: "nat \<Rightarrow> 'p CameraFile option \<Rightarrow> bool" where
  "refs_ok n obj =
     (case obj of None \<Rightarrow> n = 0
      | Some f \<Rightarrow> 0 < n \<and> cf_ref_count f = int n \<and> cf_data f \<noteq> Freed)"

definition balanced :: "(nat \<Rightarrow> nat) \<Rightarrow> 'p file_store \<Rightarrow> publications \<Rightarrow> bool" where
  "balanced ext st p \<longleftrightarrow> (\<forall>a. refs_ok (ext a + holds p a) (st a))"

definition pub_entries :: "publications \<Rightarrow> (CameraFilePath \<times> nat option) list" where
  "pub_entries p = zip (take (nat (pub_count p)) (pub_paths p)) (take (nat (pub_count p)) (pub_files p))"

lemma refs_ok_drop: "refs_ok (Suc n) (Some f) \<Longrightarrow> refs_ok n (drop_ref f)"
  by (auto simp: refs_ok_def drop_ref_def)

lemma refs_ok_Suc: "refs_ok (Suc n) obj \<Longrightarrow> \<exists>f. obj = Some f \<and> 0 < cf_ref_count f \<and> cf_data f \<noteq> Freed"
  by (auto simp: refs_ok_def split: option.splits)

text \<open>Giving up one reference to \<open>a\<close>, of the ledger or of somebody else.\<close>

lemma balanced_unref:
  assumes "balanced ext st p" "ext a + holds p a = Suc (ext' a + holds p' a)"
    "\<And>b. b \<noteq> a \<Longrightarrow> ext' b + holds p' b = ext b + holds p b"
  obtains f h' where "st a = Some f" "store_unref h st a = Some (h', st(a := drop_ref f))"
    "balanced ext' (st(a := drop_ref f)) p'"
proof -
  have ra: "refs_ok (Suc (ext' a + holds p' a)) (st a)"
    using assms(1,2) by (metis balanced_def)
  then obtain f where f: "st a = Some f" "0 < cf_ref_count f" "cf_data f \<noteq> Freed"
    using refs_ok_Suc by blast
  have "balanced ext' (st(a := drop_ref f)) p'"
    unfolding balanced_def
  proof
    fix b
    show "refs_ok (ext' b + holds p' b) ((st(a := drop_ref f)) b)"
      using refs_ok_drop ra f(1) assms(1,3) by (cases "b = a") (auto simp: balanced_def)
  qed
  with f store_unref_ok [of st a f h] show thesis using that by blast
qed

lemma holds_update:
  assumes "i < length (pub_files p)"
  shows "holds (p\<lparr>pub_files := (pub_files p)[i := v]\<rparr>) a + (if pub_files p ! i = Some a then 1 else 0) =
    holds p a + (if v = Some a then 1 else 0)"
proof -
  have "pub_files p ! i = Some a \<Longrightarrow> 0 < count (mset (pub_files p)) (Some a)"
    using assms by (metis count_greater_zero_iff nth_mem_mset)
  then show ?thesis using assms by (auto simp: holds_def mset_update)
qed

lemma holds_cong [simp]: "holds (p\<lparr>pub_paths := x\<rparr>) = holds p" "holds (p\<lparr>pub_count := n\<rparr>) = holds p"
  by (auto simp: holds_def fun_eq_iff)

lemma find_slot_ok:
  assumes "\<forall>i \<in> set is. i < slots"
  shows "find_slot p fo fi is =
    Some (find (\<lambda>i. fp_folder (pub_paths p ! i) = fo \<and> fp_name (pub_paths p ! i) = fi) is)"
  using assms by (induction "is") auto

lemma clear_slots_ok:
  assumes "balanced ext st p" "length (pub_paths p) = slots" "length (pub_files p) = slots"
    "\<forall>i \<in> set is. i < slots"
  shows "\<exists>h' st' p'. clear_slots h st p is = Some (h', st', p') \<and> balanced ext st' p' \<and>
    length (pub_paths p') = slots \<and> length (pub_files p') = slots \<and> pub_count p' = pub_count p \<and>
    pub_vendor_mode p' = pub_vendor_mode p \<and>
    (\<forall>i < slots. pub_files p' ! i = (if i \<in> set is then None else pub_files p ! i))"
  using assms
proof (induction "is" arbitrary: h st p)
  case Nil
  then show ?case by simp
next
  case (Cons i "is")
  let ?p = "p\<lparr>pub_files := (pub_files p)[i := None], pub_paths := (pub_paths p)[i := zero_path]\<rparr>"
  have i: "i < slots" "i < length (pub_files p)" using Cons.prems by auto
  obtain h1 st1 where s: "(case pub_files p ! i of None \<Rightarrow> Some (h, st) | Some a \<Rightarrow> store_unref h st a)
      = Some (h1, st1)" "balanced ext st1 ?p"
  proof (cases "pub_files p ! i")
    case None
    then have "(pub_files p)[i := None] = pub_files p" by (metis list_update_id)
    then have "holds ?p = holds p" by (simp add: holds_def fun_eq_iff)
    with None Cons.prems(1) show thesis by (intro that) (auto simp: balanced_def)
  next
    case (Some a)
    let ?q = "p\<lparr>pub_files := (pub_files p)[i := None]\<rparr>"
    have q: "holds ?p = holds ?q" by (simp add: holds_def fun_eq_iff)
    have "holds p a = Suc (holds ?q a)" "b \<noteq> a \<Longrightarrow> holds ?q b = holds p b" for b
      using holds_update [OF i(2), of None a] holds_update [OF i(2), of None b] Some by auto
    then have "ext a + holds p a = Suc (ext a + holds ?p a)"
      "\<And>b. b \<noteq> a \<Longrightarrow> ext b + holds ?p b = ext b + holds p b"
      by (simp_all add: q)
    then obtain f h' where "store_unref h st a = Some (h', st(a := drop_ref f))"
        "balanced ext (st(a := drop_ref f)) ?p"
      by (rule balanced_unref [OF Cons.prems(1), where h = h])
    then show thesis by (intro that [of h' "st(a := drop_ref f)"]) (simp_all add: Some)
  qed
  from Cons.IH [OF s(2), of h1] Cons.prems(2-4)
  obtain h' st' p' where rec: "clear_slots h1 st1 ?p is = Some (h', st', p')" "balanced ext st' p'"
    "length (pub_paths p') = slots" "length (pub_files p') = slots" "pub_count p' = pub_count p"
    "pub_vendor_mode p' = pub_vendor_mode p"
    "\<forall>j < slots. pub_files p' ! j = (if j \<in> set is then None else pub_files ?p ! j)"
    by auto
  have "clear_slots h st p (i # is) = Some (h', st', p')"
    using rec(1) s(1) i(1) by simp
  moreover have "pub_files p' ! j = (if j \<in> set (i # is) then None else pub_files p ! j)"
    if "j < slots" for j
    using rec(7) that i(2) by (auto simp: nth_list_update)
  ultimately show ?case using rec(2-6) by blast
qed

lemma holds_none:
  assumes "length (pub_files p) = slots" "\<forall>i < slots. pub_files p ! i = None"
  shows "holds p a = 0"
  using assms by (auto simp: holds_def in_set_conv_nth count_eq_zero_iff)

lemma clear_ok:
  assumes "pub_wf p" "balanced ext st p"
  shows "\<exists>h' st' p'. pentax_capture_publications_clear h st (Some p) = Some (GP_OK, h', st', Some p') \<and>
    pub_wf p' \<and> balanced ext st' p' \<and> pub_entries p' = [] \<and> (\<forall>a. holds p' a = 0)"
proof -
  have b: "\<forall>i \<in> set [0..<nat (pub_count p)]. i < slots" using assms(1) by (auto simp: pub_wf_def)
  obtain h' st' q where q: "clear_slots h st p [0..<nat (pub_count p)] = Some (h', st', q)"
    "balanced ext st' q" "length (pub_paths q) = slots" "length (pub_files q) = slots"
    "\<forall>i < slots. pub_files q ! i = (if i \<in> set [0..<nat (pub_count p)] then None else pub_files p ! i)"
    using clear_slots_ok [OF assms(2) _ _ b, of h] assms(1) by (auto simp: pub_wf_def)
  have n: "\<forall>i < slots. pub_files q ! i = None" using q(5) assms(1) by (auto simp: pub_wf_def)
  show ?thesis
    using q holds_none [OF q(4) n] n
    by (auto simp: pentax_capture_publications_clear_def pub_wf_def balanced_def pub_entries_def)
qed

lemma add_ok:
  assumes "pub_wf p" "balanced ext st p" "0 < ext a"
  obtains "pub_count p = int slots" "pentax_capture_publication_add st (Some p) (Some path) (Some a) =
      Some (GP_ERROR_FIXED_LIMIT_EXCEEDED, st, Some p)"
  | f p' where "pub_count p < int slots" "st a = Some f"
      "pentax_capture_publication_add st (Some p) (Some path) (Some a) =
        Some (GP_OK, st(a \<mapsto> f\<lparr>cf_ref_count := cf_ref_count f + 1\<rparr>), Some p')"
      "pub_wf p'" "balanced ext (st(a \<mapsto> f\<lparr>cf_ref_count := cf_ref_count f + 1\<rparr>)) p'"
      "pub_entries p' = pub_entries p @ [(path, Some a)]" "pub_vendor_mode p' = pub_vendor_mode p"
proof (cases "pub_count p = int slots")
  case True
  then show thesis by (intro that(1)) (simp_all add: pentax_capture_publication_add_def Let_def)
next
  case False
  let ?n = "nat (pub_count p)"
  have wf: "length (pub_paths p) = slots" "length (pub_files p) = slots" "0 \<le> pub_count p"
      "pub_count p < int slots" "?n < slots" "pub_files p ! ?n = None"
    using assms(1) False by (auto simp: pub_wf_def)
  have ra: "refs_ok (ext b + holds p b) (st b)" for b
    using assms(2) by (simp add: balanced_def)
  obtain f where f: "st a = Some f" "cf_ref_count f = int (ext a + holds p a)" "cf_data f \<noteq> Freed"
    using ra [of a] assms(3) by (auto simp: refs_ok_def split: option.splits)
  let ?p = "p\<lparr>pub_paths := (pub_paths p)[?n := path], pub_files := (pub_files p)[?n := Some a],
      pub_count := pub_count p + 1\<rparr>"
  let ?q = "p\<lparr>pub_files := (pub_files p)[?n := Some a]\<rparr>"
  have h: "holds ?p b = holds p b + (if b = a then 1 else 0)" for b
    using holds_update [of ?n p "Some a" b] wf(2,5,6) by (simp add: holds_def)
  have "pub_wf ?p" using assms(1) wf by (auto simp: pub_wf_def nth_list_update)
  moreover have "balanced ext (st(a \<mapsto> f\<lparr>cf_ref_count := cf_ref_count f + 1\<rparr>)) ?p"
    unfolding balanced_def
  proof
    fix b
    show "refs_ok (ext b + holds ?p b) ((st(a \<mapsto> f\<lparr>cf_ref_count := cf_ref_count f + 1\<rparr>)) b)"
      unfolding h using ra [of b] f by (cases "b = a") (simp_all add: refs_ok_def)
  qed
  moreover have "nat (pub_count p + 1) = Suc ?n" using wf(3) by simp
  then have "pub_entries ?p = pub_entries p @ [(path, Some a)]"
    using wf by (simp add: pub_entries_def take_Suc_conv_app_nth)
  ultimately show thesis
    using wf f
    by (intro that(2) [of f ?p])
       (simp_all add: pentax_capture_publication_add_def store_ref_def gp_file_ref_def Let_def)
qed

lemma find_indices: "find P xs = map_option ((!) xs) (find (\<lambda>i. P (xs ! i)) [0..<length xs])"
proof (cases "find (\<lambda>i. P (xs ! i)) [0..<length xs]")
  case None
  then have "find P xs = None" by (auto simp: find_None_iff in_set_conv_nth)
  with None show ?thesis by simp
next
  case (Some i)
  then have "find P xs = Some (xs ! i)" by (auto simp: find_Some_iff)
  with Some show ?thesis by simp
qed

lemma mset_move_last:
  assumes "i < n" "n = length xs"
  shows "mset xs = add_mset (xs ! i) (mset (take (n - 1) (xs[i := xs ! (n - 1)])))"
proof -
  from assms have "xs = butlast xs @ [xs ! (n - 1)]"
    by (metis append_butlast_last_id last_conv_nth length_0_conv not_less_zero)
  then obtain ys y where xs: "xs = ys @ [y]" by blast
  show ?thesis
  proof (cases "i = length ys")
    case True
    then show ?thesis using assms by (simp add: xs)
  next
    case False
    then have i: "i < length ys" using assms by (simp add: xs)
    then have "mset (take (n - 1) (xs[i := xs ! (n - 1)])) = mset (ys[i := y])"
      using assms by (simp add: xs list_update_append1)
    moreover have "add_mset (ys ! i) (mset (ys[i := y])) = add_mset y (mset ys)"
      using i nth_mem_mset [OF i] by (simp add: mset_update add_mset_commute)
    ultimately show ?thesis using i by (simp add: xs nth_append)
  qed
qed

lemma remove_ok:
  assumes "pub_wf p" "balanced ext st p"
  obtains (absent) "find (\<lambda>(pa, _). fp_folder pa = fo \<and> fp_name pa = fi) (pub_entries p) = None"
      "pentax_capture_publication_remove h st (Some p) (Some fo) (Some fi) = Some (GP_OK, h, st, Some p)"
  | (removed) i a f h' p' where "i < length (pub_entries p)"
      "find (\<lambda>(pa, _). fp_folder pa = fo \<and> fp_name pa = fi) (pub_entries p) = Some (pub_entries p ! i)"
      "snd (pub_entries p ! i) = Some a" "st a = Some f"
      "pentax_capture_publication_remove h st (Some p) (Some fo) (Some fi) =
        Some (GP_OK, h', st(a := drop_ref f), Some p')"
      "pub_wf p'" "balanced ext (st(a := drop_ref f)) p'"
      "mset (pub_entries p) = add_mset (pub_entries p ! i) (mset (pub_entries p'))"
      "pub_vendor_mode p' = pub_vendor_mode p"
proof -
  let ?n = "nat (pub_count p)" and ?l = "nat (pub_count p - 1)"
  let ?P = "\<lambda>i. fp_folder (pub_paths p ! i) = fo \<and> fp_name (pub_paths p ! i) = fi"
  let ?e = "pub_entries p"
  have wf: "length (pub_paths p) = slots" "length (pub_files p) = slots" "?n \<le> slots"
    using assms(1) by (auto simp: pub_wf_def)
  have le: "length ?e = ?n" using wf by (simp add: pub_entries_def)
  have en: "?e ! i = (pub_paths p ! i, pub_files p ! i)" if "i < ?n" for i
    using that wf by (simp add: pub_entries_def)
  have fs: "find_slot p fo fi [0..<?n] = Some (find ?P [0..<?n])"
    using wf(3) by (intro find_slot_ok) auto
  have fe: "find (\<lambda>(pa, _). fp_folder pa = fo \<and> fp_name pa = fi) ?e =
      map_option ((!) ?e) (find ?P [0..<?n])"
    using en by (subst find_indices) (auto simp: le intro!: arg_cong [where f = "map_option _"] find_cong)
  show thesis
  proof (cases "find ?P [0..<?n]")
    case None
    then show thesis by (intro absent) (simp_all add: fe fs pentax_capture_publication_remove_def)
  next
    case (Some i)
    then have i: "i < ?n" by (auto simp: find_Some_iff)
    then obtain a where a: "pub_files p ! i = Some a"
      using assms(1) wf(3) by (force simp: pub_wf_def)
    have l: "?l = ?n - 1" "?l < slots" "i \<le> ?l" using i wf(3) by auto
    define q where "q = p\<lparr>pub_files := (pub_files p)[i := pub_files p ! ?l]\<rparr>"
    define r where "r = q\<lparr>pub_files := (pub_files q)[?l := None]\<rparr>"
    define p' where "p' = r\<lparr>pub_paths := (pub_paths p)[i := pub_paths p ! ?l, ?l := zero_path],
      pub_count := int ?l\<rparr>"
    have h: "holds p' b + (if pub_files p ! i = Some b then 1 else 0) = holds p b" for b
    proof -
      have "holds q b + (if pub_files p ! i = Some b then 1 else 0) =
          holds p b + (if pub_files p ! ?l = Some b then 1 else 0)"
        unfolding q_def by (rule holds_update) (use wf i in simp)
      moreover have "holds r b + (if pub_files q ! ?l = Some b then 1 else 0) = holds q b"
        unfolding r_def using holds_update [of ?l q None b] wf l by (simp add: q_def)
      moreover have "pub_files q ! ?l = pub_files p ! ?l"
        using wf l by (simp add: q_def nth_list_update)
      moreover have "holds p' b = holds r b" by (simp add: p'_def holds_def)
      ultimately show ?thesis by simp
    qed
    have bal: "ext a + holds p a = Suc (ext a + holds p' a)"
      "\<And>b. b \<noteq> a \<Longrightarrow> ext b + holds p' b = ext b + holds p b"
      using h [of a] a by simp (use h a in \<open>metis add_0_right option.inject\<close>)
    obtain f h' where f: "st a = Some f" "store_unref h st a = Some (h', st(a := drop_ref f))"
        "balanced ext (st(a := drop_ref f)) p'"
      by (rule balanced_unref [OF assms(2) bal, where h = h])
    have fl: "pub_files p' = (pub_files p)[i := pub_files p ! ?l, ?l := None]"
      by (simp add: p'_def r_def q_def)
    have pp: "pub_paths p' = (pub_paths p)[i := pub_paths p ! ?l, ?l := zero_path]"
        "pub_count p' = int ?l"
      by (simp_all add: p'_def)
    have "pentax_capture_publication_remove h st (Some p) (Some fo) (Some fi) =
        Some (GP_OK, h', st(a := drop_ref f), Some p')"
      using f(2) a Some
      by (auto simp: pentax_capture_publication_remove_def fs Let_def p'_def r_def q_def)
    moreover have "pub_wf p'"
      using assms(1) wf l i pp by (auto simp: pub_wf_def fl nth_list_update)
    moreover have "pub_entries p' = take (?n - 1) (?e[i := ?e ! (?n - 1)])"
    proof -
      have "?e[i := ?e ! (?n - 1)] = zip ((take ?n (pub_paths p))[i := pub_paths p ! ?l])
          ((take ?n (pub_files p))[i := pub_files p ! ?l])"
        using i en [of "?n - 1"] l by (simp add: pub_entries_def zip_update)
      moreover have "pub_count p' = int (?n - 1)" by (simp add: p'_def l(1))
      ultimately show ?thesis
        by (simp add: pub_entries_def fl pp l(1) take_zip take_update_swap list_update_beyond min_def)
    qed
    then have "mset ?e = add_mset (?e ! i) (mset (pub_entries p'))"
      using mset_move_last [OF i le [symmetric]] by (simp only:)
    moreover have "find (\<lambda>(pa, _). fp_folder pa = fo \<and> fp_name pa = fi) ?e = Some (?e ! i)"
      using fe Some by simp
    moreover have "i < length ?e" "snd (?e ! i) = Some a" using i le en a by simp_all
    moreover have "pub_vendor_mode p' = pub_vendor_mode p" by (simp add: p'_def r_def q_def)
    ultimately show thesis using f(1,3) by (intro removed [of i a f h' p'])
  qed
qed

section \<open>Everything that can happen to the ledger\<close>

text \<open>
  A state is the references others hold, the host, the files and the ledger. Drivers create
  files, publish them, remove or clear entries; a caller that looks a file up takes a
  reference, and whoever holds one may give it back.
\<close>

type_synonym 'p pub_state = "(nat \<Rightarrow> nat) \<times> host \<times> 'p file_store \<times> publications"

inductive pub_step :: "'p pub_state \<Rightarrow> 'p pub_state \<Rightarrow> bool" where
  create: "st a = None \<Longrightarrow> ext a = 0 \<Longrightarrow> gp_file_new True = (r, Some f) \<Longrightarrow>
    pub_step (ext, h, st, p) (ext(a := 1), h, st(a \<mapsto> f), p)"
| publish: "0 < ext a \<Longrightarrow>
    pentax_capture_publication_add st (Some p) path (Some a) = Some (r, st', Some p') \<Longrightarrow>
    pub_step (ext, h, st, p) (ext, h, st', p')"
| remove: "pentax_capture_publication_delete_virtual h st (Some p) fo fi hh =
      Some (r, handled, h', st', Some p') \<Longrightarrow>
    pub_step (ext, h, st, p) (ext, h', st', p')"
| clear: "pentax_capture_publications_clear h st (Some p) = Some (r, h', st', Some p') \<Longrightarrow>
    pub_step (ext, h, st, p) (ext, h', st', p')"
| hand_out: "pentax_capture_publication_find_for_type (Some p) fo fi ty = Some (Some a) \<Longrightarrow>
    store_ref st a = Some st' \<Longrightarrow> pub_step (ext, h, st, p) (ext(a := Suc (ext a)), h, st', p)"
| release: "0 < ext a \<Longrightarrow> store_unref h st a = Some (h', st') \<Longrightarrow>
    pub_step (ext, h, st, p) (ext(a := ext a - 1), h', st', p)"

inductive_cases pub_stepE: "pub_step (ext, h, st, p) (ext', h', st', p')"

definition pub_good :: "'p pub_state \<Rightarrow> bool" where
  "pub_good s = (case s of (ext, h, st, p) \<Rightarrow> pub_wf p \<and> balanced ext st p)"

lemma remove_good:
  assumes "pub_wf p" "balanced ext st p"
  shows "\<exists>h' st' p'. pentax_capture_publication_remove h st (Some p) (Some fo) (Some fi) =
      Some (GP_OK, h', st', Some p') \<and> pub_wf p' \<and> balanced ext st' p'"
  using assms by (cases rule: remove_ok [OF assms, of fo fi h]) auto

lemma delete_virtual_good:
  assumes "pub_wf p" "balanced ext st p"
  shows "\<exists>r v h' st' p'. pentax_capture_publication_delete_virtual h st (Some p) fo fi hh =
      Some (r, v, h', st', Some p') \<and> pub_wf p' \<and> balanced ext st' p'"
proof (cases "fo = None \<or> fi = None \<or> \<not> hh \<or> \<not> pub_vendor_mode p \<or> the fo \<noteq> ''/''")
  case True
  with assms show ?thesis
    by (auto simp: pentax_capture_publication_delete_virtual_def split: option.splits)
next
  case False
  then obtain b where b: "fo = Some ''/''" "fi = Some b" "hh" "pub_vendor_mode p" by auto
  obtain h' st' p' where "pentax_capture_publication_remove h st (Some p) (Some ''/'') (Some b) =
      Some (GP_OK, h', st', Some p')" "pub_wf p'" "balanced ext st' p'"
    using remove_good [OF assms] by blast
  with b show ?thesis by (simp add: pentax_capture_publication_delete_virtual_def)
qed

lemma publish_good:
  assumes "pub_wf p" "balanced ext st p" "0 < ext a"
  shows "\<exists>r st' p'. pentax_capture_publication_add st (Some p) path (Some a) = Some (r, st', Some p') \<and>
    pub_wf p' \<and> balanced ext st' p'"
proof (cases path)
  case None
  with assms show ?thesis by (simp add: pentax_capture_publication_add_def)
next
  case (Some pa)
  show ?thesis unfolding Some by (rule add_ok [OF assms, of pa]) (use assms in auto)
qed

lemma balanced_file: "balanced ext st p \<Longrightarrow> refs_ok (ext a + holds p a) (st a)"
  by (simp add: balanced_def)

lemma pub_step_good: "pub_step s s' \<Longrightarrow> pub_good s \<Longrightarrow> pub_good s'"
proof (induction rule: pub_step.induct)
  case (create st a ext r f h p)
  have f: "cf_ref_count f = 1" "cf_data f \<noteq> Freed"
    using create(3) by (auto simp: gp_file_new_def empty_file_def)
  have "refs_ok ((ext(a := 1)) b + holds p b) ((st(a \<mapsto> f)) b)" for b
    using balanced_file [of ext st p b] balanced_file [of ext st p a] create f
    by (cases "b = a") (auto simp: pub_good_def refs_ok_def)
  with create.prems show ?case by (simp add: pub_good_def balanced_def)
next
  case (publish ext a st p path r st' p' h)
  then show ?case using publish_good [of p ext st a path] by (simp add: pub_good_def)
next
  case (remove h st p fo fi hh r handled h' st' p' ext)
  then show ?case using delete_virtual_good [of p ext st h fo fi hh] by (simp add: pub_good_def)
next
  case (clear h st p r h' st' p' ext)
  then show ?case using clear_ok [of p ext st h] by (simp add: pub_good_def)
next
  case (hand_out p fo fi ty a st st' ext h)
  then obtain f where f: "st a = Some f" "st' = st(a \<mapsto> f\<lparr>cf_ref_count := cf_ref_count f + 1\<rparr>)"
    by (auto simp: store_ref_def gp_file_ref_def split: option.splits)
  have "refs_ok ((ext(a := Suc (ext a))) b + holds p b) (st' b)" for b
    using balanced_file [of ext st p b] hand_out.prems f
    by (cases "b = a") (auto simp: pub_good_def refs_ok_def)
  with hand_out.prems show ?case by (simp add: pub_good_def balanced_def)
next
  case (release ext a h st h' st' p)
  have "ext a + holds p a = Suc ((ext(a := ext a - 1)) a + holds p a)"
    "\<And>b. b \<noteq> a \<Longrightarrow> (ext(a := ext a - 1)) b + holds p b = ext b + holds p b"
    using release(1) by auto
  from balanced_unref [OF _ this, of st h] release show ?case
    by (metis (mono_tags, lifting) Pair_inject case_prod_conv option.inject pub_good_def)
qed

lemma find_good:
  assumes "pub_wf p" "balanced ext st p"
  shows "\<exists>o'. pentax_capture_publication_find (Some p) fo fi = Some o' \<and>
    (case o' of None \<Rightarrow> True | Some a \<Rightarrow> st a \<noteq> None)"
proof (cases "fo = None \<or> fi = None \<or> \<not> pub_vendor_mode p")
  case True
  then show ?thesis by (auto simp: pentax_capture_publication_find_def split: option.splits)
next
  case False
  then obtain a b where ab: "fo = Some a" "fi = Some b" "pub_vendor_mode p" by auto
  have fs: "find_slot p a b [0..<nat (pub_count p)] = Some (find
      (\<lambda>i. fp_folder (pub_paths p ! i) = a \<and> fp_name (pub_paths p ! i) = b) [0..<nat (pub_count p)])"
    by (rule find_slot_ok) (use assms(1) in \<open>auto simp: pub_wf_def\<close>)
  have live: "st x \<noteq> None" if "pub_files p ! i = Some x" "i < nat (pub_count p)" for i x
  proof -
    have "0 < holds p x"
      using that assms(1) nth_mem [of i "pub_files p"] by (auto simp: holds_def pub_wf_def)
    then show ?thesis using balanced_file [OF assms(2), of x]
      by (cases "st x") (simp_all add: refs_ok_def)
  qed
  show ?thesis
    using ab fs live
    by (auto simp: pentax_capture_publication_find_def find_Some_iff split: option.splits)
qed

section \<open>Properties\<close>


definition empty_publications :: publications where
  "empty_publications = \<lparr>pub_vendor_mode = True, pub_paths = replicate 8 zero_path,
     pub_files = replicate 8 None, pub_count = 0\<rparr>"

lemma empty_pub_good: "pub_good (\<lambda>_. 0, h, Map.empty, empty_publications)"
  by (auto simp: pub_good_def pub_wf_def balanced_def refs_ok_def empty_publications_def holds_def)

text \<open>A ledger with one capture in its first slot, and the store with that file.\<close>

definition sample_path :: CameraFilePath where
  "sample_path = \<lparr>fp_name = ''a.jpg'', fp_folder = ''/''\<rparr>"

definition one_published :: publications where
  "one_published = empty_publications\<lparr>pub_paths := (replicate 8 zero_path)[0 := sample_path],
     pub_files := (replicate 8 None)[0 := Some 7], pub_count := 1\<rparr>"

definition one_file :: "nat \<Rightarrow> unit file_store" where
  "one_file n = [7 \<mapsto> empty_file\<lparr>cf_ref_count := int n\<rparr>]"

definition one_ref :: "nat \<Rightarrow> nat" where
  "one_ref = (\<lambda>_. 0)(7 := 1)"


text \<open>
  Removing a published path takes exactly its first entry out of the ledger, with everything
  else kept, and gives back one reference of its file; a path that is not published changes
  nothing. Both are successes.
\<close>

theorem pentax_capture_publication_remove_spec:
  assumes "pub_wf p" "balanced ext st p"
  shows "\<exists>h' st' p'. pentax_capture_publication_remove h st (Some p) (Some fo) (Some fi) =
      Some (GP_OK, h', st', Some p') \<and>
    (case find (\<lambda>(pa, _). fp_folder pa = fo \<and> fp_name pa = fi) (pub_entries p) of
       None \<Rightarrow> h' = h \<and> st' = st \<and> p' = p
     | Some (pa, file) \<Rightarrow>
         mset (pub_entries p) = add_mset (pa, file) (mset (pub_entries p')) \<and>
         (\<exists>a f. file = Some a \<and> st a = Some f \<and> st' = st(a := drop_ref f)))"
proof (cases rule: remove_ok [OF assms, of fo fi h])
  case 1
  then show ?thesis by (intro exI [of _ h] exI [of _ st] exI [of _ p]) (simp only: simp_thms option.case)
next
  case (2 i a f h' p')
  obtain pa where pa: "pub_entries p ! i = (pa, Some a)" using 2(3) by (cases "pub_entries p ! i") auto
  then show ?thesis using 2
    by (intro exI [of _ h'] exI [of _ "st(a := drop_ref f)"] exI [of _ p']) simp
qed

theorem pentax_capture_publication_remove_spec_witness:
  "\<exists>h' st' p'. pentax_capture_publication_remove h0 (one_file 2) (Some one_published) (Some ''/'') (Some ''a.jpg'') =
      Some (GP_OK, h', st', Some p') \<and> pub_entries p' = [] \<and> st' = one_file 1"
proof -
  have e: "pub_entries one_published = [(sample_path, Some 7)]"
    by (simp add: pub_entries_def one_published_def eval_nat_numeral)
  have fl: "pub_files one_published = Some 7 # replicate 7 None"
    by (simp add: one_published_def eval_nat_numeral)
  have "pub_wf one_published"
    by (auto simp: pub_wf_def fl nth_Cons split: nat.split)
       (simp_all add: one_published_def empty_publications_def)
  moreover have "holds one_published a = (if a = 7 then 1 else 0)" for a
    by (auto simp: holds_def fl count_eq_zero_iff)
  then have "balanced one_ref (one_file 2) one_published"
    by (auto simp: balanced_def refs_ok_def one_ref_def one_file_def empty_file_def)
  ultimately have wf: "pub_wf one_published" "balanced one_ref (one_file 2) one_published" .
  show ?thesis
    using pentax_capture_publication_remove_spec [OF wf, of h0 "''/''" "''a.jpg''"]
    by (auto simp: e sample_path_def one_file_def drop_ref_def)
qed

end
