(* ===== verification/FsState.thy ===== *)
theory FsState
  imports CamFile CamList
begin

text \<open>
  The data of \<open>libgphoto2/gphoto2-filesys.c\<close> and \<open>gphoto2/gphoto2-filesys.h\<close>: the folder tree,
  the file entries with their cached views and LRU links, and the driver's functions. A
  \<open>CameraFilesystemFile *\<close> is the number of a cell (\<open>None\<close> in \<open>fs_cells\<close>: freed), a
  \<open>CameraFilesystemFolder *\<close> the number of a folder in the tree (not in the tree: freed), a
  \<open>CameraFile *\<close> the number of an object in the store. Cells and folders are numbered from
  \<open>fs_next\<close> and never reused. A result \<open>None\<close> is the use of something freed, or a loop that
  does not end.

  The driver works on its private data \<open>'d\<close>; it does not call back into the file system.
  Allocations succeed. The model is the configuration without \<open>libexif\<close>.
\<close>

record CameraFileInfoFile =
  fif_fields :: u32
  fif_status :: u32
  fif_size :: u64
  fif_type :: string
  fif_width :: u32
  fif_height :: u32
  fif_permissions :: u32
  fif_mtime :: int

record CameraFileInfoPreview =
  fip_fields :: u32
  fip_status :: u32
  fip_size :: u64
  fip_type :: string
  fip_width :: u32
  fip_height :: u32

record CameraFileInfoAudio =
  fia_fields :: u32
  fia_status :: u32
  fia_size :: u64
  fia_type :: string

record CameraFileInfo =
  fi_preview :: CameraFileInfoPreview
  fi_file :: CameraFileInfoFile
  fi_audio :: CameraFileInfoAudio

text \<open>\<open>calloc\<close> gives the information of a new entry.\<close>

definition zero_info :: CameraFileInfo where
  "zero_info =
     \<lparr>fi_preview = \<lparr>fip_fields = 0, fip_status = 0, fip_size = 0, fip_type = [], fip_width = 0,
        fip_height = 0\<rparr>,
      fi_file = \<lparr>fif_fields = 0, fif_status = 0, fif_size = 0, fif_type = [], fif_width = 0,
        fif_height = 0, fif_permissions = 0, fif_mtime = 0\<rparr>,
      fi_audio = \<lparr>fia_fields = 0, fia_status = 0, fia_size = 0, fia_type = []\<rparr>\<rparr>"

record CameraFilesystemFile =
  ff_name :: string
  ff_info_dirty :: bool
  ff_info :: CameraFileInfo
  ff_lru_prev :: "nat option"
  ff_lru_next :: "nat option"
  ff_preview :: "nat option"
  ff_normal :: "nat option"
  ff_raw :: "nat option"
  ff_audio :: "nat option"
  ff_exif :: "nat option"
  ff_metadata :: "nat option"

datatype CameraFilesystemFolder =
  Folder (fo_id: nat) (fo_name: string) (fo_files_dirty: bool) (fo_folders_dirty: bool)
    (fo_folders: "CameraFilesystemFolder list") (fo_files: "nat list")

text \<open>
  The driver's functions, each possibly NULL. A list function returns its code and the names
  it put into the list; \<open>fd_cancel\<close> is the front end's cancel callback.
\<close>

record ('p, 'd) CameraFilesystemFuncs =
  file_list_func :: "('d \<Rightarrow> string \<Rightarrow> (int \<times> string list) \<times> 'd) option"
  folder_list_func :: "('d \<Rightarrow> string \<Rightarrow> (int \<times> string list) \<times> 'd) option"
  put_file_func ::
    "('d \<Rightarrow> string \<Rightarrow> string \<Rightarrow> CameraFileType \<Rightarrow> 'p CameraFile \<Rightarrow> int \<times> 'd) option"
  delete_all_func :: "('d \<Rightarrow> string \<Rightarrow> int \<times> 'd) option"
  get_info_func ::
    "('d \<Rightarrow> string \<Rightarrow> string \<Rightarrow> CameraFileInfo \<Rightarrow> (int \<times> CameraFileInfo) \<times> 'd) option"
  set_info_func :: "('d \<Rightarrow> string \<Rightarrow> string \<Rightarrow> CameraFileInfo \<Rightarrow> int \<times> 'd) option"
  make_dir_func :: "('d \<Rightarrow> string \<Rightarrow> string \<Rightarrow> int \<times> 'd) option"
  remove_dir_func :: "('d \<Rightarrow> string \<Rightarrow> string \<Rightarrow> int \<times> 'd) option"
  get_file_func ::
    "('d \<Rightarrow> string \<Rightarrow> string \<Rightarrow> CameraFileType \<Rightarrow> 'p CameraFile \<Rightarrow> (int \<times> 'p CameraFile) \<times> 'd) option"
  read_file_func ::
    "('d \<Rightarrow> string \<Rightarrow> string \<Rightarrow> CameraFileType \<Rightarrow> u64 \<Rightarrow> u64 \<Rightarrow> (int \<times> byte list \<times> u64) \<times> 'd) option"
  delete_file_func :: "('d \<Rightarrow> string \<Rightarrow> string \<Rightarrow> int \<times> 'd) option"
  storage_info_func :: "('d \<Rightarrow> (int \<times> string list) \<times> 'd) option"
  fd_cancel :: "('d \<Rightarrow> bool \<times> 'd) option"

text \<open>
  \<open>fs_pictures_to_keep\<close> is the static variable of the file, \<open>fs_cached_images\<close> the setting it
  is read from.
\<close>

record ('p, 'd) CameraFilesystem =
  fs_rootfolder :: CameraFilesystemFolder
  fs_lru_first :: "nat option"
  fs_lru_last :: "nat option"
  fs_lru_size :: u64
  fs_funcs :: "('p, 'd) CameraFilesystemFuncs"
  fs_data :: 'd
  fs_cells :: "nat \<Rightarrow> CameraFilesystemFile option"
  fs_objs :: "'p file_store"
  fs_host :: host
  fs_next :: nat
  fs_pictures_to_keep :: int
  fs_cached_images :: "string option"

section \<open>Access through pointers\<close>

definition cell_update ::
  "('p, 'd) CameraFilesystem \<Rightarrow> nat \<Rightarrow> (CameraFilesystemFile \<Rightarrow> CameraFilesystemFile) \<Rightarrow>
   ('p, 'd) CameraFilesystem option" where
  "cell_update fs a g =
     (case fs_cells fs a of
        None \<Rightarrow> None | Some c \<Rightarrow> Some (fs\<lparr>fs_cells := (fs_cells fs)(a \<mapsto> g c)\<rparr>))"

text \<open>The size of a cached view and its release.\<close>

definition obj_size ::
  "('p, 'd) CameraFilesystem \<Rightarrow> nat \<Rightarrow> (int \<times> u64 \<times> ('p, 'd) CameraFilesystem) option" where
  "obj_size fs ob =
     (case fs_objs fs ob of
        None \<Rightarrow> None
      | Some f \<Rightarrow>
          (case gp_file_get_data_and_size plain_mem (fs_host fs) (Some f) False True of
             None \<Rightarrow> None
           | Some (r, _, sz, f', h) \<Rightarrow>
               Some (r, (case sz of None \<Rightarrow> 0 | Some n \<Rightarrow> n),
                 fs\<lparr>fs_objs := (fs_objs fs)(ob := f'), fs_host := h\<rparr>)))"

definition obj_unref ::
  "('p, 'd) CameraFilesystem \<Rightarrow> nat \<Rightarrow> ('p, 'd) CameraFilesystem option" where
  "obj_unref fs ob =
     (case store_unref (fs_host fs) (fs_objs fs) ob of
        None \<Rightarrow> None | Some (h, st) \<Rightarrow> Some (fs\<lparr>fs_host := h, fs_objs := st\<rparr>))"

definition obj_ref ::
  "('p, 'd) CameraFilesystem \<Rightarrow> nat \<Rightarrow> ('p, 'd) CameraFilesystem option" where
  "obj_ref fs ob =
     (case store_ref (fs_objs fs) ob of None \<Rightarrow> None | Some st \<Rightarrow> Some (fs\<lparr>fs_objs := st\<rparr>))"

text \<open>A driver without functions, and a new entry as \<open>calloc\<close> gives it.\<close>

definition no_funcs :: "('p, 'd) CameraFilesystemFuncs" where
  "no_funcs = \<lparr>file_list_func = None, folder_list_func = None, put_file_func = None,
     delete_all_func = None, get_info_func = None, set_info_func = None, make_dir_func = None,
     remove_dir_func = None, get_file_func = None, read_file_func = None, delete_file_func = None,
     storage_info_func = None, fd_cancel = None\<rparr>"

definition new_entry :: "string \<Rightarrow> CameraFilesystemFile" where
  "new_entry name = \<lparr>ff_name = name, ff_info_dirty = True, ff_info = zero_info, ff_lru_prev = None,
     ff_lru_next = None, ff_preview = None, ff_normal = None, ff_raw = None, ff_audio = None,
     ff_exif = None, ff_metadata = None\<rparr>"

end
