(* ===== verification/FsLru.thy ===== *)
theory FsLru
  imports FsState
begin

text \<open>
  The LRU list of \<open>libgphoto2/gphoto2-filesys.c\<close>: the doubly linked list through the file
  entries whose pictures are cached, and its refinement to a plain list. The first entry's
  \<open>lru_prev\<close> points to itself, so that a NULL \<open>lru_prev\<close> means "not in the list".
\<close>

section \<open>Operations\<close>

text \<open>Loops along the \<open>lru_next\<close> pointers; a cycle would never end.\<close>

partial_function (option) lru_clear_loop ::
  "('p, 'd) CameraFilesystem \<Rightarrow> nat option \<Rightarrow> nat option \<Rightarrow> (int \<times> ('p, 'd) CameraFilesystem) option"
where
  "lru_clear_loop fs ptr prev =
     (case ptr of
        None \<Rightarrow> Some (GP_OK, fs\<lparr>fs_lru_first := None, fs_lru_last := None, fs_lru_size := 0\<rparr>)
      | Some p \<Rightarrow>
          (case fs_cells fs p of
             None \<Rightarrow> None
           | Some c \<Rightarrow>
               if ff_lru_prev c \<noteq> prev then Some (GP_ERROR, fs)
               else lru_clear_loop
                      (fs\<lparr>fs_cells := (fs_cells fs)(p \<mapsto> c\<lparr>ff_lru_prev := None, ff_lru_next := None\<rparr>)\<rparr>)
                      (ff_lru_next c) (Some p)))"

definition gp_filesystem_lru_clear ::
  "('p, 'd) CameraFilesystem \<Rightarrow> (int \<times> ('p, 'd) CameraFilesystem) option" where
  "gp_filesystem_lru_clear fs =
     (if fs_lru_first fs = None then Some (GP_OK, fs)
      else lru_clear_loop fs (fs_lru_first fs) (fs_lru_first fs))"

definition gp_filesystem_lru_remove_one ::
  "('p, 'd) CameraFilesystem \<Rightarrow> nat \<Rightarrow> (int \<times> ('p, 'd) CameraFilesystem) option" where
  "gp_filesystem_lru_remove_one fs item =
     (case fs_cells fs item of
        None \<Rightarrow> None
      | Some c \<Rightarrow>
          (case ff_lru_prev c of
             None \<Rightarrow> Some (GP_ERROR, fs)
           | Some p \<Rightarrow>
               (case cell_update fs p (\<lambda>x. x\<lparr>ff_lru_next := ff_lru_next c\<rparr>) of
                  None \<Rightarrow> None
                | Some fs \<Rightarrow>
                    (case (case ff_lru_next c of None \<Rightarrow> Some fs
                           | Some n \<Rightarrow> cell_update fs n (\<lambda>x. x\<lparr>ff_lru_prev := Some p\<rparr>)) of
                       None \<Rightarrow> None
                     | Some fs \<Rightarrow>
                         (case (if fs_lru_last fs = Some item
                                then if fs_lru_first fs = Some item
                                     then Some (fs\<lparr>fs_lru_last := None, fs_lru_first := None\<rparr>)
                                     else Some (fs\<lparr>fs_lru_last := Some p\<rparr>)
                                else if fs_lru_first fs = Some item
                                then (case ff_lru_next c of
                                        None \<Rightarrow> None
                                      | Some n \<Rightarrow>
                                          cell_update (fs\<lparr>fs_lru_first := Some n\<rparr>) n
                                            (\<lambda>x. x\<lparr>ff_lru_prev := Some n\<rparr>))
                                else Some fs) of
                            None \<Rightarrow> None
                          | Some fs \<Rightarrow>
                              map_option (Pair GP_OK)
                                (cell_update fs item
                                   (\<lambda>x. x\<lparr>ff_lru_prev := None, ff_lru_next := None\<rparr>)))))))"

text \<open>
  Freeing one cached view of the entry at the head: \<open>view\<close> reads the pointer, \<open>clear\<close> sets it
  to NULL.
\<close>

definition lru_free_view ::
  "nat \<Rightarrow> (CameraFilesystemFile \<Rightarrow> nat option) \<Rightarrow> (CameraFilesystemFile \<Rightarrow> CameraFilesystemFile) \<Rightarrow>
   ('p, 'd) CameraFilesystem \<Rightarrow> (int \<times> ('p, 'd) CameraFilesystem) option" where
  "lru_free_view a view clear fs =
     (case fs_cells fs a of
        None \<Rightarrow> None
      | Some c \<Rightarrow>
          (case view c of
             None \<Rightarrow> Some (GP_OK, fs)
           | Some ob \<Rightarrow>
               (case obj_size fs ob of
                  None \<Rightarrow> None
                | Some (r, n, fs) \<Rightarrow>
                    if r < 0 then Some (r, fs)
                    else
                      (case obj_unref (fs\<lparr>fs_lru_size := fs_lru_size fs - n\<rparr>) ob of
                         None \<Rightarrow> None
                       | Some fs \<Rightarrow> map_option (Pair GP_OK) (cell_update fs a clear)))))"

definition gp_filesystem_lru_free ::
  "('p, 'd) CameraFilesystem \<Rightarrow> (int \<times> ('p, 'd) CameraFilesystem) option" where
  "gp_filesystem_lru_free fs =
     (case fs_lru_first fs of
        None \<Rightarrow> Some (GP_ERROR_BAD_PARAMETERS, fs)
      | Some a \<Rightarrow>
          (case fs_cells fs a of
             None \<Rightarrow> None
           | Some c \<Rightarrow>
               (let fs = fs\<lparr>fs_lru_first := ff_lru_next c\<rparr>
                in case (case ff_lru_next c of
                           None \<Rightarrow> Some (fs\<lparr>fs_lru_last := None\<rparr>)
                         | Some n \<Rightarrow> cell_update fs n (\<lambda>x. x\<lparr>ff_lru_prev := Some n\<rparr>)) of
                     None \<Rightarrow> None
                   | Some fs \<Rightarrow>
                       (case lru_free_view a ff_normal (\<lambda>x. x\<lparr>ff_normal := None\<rparr>) fs of
                          None \<Rightarrow> None
                        | Some (r, fs) \<Rightarrow> if r < 0 then Some (r, fs) else
                       (case lru_free_view a ff_raw (\<lambda>x. x\<lparr>ff_raw := None\<rparr>) fs of
                          None \<Rightarrow> None
                        | Some (r, fs) \<Rightarrow> if r < 0 then Some (r, fs) else
                       (case lru_free_view a ff_audio (\<lambda>x. x\<lparr>ff_audio := None\<rparr>) fs of
                          None \<Rightarrow> None
                        | Some (r, fs) \<Rightarrow> if r < 0 then Some (r, fs) else
                            map_option (Pair GP_OK)
                              (cell_update fs a
                                 (\<lambda>x. x\<lparr>ff_lru_next := None, ff_lru_prev := None\<rparr>))))))))"

definition has_picture :: "CameraFilesystemFile \<Rightarrow> bool" where
  "has_picture c \<longleftrightarrow> ff_normal c \<noteq> None \<or> ff_raw c \<noteq> None \<or> ff_audio c \<noteq> None"

partial_function (option) lru_count_loop ::
  "(nat \<Rightarrow> CameraFilesystemFile option) \<Rightarrow> nat option \<Rightarrow> int \<Rightarrow> int option" where
  "lru_count_loop cells ptr cnt =
     (case ptr of
        None \<Rightarrow> Some cnt
      | Some p \<Rightarrow>
          (case cells p of
             None \<Rightarrow> None
           | Some c \<Rightarrow>
               lru_count_loop cells (ff_lru_next c) (if has_picture c then cnt + 1 else cnt)))"

definition gp_filesystem_lru_count :: "('p, 'd) CameraFilesystem \<Rightarrow> int option" where
  "gp_filesystem_lru_count fs = lru_count_loop (fs_cells fs) (fs_lru_first fs) 0"

partial_function (option) lru_check_loop ::
  "(nat \<Rightarrow> CameraFilesystemFile option) \<Rightarrow> nat option \<Rightarrow> nat option \<Rightarrow> int option" where
  "lru_check_loop cells ptr prev =
     (case ptr of
        None \<Rightarrow> Some GP_OK
      | Some p \<Rightarrow>
          (case cells p of
             None \<Rightarrow> None
           | Some c \<Rightarrow>
               if ff_lru_prev c \<noteq> prev then Some GP_ERROR
               else lru_check_loop cells (ff_lru_next c) (Some p)))"

definition gp_filesystem_lru_check :: "('p, 'd) CameraFilesystem \<Rightarrow> int option" where
  "gp_filesystem_lru_check fs =
     (if fs_lru_first fs = None then Some GP_OK
      else lru_check_loop (fs_cells fs) (fs_lru_first fs) (fs_lru_first fs))"

text \<open>The pieces of \<open>gp_filesystem_lru_update\<close> before and after its lookup of the file.\<close>

abbreviation (input) PICTURES_TO_KEEP :: int where "PICTURES_TO_KEEP \<equiv> 2"

definition atoi :: "string \<Rightarrow> int" where
  "atoi s =
     (let t = dropWhile isspace s;
          (neg, u) = (case t of [] \<Rightarrow> (False, [])
            | c # r \<Rightarrow> if c = CHR ''-'' then (True, r) else if c = CHR ''+'' then (False, r)
                      else (False, c # r));
          v = int (digits_value (takeWhile isdigit u))
      in if neg then - v else v)"

definition read_pictures_to_keep :: "('p, 'd) CameraFilesystem \<Rightarrow> ('p, 'd) CameraFilesystem" where
  "read_pictures_to_keep fs =
     (let fs = (if fs_pictures_to_keep fs = - 1
                then (case fs_cached_images fs of
                        Some v \<Rightarrow> fs\<lparr>fs_pictures_to_keep := atoi v\<rparr>
                      | None \<Rightarrow> fs\<lparr>fs_cached_images := Some (dec (nat PICTURES_TO_KEEP))\<rparr>)
                else fs)
      in if fs_pictures_to_keep fs < 0 then fs\<lparr>fs_pictures_to_keep := PICTURES_TO_KEEP\<rparr> else fs)"

partial_function (option) lru_prune ::
  "('p, 'd) CameraFilesystem \<Rightarrow> (int \<times> ('p, 'd) CameraFilesystem) option" where
  "lru_prune fs =
     (case gp_filesystem_lru_count fs of
        None \<Rightarrow> None
      | Some x \<Rightarrow>
          if fs_pictures_to_keep fs < x
          then (case gp_filesystem_lru_free fs of
                  None \<Rightarrow> None
                | Some (r, fs) \<Rightarrow> if r < 0 then Some (r, fs) else lru_prune fs)
          else Some (GP_OK, fs))"

text \<open>Taking an entry that is in the list out of it, with the size of the view it replaces.\<close>

definition lru_take_out ::
  "('p, 'd) CameraFilesystem \<Rightarrow> nat \<Rightarrow> CameraFileType \<Rightarrow>
   (int \<times> ('p, 'd) CameraFilesystem) option" where
  "lru_take_out fs xfile ty =
     (case fs_cells fs xfile of
        None \<Rightarrow> None
      | Some c \<Rightarrow>
          if ff_lru_prev c = None then Some (GP_OK, fs)
          else
            (let oldfile = (case ty of GP_FILE_TYPE_NORMAL \<Rightarrow> ff_normal c
                            | GP_FILE_TYPE_RAW \<Rightarrow> ff_raw c | GP_FILE_TYPE_AUDIO \<Rightarrow> ff_audio c
                            | _ \<Rightarrow> None)
             in case (case oldfile of
                        None \<Rightarrow> Some (GP_OK, fs)
                      | Some ob \<Rightarrow>
                          (case obj_size fs ob of
                             None \<Rightarrow> None
                           | Some (r, n, fs) \<Rightarrow>
                               Some (r, if r < 0 then fs else fs\<lparr>fs_lru_size := fs_lru_size fs - n\<rparr>))) of
                  None \<Rightarrow> None
                | Some (r, fs) \<Rightarrow>
                    if r < 0 then Some (r, fs) else gp_filesystem_lru_remove_one fs xfile))"

definition lru_put_last ::
  "('p, 'd) CameraFilesystem \<Rightarrow> nat \<Rightarrow> ('p, 'd) CameraFilesystem option" where
  "lru_put_last fs xfile =
     (case fs_lru_first fs of
        None \<Rightarrow>
          cell_update (fs\<lparr>fs_lru_first := Some xfile, fs_lru_last := Some xfile\<rparr>) xfile
            (\<lambda>x. x\<lparr>ff_lru_prev := Some xfile\<rparr>)
      | Some _ \<Rightarrow>
          (case cell_update fs xfile (\<lambda>x. x\<lparr>ff_lru_next := None, ff_lru_prev := fs_lru_last fs\<rparr>) of
             None \<Rightarrow> None
           | Some fs \<Rightarrow>
               (case fs_lru_last fs of
                  None \<Rightarrow> None
                | Some l \<Rightarrow>
                    map_option (\<lambda>fs. fs\<lparr>fs_lru_last := Some xfile\<rparr>)
                      (cell_update fs l (\<lambda>x. x\<lparr>ff_lru_next := Some xfile\<rparr>)))))"

text \<open>
  The rest of \<open>gp_filesystem_lru_update\<close> after its lookup: the entry moves to the end of the
  list and the size of the new view is counted.
\<close>

definition lru_relink ::
  "('p, 'd) CameraFilesystem \<Rightarrow> nat \<Rightarrow> CameraFileType \<Rightarrow> nat \<Rightarrow>
   (int \<times> ('p, 'd) CameraFilesystem) option" where
  "lru_relink fs xfile ty file =
     (case lru_take_out fs xfile ty of
        None \<Rightarrow> None
      | Some (r, fs) \<Rightarrow>
          if r < 0 then Some (r, fs)
          else
            (case lru_put_last fs xfile of
               None \<Rightarrow> None
             | Some fs \<Rightarrow>
                 (case obj_size fs file of
                    None \<Rightarrow> None
                  | Some (r, n, fs) \<Rightarrow>
                      if r < 0 then Some (r, fs)
                      else Some (GP_OK, fs\<lparr>fs_lru_size := fs_lru_size fs + n\<rparr>))))"

section \<open>The list the pointers form\<close>

text \<open>
  \<open>seg cells p xs n\<close>: the entries \<open>xs\<close> are linked in this order, the first one back to \<open>p\<close> (to
  itself when there is none) and the last one on to \<open>n\<close>.
\<close>

definition first_or :: "nat list \<Rightarrow> nat option \<Rightarrow> nat option" where
  "first_or xs n = (case xs of [] \<Rightarrow> n | y # _ \<Rightarrow> Some y)"

definition last_or :: "nat option \<Rightarrow> nat list \<Rightarrow> nat option" where
  "last_or p xs = (if xs = [] then p else Some (last xs))"

lemma first_or_simps [simp]: "first_or [] n = n" "first_or (y # ys) n = Some y"
  by (simp_all add: first_or_def)

lemma last_or_simps [simp]:
  "last_or p [] = p" "last_or p (x # xs) = last_or (Some x) xs"
  "last_or p (xs @ ys) = last_or (last_or p xs) ys"
  by (simp_all add: last_or_def)

type_synonym cells = "nat \<Rightarrow> CameraFilesystemFile option"

fun seg :: "cells \<Rightarrow> nat option \<Rightarrow> nat list \<Rightarrow> nat option \<Rightarrow> bool" where
  "seg cs p [] n \<longleftrightarrow> True"
| "seg cs p (x # xs) n \<longleftrightarrow>
     (\<exists>c. cs x = Some c \<and> ff_lru_prev c = Some (case p of None \<Rightarrow> x | Some q \<Rightarrow> q) \<and>
        ff_lru_next c = first_or xs n) \<and> seg cs (Some x) xs n"

lemma seg_append [simp]:
  "seg cs p (as @ bs) n \<longleftrightarrow> seg cs p as (first_or bs n) \<and> seg cs (last_or p as) bs n"
proof (induction as arbitrary: p)
  case (Cons a as)
  have "first_or (as @ bs) n = first_or as (first_or bs n)" by (cases as) simp_all
  with Cons show ?case by simp
qed simp

lemma seg_update [simp]: "a \<notin> set xs \<Longrightarrow> seg (cs(a := v)) p xs n \<longleftrightarrow> seg cs p xs n"
  by (induction xs arbitrary: p) auto

text \<open>The whole list; entries outside it have no links.\<close>

definition unlinked :: "cells \<Rightarrow> nat set \<Rightarrow> bool" where
  "unlinked cs X \<longleftrightarrow>
     (\<forall>a c. a \<notin> X \<longrightarrow> cs a = Some c \<longrightarrow> ff_lru_prev c = None \<and> ff_lru_next c = None)"

definition lru_ok :: "('p, 'd) CameraFilesystem \<Rightarrow> nat list \<Rightarrow> bool" where
  "lru_ok fs xs \<longleftrightarrow> distinct xs \<and> fs_lru_first fs = first_or xs None \<and>
     fs_lru_last fs = last_or None xs \<and> seg (fs_cells fs) None xs None \<and>
     unlinked (fs_cells fs) (set xs)"

text \<open>What the links do not touch.\<close>

definition strip :: "cells \<Rightarrow> cells" where
  "strip cs a = map_option (\<lambda>c. c\<lparr>ff_lru_prev := None, ff_lru_next := None\<rparr>) (cs a)"

definition same_views :: "('p, 'd) CameraFilesystem \<Rightarrow> ('p, 'd) CameraFilesystem \<Rightarrow> bool" where
  "same_views fs fs' \<longleftrightarrow> strip (fs_cells fs') = strip (fs_cells fs) \<and>
     fs' = fs\<lparr>fs_cells := fs_cells fs', fs_lru_first := fs_lru_first fs',
              fs_lru_last := fs_lru_last fs', fs_lru_size := fs_lru_size fs'\<rparr>"

lemma strip_update [simp]:
  "cs a = Some c \<Longrightarrow> strip (cs(a \<mapsto> c\<lparr>ff_lru_next := n\<rparr>)) = strip cs"
  "cs a = Some c \<Longrightarrow> strip (cs(a \<mapsto> c\<lparr>ff_lru_prev := p\<rparr>)) = strip cs"
  "cs a = Some c \<Longrightarrow> strip (cs(a \<mapsto> c\<lparr>ff_lru_prev := p, ff_lru_next := n\<rparr>)) = strip cs"
  "cs a = Some c \<Longrightarrow> strip (cs(a \<mapsto> c\<lparr>ff_lru_next := n, ff_lru_prev := p\<rparr>)) = strip cs"
  by (auto simp: strip_def fun_eq_iff)

lemma same_views_refl [simp]: "same_views fs fs"
  by (simp add: same_views_def)

lemma same_views_trans: "same_views a b \<Longrightarrow> same_views b c \<Longrightarrow> same_views a c"
  by (cases a; cases b; cases c) (auto simp: same_views_def)

lemma lru_ok_cell: "lru_ok fs xs \<Longrightarrow> a \<in> set xs \<Longrightarrow> \<exists>c. fs_cells fs a = Some c \<and> ff_lru_prev c \<noteq> None"
proof -
  have "seg cs p xs n \<Longrightarrow> a \<in> set xs \<Longrightarrow> \<exists>c. cs a = Some c \<and> ff_lru_prev c \<noteq> None" for cs p n
    by (induction xs arbitrary: p) auto
  then show "lru_ok fs xs \<Longrightarrow> a \<in> set xs \<Longrightarrow> ?thesis" by (auto simp: lru_ok_def)
qed

lemma lru_linked_iff:
  "lru_ok fs xs \<Longrightarrow> fs_cells fs a = Some c \<Longrightarrow> ff_lru_prev c \<noteq> None \<longleftrightarrow> a \<in> set xs"
  using lru_ok_cell [of fs xs a] by (auto simp: lru_ok_def unlinked_def)

section \<open>Each operation on the list\<close>

lemma remove_one_absent:
  "lru_ok fs xs \<Longrightarrow> fs_cells fs a = Some c \<Longrightarrow> a \<notin> set xs \<Longrightarrow>
     gp_filesystem_lru_remove_one fs a = Some (GP_ERROR, fs)"
  by (auto simp: gp_filesystem_lru_remove_one_def lru_ok_def unlinked_def)

lemma remove_one_only:
  assumes "lru_ok fs [a]"
  shows "\<exists>fs'. gp_filesystem_lru_remove_one fs a = Some (GP_OK, fs') \<and> lru_ok fs' [] \<and> same_views fs fs'"
  using assms
  by (auto simp: gp_filesystem_lru_remove_one_def lru_ok_def cell_update_def unlinked_def same_views_def
      fun_upd_idem_iff)

lemma remove_one_head:
  assumes "lru_ok fs (a # b # bs)"
  shows "\<exists>fs'. gp_filesystem_lru_remove_one fs a = Some (GP_OK, fs') \<and> lru_ok fs' (b # bs) \<and>
    same_views fs fs'"
proof -
  obtain ca cb where c: "fs_cells fs a = Some ca" "fs_cells fs b = Some cb" "ff_lru_prev ca = Some a"
      "ff_lru_next ca = Some b" "ff_lru_next cb = first_or bs None" "a \<noteq> b" "a \<notin> set bs" "b \<notin> set bs"
      "distinct bs" "seg (fs_cells fs) (Some b) bs None" "fs_lru_first fs = Some a"
      "fs_lru_last fs = last_or (Some b) bs" "unlinked (fs_cells fs) (set (a # b # bs))"
    using assms by (auto simp: lru_ok_def)
  have l: "fs_lru_last fs \<noteq> Some a" using c(6-8,12) by (auto simp: last_or_def split: if_splits)
  let ?cs = "(fs_cells fs)(a \<mapsto> ca\<lparr>ff_lru_prev := None, ff_lru_next := None\<rparr>, b \<mapsto> cb\<lparr>ff_lru_prev := Some b\<rparr>)"
  have "gp_filesystem_lru_remove_one fs a = Some (GP_OK, fs\<lparr>fs_cells := ?cs, fs_lru_first := Some b\<rparr>)"
    using c l by (simp add: gp_filesystem_lru_remove_one_def cell_update_def fun_upd_twist)
  moreover have "lru_ok (fs\<lparr>fs_cells := ?cs, fs_lru_first := Some b\<rparr>) (b # bs)"
    using c by (auto simp: lru_ok_def unlinked_def)
  ultimately show ?thesis using c by (auto simp: same_views_def)
qed

lemma remove_one_last:
  assumes "lru_ok fs (as @ [q, a])"
  shows "\<exists>fs'. gp_filesystem_lru_remove_one fs a = Some (GP_OK, fs') \<and> lru_ok fs' (as @ [q]) \<and>
    same_views fs fs'"
proof -
  obtain ca cq where c: "fs_cells fs a = Some ca" "fs_cells fs q = Some cq" "ff_lru_prev ca = Some q"
      "ff_lru_next ca = None" "ff_lru_prev cq = Some (case last_or None as of None \<Rightarrow> q | Some z \<Rightarrow> z)"
      "a \<noteq> q" "a \<notin> set as" "q \<notin> set as" "distinct as" "seg (fs_cells fs) None as (Some q)"
      "fs_lru_first fs = first_or (as @ [q, a]) None"
      "fs_lru_last fs = Some a" "unlinked (fs_cells fs) (set (as @ [q, a]))"
    using assms by (auto simp: lru_ok_def)
  have f: "fs_lru_first fs \<noteq> Some a" "fs_lru_first fs = first_or (as @ [q]) None"
    using c(6,7,11) by (cases as; auto)+
  let ?cs = "(fs_cells fs)(q \<mapsto> cq\<lparr>ff_lru_next := None\<rparr>, a \<mapsto> ca\<lparr>ff_lru_prev := None, ff_lru_next := None\<rparr>)"
  have "gp_filesystem_lru_remove_one fs a = Some (GP_OK, fs\<lparr>fs_cells := ?cs, fs_lru_last := Some q\<rparr>)"
    using c f by (simp add: gp_filesystem_lru_remove_one_def cell_update_def)
  moreover have "lru_ok (fs\<lparr>fs_cells := ?cs, fs_lru_last := Some q\<rparr>) (as @ [q])"
    using c f by (auto simp: lru_ok_def unlinked_def)
  ultimately show ?thesis using c by (auto simp: same_views_def)
qed

lemma remove_one_middle:
  assumes "lru_ok fs (as @ q # a # b # bs)"
  shows "\<exists>fs'. gp_filesystem_lru_remove_one fs a = Some (GP_OK, fs') \<and> lru_ok fs' (as @ q # b # bs) \<and>
    same_views fs fs'"
proof -
  obtain ca cq cb where c: "fs_cells fs a = Some ca" "fs_cells fs q = Some cq" "fs_cells fs b = Some cb"
      "ff_lru_prev ca = Some q" "ff_lru_next ca = Some b"
      "ff_lru_prev cq = Some (case last_or None as of None \<Rightarrow> q | Some z \<Rightarrow> z)"
      "ff_lru_next cb = first_or bs None" "seg (fs_cells fs) None as (Some q)"
      "seg (fs_cells fs) (Some b) bs None"
    and d: "a \<noteq> q" "a \<noteq> b" "b \<noteq> q" "a \<notin> set as" "q \<notin> set as" "b \<notin> set as" "a \<notin> set bs" "q \<notin> set bs"
      "b \<notin> set bs" "distinct as" "distinct bs" "set as \<inter> set bs = {}"
    and e: "fs_lru_first fs = first_or (as @ q # a # b # bs) None"
      "fs_lru_last fs = last_or (Some b) bs" "unlinked (fs_cells fs) (set (as @ q # a # b # bs))"
    using assms by (auto simp: lru_ok_def)
  have f: "fs_lru_first fs \<noteq> Some a" "fs_lru_first fs = first_or (as @ q # b # bs) None"
    using d(1,4) e(1) by (cases as; auto)+
  have l: "fs_lru_last fs \<noteq> Some a" using d e(2) by (auto simp: last_or_def split: if_splits)
  let ?cs = "(fs_cells fs)(q \<mapsto> cq\<lparr>ff_lru_next := Some b\<rparr>, b \<mapsto> cb\<lparr>ff_lru_prev := Some q\<rparr>,
      a \<mapsto> ca\<lparr>ff_lru_prev := None, ff_lru_next := None\<rparr>)"
  have "gp_filesystem_lru_remove_one fs a = Some (GP_OK, fs\<lparr>fs_cells := ?cs\<rparr>)"
    using c d f l by (simp add: gp_filesystem_lru_remove_one_def cell_update_def)
  moreover have "lru_ok (fs\<lparr>fs_cells := ?cs\<rparr>) (as @ q # b # bs)"
    using c d e f by (auto simp: lru_ok_def unlinked_def last_or_def)
  ultimately show ?thesis using c d by (auto simp: same_views_def)
qed

text \<open>Removing an entry is removing it from the list.\<close>

lemma remove_one_ok:
  assumes "lru_ok fs xs" "a \<in> set xs"
  shows "\<exists>fs'. gp_filesystem_lru_remove_one fs a = Some (GP_OK, fs') \<and> lru_ok fs' (remove1 a xs) \<and>
    same_views fs fs'"
proof -
  obtain as bs where xs: "xs = as @ a # bs" by (meson assms(2) split_list)
  have d: "a \<notin> set as" "a \<notin> set bs" using assms(1) by (auto simp: lru_ok_def xs)
  have r: "remove1 a xs = as @ bs" by (simp add: xs remove1_append d)
  consider "as = []" "bs = []" | b bs' where "as = []" "bs = b # bs'"
    | as' q where "as = as' @ [q]" "bs = []" | as' q b bs' where "as = as' @ [q]" "bs = b # bs'"
    by (cases as rule: rev_cases; cases bs) auto
  then show ?thesis
  proof cases
    case 1
    then show ?thesis using remove_one_only [of fs a] assms(1) r xs by simp
  next
    case 2
    then show ?thesis using remove_one_head [of fs a b bs'] assms(1) r xs by simp
  next
    case 3
    then show ?thesis using remove_one_last [of fs as' q a] assms(1) r xs by simp
  next
    case 4
    then show ?thesis using remove_one_middle [of fs as' q a b bs'] assms(1) r xs by simp
  qed
qed

lemma put_last_ok:
  assumes "lru_ok fs xs" "a \<notin> set xs" "fs_cells fs a = Some c"
  shows "\<exists>fs'. lru_put_last fs a = Some fs' \<and> lru_ok fs' (xs @ [a]) \<and> same_views fs fs'"
proof (cases xs rule: rev_cases)
  case Nil
  then show ?thesis using assms
    by (auto simp: lru_put_last_def cell_update_def lru_ok_def unlinked_def same_views_def)
next
  case (snoc ys q)
  then obtain cq where q: "fs_cells fs q = Some cq" "q \<noteq> a" "fs_lru_last fs = Some q"
      "fs_lru_first fs = first_or (ys @ [q]) None" "q \<notin> set ys" "distinct ys" "a \<notin> set ys"
      "ff_lru_prev cq = Some (case last_or None ys of None \<Rightarrow> q | Some z \<Rightarrow> z)"
      "seg (fs_cells fs) None ys (Some q)" "unlinked (fs_cells fs) (set (ys @ [q]))"
    using assms by (auto simp: lru_ok_def)
  have f: "first_or (ys @ [q]) None = first_or (ys @ [q, a]) None" "first_or (ys @ [q]) None \<noteq> None"
    by (cases ys; simp)+
  let ?cs = "(fs_cells fs)(a \<mapsto> c\<lparr>ff_lru_next := None, ff_lru_prev := Some q\<rparr>, q \<mapsto> cq\<lparr>ff_lru_next := Some a\<rparr>)"
  have "lru_put_last fs a = Some (fs\<lparr>fs_cells := ?cs, fs_lru_last := Some a\<rparr>)"
    using q(1-4) assms(3) f(2) by (auto simp: lru_put_last_def cell_update_def)
  moreover have "unlinked ?cs (set (xs @ [a]))"
    using q(10) snoc by (auto simp: unlinked_def)
  then have "lru_ok (fs\<lparr>fs_cells := ?cs, fs_lru_last := Some a\<rparr>) (xs @ [a])"
    using q f(1) snoc by (simp add: lru_ok_def)
  moreover have "same_views fs (fs\<lparr>fs_cells := ?cs, fs_lru_last := Some a\<rparr>)"
    using q(1,2) assms(3) by (simp add: same_views_def)
  ultimately show ?thesis by blast
qed

lemma clear_loop_ok:
  assumes "distinct xs" "seg (fs_cells fs) p xs None" "unlinked (fs_cells fs) (set xs)"
    "p = None \<or> (\<exists>q. p = Some q \<and> q \<notin> set xs)"
  shows "\<exists>fs'. lru_clear_loop fs (first_or xs None) (case p of None \<Rightarrow> first_or xs None | Some q \<Rightarrow> Some q) =
      Some (GP_OK, fs') \<and> lru_ok fs' [] \<and> fs_lru_size fs' = 0 \<and> same_views fs fs'"
  using assms
proof (induction xs arbitrary: fs p)
  case Nil
  then show ?case
    by (subst lru_clear_loop.simps) (auto simp: lru_ok_def same_views_def)
next
  case (Cons x xs)
  then obtain c where c: "fs_cells fs x = Some c" "ff_lru_next c = first_or xs None"
      "ff_lru_prev c = Some (case p of None \<Rightarrow> x | Some q \<Rightarrow> q)" by auto
  let ?fs = "fs\<lparr>fs_cells := (fs_cells fs)(x \<mapsto> c\<lparr>ff_lru_prev := None, ff_lru_next := None\<rparr>)\<rparr>"
  have u: "unlinked (fs_cells ?fs) (set xs)" using Cons.prems(3) by (auto simp: unlinked_def)
  have sg: "seg (fs_cells ?fs) (Some x) xs None" using Cons.prems by simp
  have dx: "distinct xs" and px: "Some x = None \<or> (\<exists>q. Some x = Some q \<and> q \<notin> set xs)"
    using Cons.prems by auto
  have "\<exists>fs'. lru_clear_loop ?fs (first_or xs None) (Some x) = Some (GP_OK, fs') \<and> lru_ok fs' [] \<and>
      fs_lru_size fs' = 0 \<and> same_views ?fs fs'"
    using Cons.IH [OF dx sg u px] by (simp only: option.case)
  moreover have "same_views fs ?fs" using c by (simp add: same_views_def)
  ultimately show ?case
    using c by (subst lru_clear_loop.simps) (auto split: option.splits intro: same_views_trans)
qed

lemma lru_clear_ok:
  assumes "lru_ok fs xs"
  shows "\<exists>fs'. gp_filesystem_lru_clear fs = Some (GP_OK, fs') \<and> lru_ok fs' [] \<and> same_views fs fs'"
  using clear_loop_ok [of xs fs None] assms
  by (cases xs) (auto simp: gp_filesystem_lru_clear_def lru_ok_def)

lemma check_loop_ok:
  "seg cs p xs None \<Longrightarrow>
     lru_check_loop cs (first_or xs None) (case p of None \<Rightarrow> first_or xs None | Some q \<Rightarrow> Some q) = Some GP_OK"
proof (induction xs arbitrary: p)
  case (Cons x xs)
  then show ?case using Cons.IH [of "Some x"] by (subst lru_check_loop.simps) (auto split: option.splits)
qed (simp add: lru_check_loop.simps)

lemma lru_check_ok: "lru_ok fs xs \<Longrightarrow> gp_filesystem_lru_check fs = Some GP_OK"
  using check_loop_ok [of "fs_cells fs" None xs] by (auto simp: gp_filesystem_lru_check_def lru_ok_def)

definition pictures :: "cells \<Rightarrow> nat list \<Rightarrow> nat" where
  "pictures cs xs = length (filter (\<lambda>a. case cs a of None \<Rightarrow> False | Some c \<Rightarrow> has_picture c) xs)"

lemma count_loop_ok:
  "seg cs p xs None \<Longrightarrow> lru_count_loop cs (first_or xs None) n = Some (n + int (pictures cs xs))"
  by (induction xs arbitrary: p n; subst lru_count_loop.simps) (auto simp: pictures_def)

lemma lru_count_ok: "lru_ok fs xs \<Longrightarrow> gp_filesystem_lru_count fs = Some (int (pictures (fs_cells fs) xs))"
  using count_loop_ok [of "fs_cells fs" None xs 0] by (simp add: gp_filesystem_lru_count_def lru_ok_def)
section \<open>Pruning the cache\<close>

text \<open>The cached pictures of the listed entries: distinct live memory files.\<close>

definition opt_list :: "'a option \<Rightarrow> 'a list" where
  "opt_list o' = (case o' of None \<Rightarrow> [] | Some x \<Rightarrow> [x])"

lemma set_opt_list [simp]: "set (opt_list o') = set_option o'"
  by (cases o') (simp_all add: opt_list_def)

definition picture_ids :: "CameraFilesystemFile \<Rightarrow> nat list" where
  "picture_ids c = opt_list (ff_normal c) @ opt_list (ff_raw c) @ opt_list (ff_audio c)"

definition picture_ok :: "'p file_store \<Rightarrow> nat \<Rightarrow> bool" where
  "picture_ok st ob \<longleftrightarrow>
     (\<exists>f. st ob = Some f \<and> memory_file f \<and> cf_data f \<noteq> Freed \<and> 0 < cf_ref_count f)"

definition pictures_ok :: "('p, 'd) CameraFilesystem \<Rightarrow> nat list \<Rightarrow> bool" where
  "pictures_ok fs xs \<longleftrightarrow>
     distinct (concat (map (\<lambda>a. picture_ids (the (fs_cells fs a))) xs)) \<and>
     (\<forall>ob \<in> set (concat (map (\<lambda>a. picture_ids (the (fs_cells fs a))) xs)). picture_ok (fs_objs fs) ob)"

lemma obj_size_ok:
  assumes "picture_ok (fs_objs fs) ob"
  shows "\<exists>n. obj_size fs ob = Some (GP_OK, n, fs)"
  using assms
  by (auto simp: obj_size_def picture_ok_def gp_file_get_data_and_size_def fun_upd_idem)

lemma obj_unref_ok:
  assumes "picture_ok (fs_objs fs) ob"
  shows "\<exists>h o'. obj_unref fs ob = Some (fs\<lparr>fs_host := h, fs_objs := (fs_objs fs)(ob := o')\<rparr>)"
  using assms store_unref_ok [of "fs_objs fs" ob _ "fs_host fs"]
  by (fastforce simp: obj_unref_def picture_ok_def)

lemma free_view_ok:
  assumes "fs_cells fs a = Some c" "case view c of None \<Rightarrow> clear c = c | Some ob \<Rightarrow> picture_ok (fs_objs fs) ob"
  shows "\<exists>h st n. lru_free_view a view clear fs = Some (GP_OK,
      fs\<lparr>fs_cells := (fs_cells fs)(a \<mapsto> clear c), fs_objs := st, fs_host := h, fs_lru_size := n\<rparr>) \<and>
    (\<forall>ob. view c \<noteq> Some ob \<longrightarrow> st ob = fs_objs fs ob)"
proof (cases "view c")
  case None
  then show ?thesis using assms
    by (intro exI [of _ "fs_host fs"] exI [of _ "fs_objs fs"] exI [of _ "fs_lru_size fs"])
       (simp add: lru_free_view_def fun_upd_idem)
next
  case (Some ob)
  then have p: "picture_ok (fs_objs fs) ob" using assms(2) by simp
  obtain n where n: "obj_size fs ob = Some (GP_OK, n, fs)" using obj_size_ok [OF p] by blast
  let ?fs = "fs\<lparr>fs_lru_size := fs_lru_size fs - n\<rparr>"
  have "picture_ok (fs_objs ?fs) ob" using p by simp
  then obtain h o' where u: "obj_unref ?fs ob =
      Some (?fs\<lparr>fs_host := h, fs_objs := (fs_objs ?fs)(ob := o')\<rparr>)"
    using obj_unref_ok by blast
  show ?thesis using Some n u assms(1)
    by (intro exI [of _ h] exI [of _ "(fs_objs fs)(ob := o')"] exI [of _ "fs_lru_size fs - n"])
       (simp add: lru_free_view_def cell_update_def)
qed
lemma views_cong:
  assumes "\<forall>x \<in> set xs. strip cs' x = strip cs x"
  shows "pictures cs' xs = pictures cs xs"
    "seg cs p xs n \<Longrightarrow> map (\<lambda>a. picture_ids (the (cs' a))) xs = map (\<lambda>a. picture_ids (the (cs a))) xs"
proof -
  have v: "(case cs' x of None \<Rightarrow> False | Some c \<Rightarrow> has_picture c) =
      (case cs x of None \<Rightarrow> False | Some c \<Rightarrow> has_picture c)"
    "cs x \<noteq> None \<Longrightarrow> picture_ids (the (cs' x)) = picture_ids (the (cs x))" if "x \<in> set xs" for x
  proof -
    define k where "k = (\<lambda>c :: CameraFilesystemFile. c\<lparr>ff_lru_prev := None, ff_lru_next := None\<rparr>)"
    have e: "map_option k (cs' x) = map_option k (cs x)"
      using assms that by (simp add: strip_def k_def)
    have "has_picture (k c) = has_picture c" "picture_ids (k c) = picture_ids c" for c
      by (simp_all add: k_def has_picture_def picture_ids_def)
    then show "(case cs' x of None \<Rightarrow> False | Some c \<Rightarrow> has_picture c) =
        (case cs x of None \<Rightarrow> False | Some c \<Rightarrow> has_picture c)"
      "cs x \<noteq> None \<Longrightarrow> picture_ids (the (cs' x)) = picture_ids (the (cs x))"
      using e by (cases "cs x"; cases "cs' x"; simp; metis)+
  qed
  show "pictures cs' xs = pictures cs xs"
    unfolding pictures_def by (rule arg_cong [where f = length], rule filter_cong) (simp_all add: v)
  assume "seg cs p xs n"
  then have "\<forall>x \<in> set xs. cs x \<noteq> None" by (induction xs arbitrary: p) auto
  then show "map (\<lambda>a. picture_ids (the (cs' a))) xs = map (\<lambda>a. picture_ids (the (cs a))) xs"
    using v(2) by simp
qed

text \<open>Freeing the oldest entry drops it from the list and its pictures from the cache.\<close>

lemma lru_free_ok:
  assumes "lru_ok fs (a # xs)" "pictures_ok fs (a # xs)"
  shows "\<exists>fs'. gp_filesystem_lru_free fs = Some (GP_OK, fs') \<and> lru_ok fs' xs \<and> pictures_ok fs' xs \<and>
    fs_pictures_to_keep fs' = fs_pictures_to_keep fs \<and>
    pictures (fs_cells fs') xs = pictures (fs_cells fs) xs \<and>
    (\<exists>c. fs_cells fs' a = Some c \<and> \<not> has_picture c)"
proof -
  obtain c where c: "fs_cells fs a = Some c" "ff_lru_next c = first_or xs None" "a \<notin> set xs"
      "distinct xs" "fs_lru_first fs = Some a" "seg (fs_cells fs) (Some a) xs None"
      "unlinked (fs_cells fs) (insert a (set xs))" "fs_lru_last fs = last_or (Some a) xs"
    using assms(1) by (auto simp: lru_ok_def)
  define fs1 where "fs1 = (case xs of
      [] \<Rightarrow> fs\<lparr>fs_lru_first := None, fs_lru_last := None\<rparr>
    | b # _ \<Rightarrow> fs\<lparr>fs_lru_first := Some b, fs_cells := (fs_cells fs)(b := map_option
          (\<lambda>x. x\<lparr>ff_lru_prev := Some b\<rparr>) (fs_cells fs b))\<rparr>)"
  have r1: "(case ff_lru_next c of
        None \<Rightarrow> Some (fs\<lparr>fs_lru_first := ff_lru_next c, fs_lru_last := None\<rparr>)
      | Some n \<Rightarrow> cell_update (fs\<lparr>fs_lru_first := ff_lru_next c\<rparr>) n (\<lambda>x. x\<lparr>ff_lru_prev := Some n\<rparr>)) =
      Some fs1"
    using c(2,6) by (cases xs) (auto simp: fs1_def cell_update_def)
  have f1: "fs_cells fs1 a = Some c" "fs_objs fs1 = fs_objs fs" "strip (fs_cells fs1) = strip (fs_cells fs)"
      "fs_pictures_to_keep fs1 = fs_pictures_to_keep fs" "fs_lru_first fs1 = first_or xs None"
      "fs_lru_last fs1 = last_or None xs" "seg (fs_cells fs1) None xs None"
      "unlinked (fs_cells fs1) (insert a (set xs))"
    using c by (cases xs; auto simp: fs1_def strip_def fun_eq_iff unlinked_def)+
  have d: "distinct (picture_ids c)" "\<forall>ob \<in> set (picture_ids c). picture_ok (fs_objs fs) ob"
    using assms(2) c(1) by (auto simp: pictures_ok_def)
  let ?n = "c\<lparr>ff_normal := None\<rparr>"
  let ?r = "?n\<lparr>ff_raw := None\<rparr>"
  let ?u = "?r\<lparr>ff_audio := None\<rparr>"
  have "case ff_normal c of None \<Rightarrow> c\<lparr>ff_normal := None\<rparr> = c | Some ob \<Rightarrow> picture_ok (fs_objs fs1) ob"
    using d(2) f1(2) by (auto simp: picture_ids_def split: option.splits)
  from free_view_ok [where fs = "fs1" and a = a and c = "c" and view = ff_normal and clear = "\<lambda>x. x\<lparr>ff_normal := None\<rparr>", OF f1(1) this] obtain h2 st2 n2 where
    s2: "lru_free_view a ff_normal (\<lambda>x. x\<lparr>ff_normal := None\<rparr>) fs1 = Some (GP_OK,
        fs1\<lparr>fs_cells := (fs_cells fs1)(a \<mapsto> ?n), fs_objs := st2, fs_host := h2, fs_lru_size := n2\<rparr>)"
      "\<forall>ob. ff_normal c \<noteq> Some ob \<longrightarrow> st2 ob = fs_objs fs1 ob" by blast
  let ?fs2 = "fs1\<lparr>fs_cells := (fs_cells fs1)(a \<mapsto> ?n), fs_objs := st2, fs_host := h2, fs_lru_size := n2\<rparr>"
  have "case ff_raw ?n of None \<Rightarrow> ?n\<lparr>ff_raw := None\<rparr> = ?n | Some ob \<Rightarrow> picture_ok (fs_objs ?fs2) ob"
    using d f1(2) s2(2) by (auto simp: picture_ids_def picture_ok_def split: option.splits)
  from free_view_ok [where fs = "?fs2" and a = a and c = "?n" and view = ff_raw and clear = "\<lambda>x. x\<lparr>ff_raw := None\<rparr>", OF _ this] obtain h3 st3 n3 where
    s3: "lru_free_view a ff_raw (\<lambda>x. x\<lparr>ff_raw := None\<rparr>) ?fs2 = Some (GP_OK,
        ?fs2\<lparr>fs_cells := (fs_cells ?fs2)(a \<mapsto> ?r), fs_objs := st3, fs_host := h3, fs_lru_size := n3\<rparr>)"
      "\<forall>ob. ff_raw ?n \<noteq> Some ob \<longrightarrow> st3 ob = fs_objs ?fs2 ob" by auto
  let ?fs3 = "?fs2\<lparr>fs_cells := (fs_cells ?fs2)(a \<mapsto> ?r), fs_objs := st3, fs_host := h3, fs_lru_size := n3\<rparr>"
  have "case ff_audio ?r of None \<Rightarrow> ?r\<lparr>ff_audio := None\<rparr> = ?r | Some ob \<Rightarrow> picture_ok (fs_objs ?fs3) ob"
    using d f1(2) s2(2) s3(2) by (auto simp: picture_ids_def picture_ok_def split: option.splits)
  from free_view_ok [where fs = "?fs3" and a = a and c = "?r" and view = ff_audio and clear = "\<lambda>x. x\<lparr>ff_audio := None\<rparr>", OF _ this] obtain h4 st4 n4 where
    s4: "lru_free_view a ff_audio (\<lambda>x. x\<lparr>ff_audio := None\<rparr>) ?fs3 = Some (GP_OK,
        ?fs3\<lparr>fs_cells := (fs_cells ?fs3)(a \<mapsto> ?u), fs_objs := st4, fs_host := h4, fs_lru_size := n4\<rparr>)"
      "\<forall>ob. ff_audio ?r \<noteq> Some ob \<longrightarrow> st4 ob = fs_objs ?fs3 ob" by auto
  let ?fs' = "fs1\<lparr>fs_cells := (fs_cells fs1)(a \<mapsto> ?u\<lparr>ff_lru_next := None, ff_lru_prev := None\<rparr>),
      fs_objs := st4, fs_host := h4, fs_lru_size := n4\<rparr>"
  have "gp_filesystem_lru_free fs = Some (GP_OK, ?fs')"
    using c(1,5) r1 s2(1) s3(1) s4(1) by (simp add: gp_filesystem_lru_free_def Let_def cell_update_def)
  moreover have "lru_ok ?fs' xs"
    using f1 c(3,4) by (auto simp: lru_ok_def unlinked_def)
  moreover have st: "\<forall>x \<in> set xs. strip (fs_cells ?fs') x = strip (fs_cells fs) x"
    using c(3) f1(3) by (auto simp: strip_def fun_eq_iff)
  moreover have "pictures_ok ?fs' xs"
  proof -
    have m: "map (\<lambda>a. picture_ids (the (fs_cells ?fs' a))) xs = map (\<lambda>a. picture_ids (the (fs_cells fs a))) xs"
      by (rule views_cong(2) [OF st c(6)])
    have "st4 ob = fs_objs fs ob" if "ob \<notin> set (picture_ids c)" for ob
      using that s2(2) s3(2) s4(2) f1(2)
      by (auto simp: picture_ids_def split: option.splits)
    moreover have "ob \<notin> set (picture_ids c)"
      if "ob \<in> set (concat (map (\<lambda>a. picture_ids (the (fs_cells fs a))) xs))" for ob
      using assms(2) that c(1) by (auto simp: pictures_ok_def)
    ultimately show ?thesis
      using assms(2) unfolding pictures_ok_def m by (auto simp: picture_ok_def)
  qed
  ultimately show ?thesis
    using f1(4) views_cong(1) [OF st] by (auto simp: has_picture_def)
qed

text \<open>
  Pruning ends; it drops entries from the front until at most the wanted number of entries
  with pictures is left.
\<close>

lemma lru_prune_ok:
  assumes "lru_ok fs xs" "pictures_ok fs xs" "0 \<le> fs_pictures_to_keep fs"
  shows "\<exists>fs' ys zs. lru_prune fs = Some (GP_OK, fs') \<and> xs = ys @ zs \<and> lru_ok fs' zs \<and>
    pictures_ok fs' zs \<and> int (pictures (fs_cells fs') zs) \<le> fs_pictures_to_keep fs \<and>
    fs_pictures_to_keep fs' = fs_pictures_to_keep fs"
  using assms
proof (induction xs arbitrary: fs)
  case Nil
  then show ?case
    by (intro exI [of _ fs] exI [of _ "[]"], subst lru_prune.simps) (simp add: lru_count_ok pictures_def)
next
  case (Cons a xs)
  show ?case
  proof (cases "fs_pictures_to_keep fs < int (pictures (fs_cells fs) (a # xs))")
    case False
    then show ?thesis using Cons.prems
      by (intro exI [of _ fs] exI [of _ "[]"] exI [of _ "a # xs"], subst lru_prune.simps)
         (simp add: lru_count_ok [OF Cons.prems(1)])
  next
    case True
    obtain fs1 where f: "gp_filesystem_lru_free fs = Some (GP_OK, fs1)" "lru_ok fs1 xs" "pictures_ok fs1 xs"
        "fs_pictures_to_keep fs1 = fs_pictures_to_keep fs"
        "pictures (fs_cells fs1) xs = pictures (fs_cells fs) xs"
      using lru_free_ok [OF Cons.prems(1,2)] by blast
    obtain fs' ys zs where r: "lru_prune fs1 = Some (GP_OK, fs')" "xs = ys @ zs" "lru_ok fs' zs"
        "pictures_ok fs' zs" "int (pictures (fs_cells fs') zs) \<le> fs_pictures_to_keep fs"
        "fs_pictures_to_keep fs' = fs_pictures_to_keep fs"
      using Cons.IH [of fs1] f Cons.prems(3) by auto
    have "lru_prune fs = Some (GP_OK, fs')"
      using True f(1) r(1) by (subst lru_prune.simps) (simp add: lru_count_ok [OF Cons.prems(1)])
    then show ?thesis using r
      by (intro exI [of _ fs'] exI [of _ "a # ys"] exI [of _ zs]) simp
  qed
qed
section \<open>Recency\<close>

text \<open>
  What the cache relies on: a structure represents a list without repetitions, and touching a
  valid entry moves it to the end. Then the order after any touches is that of the last touch
  of each entry, which is what \<open>remdups\<close> keeps.
\<close>

fun touch_all :: "('s \<Rightarrow> 'e \<Rightarrow> 's option) \<Rightarrow> 's \<Rightarrow> 'e list \<Rightarrow> 's option" where
  "touch_all t s [] = Some s"
| "touch_all t s (e # es) = (case t s e of None \<Rightarrow> None | Some s \<Rightarrow> touch_all t s es)"

locale recency =
  fixes rep :: "'s \<Rightarrow> 'a list \<Rightarrow> bool" and valid :: "'s \<Rightarrow> 'e \<Rightarrow> bool" and key :: "'e \<Rightarrow> 'a"
    and touch :: "'s \<Rightarrow> 'e \<Rightarrow> 's option"
  assumes rep_distinct: "rep s xs \<Longrightarrow> distinct xs"
    and touch_law: "rep s xs \<Longrightarrow> valid s e \<Longrightarrow>
      \<exists>s'. touch s e = Some s' \<and> rep s' (remove1 (key e) xs @ [key e]) \<and> (\<forall>e'. valid s e' \<longrightarrow> valid s' e')"
begin

lemma touch_order:
  assumes "rep s xs" "\<forall>e \<in> set es. valid s e"
  shows "\<exists>s'. touch_all touch s es = Some s' \<and> rep s' (remdups (xs @ map key es))"
  using assms
proof (induction es arbitrary: s xs)
  case Nil
  then show ?case using rep_distinct [of s xs] by (simp add: distinct_remdups_id)
next
  case (Cons e es)
  then obtain s1 where s1: "touch s e = Some s1" "rep s1 (remove1 (key e) xs @ [key e])"
      "\<forall>e' \<in> set es. valid s1 e'"
    using touch_law [of s xs e] by auto
  have "remdups (filter (\<lambda>x. x \<noteq> k) zs @ k # ys) = remdups (zs @ k # ys)" for k :: 'a and zs ys
    by (induction zs) auto
  moreover have "remove1 (key e) xs = filter (\<lambda>x. x \<noteq> key e) xs"
    using rep_distinct [OF Cons.prems(1)]
    by (auto simp: distinct_remove1_removeAll removeAll_filter_not_eq intro: filter_cong)
  ultimately have "remdups ((remove1 (key e) xs @ [key e]) @ map key es) = remdups (xs @ map key (e # es))"
    by simp
  with Cons.IH [OF s1(2,3)] s1(1) show ?case by simp
qed

end

text \<open>The file system's cache is such a structure.\<close>

definition cacheable :: "('p, 'd) CameraFilesystem \<Rightarrow> nat \<times> CameraFileType \<times> nat \<Rightarrow> bool" where
  "cacheable fs e = (case e of (a, _, fl) \<Rightarrow>
     (\<exists>c. fs_cells fs a = Some c \<and> (\<forall>ob \<in> set (picture_ids c). picture_ok (fs_objs fs) ob)) \<and>
     picture_ok (fs_objs fs) fl)"

definition lru_touch ::
  "('p, 'd) CameraFilesystem \<Rightarrow> nat \<times> CameraFileType \<times> nat \<Rightarrow> ('p, 'd) CameraFilesystem option" where
  "lru_touch fs e = (case e of (a, ty, fl) \<Rightarrow>
     (case lru_relink fs a ty fl of Some (r, fs') \<Rightarrow> if r = GP_OK then Some fs' else None | None \<Rightarrow> None))"

lemma same_views_size [simp]: "same_views fs (fs'\<lparr>fs_lru_size := n\<rparr>) = same_views fs fs'"
  "same_views (fs\<lparr>fs_lru_size := n\<rparr>) fs' = same_views fs fs'"
  by (cases fs; cases fs'; simp add: same_views_def)+

lemma lru_ok_size [simp]: "lru_ok (fs\<lparr>fs_lru_size := n\<rparr>) xs = lru_ok fs xs"
  by (simp add: lru_ok_def)

lemma same_views_objs: "same_views fs fs' \<Longrightarrow> fs_objs fs' = fs_objs fs"
  by (cases fs; cases fs') (simp add: same_views_def)

lemma same_views_cell:
  assumes "same_views fs fs'" "fs_cells fs a = Some c"
  obtains c' where "fs_cells fs' a = Some c'" "picture_ids c' = picture_ids c"
    "c'\<lparr>ff_lru_prev := None, ff_lru_next := None\<rparr> = c\<lparr>ff_lru_prev := None, ff_lru_next := None\<rparr>"
proof -
  have "strip (fs_cells fs') a = strip (fs_cells fs) a" using assms(1) by (simp add: same_views_def)
  then obtain c' where c': "fs_cells fs' a = Some c'"
      "c'\<lparr>ff_lru_prev := None, ff_lru_next := None\<rparr> = c\<lparr>ff_lru_prev := None, ff_lru_next := None\<rparr>"
    using assms(2) by (auto simp: strip_def)
  have "picture_ids (x\<lparr>ff_lru_prev := None, ff_lru_next := None\<rparr>) = picture_ids x" for x :: CameraFilesystemFile
    by (simp add: picture_ids_def)
  with c' that show thesis by metis
qed

lemma cacheable_same:
  assumes "same_views fs fs'" "cacheable fs e"
  shows "cacheable fs' e"
proof -
  obtain a ty fl where e: "e = (a, ty, fl)" by (cases e) auto
  then obtain c where c: "fs_cells fs a = Some c" "\<forall>ob \<in> set (picture_ids c). picture_ok (fs_objs fs) ob"
      "picture_ok (fs_objs fs) fl"
    using assms(2) by (auto simp: cacheable_def)
  obtain c' where "fs_cells fs' a = Some c'" "picture_ids c' = picture_ids c"
    by (rule same_views_cell [OF assms(1) c(1)])
  with c same_views_objs [OF assms(1)] show ?thesis by (simp add: cacheable_def e)
qed

lemma take_out_ok:
  assumes "lru_ok fs xs" "cacheable fs (a, ty, fl)"
  shows "\<exists>fs'. lru_take_out fs a ty = Some (GP_OK, fs') \<and> lru_ok fs' (remove1 a xs) \<and> same_views fs fs'"
proof -
  obtain c where c: "fs_cells fs a = Some c" "\<forall>ob \<in> set (picture_ids c). picture_ok (fs_objs fs) ob"
    using assms(2) by (auto simp: cacheable_def)
  show ?thesis
  proof (cases "a \<in> set xs")
    case False
    then have "ff_lru_prev c = None" using lru_linked_iff [OF assms(1) c(1)] by simp
    then show ?thesis using False assms(1) c(1) by (simp add: lru_take_out_def remove1_idem)
  next
    case True
    then obtain p where p: "ff_lru_prev c = Some p" using lru_linked_iff [OF assms(1) c(1)] by auto
    define old where "old = (case ty of GP_FILE_TYPE_NORMAL \<Rightarrow> ff_normal c | GP_FILE_TYPE_RAW \<Rightarrow> ff_raw c
        | GP_FILE_TYPE_AUDIO \<Rightarrow> ff_audio c | _ \<Rightarrow> None)"
    have ok: "old = Some ob \<Longrightarrow> picture_ok (fs_objs fs) ob" for ob
      using c(2) by (auto simp: old_def picture_ids_def split: CameraFileType.splits)
    have "\<exists>n. (case old of None \<Rightarrow> Some (GP_OK, fs)
        | Some ob \<Rightarrow> (case obj_size fs ob of None \<Rightarrow> None
            | Some (r, n, fs) \<Rightarrow> Some (r, if r < 0 then fs else fs\<lparr>fs_lru_size := fs_lru_size fs - n\<rparr>))) =
        Some (GP_OK, fs\<lparr>fs_lru_size := n\<rparr>)" (is "\<exists>n. ?l = Some (GP_OK, fs\<lparr>fs_lru_size := n\<rparr>)")
    proof (cases old)
      case None
      then show ?thesis by (intro exI [of _ "fs_lru_size fs"]) simp
    next
      case (Some ob)
      then obtain n where "obj_size fs ob = Some (GP_OK, n, fs)" using ok obj_size_ok by blast
      then show ?thesis using Some by auto
    qed
    then obtain n where s: "?l = Some (GP_OK, fs\<lparr>fs_lru_size := n\<rparr>)" by blast
    obtain fs' where "gp_filesystem_lru_remove_one (fs\<lparr>fs_lru_size := n\<rparr>) a = Some (GP_OK, fs')"
        "lru_ok fs' (remove1 a xs)" "same_views fs fs'"
      using remove_one_ok [of "fs\<lparr>fs_lru_size := n\<rparr>" xs a] assms(1) True by auto
    then show ?thesis
      using c(1) p s by (intro exI [of _ fs']) (simp add: lru_take_out_def old_def [symmetric] Let_def)
  qed
qed

lemma lru_relink_ok:
  assumes "lru_ok fs xs" "cacheable fs (a, ty, fl)"
  shows "\<exists>fs'. lru_relink fs a ty fl = Some (GP_OK, fs') \<and> lru_ok fs' (remove1 a xs @ [a]) \<and>
    same_views fs fs'"
proof -
  obtain fs1 where f1: "lru_take_out fs a ty = Some (GP_OK, fs1)" "lru_ok fs1 (remove1 a xs)" "same_views fs fs1"
    using take_out_ok [OF assms] by blast
  obtain c1 where c1: "fs_cells fs1 a = Some c1"
    using cacheable_same [OF f1(3) assms(2)] by (auto simp: cacheable_def)
  have na: "a \<notin> set (remove1 a xs)" using assms(1) by (auto simp: lru_ok_def)
  obtain fs2 where f2: "lru_put_last fs1 a = Some fs2" "lru_ok fs2 (remove1 a xs @ [a])" "same_views fs1 fs2"
    using put_last_ok [OF f1(2) na c1] by blast
  have sv: "same_views fs fs2" by (rule same_views_trans [OF f1(3) f2(3)])
  have "picture_ok (fs_objs fs2) fl"
    using cacheable_same [OF sv assms(2)] by (simp add: cacheable_def)
  then obtain n where "obj_size fs2 fl = Some (GP_OK, n, fs2)" using obj_size_ok by blast
  with f1(1) f2 sv show ?thesis by (simp add: lru_relink_def)
qed

interpretation lru: recency lru_ok cacheable fst lru_touch
proof (unfold_locales, goal_cases)
  case (1 s xs)
  then show ?case by (simp add: lru_ok_def)
next
  case (2 s xs e)
  obtain a ty fl where e: "e = (a, ty, fl)" by (cases e) auto
  obtain fs' where "lru_relink s a ty fl = Some (GP_OK, fs')" "lru_ok fs' (remove1 a xs @ [a])" "same_views s fs'"
    using lru_relink_ok 2 unfolding e by blast
  then show ?case using cacheable_same by (auto simp: e lru_touch_def)
qed

text \<open>
  C17. The cache list is a recency list: after any sequence of updates the entries are in the order
  of their last update, whatever the links were before.
\<close>

theorem lru_update_order:
  assumes "lru_ok fs xs" "\<forall>e \<in> set es. cacheable fs e"
  shows "\<exists>fs'. touch_all lru_touch fs es = Some fs' \<and> lru_ok fs' (remdups (xs @ map fst es)) \<and>
    gp_filesystem_lru_check fs' = Some GP_OK"
  using lru.touch_order [OF assms] lru_check_ok by blast

text \<open>
  C27. Pruning a well-linked cache always ends. It drops entries from the front only, and leaves at
  most the configured number of entries with pictures.
\<close>

theorem lru_prune_bound:
  assumes "lru_ok fs xs" "pictures_ok fs xs" "fs1 = read_pictures_to_keep fs"
  shows "\<exists>fs' ys zs. lru_prune fs1 = Some (GP_OK, fs') \<and> xs = ys @ zs \<and> lru_ok fs' zs \<and>
    gp_filesystem_lru_count fs' = Some (int (pictures (fs_cells fs') zs)) \<and>
    int (pictures (fs_cells fs') zs) \<le> fs_pictures_to_keep fs1 \<and> 0 \<le> fs_pictures_to_keep fs1"
proof -
  have k: "lru_ok fs1 xs" "pictures_ok fs1 xs" "0 \<le> fs_pictures_to_keep fs1"
    using assms by (auto simp: read_pictures_to_keep_def lru_ok_def pictures_ok_def Let_def split: option.splits)
  from lru_prune_ok [OF this] lru_count_ok k(3) show ?thesis by metis
qed


text \<open>A file system with two entries and a cached picture, for the witnesses.\<close>

definition demo_fs :: "(unit, unit) CameraFilesystem" where
  "demo_fs = \<lparr>fs_rootfolder = Folder 0 ''/'' False False [] [1, 2], fs_lru_first = Some 1,
     fs_lru_last = Some 1, fs_lru_size = 0, fs_funcs = no_funcs, fs_data = (),
     fs_cells = [1 \<mapsto> (new_entry ''a'')\<lparr>ff_lru_prev := Some 1, ff_normal := Some 5\<rparr>, 2 \<mapsto> new_entry ''b''],
     fs_objs = [5 \<mapsto> empty_file, 6 \<mapsto> empty_file], fs_host = h0, fs_next = 7,
     fs_pictures_to_keep = 0, fs_cached_images = None\<rparr>"

lemma demo_lru_ok: "lru_ok demo_fs [1]"
  by (simp add: demo_fs_def lru_ok_def unlinked_def new_entry_def)

lemma demo_pictures_ok: "pictures_ok demo_fs [1]"
  by (simp add: demo_fs_def pictures_ok_def new_entry_def picture_ids_def opt_list_def picture_ok_def empty_file_def)

lemma demo_cacheable: "cacheable demo_fs (2, GP_FILE_TYPE_NORMAL, 6)" "cacheable demo_fs (1, GP_FILE_TYPE_RAW, 6)"
  by (auto simp: demo_fs_def cacheable_def new_entry_def picture_ids_def opt_list_def picture_ok_def empty_file_def)

theorem lru_update_order_witness:
  "\<exists>fs'. touch_all lru_touch demo_fs [(2, GP_FILE_TYPE_NORMAL, 6), (1, GP_FILE_TYPE_RAW, 6)] = Some fs' \<and>
     lru_ok fs' [2, 1] \<and> gp_filesystem_lru_check fs' = Some GP_OK"
  using lru_update_order [OF demo_lru_ok, of "[(2, GP_FILE_TYPE_NORMAL, 6), (1, GP_FILE_TYPE_RAW, 6)]"]
    demo_cacheable by simp

theorem lru_prune_bound_witness:
  "\<exists>fs' ys zs. lru_prune demo_fs = Some (GP_OK, fs') \<and> [1] = ys @ zs \<and> lru_ok fs' zs \<and>
     gp_filesystem_lru_count fs' = Some (int (pictures (fs_cells fs') zs)) \<and>
     int (pictures (fs_cells fs') zs) \<le> 0 \<and> 0 \<le> fs_pictures_to_keep demo_fs"
  using lru_prune_bound [OF demo_lru_ok demo_pictures_ok, of demo_fs]
  by (simp add: demo_fs_def read_pictures_to_keep_def)

end
