(* ===== verification/FsTree.thy ===== *)
theory FsTree
  imports FsLru "HOL-Library.Monad_Syntax"
begin

text \<open>
  The folder tree of \<open>libgphoto2/gphoto2-filesys.c\<close>: looking a path up, which lists the folders
  on the way whose contents are not known, and creating and deleting folders and entries.
\<close>

section \<open>The folder tree\<close>

text \<open>A folder is found, and replaced, by its number.\<close>

fun find_folder :: "nat \<Rightarrow> CameraFilesystemFolder \<Rightarrow> CameraFilesystemFolder option"
  and find_folders :: "nat \<Rightarrow> CameraFilesystemFolder list \<Rightarrow> CameraFilesystemFolder option" where
  "find_folder i (Folder j n d e fs xs) =
     (if i = j then Some (Folder j n d e fs xs) else find_folders i fs)"
| "find_folders i [] = None"
| "find_folders i (f # fs) =
     (case find_folder i f of Some g \<Rightarrow> Some g | None \<Rightarrow> find_folders i fs)"

fun update_folder ::
  "nat \<Rightarrow> (CameraFilesystemFolder \<Rightarrow> CameraFilesystemFolder) \<Rightarrow> CameraFilesystemFolder \<Rightarrow>
   CameraFilesystemFolder" where
  "update_folder i g (Folder j n d e fs xs) =
     (if i = j then g (Folder j n d e fs xs) else Folder j n d e (map (update_folder i g) fs) xs)"

fun set_files_dirty :: "bool \<Rightarrow> CameraFilesystemFolder \<Rightarrow> CameraFilesystemFolder" where
  "set_files_dirty b (Folder i n d e fs xs) = Folder i n b e fs xs"

fun set_folders_dirty :: "bool \<Rightarrow> CameraFilesystemFolder \<Rightarrow> CameraFilesystemFolder" where
  "set_folders_dirty b (Folder i n d e fs xs) = Folder i n d b fs xs"

fun set_folders :: "CameraFilesystemFolder list \<Rightarrow> CameraFilesystemFolder \<Rightarrow> CameraFilesystemFolder"
where
  "set_folders gs (Folder i n d e fs xs) = Folder i n d e gs xs"

fun set_files :: "nat list \<Rightarrow> CameraFilesystemFolder \<Rightarrow> CameraFilesystemFolder" where
  "set_files ys (Folder i n d e fs xs) = Folder i n d e fs ys"

definition folder_at :: "('p, 'd) CameraFilesystem \<Rightarrow> nat \<Rightarrow> CameraFilesystemFolder option" where
  "folder_at fs i = find_folder i (fs_rootfolder fs)"

definition folder_update ::
  "('p, 'd) CameraFilesystem \<Rightarrow> nat \<Rightarrow> (CameraFilesystemFolder \<Rightarrow> CameraFilesystemFolder) \<Rightarrow>
   ('p, 'd) CameraFilesystem option" where
  "folder_update fs i g =
     (case folder_at fs i of
        None \<Rightarrow> None
      | Some _ \<Rightarrow> Some (fs\<lparr>fs_rootfolder := update_folder i g (fs_rootfolder fs)\<rparr>))"

definition root_id :: "('p, 'd) CameraFilesystem \<Rightarrow> nat" where
  "root_id fs = fo_id (fs_rootfolder fs)"

text \<open>
  The macros \<open>CR\<close>, \<open>CC\<close> and \<open>CA\<close>. A NULL context (\<open>ctx\<close> false) never cancels.
\<close>

definition CR ::
  "(int \<times> 's) option \<Rightarrow> ('s \<Rightarrow> (int \<times> 's) option) \<Rightarrow> (int \<times> 's) option" where
  "CR m k = (case m of None \<Rightarrow> None | Some (r, s) \<Rightarrow> if r < 0 then Some (r, s) else k s)"

lemma CR_cong [fundef_cong]:
  "\<lbrakk>m = m'; \<And>r s. m' = Some (r, s) \<Longrightarrow> \<not> r < 0 \<Longrightarrow> k s = k' s\<rbrakk> \<Longrightarrow> CR m k = CR m' k'"
  by (auto simp: CR_def split: option.splits)

lemmas [fundef_cong] = Option.bind_cong

definition fs_cancelled ::
  "('p, 'd) CameraFilesystem \<Rightarrow> bool \<Rightarrow> bool \<times> ('p, 'd) CameraFilesystem" where
  "fs_cancelled fs ctx =
     (case fd_cancel (fs_funcs fs) of
        Some cf \<Rightarrow> if ctx then (case cf (fs_data fs) of (c, d) \<Rightarrow> (c, fs\<lparr>fs_data := d\<rparr>)) else (False, fs)
      | None \<Rightarrow> (False, fs))"

definition absolute :: "string \<Rightarrow> bool" where
  "absolute path \<longleftrightarrow> (case path of [] \<Rightarrow> False | c # _ \<Rightarrow> c = CHR ''/'')"

text \<open>\<open>C_PARAMS\<close>, \<open>CC\<close> and \<open>CA\<close> at the start of an operation with its arguments given.\<close>

definition CC_CA ::
  "('p, 'd) CameraFilesystem \<Rightarrow> bool \<Rightarrow> string \<Rightarrow> int \<times> ('p, 'd) CameraFilesystem" where
  "CC_CA fs ctx folder =
     (case fs_cancelled fs ctx of (c, fs) \<Rightarrow>
        (if c then GP_ERROR_CANCEL
         else if \<not> absolute folder then GP_ERROR_PATH_NOT_ABSOLUTE else GP_OK, fs))"

section \<open>Deleting\<close>

text \<open>Releasing the six cached views of an entry, and freeing it.\<close>

definition release_view ::
  "nat \<Rightarrow> (CameraFilesystemFile \<Rightarrow> nat option) \<Rightarrow> (CameraFilesystemFile \<Rightarrow> CameraFilesystemFile) \<Rightarrow>
   ('p, 'd) CameraFilesystem \<Rightarrow> ('p, 'd) CameraFilesystem option" where
  "release_view a view clear fs =
     (case fs_cells fs a of
        None \<Rightarrow> None
      | Some c \<Rightarrow>
          (case view c of
             None \<Rightarrow> Some fs
           | Some ob \<Rightarrow>
               (case obj_unref fs ob of None \<Rightarrow> None | Some fs \<Rightarrow> cell_update fs a clear)))"

definition release_views ::
  "('p, 'd) CameraFilesystem \<Rightarrow> nat \<Rightarrow> ('p, 'd) CameraFilesystem option" where
  "release_views fs a = do {
     fs \<leftarrow> release_view a ff_preview (\<lambda>c. c\<lparr>ff_preview := None\<rparr>) fs;
     fs \<leftarrow> release_view a ff_normal (\<lambda>c. c\<lparr>ff_normal := None\<rparr>) fs;
     fs \<leftarrow> release_view a ff_raw (\<lambda>c. c\<lparr>ff_raw := None\<rparr>) fs;
     fs \<leftarrow> release_view a ff_audio (\<lambda>c. c\<lparr>ff_audio := None\<rparr>) fs;
     fs \<leftarrow> release_view a ff_exif (\<lambda>c. c\<lparr>ff_exif := None\<rparr>) fs;
     release_view a ff_metadata (\<lambda>c. c\<lparr>ff_metadata := None\<rparr>) fs }"

fun delete_entries ::
  "('p, 'd) CameraFilesystem \<Rightarrow> nat list \<Rightarrow> ('p, 'd) CameraFilesystem option" where
  "delete_entries fs [] = Some fs"
| "delete_entries fs (a # as) = do {
     (_, fs) \<leftarrow> gp_filesystem_lru_remove_one fs a;
     fs \<leftarrow> release_views fs a;
     delete_entries (fs\<lparr>fs_cells := (fs_cells fs)(a := None)\<rparr>) as }"

definition delete_all_files ::
  "('p, 'd) CameraFilesystem \<Rightarrow> nat \<Rightarrow> ('p, 'd) CameraFilesystem option" where
  "delete_all_files fs folder = do {
     f \<leftarrow> folder_at fs folder;
     fs \<leftarrow> delete_entries fs (fo_files f);
     folder_update fs folder (set_files []) }"

text \<open>
  The contents of a folder, subfolders first; nothing looks at the tree meanwhile, and the
  folder has no children afterwards.
\<close>

fun delete_children ::
  "('p, 'd) CameraFilesystem \<Rightarrow> CameraFilesystemFolder list \<Rightarrow> ('p, 'd) CameraFilesystem option" and
  delete_tree ::
  "('p, 'd) CameraFilesystem \<Rightarrow> CameraFilesystemFolder \<Rightarrow> ('p, 'd) CameraFilesystem option" where
  "delete_children fs [] = Some fs"
| "delete_children fs (f # gs) = do { fs \<leftarrow> delete_tree fs f; delete_children fs gs }"
| "delete_tree fs (Folder i n d e gs xs) = do { fs \<leftarrow> delete_children fs gs; delete_entries fs xs }"

definition recurse_delete_folder ::
  "('p, 'd) CameraFilesystem \<Rightarrow> nat \<Rightarrow> ('p, 'd) CameraFilesystem option" where
  "recurse_delete_folder fs folder = do {
     f \<leftarrow> folder_at fs folder;
     fs \<leftarrow> delete_children fs (fo_folders f);
     folder_update fs folder (set_folders []) }"

text \<open>\<open>delete_folder\<close> on the child of \<open>parent\<close> that has the number \<open>i\<close>.\<close>

definition delete_folder ::
  "('p, 'd) CameraFilesystem \<Rightarrow> nat \<Rightarrow> nat \<Rightarrow> ('p, 'd) CameraFilesystem option" where
  "delete_folder fs parent i = do {
     fs \<leftarrow> delete_all_files fs i;
     p \<leftarrow> folder_at fs parent;
     folder_update fs parent (set_folders (filter (\<lambda>c. fo_id c \<noteq> i) (fo_folders p))) }"

section \<open>Creating\<close>

definition append_folder_one ::
  "('p, 'd) CameraFilesystem \<Rightarrow> nat \<Rightarrow> string \<Rightarrow> (nat \<times> ('p, 'd) CameraFilesystem) option" where
  "append_folder_one fs folder name = do {
     f \<leftarrow> folder_at fs folder;
     fs' \<leftarrow> folder_update fs folder
       (set_folders (Folder (fs_next fs) name True True [] [] # fo_folders f));
     Some (fs_next fs, fs'\<lparr>fs_next := fs_next fs + 1\<rparr>) }"

fun append_folders ::
  "('p, 'd) CameraFilesystem \<Rightarrow> nat \<Rightarrow> string list \<Rightarrow> ('p, 'd) CameraFilesystem option" where
  "append_folders fs f [] = Some fs"
| "append_folders fs f (n # ns) = do {
     (_, fs) \<leftarrow> append_folder_one fs f n;
     append_folders fs f ns }"

text \<open>
  The next component of a path from position \<open>cur\<close> on: \<open>None\<close> at the end of the path, otherwise
  where it starts, its name, and whether a slash follows.
\<close>

definition next_component :: "string \<Rightarrow> nat \<Rightarrow> (nat \<times> string \<times> bool) option" where
  "next_component name cur =
     (let i = cur + length (takeWhile (\<lambda>c. c = CHR ''/'') (drop cur name))
      in if length name \<le> i then None
         else case strchr (drop i name) (CHR ''/'') of
                None \<Rightarrow> Some (i, drop i name, False)
              | Some n \<Rightarrow> Some (i, take n (drop i name), True))"

lemma next_componentD:
  assumes "next_component name cur = Some (i, c, m)"
  shows "cur \<le> i" "i < length name" "m \<Longrightarrow> i + length c < length name" "c \<noteq> []"
    "m \<Longrightarrow> cur < i + length c"
proof -
  have le: "k < length s" if "strchr s x = Some k" for s x k
    using that by (induction s arbitrary: k) (auto split: if_splits)
  let ?i = "cur + length (takeWhile (\<lambda>c. c = CHR ''/'') (drop cur name))"
  have i: "i = ?i" "i < length name"
    using assms by (auto simp: next_component_def Let_def split: if_splits option.splits)
  then show "cur \<le> i" "i < length name" by auto
  have e: "drop i name = dropWhile (\<lambda>c. c = CHR ''/'') (drop cur name)"
    using i(1) by (simp add: dropWhile_eq_drop add.commute)
  have "drop i name \<noteq> []" using i(2) by simp
  then have h: "hd (drop i name) \<noteq> CHR ''/''"
    unfolding e using hd_dropWhile [of "\<lambda>c. c = CHR ''/''"] by blast
  have p: "strchr (drop i name) (CHR ''/'') \<noteq> Some 0"
    using h i(2) by (cases "drop i name") auto
  have n: "(case strchr (drop i name) (CHR ''/'') of None \<Rightarrow> Some (i, drop i name, False)
      | Some n \<Rightarrow> Some (i, take n (drop i name), True)) = Some (i, c, m)"
    using assms i(2) unfolding next_component_def Let_def i(1) [symmetric] by simp
  show "c \<noteq> []" "m \<Longrightarrow> i + length c < length name" "m \<Longrightarrow> cur < i + length c"
  proof -
    have *: "c \<noteq> [] \<and> (m \<longrightarrow> i + length c < length name \<and> cur < i + length c)"
    proof (cases "strchr (drop i name) (CHR ''/'')")
      case None
      with n have "c = drop i name" "\<not> m" by (simp_all add: None [simplified])
      then show ?thesis using i(2) by simp
    next
      case (Some n)
      have "n < length name - i" "n \<noteq> 0" using le [OF Some] p Some by auto
      moreover have "cur \<le> i" using i(1) by linarith
      moreover have "c = take n (drop i name)" using n Some by simp
      ultimately show ?thesis using i(2) by auto
    qed
    then show "c \<noteq> []" "m \<Longrightarrow> i + length c < length name" "m \<Longrightarrow> cur < i + length c" by blast+
  qed
qed

lemma next_component_bounds:
  "next_component name cur = Some (i, c, m) \<Longrightarrow>
     cur \<le> i \<and> i < length name \<and> c \<noteq> [] \<and> (m \<longrightarrow> i + length c < length name \<and> cur < i + length c)"
  by (simp add: next_componentD)

section \<open>Looking up and listing\<close>

text \<open>
  \<open>lookup_at\<close> is the loop of \<open>lookup_folder\<close> at a folder and a position of the path. A folder on
  the way whose subfolders are not known is listed first; the path given to the listing is cut
  off at the next component. The listing looks its folder up again from the root, and may
  delete what it finds there, so that the folder the loop holds may be gone afterwards.
\<close>

function lookup_at ::
  "('p, 'd) CameraFilesystem \<Rightarrow> bool \<Rightarrow> nat \<Rightarrow> string \<Rightarrow> nat \<Rightarrow>
   (nat option \<times> ('p, 'd) CameraFilesystem) option" and
  delete_all_folders ::
  "('p, 'd) CameraFilesystem \<Rightarrow> bool \<Rightarrow> string \<Rightarrow> (int \<times> ('p, 'd) CameraFilesystem) option" and
  gp_filesystem_list_folders ::
  "('p, 'd) CameraFilesystem \<Rightarrow> bool \<Rightarrow> string \<Rightarrow> string list \<Rightarrow>
   ((int \<times> string list) \<times> ('p, 'd) CameraFilesystem) option" where
  "lookup_at fs ctx folder name cur =
     (case next_component name cur of
        None \<Rightarrow> Some (Some folder, fs)
      | Some (i, cn, slash) \<Rightarrow> do {
          f \<leftarrow> folder_at fs folder;
          fs \<leftarrow> (if fo_folders_dirty f
                then map_option snd (gp_filesystem_list_folders fs ctx (take i name) [])
                else Some fs);
          f \<leftarrow> folder_at fs folder;
          (case find (\<lambda>c. fo_name c = cn) (fo_folders f) of
             None \<Rightarrow> Some (None, fs)
           | Some c \<Rightarrow>
               if slash then lookup_at fs ctx (fo_id c) name (i + length cn)
               else Some (Some (fo_id c), fs)) })"
| "delete_all_folders fs ctx foldername =
     (case CC_CA fs ctx foldername of (r, fs) \<Rightarrow>
        if r < 0 then Some (r, fs)
        else do {
          (f, fs) \<leftarrow> lookup_at fs ctx (root_id fs) foldername 0;
          (case f of
             None \<Rightarrow> Some (GP_OK, fs)
           | Some f \<Rightarrow> map_option (Pair GP_OK) (recurse_delete_folder fs f)) })"
| "gp_filesystem_list_folders fs ctx folder l =
     (case CC_CA fs ctx folder of (r, fs) \<Rightarrow>
        if r < 0 then Some ((r, l), fs)
        else do {
          (f, fs) \<leftarrow> lookup_at fs ctx (root_id fs) folder 0;
          (case f of
             None \<Rightarrow> Some ((GP_ERROR_DIRECTORY_NOT_FOUND, []), fs)
           | Some f \<Rightarrow> do {
               fo \<leftarrow> folder_at fs f;
               ((r, l), fs) \<leftarrow>
                 (case (if fo_folders_dirty fo then folder_list_func (fs_funcs fs) else None) of
                    None \<Rightarrow> Some ((GP_OK, []), fs)
                  | Some list_func \<Rightarrow>
                      (case list_func (fs_data fs) folder of ((r, names), d) \<Rightarrow>
                         let fs = fs\<lparr>fs_data := d\<rparr>
                         in if r < 0 then Some ((r, names), fs)
                            else do {
                              (r, fs) \<leftarrow> delete_all_folders fs ctx folder;
                              if r < 0 then Some ((r, names), fs)
                              else do { fs \<leftarrow> append_folders fs f names; Some ((GP_OK, []), fs) } }));
               if r < 0 then Some ((r, l), fs)
               else do {
                 fo \<leftarrow> folder_at fs f;
                 fs \<leftarrow> folder_update fs f (set_folders_dirty False);
                 Some ((GP_OK, map fo_name (fo_folders fo)), fs) } }) })"
  by pat_completeness auto

text \<open>
  A lookup lists proper prefixes of its path only, and a listing looks up its own path: the
  length of the path bounds the recursion.
\<close>

termination
proof (relation "measures
    [\<lambda>x. case x of Inl (fs, ctx, folder, name, cur) \<Rightarrow> 2 * length name
           | Inr (Inl (fs, ctx, name)) \<Rightarrow> 2 * length name + 1
           | Inr (Inr (fs, ctx, name, l)) \<Rightarrow> 2 * length name + 1,
     \<lambda>x. case x of Inl (fs, ctx, folder, name, cur) \<Rightarrow> length name - cur
           | Inr (Inl _) \<Rightarrow> 0 | Inr (Inr _) \<Rightarrow> 1]", goal_cases)
qed (auto dest!: next_component_bounds simp: min_def)

declare lookup_at.simps [simp del] delete_all_folders.simps [simp del]
  gp_filesystem_list_folders.simps [simp del]

definition lookup_folder ::
  "('p, 'd) CameraFilesystem \<Rightarrow> bool \<Rightarrow> nat \<Rightarrow> string \<Rightarrow>
   (nat option \<times> ('p, 'd) CameraFilesystem) option" where
  "lookup_folder fs ctx folder foldername = lookup_at fs ctx folder foldername 0"

text \<open>
  Only the first missing component is created. The last argument of the result is the folder
  the path ended at, or the one that was created.
\<close>

function append_to_folder ::
  "('p, 'd) CameraFilesystem \<Rightarrow> nat \<Rightarrow> string \<Rightarrow> (nat \<times> ('p, 'd) CameraFilesystem) option" where
  "append_to_folder fs folder foldername =
     (case next_component foldername 0 of
        None \<Rightarrow> Some (folder, fs)
      | Some (i, cn, slash) \<Rightarrow> do {
          f \<leftarrow> folder_at fs folder;
          (case find (\<lambda>c. fo_name c = cn) (fo_folders f) of
             Some c \<Rightarrow>
               if slash then append_to_folder fs (fo_id c) (drop (i + length cn + 1) foldername)
               else Some (fo_id c, fs)
           | None \<Rightarrow> append_folder_one fs folder cn) })"
  by pat_completeness auto
termination
  by (relation "measure (\<lambda>(_, _, name). length name)") (auto dest!: next_component_bounds)

declare append_to_folder.simps [simp del]

definition append_folder ::
  "('p, 'd) CameraFilesystem \<Rightarrow> bool \<Rightarrow> string \<Rightarrow> (int \<times> nat option \<times> ('p, 'd) CameraFilesystem) option"
where
  "append_folder fs ctx folder =
     (case CC_CA fs ctx folder of (r, fs) \<Rightarrow>
        if r < 0 then Some (r, None, fs)
        else do { (f, fs) \<leftarrow> append_to_folder fs (root_id fs) folder; Some (GP_OK, Some f, fs) })"

text \<open>The names in a folder; an entry that was freed has none.\<close>

fun names_of :: "(nat \<Rightarrow> CameraFilesystemFile option) \<Rightarrow> nat list \<Rightarrow> string list option" where
  "names_of cells [] = Some []"
| "names_of cells (a # as) = do {
     c \<leftarrow> cells a; ns \<leftarrow> names_of cells as; Some (ff_name c # ns) }"

text \<open>The first entry with a name.\<close>

fun find_entry :: "(nat \<Rightarrow> CameraFilesystemFile option) \<Rightarrow> string \<Rightarrow> nat list \<Rightarrow> nat option option" where
  "find_entry cells name [] = Some None"
| "find_entry cells name (a # as) =
     (case cells a of
        None \<Rightarrow> None
      | Some c \<Rightarrow> if ff_name c = name then Some (Some a) else find_entry cells name as)"

text \<open>A new entry goes to the end of its folder.\<close>

definition link_entry ::
  "('p, 'd) CameraFilesystem \<Rightarrow> nat \<Rightarrow> CameraFilesystemFile \<Rightarrow> ('p, 'd) CameraFilesystem option" where
  "link_entry fs folder c = do {
     f \<leftarrow> folder_at fs folder;
     fs' \<leftarrow> folder_update fs folder (set_files (fo_files f @ [fs_next fs]));
     Some (fs'\<lparr>fs_cells := (fs_cells fs')(fs_next fs \<mapsto> c), fs_next := fs_next fs + 1\<rparr>) }"

definition append_file ::
  "('p, 'd) CameraFilesystem \<Rightarrow> nat \<Rightarrow> string \<Rightarrow> nat \<Rightarrow> (int \<times> ('p, 'd) CameraFilesystem) option" where
  "append_file fs folder name ob = do {
     f \<leftarrow> folder_at fs folder;
     old \<leftarrow> find_entry (fs_cells fs) name (fo_files f);
     if old \<noteq> None then Some (GP_ERROR, fs)
     else do {
       fs \<leftarrow> link_entry fs folder ((new_entry name)\<lparr>ff_normal := Some ob\<rparr>);
       fs \<leftarrow> obj_ref fs ob;
       Some (GP_OK, fs) } }"

definition internal_append ::
  "('p, 'd) CameraFilesystem \<Rightarrow> nat \<Rightarrow> string \<Rightarrow> (int \<times> ('p, 'd) CameraFilesystem) option" where
  "internal_append fs folder name = do {
     f \<leftarrow> folder_at fs folder;
     old \<leftarrow> find_entry (fs_cells fs) name (fo_files f);
     if old \<noteq> None then Some (GP_ERROR_FILE_EXISTS, fs)
     else map_option (Pair GP_OK) (link_entry fs folder (new_entry name)) }"

fun append_names ::
  "('p, 'd) CameraFilesystem \<Rightarrow> nat \<Rightarrow> string list \<Rightarrow> (int \<times> ('p, 'd) CameraFilesystem) option" where
  "append_names fs f [] = Some (GP_OK, fs)"
| "append_names fs f (n # ns) = CR (internal_append fs f n) (\<lambda>fs. append_names fs f ns)"

text \<open>
  The files of a folder; a dirty folder is filled from the driver. It is marked clean before
  the driver is asked, whatever the driver answers.
\<close>

definition gp_filesystem_list_files ::
  "('p, 'd) CameraFilesystem \<Rightarrow> bool \<Rightarrow> string \<Rightarrow> string list \<Rightarrow>
   ((int \<times> string list) \<times> ('p, 'd) CameraFilesystem) option" where
  "gp_filesystem_list_files fs ctx folder l =
     (case CC_CA fs ctx folder of (r, fs) \<Rightarrow>
        if r < 0 then Some ((r, l), fs)
        else do {
          (f, fs) \<leftarrow> lookup_folder fs ctx (root_id fs) folder;
          (case f of
             None \<Rightarrow> Some ((GP_ERROR_DIRECTORY_NOT_FOUND, []), fs)
           | Some f \<Rightarrow> do {
               fo \<leftarrow> folder_at fs f;
               ((r, l), fs) \<leftarrow>
                 (case (if fo_files_dirty fo then file_list_func (fs_funcs fs) else None) of
                    None \<Rightarrow> Some ((GP_OK, []), fs)
                  | Some list_func \<Rightarrow> do {
                      fs \<leftarrow> delete_all_files fs f;
                      fs \<leftarrow> folder_update fs f (set_files_dirty False);
                      (case list_func (fs_data fs) folder of ((r, names), d) \<Rightarrow>
                         let fs = fs\<lparr>fs_data := d\<rparr>
                         in if r < 0 then Some ((r, names), fs)
                            else do {
                              (r, fs) \<leftarrow> append_names fs f names;
                              Some ((r, if r < 0 then names else []), fs) }) });
               if r < 0 then Some ((r, l), fs)
               else do {
                 fs \<leftarrow> folder_update fs f (set_files_dirty False);
                 fo \<leftarrow> folder_at fs f;
                 ns \<leftarrow> names_of (fs_cells fs) (fo_files fo);
                 Some ((GP_OK, ns), fs) } }) })"

text \<open>A folder and a file in it, the folder listed first when its files are not known.\<close>

definition lookup_folder_file ::
  "('p, 'd) CameraFilesystem \<Rightarrow> bool \<Rightarrow> string \<Rightarrow> string \<Rightarrow>
   ((int \<times> (nat \<times> nat) option) \<times> ('p, 'd) CameraFilesystem) option" where
  "lookup_folder_file fs ctx folder filename = do {
     (xf, fs) \<leftarrow> lookup_folder fs ctx (root_id fs) folder;
     (case xf of
        None \<Rightarrow> Some ((GP_ERROR_DIRECTORY_NOT_FOUND, None), fs)
      | Some xf \<Rightarrow> do {
          fo \<leftarrow> folder_at fs xf;
          fs \<leftarrow> (if fo_files_dirty fo then map_option snd (gp_filesystem_list_files fs ctx folder [])
                else Some fs);
          fo \<leftarrow> folder_at fs xf;
          a \<leftarrow> find_entry (fs_cells fs) filename (fo_files fo);
          (case a of
             None \<Rightarrow> Some ((GP_ERROR_FILE_NOT_FOUND, None), fs)
           | Some a \<Rightarrow> Some ((GP_OK, Some (xf, a)), fs)) }) }"

end
