(* ===== verification/FsOps.thy ===== *)
theory FsOps
  imports FsTree
begin

unbundle bit_operations_syntax

text \<open>
  The operations of \<open>libgphoto2/gphoto2-filesys.c\<close> that the front end and the drivers call.
  Output parameters are part of the result; \<open>ctx\<close> says whether a context is given.
\<close>

section \<open>Operations on a folder\<close>

text \<open>
  The common beginning of the operations: \<open>CC\<close>, \<open>CA\<close>, the test for a missing driver function
  and the lookup; \<open>e\<close> builds the result of an early return.
\<close>

definition at_folder ::
  "(('p, 'd) CameraFilesystem \<Rightarrow> 'r) \<Rightarrow> bool \<Rightarrow> ('p, 'd) CameraFilesystem \<Rightarrow> bool \<Rightarrow> string \<Rightarrow>
   (nat \<Rightarrow> ('p, 'd) CameraFilesystem \<Rightarrow> (int \<times> 'r) option) \<Rightarrow> (int \<times> 'r) option" where
  "at_folder e supported fs ctx folder k =
     (case CC_CA fs ctx folder of (r, fs) \<Rightarrow>
        if r < 0 then Some (r, e fs)
        else if \<not> supported then Some (GP_ERROR_NOT_SUPPORTED, e fs)
        else do {
          (f, fs) \<leftarrow> lookup_folder fs ctx (root_id fs) folder;
          (case f of None \<Rightarrow> Some (GP_ERROR_DIRECTORY_NOT_FOUND, e fs) | Some f \<Rightarrow> k f fs) })"

definition at_file ::
  "(('p, 'd) CameraFilesystem \<Rightarrow> 'r) \<Rightarrow> bool \<Rightarrow> ('p, 'd) CameraFilesystem \<Rightarrow> bool \<Rightarrow> string \<Rightarrow>
   string \<Rightarrow> (nat \<Rightarrow> nat \<Rightarrow> ('p, 'd) CameraFilesystem \<Rightarrow> (int \<times> 'r) option) \<Rightarrow> (int \<times> 'r) option"
where
  "at_file e supported fs ctx folder filename k =
     (case CC_CA fs ctx folder of (r, fs) \<Rightarrow>
        if r < 0 then Some (r, e fs)
        else if \<not> supported then Some (GP_ERROR_NOT_SUPPORTED, e fs)
        else do {
          ((r, p), fs) \<leftarrow> lookup_folder_file fs ctx folder filename;
          (case p of None \<Rightarrow> Some (r, e fs) | Some (f, a) \<Rightarrow> k f a fs) })"

definition gp_filesystem_new :: "('p, 'd) CameraFilesystem \<Rightarrow> bool \<Rightarrow> bool \<Rightarrow> int \<times> ('p, 'd) CameraFilesystem"
where
  "gp_filesystem_new fs ok1 ok2 =
     (if ok1 \<and> ok2
      then (GP_OK, fs\<lparr>fs_rootfolder := Folder (fs_next fs) ''/'' True True [] [], fs_lru_first := None,
              fs_lru_last := None, fs_lru_size := 0, fs_next := fs_next fs + 1\<rparr>)
      else (GP_ERROR_NO_MEMORY, fs))"

definition gp_filesystem_reset ::
  "('p, 'd) CameraFilesystem \<Rightarrow> (int \<times> ('p, 'd) CameraFilesystem) option" where
  "gp_filesystem_reset fs =
     CR (gp_filesystem_lru_clear fs) (\<lambda>fs.
     CR (delete_all_folders fs False ''/'') (\<lambda>fs. do {
       fs \<leftarrow> delete_all_files fs (root_id fs);
       fs \<leftarrow> folder_update fs (root_id fs) (set_files_dirty True);
       fs \<leftarrow> folder_update fs (root_id fs) (set_folders_dirty True);
       Some (GP_OK, fs) }))"

text \<open>Freeing the file system leaves the driver's data, the store and the host.\<close>

definition gp_filesystem_free ::
  "('p, 'd) CameraFilesystem \<Rightarrow> (int \<times> 'd \<times> 'p file_store \<times> host) option" where
  "gp_filesystem_free fs = do {
     (_, fs) \<leftarrow> gp_filesystem_reset fs;
     Some (GP_OK, fs_data fs, fs_objs fs, fs_host fs) }"

text \<open>
  After the lookup fails the folder pointer is what \<open>append_folder\<close> created, which is not the
  folder of the whole path when more than one component was missing.
\<close>

definition gp_filesystem_append ::
  "('p, 'd) CameraFilesystem \<Rightarrow> bool \<Rightarrow> string \<Rightarrow> string option \<Rightarrow>
   (int \<times> ('p, 'd) CameraFilesystem) option" where
  "gp_filesystem_append fs ctx folder filename =
     (case CC_CA fs ctx folder of (r, fs) \<Rightarrow>
        if r < 0 then Some (r, fs)
        else do {
          (f, fs) \<leftarrow> lookup_folder fs ctx (root_id fs) folder;
          (r, f, fs) \<leftarrow> (case f of Some f \<Rightarrow> Some (GP_OK, Some f, fs)
                                | None \<Rightarrow> append_folder fs ctx folder);
          if r < 0 then Some (r, fs)
          else (case (filename, f) of
             (None, _) \<Rightarrow> Some (GP_OK, fs)
           | (_, None) \<Rightarrow> None
           | (Some filename, Some f) \<Rightarrow> do {
               fo \<leftarrow> folder_at fs f;
               ((r, _), fs) \<leftarrow> (if fo_files_dirty fo then gp_filesystem_list_files fs ctx folder []
                              else Some ((GP_OK, []), fs));
               if r < 0 then Some (r, fs)
               else do {
                 (r, fs) \<leftarrow> internal_append fs f filename;
                 Some (if r = GP_ERROR_FILE_EXISTS then GP_OK else r, fs) } }) })"

definition delete_file ::
  "('p, 'd) CameraFilesystem \<Rightarrow> nat \<Rightarrow> nat \<Rightarrow> (int \<times> ('p, 'd) CameraFilesystem) option" where
  "delete_file fs folder a = do {
     (_, fs) \<leftarrow> gp_filesystem_lru_remove_one fs a;
     fs \<leftarrow> release_views fs a;
     f \<leftarrow> folder_at fs folder;
     if a \<notin> set (fo_files f) then Some (GP_ERROR, fs)
     else do {
       fs \<leftarrow> folder_update fs folder (set_files (remove1 a (fo_files f)));
       Some (GP_OK, fs\<lparr>fs_cells := (fs_cells fs)(a := None)\<rparr>) } }"

definition gp_filesystem_delete_file ::
  "('p, 'd) CameraFilesystem \<Rightarrow> bool \<Rightarrow> string \<Rightarrow> string \<Rightarrow>
   (int \<times> ('p, 'd) CameraFilesystem) option" where
  "gp_filesystem_delete_file fs ctx folder filename =
     at_file id (delete_file_func (fs_funcs fs) \<noteq> None) fs ctx folder filename
       (\<lambda>f a fs. do {
          df \<leftarrow> delete_file_func (fs_funcs fs);
          (case df (fs_data fs) folder filename of (r, d) \<Rightarrow>
             CR (Some (r, fs\<lparr>fs_data := d\<rparr>)) (\<lambda>fs.
             CR (delete_file fs f a) (\<lambda>fs. Some (GP_OK, fs)))) })"

definition gp_filesystem_delete_file_noop ::
  "('p, 'd) CameraFilesystem \<Rightarrow> bool \<Rightarrow> string \<Rightarrow> string \<Rightarrow>
   (int \<times> ('p, 'd) CameraFilesystem) option" where
  "gp_filesystem_delete_file_noop fs ctx folder filename =
     at_file id True fs ctx folder filename (\<lambda>f a fs. delete_file fs f a)"

fun delete_each ::
  "('p, 'd) CameraFilesystem \<Rightarrow> bool \<Rightarrow> string \<Rightarrow> string list \<Rightarrow>
   (int \<times> ('p, 'd) CameraFilesystem) option" where
  "delete_each fs ctx folder [] = Some (GP_OK, fs)"
| "delete_each fs ctx folder (n # ns) =
     CR (gp_filesystem_delete_file fs ctx folder n) (\<lambda>fs. delete_each fs ctx folder ns)"

text \<open>From the last listed file to the first.\<close>

definition gp_filesystem_delete_all_one_by_one ::
  "('p, 'd) CameraFilesystem \<Rightarrow> bool \<Rightarrow> string \<Rightarrow> (int \<times> ('p, 'd) CameraFilesystem) option" where
  "gp_filesystem_delete_all_one_by_one fs ctx folder = do {
     ((r, ns), fs) \<leftarrow> gp_filesystem_list_files fs ctx folder [];
     if r < 0 then Some (r, fs) else delete_each fs ctx folder (rev ns) }"

definition gp_filesystem_delete_all ::
  "('p, 'd) CameraFilesystem \<Rightarrow> bool \<Rightarrow> string \<Rightarrow> (int \<times> ('p, 'd) CameraFilesystem) option" where
  "gp_filesystem_delete_all fs ctx folder =
     at_folder id True fs ctx folder
       (\<lambda>f fs. case delete_all_func (fs_funcs fs) of
          None \<Rightarrow> gp_filesystem_delete_all_one_by_one fs ctx folder
        | Some df \<Rightarrow> do {
            fs \<leftarrow> folder_update fs f (set_files_dirty True);
            (case df (fs_data fs) folder of (r, d) \<Rightarrow>
               let fs = fs\<lparr>fs_data := d\<rparr>
               in CR (if r < 0 then gp_filesystem_delete_all_one_by_one fs ctx folder
                      else map_option (Pair GP_OK) (delete_all_files fs f))
                    (\<lambda>fs. map_option (Pair GP_OK) (folder_update fs f (set_files_dirty False)))) })"

definition gp_filesystem_count ::
  "('p, 'd) CameraFilesystem \<Rightarrow> bool \<Rightarrow> string \<Rightarrow> (int \<times> ('p, 'd) CameraFilesystem) option" where
  "gp_filesystem_count fs ctx folder =
     at_folder id True fs ctx folder
       (\<lambda>f fs. do { fo \<leftarrow> folder_at fs f; Some (int (length (fo_files fo)), fs) })"

definition gp_filesystem_make_dir ::
  "('p, 'd) CameraFilesystem \<Rightarrow> bool \<Rightarrow> string \<Rightarrow> string \<Rightarrow>
   (int \<times> ('p, 'd) CameraFilesystem) option" where
  "gp_filesystem_make_dir fs ctx folder name =
     at_folder id (make_dir_func (fs_funcs fs) \<noteq> None) fs ctx folder
       (\<lambda>f fs. do {
          mk \<leftarrow> make_dir_func (fs_funcs fs);
          (case mk (fs_data fs) folder name of (r, d) \<Rightarrow>
             CR (Some (r, fs\<lparr>fs_data := d\<rparr>)) (\<lambda>fs. do {
               (_, fs) \<leftarrow> append_folder_one fs f name;
               Some (GP_OK, fs) })) })"

definition gp_filesystem_remove_dir ::
  "('p, 'd) CameraFilesystem \<Rightarrow> bool \<Rightarrow> string \<Rightarrow> string \<Rightarrow>
   (int \<times> ('p, 'd) CameraFilesystem) option" where
  "gp_filesystem_remove_dir fs ctx folder name =
     at_folder id (remove_dir_func (fs_funcs fs) \<noteq> None) fs ctx folder
       (\<lambda>f fs. do {
          fo \<leftarrow> folder_at fs f;
          fs \<leftarrow> (if fo_folders_dirty fo
                then map_option snd (gp_filesystem_list_folders fs ctx folder []) else Some fs);
          fo \<leftarrow> folder_at fs f;
          (case find (\<lambda>c. fo_name c = name) (fo_folders fo) of
             None \<Rightarrow> Some (GP_ERROR_DIRECTORY_NOT_FOUND, fs)
           | Some c \<Rightarrow>
               if fo_folders c \<noteq> [] then Some (GP_ERROR_DIRECTORY_EXISTS, fs)
               else if fo_files c \<noteq> [] then Some (GP_ERROR_FILE_EXISTS, fs)
               else do {
                 rm \<leftarrow> remove_dir_func (fs_funcs fs);
                 (case rm (fs_data fs) folder name of (r, d) \<Rightarrow>
                    CR (Some (r, fs\<lparr>fs_data := d\<rparr>)) (\<lambda>fs.
                      map_option (Pair GP_OK) (delete_folder fs f (fo_id c)))) }) })"

definition gp_filesystem_put_file ::
  "('p, 'd) CameraFilesystem \<Rightarrow> bool \<Rightarrow> string \<Rightarrow> string \<Rightarrow> CameraFileType \<Rightarrow> nat \<Rightarrow>
   (int \<times> ('p, 'd) CameraFilesystem) option" where
  "gp_filesystem_put_file fs ctx folder filename ty ob =
     at_folder id (put_file_func (fs_funcs fs) \<noteq> None) fs ctx folder
       (\<lambda>f fs. do {
          put \<leftarrow> put_file_func (fs_funcs fs);
          cf \<leftarrow> fs_objs fs ob;
          (case put (fs_data fs) folder filename ty cf of (r, d) \<Rightarrow>
             CR (Some (r, fs\<lparr>fs_data := d\<rparr>)) (\<lambda>fs. do {
               (r, fs) \<leftarrow> append_file fs f filename ob;
               Some (if ty \<noteq> GP_FILE_TYPE_NORMAL then GP_OK else r, fs) })) })"

text \<open>The name of the file with a number; a negative number counts past every file.\<close>

definition gp_filesystem_name ::
  "('p, 'd) CameraFilesystem \<Rightarrow> bool \<Rightarrow> string \<Rightarrow> int \<Rightarrow>
   (int \<times> string option \<times> ('p, 'd) CameraFilesystem) option" where
  "gp_filesystem_name fs ctx folder filenumber =
     at_folder (Pair None) True fs ctx folder
       (\<lambda>f fs. do {
          fo \<leftarrow> folder_at fs f;
          if 0 \<le> filenumber \<and> nat filenumber < length (fo_files fo)
          then do { c \<leftarrow> fs_cells fs (fo_files fo ! nat filenumber); Some (GP_OK, Some (ff_name c), fs) }
          else Some (GP_ERROR_FILE_NOT_FOUND, None, fs) })"

fun number_of :: "(nat \<Rightarrow> CameraFilesystemFile option) \<Rightarrow> string \<Rightarrow> nat list \<Rightarrow> nat \<Rightarrow> nat option option" where
  "number_of cells name [] n = Some None"
| "number_of cells name (a # as) n =
     (case cells a of
        None \<Rightarrow> None
      | Some c \<Rightarrow> if ff_name c = name then Some (Some n) else number_of cells name as (Suc n))"

partial_function (option) gp_filesystem_number ::
  "('p, 'd) CameraFilesystem \<Rightarrow> bool \<Rightarrow> string \<Rightarrow> string \<Rightarrow>
   (int \<times> ('p, 'd) CameraFilesystem) option" where
  "gp_filesystem_number fs ctx folder filename =
     (case CC_CA fs ctx folder of (r, fs) \<Rightarrow>
        if r < 0 then Some (r, fs)
        else do {
          (f, fs) \<leftarrow> lookup_folder fs ctx (root_id fs) folder;
          (case f of
             None \<Rightarrow> Some (GP_ERROR_DIRECTORY_NOT_FOUND, fs)
           | Some f \<Rightarrow> do {
               fo \<leftarrow> folder_at fs f;
               n \<leftarrow> number_of (fs_cells fs) filename (fo_files fo) 0;
               (case n of
                  Some n \<Rightarrow> Some (int n, fs)
                | None \<Rightarrow>
                    if \<not> fo_files_dirty fo then Some (GP_ERROR_FILE_NOT_FOUND, fs)
                    else do {
                      ((r, _), fs) \<leftarrow> gp_filesystem_list_files fs ctx folder [];
                      if r < 0 then Some (r, fs)
                      else gp_filesystem_number fs ctx folder filename }) }) })"

section \<open>Searching for a file\<close>

text \<open>
  The path of a subfolder in \<open>path[128]\<close>. A folder of 128 characters or more leaves the array
  without a NUL.
\<close>

definition scan_path :: "string \<Rightarrow> string \<Rightarrow> string option" where
  "scan_path folder name =
     (if 128 \<le> length folder \<or> folder = [] then None
      else let p = (if last folder = CHR ''/'' then folder else take 127 (folder @ ''/''))
           in Some (take 127 (p @ name)))"

text \<open>
  \<open>todo = None\<close> is the start of \<open>gp_filesystem_scan\<close>, \<open>Some names\<close> its loop over the subfolders
  still to be scanned.
\<close>

partial_function (option) scan_loop ::
  "('p, 'd) CameraFilesystem \<Rightarrow> bool \<Rightarrow> string \<Rightarrow> string list option \<Rightarrow> string \<Rightarrow>
   (int \<times> ('p, 'd) CameraFilesystem) option" where
  "scan_loop fs ctx folder todo filename =
     (case todo of
        None \<Rightarrow>
          (case CC_CA fs ctx folder of (r, fs) \<Rightarrow>
             if r < 0 then Some (r, fs)
             else do {
               ((r, ns), fs) \<leftarrow> gp_filesystem_list_files fs ctx folder [];
               if r < 0 then Some (r, fs)
               else if filename \<in> set ns then Some (GP_OK, fs)
               else do {
                 ((r, ds), fs) \<leftarrow> gp_filesystem_list_folders fs ctx folder ns;
                 if r < 0 then Some (r, fs) else scan_loop fs ctx folder (Some ds) filename } })
      | Some [] \<Rightarrow> Some (GP_OK, fs)
      | Some (d # ds) \<Rightarrow> do {
          path \<leftarrow> scan_path folder d;
          (r, fs) \<leftarrow> scan_loop fs ctx path None filename;
          if r < 0 then Some (r, fs) else scan_loop fs ctx folder (Some ds) filename })"

definition gp_filesystem_scan ::
  "('p, 'd) CameraFilesystem \<Rightarrow> bool \<Rightarrow> string \<Rightarrow> string \<Rightarrow>
   (int \<times> ('p, 'd) CameraFilesystem) option" where
  "gp_filesystem_scan fs ctx folder filename = scan_loop fs ctx folder None filename"

text \<open>The path to the first folder that has the file; every name is preceded by a slash.\<close>

fun recursive_folder_scan ::
  "(nat \<Rightarrow> CameraFilesystemFile option) \<Rightarrow> string \<Rightarrow> CameraFilesystemFolder \<Rightarrow> string option option" and
  scan_children ::
  "(nat \<Rightarrow> CameraFilesystemFile option) \<Rightarrow> string \<Rightarrow> CameraFilesystemFolder list \<Rightarrow> string option option"
where
  "recursive_folder_scan cells name (Folder i n d e gs xs) = do {
     a \<leftarrow> find_entry cells name xs;
     if a \<noteq> None then Some (Some n)
     else do {
       x \<leftarrow> scan_children cells name gs;
       Some (map_option (\<lambda>x. n @ ''/'' @ x) x) } }"
| "scan_children cells name [] = Some None"
| "scan_children cells name (g # gs) = do {
     x \<leftarrow> recursive_folder_scan cells name g;
     if x \<noteq> None then Some x else scan_children cells name gs }"

definition gp_filesystem_get_folder ::
  "('p, 'd) CameraFilesystem \<Rightarrow> bool \<Rightarrow> string \<Rightarrow>
   (int \<times> string option \<times> ('p, 'd) CameraFilesystem) option" where
  "gp_filesystem_get_folder fs ctx filename =
     (case fs_cancelled fs ctx of (c, fs) \<Rightarrow>
        if c then Some (GP_ERROR_CANCEL, None, fs)
        else do {
          (r, fs) \<leftarrow> gp_filesystem_scan fs ctx ''/'' filename;
          if r < 0 then Some (r, None, fs)
          else do {
            p \<leftarrow> recursive_folder_scan (fs_cells fs) filename (fs_rootfolder fs);
            Some (if p = None then GP_ERROR_FILE_NOT_FOUND else GP_OK, p, fs) } })"

section \<open>Operations on a file\<close>

definition view_of :: "CameraFileType \<Rightarrow> CameraFilesystemFile \<Rightarrow> nat option" where
  "view_of ty c =
     (case ty of
        GP_FILE_TYPE_PREVIEW \<Rightarrow> ff_preview c | GP_FILE_TYPE_NORMAL \<Rightarrow> ff_normal c
      | GP_FILE_TYPE_RAW \<Rightarrow> ff_raw c | GP_FILE_TYPE_AUDIO \<Rightarrow> ff_audio c
      | GP_FILE_TYPE_EXIF \<Rightarrow> ff_exif c | GP_FILE_TYPE_METADATA \<Rightarrow> ff_metadata c)"

definition set_view :: "CameraFileType \<Rightarrow> nat option \<Rightarrow> CameraFilesystemFile \<Rightarrow> CameraFilesystemFile"
where
  "set_view ty x c =
     (case ty of
        GP_FILE_TYPE_PREVIEW \<Rightarrow> c\<lparr>ff_preview := x\<rparr> | GP_FILE_TYPE_NORMAL \<Rightarrow> c\<lparr>ff_normal := x\<rparr>
      | GP_FILE_TYPE_RAW \<Rightarrow> c\<lparr>ff_raw := x\<rparr> | GP_FILE_TYPE_AUDIO \<Rightarrow> c\<lparr>ff_audio := x\<rparr>
      | GP_FILE_TYPE_EXIF \<Rightarrow> c\<lparr>ff_exif := x\<rparr> | GP_FILE_TYPE_METADATA \<Rightarrow> c\<lparr>ff_metadata := x\<rparr>)"

text \<open>
  Changing the caller's file \<open>ob\<close>, and copying a cached view onto it. Copying a file onto itself
  reads what was just freed.
\<close>

definition obj_change ::
  "('p, 'd) CameraFilesystem \<Rightarrow> nat \<Rightarrow> ('p CameraFile option \<Rightarrow> (int \<times> 'p CameraFile option) option) \<Rightarrow>
   (int \<times> ('p, 'd) CameraFilesystem) option" where
  "obj_change fs ob g =
     (case fs_objs fs ob of
        None \<Rightarrow> None
      | Some f \<Rightarrow>
          (case g (Some f) of
             None \<Rightarrow> None
           | Some (r, f') \<Rightarrow> Some (r, fs\<lparr>fs_objs := (fs_objs fs)(ob := f')\<rparr>)))"

definition obj_copy ::
  "('p, 'd) CameraFilesystem \<Rightarrow> nat \<Rightarrow> nat \<Rightarrow> (int \<times> ('p, 'd) CameraFilesystem) option" where
  "obj_copy fs dst src =
     (case (fs_objs fs dst, fs_objs fs src) of
        (Some d, Some s) \<Rightarrow>
          if dst = src then None
          else (case gp_file_copy plain_mem (fs_host fs) (Some d) (Some s) of
                  None \<Rightarrow> None
                | Some (r, d', h) \<Rightarrow>
                    Some (r, fs\<lparr>fs_objs := (fs_objs fs)(dst := d'), fs_host := h\<rparr>))
      | _ \<Rightarrow> None)"

text \<open>
  The rest of \<open>gp_filesystem_get_file_impl\<close> when the driver can download: a cached view is
  copied, and only when that fails the driver is asked.
\<close>

definition fetch_file ::
  "('p, 'd) CameraFilesystem \<Rightarrow> bool \<Rightarrow> string \<Rightarrow> string \<Rightarrow> CameraFileType \<Rightarrow> nat \<Rightarrow>
   ('d \<Rightarrow> string \<Rightarrow> string \<Rightarrow> CameraFileType \<Rightarrow> 'p CameraFile \<Rightarrow> (int \<times> 'p CameraFile) \<times> 'd) \<Rightarrow>
   (int \<times> ('p, 'd) CameraFilesystem) option" where
  "fetch_file fs ctx folder filename ty ob get = do {
     ((r, p), fs) \<leftarrow> lookup_folder_file fs ctx folder filename;
     (case p of
        None \<Rightarrow> Some (r, fs)
      | Some (_, a) \<Rightarrow> do {
          c \<leftarrow> fs_cells fs a;
          (r, fs) \<leftarrow> (case view_of ty c of
             None \<Rightarrow> Some (GP_ERROR, fs) | Some v \<Rightarrow> obj_copy fs ob v);
          if r = GP_OK then Some (GP_OK, fs)
          else do {
            cf \<leftarrow> fs_objs fs ob;
            (case get (fs_data fs) folder filename ty cf of ((r, cf'), d) \<Rightarrow>
               CR (Some (r, fs\<lparr>fs_data := d, fs_objs := (fs_objs fs)(ob \<mapsto> cf')\<rparr>)) (\<lambda>fs.
               CR (obj_change fs ob (\<lambda>f. Some (gp_file_set_name f (Some filename)))) (\<lambda>fs.
               if ty \<noteq> GP_FILE_TYPE_NORMAL
               then CR (obj_change fs ob gp_file_adjust_name_for_mime_type) (\<lambda>fs. Some (GP_OK, fs))
               else Some (GP_OK, fs)))) } }) }"

definition gp_filesystem_get_file_impl ::
  "('p, 'd) CameraFilesystem \<Rightarrow> bool \<Rightarrow> string \<Rightarrow> string \<Rightarrow> CameraFileType \<Rightarrow> nat \<Rightarrow>
   (int \<times> ('p, 'd) CameraFilesystem) option" where
  "gp_filesystem_get_file_impl fs ctx folder filename ty ob =
     (case CC_CA fs ctx folder of (r, fs) \<Rightarrow>
        CR (Some (r, fs)) (\<lambda>fs.
        CR (obj_change fs ob (\<lambda>f. Some (gp_file_set_name f (Some filename)))) (\<lambda>fs.
        case get_file_func (fs_funcs fs) of
          None \<Rightarrow> Some (GP_ERROR_NOT_SUPPORTED, fs)
        | Some get \<Rightarrow> fetch_file fs ctx folder filename ty ob get)))"

text \<open>Without \<open>libexif\<close> every branch returns the error of the download.\<close>

definition gp_filesystem_get_file ::
  "('p, 'd) CameraFilesystem \<Rightarrow> bool \<Rightarrow> string \<Rightarrow> string \<Rightarrow> CameraFileType \<Rightarrow> nat \<Rightarrow>
   (int \<times> ('p, 'd) CameraFilesystem) option" where
  "gp_filesystem_get_file fs ctx folder filename ty ob = do {
     (r, fs) \<leftarrow> gp_filesystem_get_file_impl fs ctx folder filename ty ob;
     if r = GP_ERROR_NOT_SUPPORTED \<and> ty = GP_FILE_TYPE_PREVIEW then Some (r, fs)
     else if r = GP_ERROR_NOT_SUPPORTED \<and> ty = GP_FILE_TYPE_EXIF then Some (r, fs)
     else if r < 0 then Some (r, fs)
     else Some (GP_OK, fs) }"

text \<open>Reading a part: the bytes and the count the driver returns.\<close>

definition gp_filesystem_read_file ::
  "('p, 'd) CameraFilesystem \<Rightarrow> bool \<Rightarrow> string \<Rightarrow> string \<Rightarrow> CameraFileType \<Rightarrow> u64 \<Rightarrow> u64 \<Rightarrow>
   int \<times> (byte list \<times> u64) \<times> ('p, 'd) CameraFilesystem" where
  "gp_filesystem_read_file fs ctx folder filename ty offset n =
     (case CC_CA fs ctx folder of (r, fs) \<Rightarrow>
        if r < 0 then (r, ([], n), fs)
        else (case read_file_func (fs_funcs fs) of
                None \<Rightarrow> (GP_ERROR_NOT_SUPPORTED, ([], n), fs)
              | Some rd \<Rightarrow>
                  (case rd (fs_data fs) folder filename ty offset n of
                     ((r, bs, m), d) \<Rightarrow> (r, (bs, m), fs\<lparr>fs_data := d\<rparr>))))"

definition gp_filesystem_set_funcs ::
  "('p, 'd) CameraFilesystem \<Rightarrow> ('p, 'd) CameraFilesystemFuncs \<Rightarrow> 'd \<Rightarrow> int \<times> ('p, 'd) CameraFilesystem"
where
  "gp_filesystem_set_funcs fs funcs data = (GP_OK, fs\<lparr>fs_funcs := funcs, fs_data := data\<rparr>)"

definition gp_filesystem_get_info ::
  "('p, 'd) CameraFilesystem \<Rightarrow> bool \<Rightarrow> string \<Rightarrow> string \<Rightarrow>
   (int \<times> CameraFileInfo option \<times> ('p, 'd) CameraFilesystem) option" where
  "gp_filesystem_get_info fs ctx folder filename =
     at_file (Pair None) (get_info_func (fs_funcs fs) \<noteq> None) fs ctx folder filename
       (\<lambda>f a fs. do {
          c \<leftarrow> fs_cells fs a;
          if ff_info_dirty c
          then do {
            gi \<leftarrow> get_info_func (fs_funcs fs);
            (case gi (fs_data fs) folder filename (ff_info c) of ((r, info), d) \<Rightarrow> do {
               fs \<leftarrow> cell_update (fs\<lparr>fs_data := d\<rparr>) a (\<lambda>c. c\<lparr>ff_info := info\<rparr>);
               if r < 0 then Some (r, None, fs)
               else do {
                 fs \<leftarrow> cell_update fs a (\<lambda>c. c\<lparr>ff_info_dirty := False\<rparr>);
                 Some (GP_OK, Some info, fs) } }) }
          else Some (GP_OK, Some (ff_info c), fs) })"

definition gp_filesystem_lru_update ::
  "('p, 'd) CameraFilesystem \<Rightarrow> bool \<Rightarrow> string \<Rightarrow> string \<Rightarrow> CameraFileType \<Rightarrow> nat \<Rightarrow>
   (int \<times> ('p, 'd) CameraFilesystem) option" where
  "gp_filesystem_lru_update fs ctx folder filename ty ob = do {
     (r, _, fs) \<leftarrow> obj_size fs ob;
     CR (Some (r, fs)) (\<lambda>fs.
     CR (lru_prune (read_pictures_to_keep fs)) (\<lambda>fs. do {
       ((r, p), fs) \<leftarrow> lookup_folder_file fs ctx folder filename;
       (case p of None \<Rightarrow> Some (r, fs) | Some (_, a) \<Rightarrow> lru_relink fs a ty ob) })) }"

text \<open>
  A new view replaces the old one in the entry, which gets a reference. The information is read
  with a NULL context.
\<close>

definition replace_view ::
  "('p, 'd) CameraFilesystem \<Rightarrow> nat \<Rightarrow> CameraFileType \<Rightarrow> nat \<Rightarrow> ('p, 'd) CameraFilesystem option" where
  "replace_view fs a ty ob = do {
     c \<leftarrow> fs_cells fs a;
     fs \<leftarrow> (case view_of ty c of None \<Rightarrow> Some fs | Some v \<Rightarrow> obj_unref fs v);
     fs \<leftarrow> cell_update fs a (set_view ty (Some ob));
     obj_ref fs ob }"

definition GP_FILE_INFO_TYPE :: u32 where "GP_FILE_INFO_TYPE = 1"
definition GP_FILE_INFO_SIZE :: u32 where "GP_FILE_INFO_SIZE = 4"
definition GP_FILE_INFO_WIDTH :: u32 where "GP_FILE_INFO_WIDTH = 8"
definition GP_FILE_INFO_HEIGHT :: u32 where "GP_FILE_INFO_HEIGHT = 16"
definition GP_FILE_INFO_PERMISSIONS :: u32 where "GP_FILE_INFO_PERMISSIONS = 32"
definition GP_FILE_INFO_STATUS :: u32 where "GP_FILE_INFO_STATUS = 64"
definition GP_FILE_INFO_MTIME :: u32 where "GP_FILE_INFO_MTIME = 128"

definition gp_filesystem_set_file_noop ::
  "('p, 'd) CameraFilesystem \<Rightarrow> bool \<Rightarrow> string \<Rightarrow> string \<Rightarrow> CameraFileType \<Rightarrow> nat \<Rightarrow>
   (int \<times> ('p, 'd) CameraFilesystem) option" where
  "gp_filesystem_set_file_noop fs ctx folder filename ty ob =
     at_file id True fs ctx folder filename
       (\<lambda>_ a fs.
          CR (if ty = GP_FILE_TYPE_RAW \<or> ty = GP_FILE_TYPE_NORMAL \<or> ty = GP_FILE_TYPE_AUDIO
              then gp_filesystem_lru_update fs ctx folder filename ty ob else Some (GP_OK, fs)) (\<lambda>fs.
          CR (map_option (\<lambda>r. (r, fs)) (gp_filesystem_lru_check fs)) (\<lambda>fs. do {
            fs \<leftarrow> replace_view fs a ty ob;
            cf \<leftarrow> fs_objs fs ob;
            (t, fs) \<leftarrow>
              (if cf_mtime cf = 0
               then do {
                 (r, info, fs) \<leftarrow> gp_filesystem_get_info fs False folder filename;
                 Some (case info of
                         Some i \<Rightarrow> if r = GP_OK \<and> fif_fields (fi_file i) AND GP_FILE_INFO_MTIME \<noteq> 0
                                   then fif_mtime (fi_file i) else 0
                       | None \<Rightarrow> 0, fs) }
               else Some (cf_mtime cf, fs));
            if t \<noteq> 0
            then CR (obj_change fs ob (\<lambda>f. Some (gp_file_set_mtime f t))) (\<lambda>fs. Some (GP_OK, fs))
            else Some (GP_OK, fs) })))"

definition gp_filesystem_set_info_noop ::
  "('p, 'd) CameraFilesystem \<Rightarrow> bool \<Rightarrow> string \<Rightarrow> string \<Rightarrow> CameraFileInfo \<Rightarrow>
   (int \<times> ('p, 'd) CameraFilesystem) option" where
  "gp_filesystem_set_info_noop fs ctx folder filename info =
     at_file id True fs ctx folder filename
       (\<lambda>_ a fs. map_option (Pair GP_OK)
          (cell_update fs a (\<lambda>c. c\<lparr>ff_info := info, ff_info_dirty := False\<rparr>)))"

definition gp_filesystem_set_info_dirty ::
  "('p, 'd) CameraFilesystem \<Rightarrow> bool \<Rightarrow> string \<Rightarrow> string \<Rightarrow>
   (int \<times> ('p, 'd) CameraFilesystem) option" where
  "gp_filesystem_set_info_dirty fs ctx folder filename =
     at_file id True fs ctx folder filename
       (\<lambda>_ a fs. map_option (Pair GP_OK) (cell_update fs a (\<lambda>c. c\<lparr>ff_info_dirty := True\<rparr>)))"

text \<open>Whether the information asks for a change of a read-only attribute.\<close>

definition sets_read_only :: "CameraFileInfo \<Rightarrow> bool" where
  "sets_read_only info \<longleftrightarrow>
     (let f = fif_fields (fi_file info); p = fip_fields (fi_preview info);
          a = fia_fields (fi_audio info)
      in f AND GP_FILE_INFO_TYPE \<noteq> 0 \<or> f AND GP_FILE_INFO_SIZE \<noteq> 0 \<or>
         f AND GP_FILE_INFO_WIDTH \<noteq> 0 \<or> f AND GP_FILE_INFO_HEIGHT \<noteq> 0 \<or>
         f AND GP_FILE_INFO_STATUS \<noteq> 0 \<or>
         p AND GP_FILE_INFO_TYPE \<noteq> 0 \<or> p AND GP_FILE_INFO_SIZE \<noteq> 0 \<or>
         p AND GP_FILE_INFO_WIDTH \<noteq> 0 \<or> p AND GP_FILE_INFO_HEIGHT \<noteq> 0 \<or>
         p AND GP_FILE_INFO_STATUS \<noteq> 0 \<or>
         a AND GP_FILE_INFO_TYPE \<noteq> 0 \<or> a AND GP_FILE_INFO_SIZE \<noteq> 0 \<or>
         a AND GP_FILE_INFO_STATUS \<noteq> 0)"

definition gp_filesystem_set_info ::
  "('p, 'd) CameraFilesystem \<Rightarrow> bool \<Rightarrow> string \<Rightarrow> string \<Rightarrow> CameraFileInfo \<Rightarrow>
   (int \<times> ('p, 'd) CameraFilesystem) option" where
  "gp_filesystem_set_info fs ctx folder filename info =
     at_file id (set_info_func (fs_funcs fs) \<noteq> None) fs ctx folder filename
       (\<lambda>_ a fs.
          if sets_read_only info then Some (GP_ERROR_BAD_PARAMETERS, fs)
          else do {
            si \<leftarrow> set_info_func (fs_funcs fs);
            (case si (fs_data fs) folder filename info of (r, d) \<Rightarrow>
               let fs = fs\<lparr>fs_data := d\<rparr>
               in if r < 0
                  then map_option (Pair r) (cell_update fs a (\<lambda>c. c\<lparr>ff_info_dirty := True\<rparr>))
                  else if fif_fields (fi_file info) AND GP_FILE_INFO_PERMISSIONS \<noteq> 0
                  then map_option (Pair GP_OK)
                         (cell_update fs a (\<lambda>c. c\<lparr>ff_info := (ff_info c)\<lparr>fi_file :=
                            (fi_file (ff_info c))\<lparr>fif_permissions := fif_permissions (fi_file info)\<rparr>\<rparr>\<rparr>))
                  else Some (GP_OK, fs)) })"

definition gp_filesystem_get_storageinfo ::
  "('p, 'd) CameraFilesystem \<Rightarrow> bool \<Rightarrow> int \<times> string list \<times> ('p, 'd) CameraFilesystem" where
  "gp_filesystem_get_storageinfo fs ctx =
     (case fs_cancelled fs ctx of (c, fs) \<Rightarrow>
        if c then (GP_ERROR_CANCEL, [], fs)
        else (case storage_info_func (fs_funcs fs) of
                None \<Rightarrow> (GP_ERROR_NOT_SUPPORTED, [], fs)
              | Some si \<Rightarrow> (case si (fs_data fs) of ((r, infos), d) \<Rightarrow> (r, infos, fs\<lparr>fs_data := d\<rparr>))))"

end
