(* ===== verification/FsInv.thy ===== *)
theory FsInv
  imports FsOps "HOL-Library.Sublist"
begin

text \<open>
  Well-formedness of the file system of \<open>libgphoto2/gphoto2-filesys.c\<close>: unique numbers, live
  entries and distinct names within a folder, kept by every operation. What the primitive
  changes keep, all operations keep: the locale \<open>fs_invariant\<close> carries this once.
\<close>

section \<open>All folders of a tree\<close>

fun all_folders :: "CameraFilesystemFolder \<Rightarrow> CameraFilesystemFolder list" where
  "all_folders (Folder i n d e gs xs) = Folder i n d e gs xs # concat (map all_folders gs)"

abbreviation folder_ids :: "CameraFilesystemFolder \<Rightarrow> nat list" where
  "folder_ids r \<equiv> map fo_id (all_folders r)"

abbreviation folder_files :: "CameraFilesystemFolder \<Rightarrow> nat list" where
  "folder_files r \<equiv> concat (map fo_files (all_folders r))"

lemma all_folders_self [simp]: "r \<in> set (all_folders r)"
  by (cases r) simp

lemma all_folders_child:
  "g \<in> set (all_folders r) \<Longrightarrow> c \<in> set (fo_folders g) \<Longrightarrow> c \<in> set (all_folders r)"
  by (induction r rule: all_folders.induct) (auto, metis all_folders_self)

lemma all_folders_trans:
  "g \<in> set (all_folders r) \<Longrightarrow> h \<in> set (all_folders g) \<Longrightarrow> h \<in> set (all_folders r)"
  by (induction r rule: all_folders.induct) auto

lemma all_folders_unfold: "all_folders r = r # concat (map all_folders (fo_folders r))"
  by (cases r) simp

lemma find_folderD:
  "find_folder i r = Some f \<Longrightarrow> f \<in> set (all_folders r) \<and> fo_id f = i"
  "find_folders i gs = Some f \<Longrightarrow> f \<in> set (concat (map all_folders gs)) \<and> fo_id f = i"
  by (induction i r and i gs rule: find_folder_find_folders.induct) (auto split: if_splits option.splits)

lemma find_folder_None:
  "find_folder i r = None \<longleftrightarrow> i \<notin> set (folder_ids r)"
  "find_folders i gs = None \<longleftrightarrow> i \<notin> fo_id ` set (concat (map all_folders gs))"
  by (induction i r and i gs rule: find_folder_find_folders.induct)
     (auto split: if_splits option.splits)

lemma find_folder_distinct:
  assumes "distinct (folder_ids r)" "f \<in> set (all_folders r)"
  shows "find_folder (fo_id f) r = Some f"
proof -
  have "find_folder (fo_id f) r \<noteq> None" using assms(2) by (auto simp: find_folder_None)
  then obtain g where g: "find_folder (fo_id f) r = Some g" by blast
  then have "g \<in> set (all_folders r)" "fo_id g = fo_id f" using find_folderD by auto
  with assms have "g = f" by (auto simp: distinct_map inj_on_def)
  with g show ?thesis by simp
qed

lemma folder_atD:
  "folder_at fs i = Some f \<Longrightarrow> f \<in> set (all_folders (fs_rootfolder fs)) \<and> fo_id f = i"
  by (simp add: folder_at_def find_folderD)

lemma folder_at_root [simp]: "folder_at fs (root_id fs) = Some (fs_rootfolder fs)"
  by (cases "fs_rootfolder fs") (simp add: folder_at_def root_id_def)

text \<open>Replacing a folder whose number is not there changes nothing.\<close>

lemma update_folder_notin [simp]: "i \<notin> set (folder_ids r) \<Longrightarrow> update_folder i g r = r"
  by (induction i g r rule: update_folder.induct) (auto intro!: map_idI)

text \<open>
  The folders after a replacement. \<open>keeps_id g\<close>: the new folder has the same number.
\<close>

definition keeps_id :: "(CameraFilesystemFolder \<Rightarrow> CameraFilesystemFolder) \<Rightarrow> bool" where
  "keeps_id g \<longleftrightarrow> (\<forall>f. fo_id (g f) = fo_id f)"

lemma set_simps [simp]:
  "fo_id (set_files_dirty b f) = fo_id f" "fo_name (set_files_dirty b f) = fo_name f"
  "fo_folders (set_files_dirty b f) = fo_folders f" "fo_files (set_files_dirty b f) = fo_files f"
  "fo_files_dirty (set_files_dirty b f) = b" "fo_folders_dirty (set_files_dirty b f) = fo_folders_dirty f"
  "fo_id (set_folders_dirty b f) = fo_id f" "fo_name (set_folders_dirty b f) = fo_name f"
  "fo_folders (set_folders_dirty b f) = fo_folders f" "fo_files (set_folders_dirty b f) = fo_files f"
  "fo_files_dirty (set_folders_dirty b f) = fo_files_dirty f" "fo_folders_dirty (set_folders_dirty b f) = b"
  "fo_id (set_files ys f) = fo_id f" "fo_name (set_files ys f) = fo_name f"
  "fo_folders (set_files ys f) = fo_folders f" "fo_files (set_files ys f) = ys"
  "fo_files_dirty (set_files ys f) = fo_files_dirty f" "fo_folders_dirty (set_files ys f) = fo_folders_dirty f"
  "fo_id (set_folders gs f) = fo_id f" "fo_name (set_folders gs f) = fo_name f"
  "fo_folders (set_folders gs f) = gs" "fo_files (set_folders gs f) = fo_files f"
  "fo_files_dirty (set_folders gs f) = fo_files_dirty f" "fo_folders_dirty (set_folders gs f) = fo_folders_dirty f"
  by (cases f, simp)+

lemma keeps_id_setters [simp]:
  "keeps_id (set_files_dirty b)" "keeps_id (set_folders_dirty b)" "keeps_id (set_files ys)"
  "keeps_id (set_folders gs)"
  by (simp_all add: keeps_id_def)

lemma distinct_concat_others:
  assumes "distinct (concat (map f (us @ c # vs)))" "x \<in> set (f c)"
  shows "\<forall>u \<in> set us \<union> set vs. x \<notin> set (f u)"
  using assms by auto

text \<open>What replacing a folder changes in the numbers and files of the tree.\<close>

definition contents :: "CameraFilesystemFolder \<Rightarrow> (nat \<times> nat list) list" where
  "contents r = map (\<lambda>h. (fo_id h, fo_files h)) (all_folders r)"

lemma contents_simps [simp]:
  "contents (Folder i n d e gs xs) = (i, xs) # concat (map contents gs)"
  by (simp add: contents_def map_concat comp_def [abs_def] contents_def [abs_def, symmetric])

lemma fst_contents [simp]: "map fst (contents r) = folder_ids r"
  by (simp add: contents_def)

lemma contents_update:
  assumes "distinct (folder_ids r)" "find_folder i r = Some f"
  shows "\<exists>as bs. contents r = as @ contents f @ bs \<and> contents (update_folder i g r) = as @ contents (g f) @ bs"
  using assms
proof (induction i g r rule: update_folder.induct)
  case (1 i g j n d e gs xs)
  show ?case
  proof (cases "i = j")
    case True
    with 1 have "f = Folder j n d e gs xs" by simp
    with True show ?thesis by (intro exI [of _ "[]"]) simp
  next
    case False
    then have "find_folders i gs = Some f" using 1 by simp
    then obtain c where c: "c \<in> set gs" "find_folder i c = Some f"
      by (induction gs) (auto split: option.splits)
    then obtain us vs where gs: "gs = us @ c # vs" by (metis split_list)
    have ci: "i \<in> set (folder_ids c)" using c(2) find_folderD(1) by force
    have dc: "distinct (folder_ids c)" using 1(2) by (simp add: gs)
    have "\<forall>u \<in> set us \<union> set vs. i \<notin> set (folder_ids u)"
      using 1(2) distinct_concat_others [of folder_ids us c vs i] ci by (simp add: gs map_concat comp_def)
    then have o: "map (update_folder i g) us = us" "map (update_folder i g) vs = vs"
      by (auto intro!: map_idI)
    obtain as bs where ih: "contents c = as @ contents f @ bs"
        "contents (update_folder i g c) = as @ contents (g f) @ bs"
      using 1(1) [OF False c(1) dc c(2)] by blast
    show ?thesis
      using False ih o
      by (intro exI [of _ "(j, xs) # concat (map contents us) @ as"]
            exI [of _ "bs @ concat (map contents vs)"]) (simp add: gs)
  qed
qed

section \<open>Well-formed file systems\<close>

text \<open>
  The numbers of the folders and of the entries are unique and have been given out, every
  listed entry is live, and the entries of a folder have different names. This depends on the
  contents of the tree, the names of the live entries and the next number only.
\<close>

definition tree_wf :: "(nat \<times> nat list) list \<Rightarrow> (nat \<Rightarrow> string option) \<Rightarrow> nat \<Rightarrow> bool" where
  "tree_wf C nm n \<longleftrightarrow>
     distinct (map fst C) \<and> distinct (concat (map snd C)) \<and>
     (\<forall>i \<in> set (map fst C). i < n) \<and>
     (\<forall>a \<in> set (concat (map snd C)). a < n \<and> nm a \<noteq> None) \<and>
     (\<forall>xs \<in> set (map snd C). distinct (map nm xs))"

definition entry_name :: "(nat \<Rightarrow> CameraFilesystemFile option) \<Rightarrow> nat \<Rightarrow> string option" where
  "entry_name cells a = map_option ff_name (cells a)"

definition fs_wf :: "('p, 'd) CameraFilesystem \<Rightarrow> bool" where
  "fs_wf fs \<longleftrightarrow> tree_wf (contents (fs_rootfolder fs)) (entry_name (fs_cells fs)) (fs_next fs)"

lemma tree_wf_names:
  assumes "tree_wf C nm n" "\<forall>a \<in> set (concat (map snd C)). nm' a = nm a"
  shows "tree_wf C nm' n"
proof -
  have "map nm' xs = map nm xs" if "xs \<in> set (map snd C)" for xs
    using assms(2) that by (intro map_cong) auto
  then have "\<forall>xs \<in> set (map snd C). distinct (map nm' xs)"
    using assms(1) unfolding tree_wf_def by metis
  moreover have "\<forall>a \<in> set (concat (map snd C)). a < n \<and> nm' a \<noteq> None"
    using assms unfolding tree_wf_def by metis
  ultimately show ?thesis using assms(1) unfolding tree_wf_def by blast
qed

lemma subseq_distinct: "subseq xs ys \<Longrightarrow> distinct ys \<Longrightarrow> distinct xs"
  by (induction rule: list_emb.induct) (auto dest: list_emb_set)

lemma subseq_set: "subseq xs ys \<Longrightarrow> set xs \<subseteq> set ys"
  by (induction rule: list_emb.induct) auto

lemma subseq_remove1 [simp]: "subseq (remove1 a xs) xs"
  by (induction xs) auto

text \<open>Leaving out folders and files keeps the invariant.\<close>

abbreviation part_of :: "(nat \<times> nat list) list \<Rightarrow> (nat \<times> nat list) list \<Rightarrow> bool" where
  "part_of \<equiv> list_emb (\<lambda>p q. fst p = fst q \<and> subseq (snd p) (snd q))"

lemma part_of_refl [simp]: "part_of C C"
  by (induction C) auto

lemma tree_wf_part:
  assumes "tree_wf C nm n" "part_of D C"
  shows "tree_wf D nm n"
proof -
  have f: "subseq (map fst D) (map fst C)" "subseq (concat (map snd D)) (concat (map snd C))"
    using assms(2) by (induction rule: list_emb.induct) (auto intro: list_emb_append_mono)
  have "\<exists>ys \<in> set (map snd C). subseq xs ys" if "xs \<in> set (map snd D)" for xs
    using assms(2) that by (induction rule: list_emb.induct) auto
  note e = this
  have "distinct (map nm xs)" if x: "xs \<in> set (map snd D)" for xs
  proof -
    obtain ys where "ys \<in> set (map snd C)" "subseq xs ys" using e [OF x] by blast
    moreover from this have "distinct (map nm ys)" using assms(1) unfolding tree_wf_def by blast
    ultimately show ?thesis using subseq_distinct [OF subseq_map] by blast
  qed
  moreover have "distinct (map fst D)" "distinct (concat (map snd D))"
    using f subseq_distinct assms(1) unfolding tree_wf_def by blast+
  ultimately show ?thesis
    using assms(1) f [THEN subseq_set] unfolding tree_wf_def by blast
qed

lemma part_of_middle: "part_of D C \<Longrightarrow> part_of (as @ D @ bs) (as @ C @ bs)"
  by (intro list_emb_append_mono) auto

lemma tree_wf_new_entry:
  assumes "tree_wf (as @ (i, xs) # bs) nm n" "Some name \<notin> nm ` set xs"
  shows "tree_wf (as @ (i, xs @ [n]) # bs) (nm(n \<mapsto> name)) (n + 1)"
proof -
  have "n \<notin> set (concat (map snd (as @ (i, xs) # bs)))" using assms(1) by (auto simp: tree_wf_def)
  then have "tree_wf (as @ (i, xs) # bs) (nm(n \<mapsto> name)) n"
    by (intro tree_wf_names [OF assms(1)]) auto
  moreover have "(nm(n \<mapsto> name)) ` set xs = nm ` set xs"
    using \<open>n \<notin> _\<close> by (intro image_cong) auto
  ultimately show ?thesis using assms \<open>n \<notin> _\<close>
    by (auto simp: tree_wf_def less_Suc_eq image_iff)
qed

lemma tree_wf_new_folder:
  assumes "tree_wf (as @ (i, xs) # bs) nm n"
  shows "tree_wf (as @ (i, xs) # (n, []) # bs) nm (n + 1)"
  using assms by (auto simp: tree_wf_def less_Suc_eq)

lemma tree_wf_next: "tree_wf C nm n \<Longrightarrow> n \<le> m \<Longrightarrow> tree_wf C nm m"
  by (force simp: tree_wf_def)

definition without :: "(nat \<Rightarrow> string option) \<Rightarrow> nat set \<Rightarrow> nat \<Rightarrow> string option" where
  "without nm X a = (if a \<in> X then None else nm a)"

lemma without_without [simp]: "without (without nm X) Y = without nm (X \<union> Y)"
  by (auto simp: without_def fun_eq_iff)

lemma without_empty [simp]: "without nm {} = nm"
  by (auto simp: without_def fun_eq_iff)

text \<open>The three ways of deleting; what is freed is no longer listed.\<close>

lemma tree_wf_no_files:
  assumes "tree_wf (as @ (i, xs) # M) nm n"
  shows "tree_wf (as @ (i, []) # M) (without nm (set xs)) n"
proof -
  have "part_of ([(i, [])] @ M) ([(i, xs)] @ M)" by simp
  then have "part_of (as @ (i, []) # M) (as @ (i, xs) # M)" by (simp add: list_emb_append_mono)
  with assms have "tree_wf (as @ (i, []) # M) nm n" by (rule tree_wf_part)
  then show ?thesis
    by (rule tree_wf_names) (use assms in \<open>auto simp: without_def tree_wf_def\<close>)
qed

lemma tree_wf_no_children:
  assumes "tree_wf (as @ (i, xs) # M @ bs) nm n" "X \<subseteq> set (concat (map snd M))"
  shows "tree_wf (as @ (i, xs) # bs) (without nm X) n"
proof -
  have "part_of ([] @ bs) (M @ bs)" by (rule list_emb_append_mono) simp_all
  then have "part_of (as @ (i, xs) # bs) (as @ (i, xs) # M @ bs)" by (simp add: list_emb_append_mono)
  with assms(1) have "tree_wf (as @ (i, xs) # bs) nm n" by (rule tree_wf_part)
  moreover have "set (concat (map snd (as @ (i, xs) # bs))) \<inter> set (concat (map snd M)) = {}"
    using assms(1) unfolding tree_wf_def by auto
  ultimately show ?thesis
    using assms(2) by (elim tree_wf_names) (auto simp: without_def)
qed

lemma tree_wf_remove1:
  assumes "tree_wf (as @ (i, xs) # M) nm n"
  shows "tree_wf (as @ (i, remove1 a xs) # M) (without nm (if a \<in> set xs then {a} else {})) n"
proof -
  have "part_of ([(i, remove1 a xs)] @ M) ([(i, xs)] @ M)" by simp
  then have "part_of (as @ (i, remove1 a xs) # M) (as @ (i, xs) # M)"
    by (simp add: list_emb_append_mono)
  with assms have w: "tree_wf (as @ (i, remove1 a xs) # M) nm n" by (rule tree_wf_part)
  have "distinct (concat (map snd (as @ (i, xs) # M)))" using assms by (simp add: tree_wf_def)
  then have "a \<in> set xs \<Longrightarrow> a \<notin> set (concat (map snd (as @ (i, remove1 a xs) # M)))" by auto
  then show ?thesis
    using w by (elim tree_wf_names) (auto simp: without_def)
qed

section \<open>What the operations on entries and views leave alone\<close>

text \<open>
  A frame: the tree, the next number and the names of the live entries stay, and so does the
  driver.
\<close>

definition frame :: "('p, 'd) CameraFilesystem \<Rightarrow> ('p, 'd) CameraFilesystem \<Rightarrow> bool" where
  "frame fs fs' \<longleftrightarrow> fs_rootfolder fs' = fs_rootfolder fs \<and> fs_next fs' = fs_next fs \<and>
     entry_name (fs_cells fs') = entry_name (fs_cells fs) \<and> fs_funcs fs' = fs_funcs fs"

lemma frame_refl [simp]: "frame fs fs"
  by (simp add: frame_def)

lemma frame_trans [trans]: "frame fs fs' \<Longrightarrow> frame fs' fs'' \<Longrightarrow> frame fs fs''"
  by (simp add: frame_def)

lemma frame_wf: "frame fs fs' \<Longrightarrow> fs_wf fs' \<longleftrightarrow> fs_wf fs"
  by (simp add: frame_def fs_wf_def)

lemma frame_fields [simp]:
  "frame fs (fs'\<lparr>fs_lru_first := x\<rparr>) = frame fs fs'" "frame fs (fs'\<lparr>fs_lru_last := x\<rparr>) = frame fs fs'"
  "frame fs (fs'\<lparr>fs_lru_size := n\<rparr>) = frame fs fs'" "frame fs (fs'\<lparr>fs_data := d\<rparr>) = frame fs fs'"
  "frame fs (fs'\<lparr>fs_objs := st\<rparr>) = frame fs fs'" "frame fs (fs'\<lparr>fs_host := h\<rparr>) = frame fs fs'"
  "frame fs (fs'\<lparr>fs_pictures_to_keep := k\<rparr>) = frame fs fs'"
  "frame fs (fs'\<lparr>fs_cached_images := s\<rparr>) = frame fs fs'"
  "frame (fs\<lparr>fs_lru_first := x\<rparr>) fs' = frame fs fs'" "frame (fs\<lparr>fs_lru_last := x\<rparr>) fs' = frame fs fs'"
  "frame (fs\<lparr>fs_lru_size := n\<rparr>) fs' = frame fs fs'" "frame (fs\<lparr>fs_data := d\<rparr>) fs' = frame fs fs'"
  "frame (fs\<lparr>fs_objs := st\<rparr>) fs' = frame fs fs'" "frame (fs\<lparr>fs_host := h\<rparr>) fs' = frame fs fs'"
  by (simp_all add: frame_def)

lemma frame_cell [simp]:
  "fs_cells fs a = Some c \<Longrightarrow> ff_name c' = ff_name c \<Longrightarrow> frame fs (fs\<lparr>fs_cells := (fs_cells fs)(a \<mapsto> c')\<rparr>)"
  by (auto simp: frame_def entry_name_def)

lemma frame_cell_update:
  "cell_update fs a g = Some fs' \<Longrightarrow> (\<And>c. ff_name (g c) = ff_name c) \<Longrightarrow> frame fs fs'"
  by (auto simp: cell_update_def split: option.splits)

lemma frame_remove_one:
  assumes "gp_filesystem_lru_remove_one fs a = Some (r, fs')"
  shows "frame fs fs'"
proof -
  obtain c where c: "fs_cells fs a = Some c"
    using assms by (auto simp: gp_filesystem_lru_remove_one_def split: option.splits)
  show ?thesis
  proof (cases "ff_lru_prev c")
    case None
    then show ?thesis using assms c by (simp add: gp_filesystem_lru_remove_one_def)
  next
    case (Some p)
    with assms c obtain fs1 fs2 fs3 where
      1: "cell_update fs p (\<lambda>x. x\<lparr>ff_lru_next := ff_lru_next c\<rparr>) = Some fs1" and
      2: "(case ff_lru_next c of None \<Rightarrow> Some fs1
           | Some n \<Rightarrow> cell_update fs1 n (\<lambda>x. x\<lparr>ff_lru_prev := Some p\<rparr>)) = Some fs2" and
      3: "(if fs_lru_last fs2 = Some a
            then if fs_lru_first fs2 = Some a then Some (fs2\<lparr>fs_lru_last := None, fs_lru_first := None\<rparr>)
                 else Some (fs2\<lparr>fs_lru_last := Some p\<rparr>)
            else if fs_lru_first fs2 = Some a
            then (case ff_lru_next c of None \<Rightarrow> None
                  | Some n \<Rightarrow> cell_update (fs2\<lparr>fs_lru_first := Some n\<rparr>) n (\<lambda>x. x\<lparr>ff_lru_prev := Some n\<rparr>))
            else Some fs2) = Some fs3" and
      4: "cell_update fs3 a (\<lambda>x. x\<lparr>ff_lru_prev := None, ff_lru_next := None\<rparr>) = Some fs'"
      by (auto simp: gp_filesystem_lru_remove_one_def split: option.splits)
    have "frame fs fs1" by (rule frame_cell_update [OF 1]) simp
    also have "frame fs1 fs2" using 2 by (auto split: option.splits dest: frame_cell_update)
    also have "frame fs2 fs3"
      using 3 by (auto split: option.splits if_splits dest: frame_cell_update)
    also have "frame fs3 fs'" by (rule frame_cell_update [OF 4]) simp
    finally show ?thesis .
  qed
qed

lemma frame_obj_unref: "obj_unref fs ob = Some fs' \<Longrightarrow> frame fs fs'"
  by (auto simp: obj_unref_def split: option.splits)

lemma frame_obj_ref: "obj_ref fs ob = Some fs' \<Longrightarrow> frame fs fs'"
  by (auto simp: obj_ref_def split: option.splits)

lemma frame_obj_size: "obj_size fs ob = Some (r, n, fs') \<Longrightarrow> frame fs fs'"
  by (auto simp: obj_size_def split: option.splits)

lemma frame_release_view:
  assumes "release_view a view clear fs = Some fs'" "\<And>c. ff_name (clear c) = ff_name c"
  shows "frame fs fs'"
proof (cases "\<exists>c ob. fs_cells fs a = Some c \<and> view c = Some ob")
  case True
  then obtain c ob fs1 where "fs_cells fs a = Some c" "view c = Some ob"
      "obj_unref fs ob = Some fs1" "cell_update fs1 a clear = Some fs'"
    using assms(1) by (auto simp: release_view_def split: option.splits)
  then show ?thesis using frame_obj_unref frame_cell_update assms(2) frame_trans by blast
next
  case False
  then show ?thesis using assms(1) by (auto simp: release_view_def split: option.splits)
qed

lemma bind_Some_iff: "Option.bind m k = Some y \<longleftrightarrow> (\<exists>x. m = Some x \<and> k x = Some y)"
  by (cases m) auto

lemma frame_release_views:
  assumes "release_views fs a = Some fs'"
  shows "frame fs fs'"
proof -
  obtain fs1 fs2 fs3 fs4 fs5 where
    "release_view a ff_preview (\<lambda>c. c\<lparr>ff_preview := None\<rparr>) fs = Some fs1"
    "release_view a ff_normal (\<lambda>c. c\<lparr>ff_normal := None\<rparr>) fs1 = Some fs2"
    "release_view a ff_raw (\<lambda>c. c\<lparr>ff_raw := None\<rparr>) fs2 = Some fs3"
    "release_view a ff_audio (\<lambda>c. c\<lparr>ff_audio := None\<rparr>) fs3 = Some fs4"
    "release_view a ff_exif (\<lambda>c. c\<lparr>ff_exif := None\<rparr>) fs4 = Some fs5"
    "release_view a ff_metadata (\<lambda>c. c\<lparr>ff_metadata := None\<rparr>) fs5 = Some fs'"
    using assms by (auto simp: release_views_def bind_Some_iff)
  then have "frame fs fs1" "frame fs1 fs2" "frame fs2 fs3" "frame fs3 fs4" "frame fs4 fs5" "frame fs5 fs'"
    by (auto elim!: frame_release_view)
  then show ?thesis using frame_trans by blast
qed

text \<open>Freeing entries: the tree stays, their names go.\<close>

lemma entry_name_free: "entry_name (cs(a := None)) = without (entry_name cs) {a}"
  by (auto simp: without_def entry_name_def fun_eq_iff)

definition freed :: "('p, 'd) CameraFilesystem \<Rightarrow> ('p, 'd) CameraFilesystem \<Rightarrow> nat set \<Rightarrow> bool" where
  "freed fs fs' X \<longleftrightarrow> fs_rootfolder fs' = fs_rootfolder fs \<and> fs_next fs' = fs_next fs \<and>
     entry_name (fs_cells fs') = without (entry_name (fs_cells fs)) X \<and> fs_funcs fs' = fs_funcs fs"

lemma delete_entries_freed:
  "delete_entries fs xs = Some fs' \<Longrightarrow> freed fs fs' (set xs)"
proof (induction fs xs rule: delete_entries.induct)
  case (2 fs a as)
  then obtain r fs1 fs2 where s: "gp_filesystem_lru_remove_one fs a = Some (r, fs1)"
      "release_views fs1 a = Some fs2" "delete_entries (fs2\<lparr>fs_cells := (fs_cells fs2)(a := None)\<rparr>) as = Some fs'"
    by (auto simp: bind_Some_iff)
  have "frame fs fs2" using s frame_remove_one frame_release_views frame_trans by blast
  moreover have "freed (fs2\<lparr>fs_cells := (fs_cells fs2)(a := None)\<rparr>) fs' (set as)"
    using "2.IH" s by blast
  ultimately show ?case by (simp add: frame_def freed_def entry_name_free)
qed (simp add: freed_def)

lemma freed_trans: "freed fs fs' X \<Longrightarrow> freed fs' fs'' Y \<Longrightarrow> freed fs fs'' (X \<union> Y)"
  by (simp add: freed_def)

lemma delete_children_freed:
  "delete_children fs gs = Some fs' \<Longrightarrow>
     \<exists>X. X \<subseteq> set (concat (map snd (concat (map contents gs)))) \<and> freed fs fs' X"
  "delete_tree fs f = Some fs' \<Longrightarrow>
     \<exists>X. X \<subseteq> set (concat (map snd (contents f))) \<and> freed fs fs' X"
proof (induction fs gs and fs f arbitrary: fs' and fs' rule: delete_children_delete_tree.induct)
  case (1 fs)
  then show ?case by (auto simp: freed_def intro!: exI [of _ "{}"])
next
  case (2 fs f gs)
  then obtain fs1 X Y where "freed fs fs1 X" "freed fs1 fs' Y"
      "X \<subseteq> set (concat (map snd (contents f)))" "Y \<subseteq> set (concat (map snd (concat (map contents gs))))"
    by (auto simp: bind_Some_iff) blast
  then show ?case by (intro exI [of _ "X \<union> Y"]) (auto dest: freed_trans)
next
  case (3 fs i n d e gs xs)
  then obtain fs1 X where "freed fs fs1 X" "X \<subseteq> set (concat (map snd (concat (map contents gs))))"
      "freed fs1 fs' (set xs)"
    by (auto simp: bind_Some_iff) (blast dest: delete_entries_freed)
  then show ?case by (intro exI [of _ "X \<union> set xs"]) (auto dest: freed_trans)
qed

text \<open>The rest of the cache and of the views.\<close>

lemma frame_cell_links:
  assumes "fs_cells fs p = Some c"
  shows "frame fs (fs\<lparr>fs_cells := (fs_cells fs)(p \<mapsto> c\<lparr>ff_lru_prev := x, ff_lru_next := y\<rparr>)\<rparr>)"
  using assms by simp

lemma frame_lru_clear_loop:
  "lru_clear_loop fs ptr prev = Some rf \<Longrightarrow> frame fs (snd rf)"
proof (induct rule: lru_clear_loop.raw_induct [rotated, consumes 1, case_names 1])
  case (1 loop fs ptr prev rf)
  show ?case
  proof (cases ptr)
    case None
    then show ?thesis using 1(2) by auto
  next
    case (Some p)
    then obtain c where c: "fs_cells fs p = Some c" using 1(2) by (auto split: option.splits)
    show ?thesis
    proof (cases "ff_lru_prev c \<noteq> prev")
      case True
      then show ?thesis using 1(2) Some c by auto
    next
      case False
      then have "loop (fs\<lparr>fs_cells := (fs_cells fs)(p \<mapsto> c\<lparr>ff_lru_prev := None, ff_lru_next := None\<rparr>)\<rparr>)
          (ff_lru_next c) (Some p) = Some rf"
        using 1(2) Some c by simp
      from frame_trans [OF frame_cell_links [OF c] 1(1) [OF this]] show ?thesis .
    qed
  qed
qed

lemma frame_lru_clear: "gp_filesystem_lru_clear fs = Some (r, fs') \<Longrightarrow> frame fs fs'"
  using frame_lru_clear_loop [of fs] by (fastforce simp: gp_filesystem_lru_clear_def split: if_splits)

lemma frame_lru_free_view:
  assumes "lru_free_view a view clear fs = Some (r, fs')" "\<And>c. ff_name (clear c) = ff_name c"
  shows "frame fs fs'"
proof (cases "\<exists>c ob. fs_cells fs a = Some c \<and> view c = Some ob")
  case False
  then show ?thesis using assms(1) by (auto simp: lru_free_view_def split: option.splits)
next
  case True
  then obtain c ob where v: "fs_cells fs a = Some c" "view c = Some ob" by blast
  then obtain r1 n fs1 where 1: "obj_size fs ob = Some (r1, n, fs1)"
    using assms(1) by (auto simp: lru_free_view_def split: option.splits)
  have f1: "frame fs fs1" by (rule frame_obj_size [OF 1])
  show ?thesis
  proof (cases "r1 < 0")
    case True
    then show ?thesis using assms(1) v 1 f1 by (simp add: lru_free_view_def)
  next
    case False
    then obtain fs2 where 2: "obj_unref (fs1\<lparr>fs_lru_size := fs_lru_size fs1 - n\<rparr>) ob = Some fs2"
        "cell_update fs2 a clear = Some fs'"
      using assms(1) v 1 by (auto simp: lru_free_view_def split: option.splits)
    have "frame fs1 fs2" using frame_obj_unref [OF 2(1)] by simp
    then show ?thesis using f1 frame_cell_update [OF 2(2)] assms(2) frame_trans by blast
  qed
qed

lemma frame_lru_free:
  assumes "gp_filesystem_lru_free fs = Some (r, fs')"
  shows "frame fs fs'"
proof (cases "fs_lru_first fs")
  case None
  then show ?thesis using assms by (simp add: gp_filesystem_lru_free_def)
next
  case (Some a)
  then obtain c where c: "fs_cells fs a = Some c"
    using assms by (auto simp: gp_filesystem_lru_free_def split: option.splits)
  let ?fs = "fs\<lparr>fs_lru_first := ff_lru_next c\<rparr>"
  obtain fs1 where 1: "(case ff_lru_next c of None \<Rightarrow> Some (?fs\<lparr>fs_lru_last := None\<rparr>)
      | Some n \<Rightarrow> cell_update ?fs n (\<lambda>x. x\<lparr>ff_lru_prev := Some n\<rparr>)) = Some fs1"
    using assms Some c by (auto simp: gp_filesystem_lru_free_def Let_def split: option.splits)
  have f1: "frame fs fs1" using 1 frame_cell_update [of ?fs] by (auto split: option.splits)
  obtain r2 fs2 where 2: "lru_free_view a ff_normal (\<lambda>x. x\<lparr>ff_normal := None\<rparr>) fs1 = Some (r2, fs2)"
    using assms Some c 1 by (auto simp: gp_filesystem_lru_free_def Let_def split: option.splits)
  have f2: "frame fs fs2" using frame_trans [OF f1 frame_lru_free_view [OF 2]] by simp
  show ?thesis
  proof (cases "r2 < 0")
    case True
    then show ?thesis using assms Some c 1 2 f2 by (simp add: gp_filesystem_lru_free_def Let_def)
  next
    case r2: False
    then obtain r3 fs3 where 3: "lru_free_view a ff_raw (\<lambda>x. x\<lparr>ff_raw := None\<rparr>) fs2 = Some (r3, fs3)"
      using assms Some c 1 2 by (auto simp: gp_filesystem_lru_free_def Let_def split: option.splits)
    have f3: "frame fs fs3" using frame_trans [OF f2 frame_lru_free_view [OF 3]] by simp
    show ?thesis
    proof (cases "r3 < 0")
      case True
      then show ?thesis using assms Some c 1 2 3 r2 f3 by (simp add: gp_filesystem_lru_free_def Let_def)
    next
      case r3: False
      then obtain r4 fs4 where 4: "lru_free_view a ff_audio (\<lambda>x. x\<lparr>ff_audio := None\<rparr>) fs3 = Some (r4, fs4)"
        using assms Some c 1 2 3 r2 by (auto simp: gp_filesystem_lru_free_def Let_def split: option.splits)
      have f4: "frame fs fs4" using frame_trans [OF f3 frame_lru_free_view [OF 4]] by simp
      show ?thesis
      proof (cases "r4 < 0")
        case True
        then show ?thesis using assms Some c 1 2 3 4 r2 r3 f4 by (simp add: gp_filesystem_lru_free_def Let_def)
      next
        case False
        then have "cell_update fs4 a (\<lambda>x. x\<lparr>ff_lru_next := None, ff_lru_prev := None\<rparr>) = Some fs'"
          using assms Some c 1 2 3 4 r2 r3 by (simp add: gp_filesystem_lru_free_def Let_def)
        then show ?thesis using f4 frame_cell_update frame_trans by fastforce
      qed
    qed
  qed
qed

lemma frame_lru_prune: "lru_prune fs = Some rf \<Longrightarrow> frame fs (snd rf)"
proof (induct rule: lru_prune.raw_induct [rotated, consumes 1, case_names 1])
  case (1 prune fs rf)
  show ?case
  proof (cases "gp_filesystem_lru_free fs")
    case None
    then show ?thesis using 1(2) by (auto split: option.splits if_splits)
  next
    case (Some q)
    obtain r fs1 where q: "q = (r, fs1)" by (cases q)
    then have "frame fs fs1" using Some frame_lru_free by blast
    moreover have "frame fs1 (snd rf)" if "prune fs1 = Some rf" using 1(1) that .
    ultimately show ?thesis using 1(2) Some q frame_trans [of fs fs1]
      by (auto split: option.splits if_splits)
  qed
qed

lemma frame_read_pictures [simp]: "frame fs (read_pictures_to_keep fs)"
  by (simp add: read_pictures_to_keep_def Let_def split: option.splits)

lemma frame_take_out: "lru_take_out fs a ty = Some (r, fs') \<Longrightarrow> frame fs fs'"
  by (auto simp: lru_take_out_def Let_def split: option.splits if_splits
      dest!: frame_obj_size frame_remove_one) (meson frame_trans)

lemma frame_put_last:
  assumes "lru_put_last fs a = Some fs'"
  shows "frame fs fs'"
proof (cases "fs_lru_first fs")
  case None
  then show ?thesis
    using assms frame_cell_update [of "fs\<lparr>fs_lru_first := Some a, fs_lru_last := Some a\<rparr>" a]
    by (simp add: lru_put_last_def)
next
  case (Some x)
  then obtain fs1 where 1: "cell_update fs a (\<lambda>x. x\<lparr>ff_lru_next := None, ff_lru_prev := fs_lru_last fs\<rparr>) = Some fs1"
    using assms by (auto simp: lru_put_last_def split: option.splits)
  then obtain l fs2 where 2: "cell_update fs1 l (\<lambda>x. x\<lparr>ff_lru_next := Some a\<rparr>) = Some fs2"
      "fs' = fs2\<lparr>fs_lru_last := Some a\<rparr>"
    using assms Some by (auto simp: lru_put_last_def split: option.splits)
  have "frame fs fs1" "frame fs1 fs2" using frame_cell_update [OF 1] frame_cell_update [OF 2(1)] by simp_all
  then show ?thesis using 2(2) frame_trans by auto
qed

lemma frame_relink: "lru_relink fs a ty ob = Some (r, fs') \<Longrightarrow> frame fs fs'"
  by (auto simp: lru_relink_def split: option.splits if_splits
      dest!: frame_obj_size frame_take_out frame_put_last) (meson frame_trans)+

lemma frame_obj_change: "obj_change fs ob g = Some (r, fs') \<Longrightarrow> frame fs fs'"
  by (auto simp: obj_change_def split: option.splits)

lemma frame_obj_copy: "obj_copy fs d s = Some (r, fs') \<Longrightarrow> frame fs fs'"
  by (auto simp: obj_copy_def split: option.splits if_splits)

lemma frame_replace_view:
  assumes "replace_view fs a ty ob = Some fs'"
  shows "frame fs fs'"
proof -
  obtain c fs1 fs2 where 1: "(case view_of ty c of None \<Rightarrow> Some fs | Some v \<Rightarrow> obj_unref fs v) = Some fs1"
    and 2: "cell_update fs1 a (set_view ty (Some ob)) = Some fs2" "obj_ref fs2 ob = Some fs'"
    using assms by (auto simp: replace_view_def bind_Some_iff)
  have "ff_name (set_view ty (Some ob) c) = ff_name c" for c
    by (simp add: set_view_def split: CameraFileType.splits)
  with 2 have "frame fs1 fs2" using frame_cell_update by blast
  moreover have "frame fs fs1" using 1 frame_obj_unref by (auto split: option.splits)
  ultimately show ?thesis using frame_obj_ref [OF 2(2)] frame_trans by blast
qed

section \<open>The operations on the tree keep the invariant\<close>

lemma fs_wfD: "fs_wf fs \<Longrightarrow> distinct (folder_ids (fs_rootfolder fs))"
  by (simp add: fs_wf_def tree_wf_def)

text \<open>A folder and its place in the tree, for the proofs about one folder.\<close>

lemma folder_updateE:
  assumes "folder_update fs i g = Some fs'" "fs_wf fs" "folder_at fs i = Some f"
  obtains r as bs where "fs' = fs\<lparr>fs_rootfolder := r\<rparr>"
    "contents (fs_rootfolder fs) = as @ contents f @ bs" "contents r = as @ contents (g f) @ bs"
proof -
  have "fs' = fs\<lparr>fs_rootfolder := update_folder i g (fs_rootfolder fs)\<rparr>"
    using assms(1,3) by (simp add: folder_update_def)
  moreover have "find_folder i (fs_rootfolder fs) = Some f" using assms(3) by (simp add: folder_at_def)
  ultimately show thesis
    using contents_update [OF fs_wfD [OF assms(2)], of i f g] that by auto
qed

lemma contents_unfold: "contents f = (fo_id f, fo_files f) # concat (map contents (fo_folders f))"
  by (cases f) simp

lemma folder_update_at: "folder_update fs i g = Some fs' \<Longrightarrow> \<exists>f. folder_at fs i = Some f"
  by (auto simp: folder_update_def split: option.splits)

lemma contents_flags [simp]:
  "contents (set_files_dirty b f) = contents f" "contents (set_folders_dirty b f) = contents f"
  by (simp_all add: contents_unfold [of "set_files_dirty b f"] contents_unfold [of "set_folders_dirty b f"]
      contents_unfold [of f])

lemma wf_flags:
  assumes "fs_wf fs"
  shows "folder_update fs i (set_files_dirty b) = Some fs' \<Longrightarrow> fs_wf fs'"
    "folder_update fs i (set_folders_dirty b) = Some fs' \<Longrightarrow> fs_wf fs'"
proof -
  have *: "fs_wf fs'" if u: "folder_update fs i g = Some fs'" "\<And>f. contents (g f) = contents f" for g
  proof -
    obtain f where "folder_at fs i = Some f" using folder_update_at [OF u(1)] by blast
    from folder_updateE [OF u(1) assms this] obtain r where "fs' = fs\<lparr>fs_rootfolder := r\<rparr>"
        "contents r = contents (fs_rootfolder fs)" unfolding u(2) by metis
    then show ?thesis using assms by (simp add: fs_wf_def)
  qed
  show "folder_update fs i (set_files_dirty b) = Some fs' \<Longrightarrow> fs_wf fs'"
    "folder_update fs i (set_folders_dirty b) = Some fs' \<Longrightarrow> fs_wf fs'"
    by (erule *, simp)+
qed

text \<open>Deleting.\<close>

lemma wf_delete_all_files:
  assumes "delete_all_files fs i = Some fs'" "fs_wf fs"
  shows "fs_wf fs'"
proof -
  obtain f fs1 where f: "folder_at fs i = Some f" "delete_entries fs (fo_files f) = Some fs1"
      "folder_update fs1 i (set_files []) = Some fs'"
    using assms(1) by (auto simp: delete_all_files_def bind_Some_iff)
  have d: "freed fs fs1 (set (fo_files f))" by (rule delete_entries_freed [OF f(2)])
  have "find_folder i (fs_rootfolder fs) = Some f" using f(1) by (simp add: folder_at_def)
  from contents_update [OF fs_wfD [OF assms(2)] this, of "set_files []"] obtain as bs where
    c: "contents (fs_rootfolder fs) = as @ contents f @ bs"
      "contents (update_folder i (set_files []) (fs_rootfolder fs)) = as @ contents (set_files [] f) @ bs"
    by blast
  have fs': "fs' = fs1\<lparr>fs_rootfolder := update_folder i (set_files []) (fs_rootfolder fs)\<rparr>"
    using f(3) d by (auto simp: folder_update_def freed_def split: option.splits)
  have "tree_wf (as @ (fo_id f, fo_files f) # concat (map contents (fo_folders f)) @ bs)
      (entry_name (fs_cells fs)) (fs_next fs)"
    using assms(2) c(1) by (simp add: fs_wf_def contents_unfold [of f])
  note tree_wf_no_files [OF this]
  then show ?thesis
    using d c(2) by (simp add: fs' fs_wf_def freed_def contents_unfold [of "set_files [] f"])
qed

lemma wf_recurse_delete:
  assumes "recurse_delete_folder fs i = Some fs'" "fs_wf fs"
  shows "fs_wf fs'"
proof -
  obtain f fs1 where f: "folder_at fs i = Some f" "delete_children fs (fo_folders f) = Some fs1"
      "folder_update fs1 i (set_folders []) = Some fs'"
    using assms(1) by (auto simp: recurse_delete_folder_def bind_Some_iff)
  define M where "M = concat (map contents (fo_folders f))"
  obtain X where d: "X \<subseteq> set (concat (map snd M))" "freed fs fs1 X"
    using delete_children_freed(1) [OF f(2)] unfolding M_def by blast
  have "find_folder i (fs_rootfolder fs) = Some f" using f(1) by (simp add: folder_at_def)
  from contents_update [OF fs_wfD [OF assms(2)] this, of "set_folders []"] obtain as bs where
    c: "contents (fs_rootfolder fs) = as @ contents f @ bs"
      "contents (update_folder i (set_folders []) (fs_rootfolder fs)) = as @ contents (set_folders [] f) @ bs"
    by blast
  have fs': "fs' = fs1\<lparr>fs_rootfolder := update_folder i (set_folders []) (fs_rootfolder fs)\<rparr>"
    using f(3) d(2) by (auto simp: folder_update_def freed_def split: option.splits)
  have "tree_wf (as @ (fo_id f, fo_files f) # M @ bs) (entry_name (fs_cells fs)) (fs_next fs)"
    using assms(2) c(1) by (simp add: fs_wf_def contents_unfold [of f] M_def)
  note tree_wf_no_children [OF this d(1)]
  then show ?thesis
    using d c(2) by (simp add: fs' fs_wf_def freed_def contents_unfold [of "set_folders [] f"])
qed

lemma wf_delete_file:
  assumes "delete_file fs i a = Some (r, fs')" "fs_wf fs"
  shows "fs_wf fs'"
proof -
  obtain r1 fs1 fs2 f where s: "gp_filesystem_lru_remove_one fs a = Some (r1, fs1)"
      "release_views fs1 a = Some fs2" "folder_at fs2 i = Some f"
    and e: "(if a \<notin> set (fo_files f) then Some (GP_ERROR, fs2)
       else Option.bind (folder_update fs2 i (set_files (remove1 a (fo_files f))))
          (\<lambda>fs. Some (GP_OK, fs\<lparr>fs_cells := (fs_cells fs)(a := None)\<rparr>))) = Some (r, fs')"
    using assms(1) by (auto simp: delete_file_def bind_Some_iff)
  have w: "fs_wf fs2"
    using s frame_remove_one frame_release_views frame_wf assms(2) by blast
  show ?thesis
  proof (cases "a \<in> set (fo_files f)")
    case False
    then show ?thesis using e w by simp
  next
    case True
    then obtain fs3 where u: "folder_update fs2 i (set_files (remove1 a (fo_files f))) = Some fs3"
        "fs' = fs3\<lparr>fs_cells := (fs_cells fs3)(a := None)\<rparr>"
      using e by (auto simp: bind_Some_iff)
    obtain t as bs where c: "fs3 = fs2\<lparr>fs_rootfolder := t\<rparr>"
        "contents (fs_rootfolder fs2) = as @ contents f @ bs"
        "contents t = as @ contents (set_files (remove1 a (fo_files f)) f) @ bs"
      using folder_updateE [OF u(1) w s(3)] by metis
    have "tree_wf (as @ (fo_id f, fo_files f) # concat (map contents (fo_folders f)) @ bs)
        (entry_name (fs_cells fs2)) (fs_next fs2)"
      using w c(2) by (simp add: fs_wf_def contents_unfold [of f])
    from tree_wf_remove1 [OF this, of a] show ?thesis
      using True c by (simp add: u(2) fs_wf_def entry_name_free contents_unfold [of "set_files _ f"])
  qed
qed

lemma wf_set_folders_filter:
  assumes "folder_update fs i (set_folders (filter P (fo_folders f))) = Some fs'" "fs_wf fs"
    "folder_at fs i = Some f"
  shows "fs_wf fs'"
proof -
  obtain t as bs where c: "fs' = fs\<lparr>fs_rootfolder := t\<rparr>"
      "contents (fs_rootfolder fs) = as @ contents f @ bs"
      "contents t = as @ contents (set_folders (filter P (fo_folders f)) f) @ bs"
    using folder_updateE [OF assms] by metis
  have "part_of (concat (map contents (filter P gs))) (concat (map contents gs))" for gs
    by (induction gs) (auto intro: list_emb_append_mono)
  then have "part_of ((fo_id f, fo_files f) # concat (map contents (filter P (fo_folders f)))) (contents f)"
    by (simp add: contents_unfold [of f])
  then have "part_of (contents t) (contents (fs_rootfolder fs))"
    unfolding c(2,3) by (intro part_of_middle) (simp add: contents_unfold [of "set_folders _ f"])
  with tree_wf_part assms(2) c(1) show ?thesis unfolding fs_wf_def by fastforce
qed

lemma wf_delete_folder:
  assumes "delete_folder fs p i = Some fs'" "fs_wf fs"
  shows "fs_wf fs'"
proof -
  obtain fs1 f where "delete_all_files fs i = Some fs1" "folder_at fs1 p = Some f"
      "folder_update fs1 p (set_folders (filter (\<lambda>c. fo_id c \<noteq> i) (fo_folders f))) = Some fs'"
    using assms(1) by (auto simp: delete_folder_def bind_Some_iff)
  then show ?thesis using wf_delete_all_files wf_set_folders_filter assms(2) by blast
qed

text \<open>Creating.\<close>

lemma wf_append_folder_one:
  assumes "append_folder_one fs i name = Some (k, fs')" "fs_wf fs"
  shows "fs_wf fs'"
proof -
  let ?n = "Folder (fs_next fs) name True True [] []"
  obtain f fs1 where f: "folder_at fs i = Some f"
      "folder_update fs i (set_folders (?n # fo_folders f)) = Some fs1" "fs' = fs1\<lparr>fs_next := fs_next fs + 1\<rparr>"
    using assms(1) by (auto simp: append_folder_one_def bind_Some_iff)
  obtain t as bs where c: "fs1 = fs\<lparr>fs_rootfolder := t\<rparr>"
      "contents (fs_rootfolder fs) = as @ contents f @ bs"
      "contents t = as @ contents (set_folders (?n # fo_folders f) f) @ bs"
    using folder_updateE [OF f(2) assms(2) f(1)] by metis
  have "tree_wf (as @ (fo_id f, fo_files f) # concat (map contents (fo_folders f)) @ bs)
      (entry_name (fs_cells fs)) (fs_next fs)"
    using assms(2) c(2) by (simp add: fs_wf_def contents_unfold [of f])
  from tree_wf_new_folder [OF this] show ?thesis
    using c by (simp add: f(3) fs_wf_def contents_unfold [of "set_folders _ f"])
qed

lemma wf_append_folders: "append_folders fs i ns = Some fs' \<Longrightarrow> fs_wf fs \<Longrightarrow> fs_wf fs'"
  by (induction ns arbitrary: fs) (auto simp: bind_Some_iff dest: wf_append_folder_one)

lemma wf_append_to_folder: "append_to_folder fs i name = Some (k, fs') \<Longrightarrow> fs_wf fs \<Longrightarrow> fs_wf fs'"
proof (induction fs i name rule: append_to_folder.induct)
  case (1 fs i name)
  show ?case
  proof (cases "next_component name 0")
    case None
    then show ?thesis using 1 by (simp add: append_to_folder.simps [of fs i name])
  next
    case (Some q0)
    then obtain j cn slash where Some: "next_component name 0 = Some (j, cn, slash)" by (cases q0) auto
    obtain f where f: "folder_at fs i = Some f"
      using 1(2) Some by (auto simp: append_to_folder.simps [of fs i name] bind_Some_iff)
    show ?thesis
    proof (cases "find (\<lambda>c. fo_name c = cn) (fo_folders f)")
      case None
      then show ?thesis using 1(2,3) Some f
        by (simp add: append_to_folder.simps [of fs i name]) (blast dest: wf_append_folder_one)
    next
      fix c assume c: "find (\<lambda>c. fo_name c = cn) (fo_folders f) = Some c"
      show ?thesis
      proof (cases slash)
        case True
        then show ?thesis
          using 1(1) [OF Some refl refl f c True] 1(2,3) Some f c
          by (simp add: append_to_folder.simps [of fs i name])
      next
        case False
        then show ?thesis using 1(2,3) Some f c by (simp add: append_to_folder.simps [of fs i name])
      qed
    qed
  qed
qed

lemma find_entry_None:
  assumes "find_entry cells name xs = Some None"
  shows "Some name \<notin> entry_name cells ` set xs"
  using assms by (induction xs) (auto simp: entry_name_def split: option.splits if_splits)

lemma wf_link_entry:
  assumes "link_entry fs i c = Some fs'" "fs_wf fs" "folder_at fs i = Some f"
    "find_entry (fs_cells fs) (ff_name c) (fo_files f) = Some None"
  shows "fs_wf fs'"
proof -
  obtain fs1 where u: "folder_update fs i (set_files (fo_files f @ [fs_next fs])) = Some fs1"
      "fs' = fs1\<lparr>fs_cells := (fs_cells fs1)(fs_next fs \<mapsto> c), fs_next := fs_next fs + 1\<rparr>"
    using assms(1,3) by (auto simp: link_entry_def bind_Some_iff)
  obtain t as bs where t: "fs1 = fs\<lparr>fs_rootfolder := t\<rparr>"
      "contents (fs_rootfolder fs) = as @ contents f @ bs"
      "contents t = as @ contents (set_files (fo_files f @ [fs_next fs]) f) @ bs"
    using folder_updateE [OF u(1) assms(2,3)] by metis
  have "tree_wf (as @ (fo_id f, fo_files f) # concat (map contents (fo_folders f)) @ bs)
      (entry_name (fs_cells fs)) (fs_next fs)"
    using assms(2) t(2) by (simp add: fs_wf_def contents_unfold [of f])
  moreover have "entry_name ((fs_cells fs)(fs_next fs \<mapsto> c)) = (entry_name (fs_cells fs))(fs_next fs \<mapsto> ff_name c)"
    by (auto simp: entry_name_def fun_eq_iff)
  ultimately show ?thesis
    using tree_wf_new_entry find_entry_None [OF assms(4)] t
    by (simp add: u(2) fs_wf_def contents_unfold [of "set_files _ f"])
qed

lemma new_entry_name [simp]: "ff_name (new_entry name) = name"
  by (simp add: new_entry_def)

lemma wf_internal_append:
  assumes "internal_append fs i name = Some (r, fs')" "fs_wf fs"
  shows "fs_wf fs'"
proof -
  obtain f old where f: "folder_at fs i = Some f" "find_entry (fs_cells fs) name (fo_files f) = Some old"
    and e: "(if old \<noteq> None then Some (GP_ERROR_FILE_EXISTS, fs)
       else map_option (Pair GP_OK) (link_entry fs i (new_entry name))) = Some (r, fs')"
    using assms(1) by (auto simp: internal_append_def bind_Some_iff)
  show ?thesis
    using e f assms(2) wf_link_entry [of fs i "new_entry name" fs' f] by (cases old) auto
qed

lemma wf_append_names: "append_names fs i ns = Some (r, fs') \<Longrightarrow> fs_wf fs \<Longrightarrow> fs_wf fs'"
  by (induction fs i ns rule: append_names.induct)
     (auto simp: CR_def split: option.splits if_splits dest: wf_internal_append)

lemma wf_append_file:
  assumes "append_file fs i name ob = Some (r, fs')" "fs_wf fs"
  shows "fs_wf fs'"
proof -
  obtain f old where f: "folder_at fs i = Some f" "find_entry (fs_cells fs) name (fo_files f) = Some old"
    using assms(1) by (auto simp: append_file_def bind_Some_iff)
  show ?thesis
  proof (cases old)
    case None
    then obtain fs1 where "link_entry fs i ((new_entry name)\<lparr>ff_normal := Some ob\<rparr>) = Some fs1"
        "obj_ref fs1 ob = Some fs'"
      using assms(1) f by (auto simp: append_file_def bind_Some_iff)
    then show ?thesis
      using wf_link_entry [OF _ assms(2) f(1)] f(2) None frame_wf [OF frame_obj_ref] by fastforce
  next
    case (Some x)
    then show ?thesis using assms f by (simp add: append_file_def)
  qed
qed

section \<open>Invariants of all operations\<close>

text \<open>
  A property of file systems that the primitive changes keep is kept by every lookup and
  listing, and then by every operation.
\<close>

locale fs_invariant =
  fixes I :: "('p, 'd) CameraFilesystem \<Rightarrow> bool"
  assumes I_frame: "frame fs fs' \<Longrightarrow> I fs \<Longrightarrow> I fs'"
    and I_files_dirty: "folder_update fs i (set_files_dirty b) = Some fs' \<Longrightarrow> I fs \<Longrightarrow> I fs'"
    and I_folders_dirty: "folder_update fs i (set_folders_dirty b) = Some fs' \<Longrightarrow> I fs \<Longrightarrow> I fs'"
    and I_delete_all_files: "delete_all_files fs i = Some fs' \<Longrightarrow> I fs \<Longrightarrow> I fs'"
    and I_recurse_delete: "recurse_delete_folder fs i = Some fs' \<Longrightarrow> I fs \<Longrightarrow> I fs'"
    and I_delete_file: "delete_file fs i a = Some (r, fs') \<Longrightarrow> I fs \<Longrightarrow> I fs'"
    and I_delete_folder: "delete_folder fs p i = Some fs' \<Longrightarrow> I fs \<Longrightarrow> I fs'"
    and I_append_folder_one: "append_folder_one fs i n = Some (k, fs') \<Longrightarrow> I fs \<Longrightarrow> I fs'"
    and I_internal_append: "internal_append fs i n = Some (r, fs') \<Longrightarrow> I fs \<Longrightarrow> I fs'"
    and I_append_file: "append_file fs i n ob = Some (r, fs') \<Longrightarrow> I fs \<Longrightarrow> I fs'"
begin

lemma I_data [simp]: "I fs \<Longrightarrow> I (fs\<lparr>fs_data := d\<rparr>)"
  by (rule I_frame [of fs]) simp_all

lemma I_cancelled: "fs_cancelled fs ctx = (c, fs') \<Longrightarrow> I fs \<Longrightarrow> I fs'"
  by (auto simp: fs_cancelled_def split: option.splits if_splits prod.splits)

lemma I_CC_CA: "CC_CA fs ctx folder = (r, fs') \<Longrightarrow> I fs \<Longrightarrow> I fs'"
  by (auto simp: CC_CA_def split: prod.splits dest: I_cancelled)

lemma I_append_folders: "append_folders fs i ns = Some fs' \<Longrightarrow> I fs \<Longrightarrow> I fs'"
  by (induction ns arbitrary: fs) (auto simp: bind_Some_iff dest: I_append_folder_one)

lemma I_append_names: "append_names fs i ns = Some (r, fs') \<Longrightarrow> I fs \<Longrightarrow> I fs'"
  by (induction fs i ns rule: append_names.induct)
     (auto simp: CR_def split: option.splits if_splits dest: I_internal_append)

text \<open>A listing after its lookup, when the deletion inside it keeps the property.\<close>

lemma I_list_folders_step:
  assumes ls: "gp_filesystem_list_folders fs ctx name l = Some (rl, fs')"
    and c: "CC_CA fs ctx name = (r1, fs1)" "\<not> r1 < 0"
    and lk: "lookup_at fs1 ctx (root_id fs1) name 0 = Some (Some g, fs2)" and fs2: "I fs2"
    and del: "\<And>fo lf r2 names d r3 fs3. \<lbrakk>folder_at fs2 g = Some fo;
      (if fo_folders_dirty fo then folder_list_func (fs_funcs fs2) else None) = Some lf;
      ((r2, names), d) = lf (fs_data fs2) name; \<not> r2 < 0;
      delete_all_folders (fs2\<lparr>fs_data := d\<rparr>) ctx name = Some (r3, fs3);
      I (fs2\<lparr>fs_data := d\<rparr>)\<rbrakk> \<Longrightarrow> I fs3"
  shows "I fs'"
proof -
  note s = gp_filesystem_list_folders.simps [of fs ctx name l]
  obtain fo where fo: "folder_at fs2 g = Some fo"
    using ls c lk by (auto simp: s bind_Some_iff)
  show ?thesis
  proof (cases "if fo_folders_dirty fo then folder_list_func (fs_funcs fs2) else None")
    case None
    then show ?thesis
      using ls c lk fo fs2 I_folders_dirty by (auto simp: s bind_Some_iff)
  next
    case lf: (Some lf)
    obtain r2 names d where d: "lf (fs_data fs2) name = ((r2, names), d)"
      by (cases "lf (fs_data fs2) name") auto
    show ?thesis
    proof (cases "r2 < 0")
      case True
      then show ?thesis using ls c lk fo lf d fs2 by (auto simp: s Let_def)
    next
      case r2: False
      obtain r3 fs3 where da: "delete_all_folders (fs2\<lparr>fs_data := d\<rparr>) ctx name = Some (r3, fs3)"
        using ls c lk fo lf d r2 by (auto simp: s Let_def bind_Some_iff)
      have fs3: "I fs3" using del [OF fo lf d [symmetric] r2 da] fs2 by simp
      show ?thesis
      proof (cases "r3 < 0")
        case True
        then show ?thesis using ls c lk fo lf d r2 da fs3 by (auto simp: s Let_def)
      next
        case r3: False
        obtain fs4 where a: "append_folders fs3 g names = Some fs4"
          using ls c lk fo lf d r2 da r3 by (auto simp: s Let_def bind_Some_iff)
        have "I fs4" by (rule I_append_folders [OF a fs3])
        then show ?thesis
          using ls c lk fo lf d r2 da r3 a I_folders_dirty
          by (auto simp: s Let_def bind_Some_iff)
      qed
    qed
  qed
qed

lemma I_lookup:
  "lookup_at fs ctx folder name cur = Some (x, fs') \<Longrightarrow> I fs \<Longrightarrow> I fs'"
  "delete_all_folders fs ctx name = Some (r, fs') \<Longrightarrow> I fs \<Longrightarrow> I fs'"
  "gp_filesystem_list_folders fs ctx name l = Some (rl, fs') \<Longrightarrow> I fs \<Longrightarrow> I fs'"
proof (induction fs ctx folder name cur and fs ctx name and fs ctx name l arbitrary: x fs' and r fs' and rl fs'
    rule: lookup_at_delete_all_folders_gp_filesystem_list_folders.induct)
  case (1 fs ctx folder name cur)
  show ?case
  proof (cases "next_component name cur")
    case None
    then show ?thesis using "1.prems" by (simp add: lookup_at.simps [of fs])
  next
    case (Some q)
    then obtain i cn slash where q: "next_component name cur = Some (i, cn, slash)" by (cases q) auto
    obtain f fs1 f1 where s: "folder_at fs folder = Some f"
        "(if fo_folders_dirty f then map_option snd (gp_filesystem_list_folders fs ctx (take i name) [])
          else Some fs) = Some fs1" "folder_at fs1 folder = Some f1"
      using "1.prems"(1) q by (simp add: lookup_at.simps [of fs] bind_Some_iff) blast
    have fs1: "I fs1"
      using s(2) "1.IH"(1) [OF q refl refl s(1)] "1.prems"(2) by (auto split: if_splits)
    show ?thesis
    proof (cases "find (\<lambda>c. fo_name c = cn) (fo_folders f1)")
      case None
      then show ?thesis using "1.prems" q s fs1 by (simp add: lookup_at.simps [of fs] bind_Some_iff)
    next
      case (Some c)
      then show ?thesis
        using "1.prems" q s fs1 "1.IH"(2) [OF q refl refl s Some]
        by (cases slash) (simp_all add: lookup_at.simps [of fs] bind_Some_iff)
    qed
  qed
next
  case (2 fs ctx name)
  obtain r1 fs1 where c: "CC_CA fs ctx name = (r1, fs1)" by (cases "CC_CA fs ctx name")
  then have fs1: "I fs1" using "2.prems"(2) I_CC_CA by blast
  show ?case
  proof (cases "r1 < 0")
    case True
    then show ?thesis using "2.prems"(1) c fs1 by (simp add: delete_all_folders.simps [of fs])
  next
    case False
    obtain f fs2 where l: "lookup_at fs1 ctx (root_id fs1) name 0 = Some (f, fs2)"
      using "2.prems"(1) c False by (auto simp: delete_all_folders.simps [of fs] bind_Some_iff)
    have fs2: "I fs2" using "2.IH" [OF c [symmetric] False l fs1] .
    show ?thesis
      using "2.prems"(1) c False l fs2 I_recurse_delete
      by (cases f) (auto simp: delete_all_folders.simps [of fs])
  qed
next
  case (3 fs ctx name l)
  obtain r1 fs1 where c: "CC_CA fs ctx name = (r1, fs1)" by (cases "CC_CA fs ctx name")
  then have fs1: "I fs1" using "3.prems"(2) I_CC_CA by blast
  show ?case
  proof (cases "r1 < 0")
    case True
    then show ?thesis using "3.prems"(1) c fs1 by (simp add: gp_filesystem_list_folders.simps [of fs])
  next
    case False
    obtain f fs2 where lk: "lookup_at fs1 ctx (root_id fs1) name 0 = Some (f, fs2)"
      using "3.prems"(1) c False by (auto simp: gp_filesystem_list_folders.simps [of fs] bind_Some_iff)
    have fs2: "I fs2" using "3.IH"(1) [OF c [symmetric] False lk fs1] .
    show ?thesis
    proof (cases f)
      case None
      then show ?thesis using "3.prems"(1) c False lk fs2
        by (simp add: gp_filesystem_list_folders.simps [of fs])
    next
      case (Some g)
      show ?thesis
      proof (rule I_list_folders_step [OF "3.prems"(1) c False lk [unfolded Some] fs2])
        fix fo lf r2 names d r3 fs3
        assume h: "folder_at fs2 g = Some fo"
          "(if fo_folders_dirty fo then folder_list_func (fs_funcs fs2) else None) = Some lf"
          "((r2, names), d) = lf (fs_data fs2) name" "\<not> r2 < 0"
          "delete_all_folders (fs2\<lparr>fs_data := d\<rparr>) ctx name = Some (r3, fs3)" "I (fs2\<lparr>fs_data := d\<rparr>)"
        show "I fs3"
          by (rule "3.IH"(2) [OF c [symmetric] False lk refl Some h(1,2,3) refl refl h(4,5,6)])
      qed
    qed
  qed
qed

end

context fs_invariant
begin

lemma I_lookup_folder: "lookup_folder fs ctx folder name = Some (x, fs') \<Longrightarrow> I fs \<Longrightarrow> I fs'"
  by (simp add: lookup_folder_def I_lookup(1))

lemma I_append_to_folder: "append_to_folder fs i name = Some (k, fs') \<Longrightarrow> I fs \<Longrightarrow> I fs'"
proof (induction fs i name rule: append_to_folder.induct)
  case (1 fs i name)
  note s = append_to_folder.simps [of fs i name]
  show ?case
  proof (cases "next_component name 0")
    case None
    then show ?thesis using 1 by (simp add: s)
  next
    case (Some q0)
    then obtain j cn slash where q: "next_component name 0 = Some (j, cn, slash)" by (cases q0) auto
    obtain f where f: "folder_at fs i = Some f" using 1(2) q by (auto simp: s bind_Some_iff)
    show ?thesis
    proof (cases "find (\<lambda>c. fo_name c = cn) (fo_folders f)")
      case None
      then show ?thesis using 1(2,3) q f by (simp add: s) (blast dest: I_append_folder_one)
    next
      case (Some c)
      then show ?thesis using 1(1) [OF q refl refl f Some] 1(2,3) q f by (cases slash) (simp_all add: s)
    qed
  qed
qed

lemma I_append_folder: "append_folder fs ctx name = Some (r, x, fs') \<Longrightarrow> I fs \<Longrightarrow> I fs'"
  by (auto simp: append_folder_def bind_Some_iff split: prod.splits if_splits
      dest!: I_append_to_folder dest: I_CC_CA)

lemma I_list_files:
  assumes "gp_filesystem_list_files fs ctx name l = Some (rl, fs')" "I fs"
  shows "I fs'"
proof -
  note s = gp_filesystem_list_files_def
  obtain r1 fs1 where c: "CC_CA fs ctx name = (r1, fs1)" by (cases "CC_CA fs ctx name")
  then have fs1: "I fs1" using assms(2) I_CC_CA by blast
  show ?thesis
  proof (cases "r1 < 0")
    case True
    then show ?thesis using assms(1) c fs1 by (simp add: s)
  next
    case r1: False
    obtain f fs2 where lk: "lookup_folder fs1 ctx (root_id fs1) name = Some (f, fs2)"
      using assms(1) c r1 by (auto simp: s bind_Some_iff)
    have fs2: "I fs2" using I_lookup_folder lk fs1 by blast
    show ?thesis
    proof (cases f)
      case None
      then show ?thesis using assms(1) c r1 lk fs2 by (simp add: s)
    next
      case f: (Some g)
      obtain fo where fo: "folder_at fs2 g = Some fo"
        using assms(1) c r1 lk f by (auto simp: s bind_Some_iff)
      have end_: "I fs'" if "I fs3" "folder_update fs3 g (set_files_dirty False) = Some fs'" for fs3
        using I_files_dirty that by blast
      show ?thesis
      proof (cases "if fo_files_dirty fo then file_list_func (fs_funcs fs2) else None")
        case None
        then show ?thesis using assms(1) c r1 lk f fo fs2 end_ by (auto simp: s bind_Some_iff)
      next
        case lf: (Some lf)
        obtain fs3 fs4 where d: "delete_all_files fs2 g = Some fs3"
            "folder_update fs3 g (set_files_dirty False) = Some fs4"
          using assms(1) c r1 lk f fo lf by (auto simp: s bind_Some_iff)
        have fs4: "I fs4" using d I_delete_all_files I_files_dirty fs2 by blast
        obtain r2 names dd where dr: "lf (fs_data fs4) name = ((r2, names), dd)"
          by (cases "lf (fs_data fs4) name") auto
        show ?thesis
        proof (cases "r2 < 0")
          case True
          then show ?thesis using assms(1) c r1 lk f fo lf d dr fs4 by (auto simp: s Let_def)
        next
          case r2: False
          obtain r3 fs5 where a: "append_names (fs4\<lparr>fs_data := dd\<rparr>) g names = Some (r3, fs5)"
            using assms(1) c r1 lk f fo lf d dr r2 by (auto simp: s Let_def bind_Some_iff)
          have "I fs5" by (rule I_append_names [OF a I_data [OF fs4]])
          then show ?thesis
            using assms(1) c r1 lk f fo lf d dr r2 a end_
            by (cases "r3 < 0") (auto simp: s Let_def bind_Some_iff)
        qed
      qed
    qed
  qed
qed

lemma I_lookup_folder_file:
  assumes "lookup_folder_file fs ctx folder name = Some (rp, fs')" "I fs"
  shows "I fs'"
proof -
  obtain xf fs1 where 1: "lookup_folder fs ctx (root_id fs) folder = Some (xf, fs1)"
    using assms(1) by (auto simp: lookup_folder_file_def bind_Some_iff)
  have i1: "I fs1" using I_lookup_folder 1 assms(2) by blast
  show ?thesis
  proof (cases xf)
    case None
    then show ?thesis using assms(1) 1 i1 by (simp add: lookup_folder_file_def)
  next
    case (Some g)
    then obtain fo fs2 where "folder_at fs1 g = Some fo" "fs' = fs2"
        "(if fo_files_dirty fo then map_option snd (gp_filesystem_list_files fs1 ctx folder []) else Some fs1) = Some fs2"
      using assms(1) 1 by (auto simp: lookup_folder_file_def bind_Some_iff split: option.splits)
    then show ?thesis using i1 I_list_files by (auto split: if_splits)
  qed
qed

text \<open>The common beginning of the operations.\<close>

lemma I_at_folder:
  assumes "at_folder e supp fs ctx folder k = Some (r, x)" "I fs"
    "\<And>fs. I fs \<Longrightarrow> Q (e fs)"
    "\<And>f fs r x. k f fs = Some (r, x) \<Longrightarrow> I fs \<Longrightarrow> Q x"
  shows "Q x"
proof -
  obtain r1 fs1 where c: "CC_CA fs ctx folder = (r1, fs1)" by (cases "CC_CA fs ctx folder")
  then have fs1: "I fs1" using assms(2) I_CC_CA by blast
  show ?thesis
  proof (cases "r1 < 0 \<or> \<not> supp")
    case True
    then show ?thesis using assms(1) c assms(3) [OF fs1] by (auto simp: at_folder_def split: if_splits)
  next
    case False
    then obtain f fs2 where lk: "lookup_folder fs1 ctx (root_id fs1) folder = Some (f, fs2)"
      using assms(1) c by (auto simp: at_folder_def bind_Some_iff)
    have "I fs2" using I_lookup_folder lk fs1 by blast
    then show ?thesis using assms(1,3,4) c False lk by (cases f) (auto simp: at_folder_def)
  qed
qed

lemma I_at_file:
  assumes "at_file e supp fs ctx folder name k = Some (r, x)" "I fs"
    "\<And>fs. I fs \<Longrightarrow> Q (e fs)"
    "\<And>f a fs r x. k f a fs = Some (r, x) \<Longrightarrow> I fs \<Longrightarrow> Q x"
  shows "Q x"
proof -
  obtain r1 fs1 where c: "CC_CA fs ctx folder = (r1, fs1)" by (cases "CC_CA fs ctx folder")
  then have fs1: "I fs1" using assms(2) I_CC_CA by blast
  show ?thesis
  proof (cases "r1 < 0 \<or> \<not> supp")
    case True
    then show ?thesis using assms(1) c assms(3) [OF fs1] by (auto simp: at_file_def split: if_splits)
  next
    case False
    then obtain r2 p fs2 where lk: "lookup_folder_file fs1 ctx folder name = Some ((r2, p), fs2)"
      using assms(1) c by (auto simp: at_file_def bind_Some_iff)
    have "I fs2" using I_lookup_folder_file lk fs1 by blast
    then show ?thesis using assms(1,3,4) c False lk by (cases p) (auto simp: at_file_def)
  qed
qed

lemma I_CR:
  assumes "CR m k = Some (r, fs')" "\<And>r fs. m = Some (r, fs) \<Longrightarrow> I fs"
    "\<And>fs. k fs = Some (r, fs') \<Longrightarrow> I fs \<Longrightarrow> I fs'"
  shows "I fs'"
  using assms by (auto simp: CR_def split: option.splits if_splits)

lemma I_cell_update:
  "cell_update fs a g = Some fs' \<Longrightarrow> (\<And>c. ff_name (g c) = ff_name c) \<Longrightarrow> I fs \<Longrightarrow> I fs'"
  using I_frame frame_cell_update by blast

end

context fs_invariant
begin

lemma I_reset: "gp_filesystem_reset fs = Some (r, fs') \<Longrightarrow> I fs \<Longrightarrow> I fs'"
  unfolding gp_filesystem_reset_def
  by (elim I_CR)
     (auto simp: bind_Some_iff
       dest: I_frame [OF frame_lru_clear] I_lookup(2) I_delete_all_files I_files_dirty I_folders_dirty)

lemma I_append:
  assumes "gp_filesystem_append fs ctx folder filename = Some (r, fs')" "I fs"
  shows "I fs'"
proof -
  note s = gp_filesystem_append_def
  obtain r1 fs1 where c: "CC_CA fs ctx folder = (r1, fs1)" by (cases "CC_CA fs ctx folder")
  then have fs1: "I fs1" using assms(2) I_CC_CA by blast
  show ?thesis
  proof (cases "r1 < 0")
    case True
    then show ?thesis using assms(1) c fs1 by (simp add: s)
  next
    case r1: False
    obtain f fs2 where lk: "lookup_folder fs1 ctx (root_id fs1) folder = Some (f, fs2)"
      using assms(1) c r1 by (auto simp: s bind_Some_iff)
    have fs2: "I fs2" using I_lookup_folder lk fs1 by blast
    obtain r2 f2 fs3 where a: "(case f of Some f \<Rightarrow> Some (GP_OK, Some f, fs2)
        | None \<Rightarrow> append_folder fs2 ctx folder) = Some (r2, f2, fs3)"
      using assms(1) c r1 lk by (auto simp: s bind_Some_iff)
    have fs3: "I fs3" using a fs2 I_append_folder by (auto split: option.splits)
    show ?thesis
    proof (cases "r2 < 0 \<or> filename = None")
      case True
      then show ?thesis using assms(1) c r1 lk a fs3
        by (cases "r2 < 0"; cases filename) (auto simp: s)
    next
      case False
      then obtain nm g fo r3 l fs4 where n: "filename = Some nm" "f2 = Some g" "folder_at fs3 g = Some fo"
          "(if fo_files_dirty fo then gp_filesystem_list_files fs3 ctx folder [] else Some ((GP_OK, []), fs3)) =
             Some ((r3, l), fs4)"
        using assms(1) c r1 lk a by (auto simp: s bind_Some_iff split: option.splits)
      have "I fs4" using n(4) fs3 I_list_files by (auto split: if_splits)
      then show ?thesis
        using assms(1) c r1 lk a False n I_internal_append
        by (auto simp: s bind_Some_iff split: if_splits)
    qed
  qed
qed

lemma I_gp_delete_file:
  assumes "gp_filesystem_delete_file fs ctx folder n = Some (r, fs')" "I fs"
  shows "I fs'"
proof (rule I_at_file [where Q = I, OF assms(1) [unfolded gp_filesystem_delete_file_def] assms(2)], goal_cases)
  case (2 f a fs r fs')
  then obtain df r1 d where "CR (Some (r1, fs\<lparr>fs_data := d\<rparr>)) (\<lambda>fs. CR (delete_file fs f a)
      (\<lambda>fs. Some (GP_OK, fs))) = Some (r, fs')"
    by (auto simp: bind_Some_iff split_beta)
  then show ?case by (elim I_CR) (use 2(2) in \<open>auto dest: I_delete_file\<close>)
qed simp

lemma I_delete_file_noop:
  "gp_filesystem_delete_file_noop fs ctx folder n = Some (r, fs') \<Longrightarrow> I fs \<Longrightarrow> I fs'"
  unfolding gp_filesystem_delete_file_noop_def
  by (erule I_at_file) (auto dest: I_delete_file)

lemma I_delete_each: "delete_each fs ctx folder ns = Some (r, fs') \<Longrightarrow> I fs \<Longrightarrow> I fs'"
  by (induction ns arbitrary: fs)
     (auto simp: CR_def split: option.splits if_splits dest: I_gp_delete_file)

lemma I_one_by_one:
  "gp_filesystem_delete_all_one_by_one fs ctx folder = Some (r, fs') \<Longrightarrow> I fs \<Longrightarrow> I fs'"
  by (auto simp: gp_filesystem_delete_all_one_by_one_def bind_Some_iff split: if_splits
      dest: I_list_files I_delete_each)

lemma I_delete_all:
  assumes "gp_filesystem_delete_all fs ctx folder = Some (r, fs')" "I fs"
  shows "I fs'"
proof (rule I_at_folder [where Q = I, OF assms(1) [unfolded gp_filesystem_delete_all_def] assms(2)])
  fix f fs r fs' assume k: "(case delete_all_func (fs_funcs fs) of
      None \<Rightarrow> gp_filesystem_delete_all_one_by_one fs ctx folder
    | Some df \<Rightarrow> Option.bind (folder_update fs f (set_files_dirty True)) (\<lambda>fs.
        case df (fs_data fs) folder of (r, d) \<Rightarrow>
          let fs = fs\<lparr>fs_data := d\<rparr>
          in CR (if r < 0 then gp_filesystem_delete_all_one_by_one fs ctx folder
                 else map_option (Pair GP_OK) (delete_all_files fs f))
               (\<lambda>fs. map_option (Pair GP_OK) (folder_update fs f (set_files_dirty False))))) = Some (r, fs')"
    and i: "I fs"
  show "I fs'"
  proof (cases "delete_all_func (fs_funcs fs)")
    case None
    then show ?thesis using k i I_one_by_one by auto
  next
    case (Some df)
    then obtain fs1 where 1: "folder_update fs f (set_files_dirty True) = Some fs1"
      using k by (auto simp: bind_Some_iff)
    obtain r2 d where d: "df (fs_data fs1) folder = (r2, d)" by (cases "df (fs_data fs1) folder")
    have fs1: "I (fs1\<lparr>fs_data := d\<rparr>)" using I_files_dirty 1 i by (blast intro: I_data)
    show ?thesis
      using k [unfolded Some option.case 1 bind.bind_lunit d prod.case Let_def]
      by (elim I_CR) (use fs1 in \<open>auto split: if_splits dest: I_one_by_one I_delete_all_files I_files_dirty\<close>)
  qed
qed simp

lemma I_count: "gp_filesystem_count fs ctx folder = Some (r, fs') \<Longrightarrow> I fs \<Longrightarrow> I fs'"
  unfolding gp_filesystem_count_def by (erule I_at_folder) (auto simp: bind_Some_iff)

lemma I_make_dir: "gp_filesystem_make_dir fs ctx folder n = Some (r, fs') \<Longrightarrow> I fs \<Longrightarrow> I fs'"
  unfolding gp_filesystem_make_dir_def
  by (erule I_at_folder)
     (auto simp: bind_Some_iff CR_def split_beta split: option.splits if_splits dest: I_append_folder_one)

lemma I_remove_dir:
  assumes "gp_filesystem_remove_dir fs ctx folder n = Some (r, fs')" "I fs"
  shows "I fs'"
proof (rule I_at_folder [where Q = I, OF assms(1) [unfolded gp_filesystem_remove_dir_def] assms(2)], goal_cases)
  case (2 f fs r fs')
  then obtain fo fs1 fo1 where s: "folder_at fs f = Some fo"
      "(if fo_folders_dirty fo then map_option snd (gp_filesystem_list_folders fs ctx folder []) else Some fs) = Some fs1"
      "folder_at fs1 f = Some fo1"
    by (auto simp: bind_Some_iff)
  have i: "I fs1" using s(2) 2(2) I_lookup(3) by (auto split: if_splits)
  show ?case
    using 2(1) s i
    by (auto simp: bind_Some_iff CR_def split_beta split: option.splits if_splits dest: I_delete_folder)
qed simp

lemma I_put_file: "gp_filesystem_put_file fs ctx folder n ty ob = Some (r, fs') \<Longrightarrow> I fs \<Longrightarrow> I fs'"
  unfolding gp_filesystem_put_file_def
  by (erule I_at_folder)
     (auto simp: bind_Some_iff CR_def split_beta split: option.splits if_splits dest: I_append_file)

lemma I_name: "gp_filesystem_name fs ctx folder n = Some (r, x, fs') \<Longrightarrow> I fs \<Longrightarrow> I fs'"
  using I_at_folder [where Q = "\<lambda>x. I (snd x)", of "Pair None" True fs ctx folder _ r "(x, fs')"]
  by (fastforce simp: gp_filesystem_name_def bind_Some_iff split: if_splits)

lemma I_number: "gp_filesystem_number fs ctx folder n = Some rf \<Longrightarrow> I fs \<longrightarrow> I (snd rf)"
proof (induct rule: gp_filesystem_number.raw_induct [rotated, consumes 1, case_names 1])
  case (1 number fs ctx folder n rf)
  show ?case
  proof
    assume i: "I fs"
    obtain r1 fs1 where c: "CC_CA fs ctx folder = (r1, fs1)" by (cases "CC_CA fs ctx folder")
    then have fs1: "I fs1" using i I_CC_CA by blast
    show "I (snd rf)"
    proof (cases "r1 < 0")
      case True
      then show ?thesis using 1(2) c fs1 by auto
    next
      case False
      then obtain f fs2 where lk: "lookup_folder fs1 ctx (root_id fs1) folder = Some (f, fs2)"
        using 1(2) c by (auto simp: bind_Some_iff)
      have fs2: "I fs2" using I_lookup_folder lk fs1 by blast
      show ?thesis
        using 1(2) c False lk fs2
        by (auto simp: bind_Some_iff split: option.splits if_splits
            dest!: 1(1) dest: I_list_files [OF _ fs2])
    qed
  qed
qed

lemma I_scan_loop: "scan_loop fs ctx folder todo n = Some rf \<Longrightarrow> I fs \<longrightarrow> I (snd rf)"
proof (induct rule: scan_loop.raw_induct [rotated, consumes 1, case_names 1])
  case (1 scan fs ctx folder todo n rf)
  show ?case
  proof
    assume i: "I fs"
    show "I (snd rf)"
    proof (cases todo)
      case None
      obtain r1 fs1 where c: "CC_CA fs ctx folder = (r1, fs1)" by (cases "CC_CA fs ctx folder")
      then have fs1: "I fs1" using i I_CC_CA by blast
      show ?thesis
        using 1(2) [unfolded None c option.case prod.case] fs1
        by (auto simp: bind_Some_iff split: if_splits dest!: 1(1) I_list_files I_lookup(3))
    next
      case (Some ds)
      then show ?thesis
        using 1(2) i by (cases ds) (auto simp: bind_Some_iff split: if_splits dest!: 1(1))
    qed
  qed
qed

lemma I_get_folder: "gp_filesystem_get_folder fs ctx n = Some (r, p, fs') \<Longrightarrow> I fs \<Longrightarrow> I fs'"
  by (auto simp: gp_filesystem_get_folder_def gp_filesystem_scan_def bind_Some_iff
      split: prod.splits if_splits dest!: I_cancelled I_scan_loop)

end

context fs_invariant
begin

lemma I_fetch_file:
  assumes "fetch_file fs2 ctx folder n ty ob get = Some (r, fs')" "I fs2"
  shows "I fs'"
proof -
  note s = fetch_file_def
  note fr = I_frame [OF frame_obj_change] I_frame [OF frame_obj_copy]
  obtain r3 p fs3 where lk: "lookup_folder_file fs2 ctx folder n = Some ((r3, p), fs3)"
    using assms(1) by (auto simp: s bind_Some_iff)
  have fs3: "I fs3" using I_lookup_folder_file lk assms(2) by blast
  show ?thesis
  proof (cases p)
    case None
    then show ?thesis using assms(1) lk fs3 by (simp add: s)
  next
    case (Some q)
    obtain g a where q: "q = (g, a)" by (cases q)
    obtain c r4 fs4 where v: "fs_cells fs3 a = Some c"
        "(case view_of ty c of None \<Rightarrow> Some (GP_ERROR, fs3) | Some v \<Rightarrow> obj_copy fs3 ob v) = Some (r4, fs4)"
      using assms(1) lk Some q by (auto simp: s bind_Some_iff)
    have fs4: "I fs4" using v(2) fs3 fr by (auto split: option.splits)
    show ?thesis
    proof (cases "r4 = GP_OK")
      case True
      then show ?thesis using assms(1) lk Some q v fs4 by (simp add: s)
    next
      case False
      then obtain cf where cf: "fs_objs fs4 ob = Some cf"
        using assms(1) lk Some q v by (auto simp: s bind_Some_iff)
      obtain r5 cf' d where d: "get (fs_data fs4) folder n ty cf = ((r5, cf'), d)"
        by (cases "get (fs_data fs4) folder n ty cf") auto
      let ?fs = "fs4\<lparr>fs_data := d, fs_objs := (fs_objs fs4)(ob \<mapsto> cf')\<rparr>"
      have fs5: "I ?fs" by (rule I_frame [of fs4]) (simp_all add: fs4)
      have "CR (Some (r5, ?fs)) (\<lambda>fs.
            CR (obj_change fs ob (\<lambda>f. Some (gp_file_set_name f (Some n)))) (\<lambda>fs.
            if ty \<noteq> GP_FILE_TYPE_NORMAL
            then CR (obj_change fs ob gp_file_adjust_name_for_mime_type) (\<lambda>fs. Some (GP_OK, fs))
            else Some (GP_OK, fs))) = Some (r, fs')"
        using assms(1) lk Some q v False cf d by (simp add: s)
      then show ?thesis
        by (elim I_CR) (use fs5 in \<open>auto split: if_splits elim!: I_CR dest: fr\<close>)
    qed
  qed
qed

lemma I_get_file_impl:
  assumes "gp_filesystem_get_file_impl fs ctx folder n ty ob = Some (r, fs')" "I fs"
  shows "I fs'"
proof -
  obtain r1 fs1 where c: "CC_CA fs ctx folder = (r1, fs1)" by (cases "CC_CA fs ctx folder")
  then have fs1: "I fs1" using assms(2) I_CC_CA by blast
  show ?thesis
    using assms(1) [unfolded gp_filesystem_get_file_impl_def c prod.case]
    by (elim I_CR)
       (use fs1 in \<open>auto split: option.splits dest: I_frame [OF frame_obj_change] I_fetch_file\<close>)
qed

lemma I_get_file: "gp_filesystem_get_file fs ctx folder n ty ob = Some (r, fs') \<Longrightarrow> I fs \<Longrightarrow> I fs'"
  by (auto simp: gp_filesystem_get_file_def bind_Some_iff split: if_splits dest: I_get_file_impl)

lemma I_read_file:
  "gp_filesystem_read_file fs ctx folder n ty off k = (r, x, fs') \<Longrightarrow> I fs \<Longrightarrow> I fs'"
  using I_CC_CA [of fs ctx folder]
  by (auto simp: gp_filesystem_read_file_def split: prod.splits if_splits option.splits)

lemma I_get_info:
  assumes "gp_filesystem_get_info fs ctx folder n = Some (r, x, fs')" "I fs"
  shows "I fs'"
proof -
  have "I (snd (x, fs'))"
  proof (rule I_at_file [where Q = "\<lambda>x. I (snd x)", OF assms(1) [unfolded gp_filesystem_get_info_def] assms(2)],
      goal_cases)
    case (2 f a fs r x)
    then obtain c where c: "fs_cells fs a = Some c" by (auto simp: bind_Some_iff)
    show ?case
    proof (cases "ff_info_dirty c")
      case False
      then show ?thesis using 2 c by auto
    next
      case True
      then obtain gi r1 info d where g: "get_info_func (fs_funcs fs) = Some gi"
          "gi (fs_data fs) folder n (ff_info c) = ((r1, info), d)"
        using 2 c by (auto simp: bind_Some_iff) (metis prod.exhaust)
      have i: "I (fs\<lparr>fs_data := d\<rparr>)" using 2(2) by simp
      obtain fs1 where 1: "cell_update (fs\<lparr>fs_data := d\<rparr>) a (\<lambda>c. c\<lparr>ff_info := info\<rparr>) = Some fs1"
        using 2(1) c True g by (auto simp: bind_Some_iff)
      have "I fs1" by (rule I_cell_update [OF 1 _ i]) simp
      then show ?thesis
        using 2(1) c True g 1 I_cell_update [of fs1 a "\<lambda>c. c\<lparr>ff_info_dirty := False\<rparr>"]
        by (auto simp: bind_Some_iff split: if_splits)
    qed
  qed simp
  then show ?thesis by simp
qed

lemma I_lru_update:
  assumes "gp_filesystem_lru_update fs ctx folder n ty ob = Some (r, fs')" "I fs"
  shows "I fs'"
proof -
  obtain r1 k fs1 where 1: "obj_size fs ob = Some (r1, k, fs1)"
    using assms(1) by (auto simp: gp_filesystem_lru_update_def bind_Some_iff)
  have fs1: "I fs1" using I_frame [OF frame_obj_size [OF 1]] assms(2) .
  have "CR (Some (r1, fs1)) (\<lambda>fs. CR (lru_prune (read_pictures_to_keep fs)) (\<lambda>fs. do {
      ((r, p), fs) \<leftarrow> lookup_folder_file fs ctx folder n;
      (case p of None \<Rightarrow> Some (r, fs) | Some (_, a) \<Rightarrow> lru_relink fs a ty ob) })) = Some (r, fs')"
    using assms(1) 1 by (simp add: gp_filesystem_lru_update_def)
  then show ?thesis
  proof (elim I_CR)
    fix r fs assume "Some (r1, fs1) = Some (r, fs)"
    then show "I fs" using fs1 by simp
  next
    fix fs r fs2 assume "I fs" "lru_prune (read_pictures_to_keep fs) = Some (r, fs2)"
    then show "I fs2" using I_frame [OF frame_read_pictures] I_frame [OF frame_lru_prune] by fastforce
  next
    fix fs assume "I fs" "do { ((r, p), fs) \<leftarrow> lookup_folder_file fs ctx folder n;
      (case p of None \<Rightarrow> Some (r, fs) | Some (_, a) \<Rightarrow> lru_relink fs a ty ob) } = Some (r, fs')"
    then show "I fs'"
      by (auto simp: bind_Some_iff split: option.splits
          dest: I_lookup_folder_file I_frame [OF frame_relink])
  qed
qed

lemma I_set_file_noop:
  assumes "gp_filesystem_set_file_noop fs ctx folder n ty ob = Some (r, fs')" "I fs"
  shows "I fs'"
proof (rule I_at_file [where Q = I, OF assms(1) [unfolded gp_filesystem_set_file_noop_def] assms(2)], goal_cases)
  case (2 f a fs r fs')
  from this(1) show ?case
  proof (elim I_CR)
    fix r1 fs1
    assume "(if ty = GP_FILE_TYPE_RAW \<or> ty = GP_FILE_TYPE_NORMAL \<or> ty = GP_FILE_TYPE_AUDIO
      then gp_filesystem_lru_update fs ctx folder n ty ob else Some (GP_OK, fs)) = Some (r1, fs1)"
    then show "I fs1" using 2(2) I_lru_update by (auto split: if_splits)
  next
    fix fs1 r2 fs2
    assume "I fs1" "map_option (\<lambda>r. (r, fs1)) (gp_filesystem_lru_check fs1) = Some (r2, fs2)"
    then show "I fs2" by auto
  next
    fix fs1
    assume i: "I fs1" and k: "do {
            fs \<leftarrow> replace_view fs1 a ty ob;
            cf \<leftarrow> fs_objs fs ob;
            (t, fs) \<leftarrow>
              (if cf_mtime cf = 0
               then do {
                 (r, info, fs) \<leftarrow> gp_filesystem_get_info fs False folder n;
                 Some (case info of
                         Some i \<Rightarrow> if r = GP_OK \<and> fif_fields (fi_file i) AND GP_FILE_INFO_MTIME \<noteq> 0
                                   then fif_mtime (fi_file i) else 0
                       | None \<Rightarrow> 0, fs) }
               else Some (cf_mtime cf, fs));
            if t \<noteq> 0
            then CR (obj_change fs ob (\<lambda>f. Some (gp_file_set_mtime f t))) (\<lambda>fs. Some (GP_OK, fs))
            else Some (GP_OK, fs) } = Some (r, fs')"
    then obtain fs2 cf t fs3 where s: "replace_view fs1 a ty ob = Some fs2" "fs_objs fs2 ob = Some cf"
        "(if cf_mtime cf = 0 then do {
            (r, info, fs) \<leftarrow> gp_filesystem_get_info fs2 False folder n;
            Some (case info of
                    Some i \<Rightarrow> if r = GP_OK \<and> fif_fields (fi_file i) AND GP_FILE_INFO_MTIME \<noteq> 0
                              then fif_mtime (fi_file i) else 0
                  | None \<Rightarrow> 0, fs) }
          else Some (cf_mtime cf, fs2)) = Some (t, fs3)"
        "(if t \<noteq> 0 then CR (obj_change fs3 ob (\<lambda>f. Some (gp_file_set_mtime f t))) (\<lambda>fs. Some (GP_OK, fs))
          else Some (GP_OK, fs3)) = Some (r, fs')"
      by (auto simp: bind_Some_iff)
    have "I fs2" using I_frame [OF frame_replace_view [OF s(1)] i] .
    then have "I fs3" using s(3) by (auto simp: bind_Some_iff split: if_splits dest: I_get_info)
    then show "I fs'"
      using s(4) by (auto split: if_splits elim!: I_CR dest: I_frame [OF frame_obj_change])
  qed
qed simp

lemma I_set_info_noop:
  "gp_filesystem_set_info_noop fs ctx folder n info = Some (r, fs') \<Longrightarrow> I fs \<Longrightarrow> I fs'"
  unfolding gp_filesystem_set_info_noop_def
  by (erule I_at_file) (auto elim!: I_cell_update)

lemma I_set_info_dirty:
  "gp_filesystem_set_info_dirty fs ctx folder n = Some (r, fs') \<Longrightarrow> I fs \<Longrightarrow> I fs'"
  unfolding gp_filesystem_set_info_dirty_def
  by (erule I_at_file) (auto elim!: I_cell_update)

lemma I_set_info: "gp_filesystem_set_info fs ctx folder n info = Some (r, fs') \<Longrightarrow> I fs \<Longrightarrow> I fs'"
  unfolding gp_filesystem_set_info_def
  by (erule I_at_file)
     (auto simp: bind_Some_iff split_beta Let_def split: if_splits elim!: I_cell_update)

lemma I_get_storageinfo: "gp_filesystem_get_storageinfo fs ctx = (r, x, fs') \<Longrightarrow> I fs \<Longrightarrow> I fs'"
  by (auto simp: gp_filesystem_get_storageinfo_def split: prod.splits option.splits if_splits
      dest: I_cancelled)

end

section \<open>Reachable file systems\<close>

lemma fs_wf_frame: "frame fs fs' \<Longrightarrow> fs_wf fs \<Longrightarrow> fs_wf fs'"
  by (simp add: frame_wf)

interpretation wf: fs_invariant fs_wf
  by unfold_locales
     (erule (1) fs_wf_frame wf_delete_all_files wf_recurse_delete wf_delete_file wf_delete_folder
        wf_append_folder_one wf_internal_append wf_append_file wf_flags [rotated])+

text \<open>One call of the file system, by the front end or the camera library.\<close>

inductive fs_step :: "('p, 'd) CameraFilesystem \<Rightarrow> ('p, 'd) CameraFilesystem \<Rightarrow> bool" where
  step_reset: "gp_filesystem_reset fs = Some (r, fs') \<Longrightarrow> fs_step fs fs'"
| step_append: "gp_filesystem_append fs ctx folder filename = Some (r, fs') \<Longrightarrow> fs_step fs fs'"
| step_delete_file: "gp_filesystem_delete_file fs ctx folder n = Some (r, fs') \<Longrightarrow> fs_step fs fs'"
| step_delete_file_noop:
    "gp_filesystem_delete_file_noop fs ctx folder n = Some (r, fs') \<Longrightarrow> fs_step fs fs'"
| step_delete_all: "gp_filesystem_delete_all fs ctx folder = Some (r, fs') \<Longrightarrow> fs_step fs fs'"
| step_list_files: "gp_filesystem_list_files fs ctx folder l = Some (rl, fs') \<Longrightarrow> fs_step fs fs'"
| step_list_folders:
    "gp_filesystem_list_folders fs ctx folder l = Some (rl, fs') \<Longrightarrow> fs_step fs fs'"
| step_count: "gp_filesystem_count fs ctx folder = Some (r, fs') \<Longrightarrow> fs_step fs fs'"
| step_make_dir: "gp_filesystem_make_dir fs ctx folder n = Some (r, fs') \<Longrightarrow> fs_step fs fs'"
| step_remove_dir: "gp_filesystem_remove_dir fs ctx folder n = Some (r, fs') \<Longrightarrow> fs_step fs fs'"
| step_put_file: "gp_filesystem_put_file fs ctx folder n ty ob = Some (r, fs') \<Longrightarrow> fs_step fs fs'"
| step_name: "gp_filesystem_name fs ctx folder i = Some (r, x, fs') \<Longrightarrow> fs_step fs fs'"
| step_number: "gp_filesystem_number fs ctx folder n = Some (r, fs') \<Longrightarrow> fs_step fs fs'"
| step_get_folder: "gp_filesystem_get_folder fs ctx n = Some (r, p, fs') \<Longrightarrow> fs_step fs fs'"
| step_get_file: "gp_filesystem_get_file fs ctx folder n ty ob = Some (r, fs') \<Longrightarrow> fs_step fs fs'"
| step_read_file: "gp_filesystem_read_file fs ctx folder n ty off k = (r, x, fs') \<Longrightarrow> fs_step fs fs'"
| step_set_funcs: "gp_filesystem_set_funcs fs funcs d = (r, fs') \<Longrightarrow> fs_step fs fs'"
| step_get_info: "gp_filesystem_get_info fs ctx folder n = Some (r, i, fs') \<Longrightarrow> fs_step fs fs'"
| step_set_file_noop:
    "gp_filesystem_set_file_noop fs ctx folder n ty ob = Some (r, fs') \<Longrightarrow> fs_step fs fs'"
| step_set_info_noop:
    "gp_filesystem_set_info_noop fs ctx folder n info = Some (r, fs') \<Longrightarrow> fs_step fs fs'"
| step_set_info_dirty:
    "gp_filesystem_set_info_dirty fs ctx folder n = Some (r, fs') \<Longrightarrow> fs_step fs fs'"
| step_set_info: "gp_filesystem_set_info fs ctx folder n info = Some (r, fs') \<Longrightarrow> fs_step fs fs'"
| step_get_storageinfo: "gp_filesystem_get_storageinfo fs ctx = (r, x, fs') \<Longrightarrow> fs_step fs fs'"

lemma fs_step_wf: "fs_step fs fs' \<Longrightarrow> fs_wf fs \<Longrightarrow> fs_wf fs'"
  by (induction rule: fs_step.induct)
     (auto dest: wf.I_reset wf.I_append wf.I_gp_delete_file wf.I_delete_file_noop wf.I_delete_all
        wf.I_list_files wf.I_lookup(3) wf.I_count wf.I_make_dir wf.I_remove_dir wf.I_put_file
        wf.I_name wf.I_number wf.I_get_folder wf.I_get_file wf.I_read_file wf.I_get_info
        wf.I_set_file_noop wf.I_set_info_noop wf.I_set_info_dirty wf.I_set_info wf.I_get_storageinfo
        simp: gp_filesystem_set_funcs_def fs_wf_def)

lemma new_wf: "gp_filesystem_new fs ok1 ok2 = (GP_OK, fs') \<Longrightarrow> fs_wf fs'"
  by (auto simp: gp_filesystem_new_def fs_wf_def tree_wf_def split: if_splits)

lemma tree_wf_disjoint:
  assumes "tree_wf C nm n" "p \<in> set C" "q \<in> set C" "fst p \<noteq> fst q"
  shows "set (snd p) \<inter> set (snd q) = {}"
proof -
  have "distinct (concat (map snd C))" using assms(1) by (simp add: tree_wf_def)
  then show ?thesis using assms(2-4) by (induction C) auto
qed

text \<open>
  C16. Whatever is called on a new file system, whatever the driver answers and with any driver:
  as long as no call uses freed memory, every listed entry is live, is in one folder only, and
  no two entries of a folder have the same name.
\<close>

theorem gp_filesystem_entries_unique:
  assumes "gp_filesystem_new fs0 True True = (GP_OK, fs1)" "fs_step\<^sup>*\<^sup>* fs1 fs"
    "f \<in> set (all_folders (fs_rootfolder fs))" "g \<in> set (all_folders (fs_rootfolder fs))"
  shows "distinct (map (entry_name (fs_cells fs)) (fo_files f)) \<and>
    None \<notin> entry_name (fs_cells fs) ` set (fo_files f) \<and>
    (f = g \<or> fo_id f \<noteq> fo_id g \<and> set (fo_files f) \<inter> set (fo_files g) = {})"
proof -
  have "fs_wf fs"
    using assms(2) new_wf [OF assms(1)] by (induction rule: rtranclp_induct) (auto dest: fs_step_wf)
  then have w: "tree_wf (map (\<lambda>h. (fo_id h, fo_files h)) (all_folders (fs_rootfolder fs)))
      (entry_name (fs_cells fs)) (fs_next fs)"
    by (simp add: fs_wf_def contents_def)
  have "set (fo_files f) \<inter> set (fo_files g) = {}" if "fo_id f \<noteq> fo_id g"
    using tree_wf_disjoint [OF w, of "(fo_id f, fo_files f)" "(fo_id g, fo_files g)"] assms(3,4) that
    by force
  moreover have "f = g" if "fo_id f = fo_id g"
    using \<open>fs_wf fs\<close> [THEN fs_wfD] assms(3,4) that by (auto simp: distinct_map inj_on_def)
  moreover have "distinct (map (entry_name (fs_cells fs)) (fo_files f))"
    "None \<notin> entry_name (fs_cells fs) ` set (fo_files f)"
    using w assms(3) unfolding tree_wf_def by force+
  ultimately show ?thesis by blast
qed

theorem gp_filesystem_entries_unique_witness:
  "\<exists>fs. distinct (map (entry_name (fs_cells fs)) (fo_files (fs_rootfolder fs))) \<and>
     None \<notin> entry_name (fs_cells fs) ` set (fo_files (fs_rootfolder fs)) \<and>
     fs_step (snd (gp_filesystem_new demo_fs True True)) fs"
proof -
  let ?fs1 = "snd (gp_filesystem_new demo_fs True True)"
  obtain r fs where r: "gp_filesystem_append ?fs1 False ''/'' (Some ''a'') = Some (r, fs)"
    by (simp add: gp_filesystem_append_def gp_filesystem_list_files_def demo_fs_def gp_filesystem_new_def
        CC_CA_def fs_cancelled_def no_funcs_def absolute_def lookup_folder_def
        lookup_at.simps [of _ _ _ _ 0] next_component_def root_id_def folder_at_def internal_append_def
        folder_update_def link_entry_def)
  then have s: "fs_step ?fs1 fs" by (rule step_append)
  with gp_filesystem_entries_unique [of demo_fs ?fs1 fs "fs_rootfolder fs" "fs_rootfolder fs"]
  show ?thesis by (auto simp: gp_filesystem_new_def)
qed

end
