(* ===== verification/FsWalk.thy ===== *)
theory FsWalk
  imports FsInv
begin

text \<open>
  What the listings of \<open>libgphoto2/gphoto2-filesys.c\<close> promise: on listed folders a lookup is a
  walk down the tree, a listing of files settles the folder, and counting, naming and numbering
  agree with it; and how the lookups go wrong.
\<close>

section \<open>Paths\<close>

text \<open>The components of a path: what is between the slashes, empty parts left out.\<close>

function components :: "string \<Rightarrow> string list" where
  "components s =
     (let t = dropWhile (\<lambda>c. c = CHR ''/'') s
      in if t = [] then []
         else takeWhile (\<lambda>c. c \<noteq> CHR ''/'') t # components (dropWhile (\<lambda>c. c \<noteq> CHR ''/'') t))"
  by pat_completeness auto
termination
proof (relation "measure length", goal_cases)
  case (2 s t)
  then have "t \<noteq> []" by blast
  then obtain c u where t: "t = c # u" by (cases t) auto
  then have c: "c \<noteq> CHR ''/''" using hd_dropWhile [of "\<lambda>c. c = CHR ''/''" s] 2 by auto
  have "length (dropWhile (\<lambda>c. c \<noteq> CHR ''/'') t) \<le> length u"
    using t c by (simp add: length_dropWhile_le)
  moreover have "length t \<le> length s" using 2 by (simp add: length_dropWhile_le)
  ultimately show ?case using t by simp
qed simp

declare components.simps [simp del]

lemma components_Nil [simp]: "components [] = []"
  by (simp add: components.simps)

text \<open>Following components down the tree, by the first child of each name.\<close>

fun resolve :: "CameraFilesystemFolder \<Rightarrow> string list \<Rightarrow> CameraFilesystemFolder option" where
  "resolve f [] = Some f"
| "resolve f (c # cs) =
     (case find (\<lambda>g. fo_name g = c) (fo_folders f) of None \<Rightarrow> None | Some g \<Rightarrow> resolve g cs)"

text \<open>Every folder on the way whose children are looked at has been listed.\<close>

fun listed :: "CameraFilesystemFolder \<Rightarrow> string list \<Rightarrow> bool" where
  "listed f [] \<longleftrightarrow> True"
| "listed f (c # cs) \<longleftrightarrow> \<not> fo_folders_dirty f \<and>
     (case find (\<lambda>g. fo_name g = c) (fo_folders f) of None \<Rightarrow> True | Some g \<Rightarrow> listed g cs)"

lemma resolve_in_tree: "resolve f cs = Some g \<Longrightarrow> g \<in> set (all_folders f)"
proof (induction f cs rule: resolve.induct)
  case (2 f c cs)
  then obtain h where "find (\<lambda>g. fo_name g = c) (fo_folders f) = Some h" "resolve h cs = Some g"
    by (auto split: option.splits)
  moreover from this have "h \<in> set (fo_folders f)" by (auto simp: find_Some_iff)
  ultimately show ?case using 2 all_folders_child [OF all_folders_self] all_folders_trans by blast
qed simp

lemma strchr_takeWhile:
  "strchr s x = Some n \<Longrightarrow> take n s = takeWhile (\<lambda>c. c \<noteq> x) s \<and> drop n s = dropWhile (\<lambda>c. c \<noteq> x) s"
  by (induction s arbitrary: n) (auto split: if_splits)

text \<open>The scanner of the lookup reads off these components.\<close>

lemma next_component_components:
  "components (drop cur name) =
     (case next_component name cur of
        None \<Rightarrow> []
      | Some (i, c, slash) \<Rightarrow> c # components (if slash then drop (i + length c) name else []))"
proof -
  define i where "i = cur + length (takeWhile (\<lambda>c. c = CHR ''/'') (drop cur name))"
  have e: "dropWhile (\<lambda>c. c = CHR ''/'') (drop cur name) = drop i name"
    by (simp add: dropWhile_eq_drop add.commute i_def)
  have n: "next_component name cur = (if length name \<le> i then None
      else case strchr (drop i name) (CHR ''/'') of None \<Rightarrow> Some (i, drop i name, False)
           | Some n \<Rightarrow> Some (i, take n (drop i name), True))"
    by (simp only: next_component_def Let_def i_def)
  have c: "components (drop cur name) = (if drop i name = [] then []
      else takeWhile (\<lambda>c. c \<noteq> CHR ''/'') (drop i name) #
        components (dropWhile (\<lambda>c. c \<noteq> CHR ''/'') (drop i name)))"
    by (subst components.simps) (simp add: e Let_def)
  show ?thesis
  proof (cases "length name \<le> i")
    case True
    then show ?thesis by (simp add: c n)
  next
    case False
    show ?thesis
    proof (cases "strchr (drop i name) (CHR ''/'')")
      case None
      then have "CHR ''/'' \<notin> set (drop i name)" by simp
      then have t: "takeWhile (\<lambda>c. c \<noteq> CHR ''/'') (drop i name) = drop i name"
        and d: "dropWhile (\<lambda>c. c \<noteq> CHR ''/'') (drop i name) = []"
        by (auto simp: takeWhile_eq_all_conv)
      show ?thesis using False unfolding c n d t by (simp add: None)
    next
      case (Some k)
      have "drop (i + length (take k (drop i name))) name = drop k (drop i name)"
        using False by (cases "k \<le> length name - i") (auto simp: min_def add.commute)
      then show ?thesis using False Some strchr_takeWhile [OF Some]
        by (simp add: c n del: drop_drop)
    qed
  qed
qed

lemma lookup_at_listed:
  assumes "fs_wf fs" "f \<in> set (all_folders (fs_rootfolder fs))" "listed f (components (drop cur name))"
  shows "lookup_at fs ctx (fo_id f) name cur =
    Some (map_option fo_id (resolve f (components (drop cur name))), fs)"
  using assms
proof (induction "length name - cur" arbitrary: cur f rule: less_induct)
  case less
  have f: "folder_at fs (fo_id f) = Some f"
    unfolding folder_at_def by (rule find_folder_distinct [OF fs_wfD [OF less.prems(1)] less.prems(2)])
  show ?case
  proof (cases "next_component name cur")
    case None
    then have "components (drop cur name) = []" by (simp add: next_component_components)
    then show ?thesis using None by (simp add: lookup_at.simps [of fs])
  next
    case (Some q0)
    then obtain i c slash where q: "next_component name cur = Some (i, c, slash)" by (cases q0) auto
    have cs: "components (drop cur name) = c # components (if slash then drop (i + length c) name else [])"
      by (simp add: next_component_components q)
    have clean: "\<not> fo_folders_dirty f" using less.prems(3) by (simp add: cs)
    show ?thesis
    proof (cases "find (\<lambda>g. fo_name g = c) (fo_folders f)")
      case None
      then show ?thesis using q f clean by (simp add: lookup_at.simps [of fs] cs)
    next
      case (Some g)
      then have g: "g \<in> set (all_folders (fs_rootfolder fs))"
        using less.prems(2) all_folders_child by (fastforce simp: find_Some_iff)
      show ?thesis
      proof (cases slash)
        case False
        then show ?thesis using q f clean Some by (simp add: lookup_at.simps [of fs] cs)
      next
        case True
        have "length name - (i + length c) < length name - cur"
          using next_component_bounds [OF q] True by auto
        moreover have "listed g (components (drop (i + length c) name))"
          using less.prems(3) True Some by (simp add: cs)
        ultimately show ?thesis
          using less.hyps [of "i + length c" g] less.prems(1) g q f clean Some True
          by (simp add: lookup_at.simps [of fs ctx "fo_id f"] cs)
      qed
    qed
  qed
qed

text \<open>
  C18. On a path whose folders are listed, the lookup is the walk down the tree: no driver call, no
  change, and the same result for any spelling of the path.
\<close>

theorem lookup_folder_listed:
  assumes "fs_wf fs" "listed (fs_rootfolder fs) (components path)"
  shows "lookup_folder fs ctx (root_id fs) path =
    Some (map_option fo_id (resolve (fs_rootfolder fs) (components path)), fs)"
  using lookup_at_listed [of fs "fs_rootfolder fs" 0 path ctx] assms
  by (simp add: lookup_folder_def root_id_def)

section \<open>Changes to the files of one folder\<close>

text \<open>Changes that leave the folders alone: a file setter.\<close>

definition file_setter :: "(CameraFilesystemFolder \<Rightarrow> CameraFilesystemFolder) \<Rightarrow> bool" where
  "file_setter g \<longleftrightarrow> (\<forall>f. fo_id (g f) = fo_id f \<and> fo_name (g f) = fo_name f \<and>
     fo_folders (g f) = fo_folders f \<and> fo_folders_dirty (g f) = fo_folders_dirty f)"

lemma file_setter_simps [simp]: "file_setter (set_files xs)" "file_setter (set_files_dirty b)"
  by (simp_all add: file_setter_def)

lemma find_update_folder:
  assumes "file_setter g"
  shows "find_folder i (update_folder i g r) = map_option g (find_folder i r)"
    "find_folders i (map (update_folder i g) gs) = map_option g (find_folders i gs)"
  using assms
proof (induction i r and i gs rule: find_folder_find_folders.induct)
  case (1 i j n d e fs xs)
  have "fo_id (g (Folder i n d e fs xs)) = i" using 1(2) by (simp add: file_setter_def)
  with 1 show ?case by (cases "g (Folder i n d e fs xs)") auto
qed (auto split: option.splits)

lemma update_folder_fields:
  assumes "file_setter g"
  shows "fo_id (update_folder i g f) = fo_id f" "fo_name (update_folder i g f) = fo_name f"
    "fo_folders_dirty (update_folder i g f) = fo_folders_dirty f"
  using assms by (cases f; simp add: file_setter_def)+

lemma fo_folders_update:
  assumes "file_setter g" "distinct (folder_ids f)"
  shows "fo_folders (update_folder i g f) = map (update_folder i g) (fo_folders f)"
proof (cases f)
  case (Folder j n d e gs xs)
  show ?thesis
  proof (cases "i = j")
    case True
    then have "map (update_folder i g) gs = gs"
      using assms(2) Folder by (intro map_idI update_folder_notin) (force simp: image_iff)
    then show ?thesis using True Folder assms(1) by (simp add: file_setter_def)
  qed (simp add: Folder)
qed

lemma distinct_child: "distinct (folder_ids f) \<Longrightarrow> c \<in> set (fo_folders f) \<Longrightarrow> distinct (folder_ids c)"
  by (auto simp: all_folders_unfold [of f] map_concat distinct_concat_iff comp_def)

lemma find_map: "find P (map h xs) = map_option h (find (\<lambda>x. P (h x)) xs)"
  by (induction xs) auto

lemma resolve_update:
  assumes "file_setter g" "distinct (folder_ids f)"
  shows "resolve (update_folder i g f) cs = map_option (update_folder i g) (resolve f cs)"
    "listed (update_folder i g f) cs \<longleftrightarrow> listed f cs"
proof -
  have "resolve (update_folder i g f) cs = map_option (update_folder i g) (resolve f cs) \<and>
      (listed (update_folder i g f) cs \<longleftrightarrow> listed f cs)"
    using assms(2)
  proof (induction f cs rule: resolve.induct)
    case (2 f c cs)
    have "find (\<lambda>h. fo_name h = c) (fo_folders (update_folder i g f)) =
        map_option (update_folder i g) (find (\<lambda>h. fo_name h = c) (fo_folders f))"
      using assms(1) 2(2) by (simp add: fo_folders_update find_map update_folder_fields)
    moreover have "distinct (folder_ids h)" if "find (\<lambda>h. fo_name h = c) (fo_folders f) = Some h" for h
      using that 2(2) distinct_child by (auto simp: find_Some_iff)
    ultimately show ?case
      using 2(1) assms(1) by (auto simp: update_folder_fields split: option.splits)
  qed simp
  then show "resolve (update_folder i g f) cs = map_option (update_folder i g) (resolve f cs)"
    "listed (update_folder i g f) cs \<longleftrightarrow> listed f cs" by auto
qed

text \<open>A path that leads to a folder through listed folders.\<close>

definition leads_to :: "('p, 'd) CameraFilesystem \<Rightarrow> string \<Rightarrow> nat \<Rightarrow> bool" where
  "leads_to fs path i \<longleftrightarrow> fs_wf fs \<and> absolute path \<and> listed (fs_rootfolder fs) (components path) \<and>
     map_option fo_id (resolve (fs_rootfolder fs) (components path)) = Some i"

lemma leads_to_lookup: "leads_to fs path i \<Longrightarrow> lookup_folder fs ctx (root_id fs) path = Some (Some i, fs)"
  using lookup_folder_listed [of fs path ctx] by (auto simp: leads_to_def)

lemma leads_to_folder: "leads_to fs path i \<Longrightarrow> \<exists>f. folder_at fs i = Some f"
  using resolve_in_tree find_folder_distinct [OF fs_wfD]
  by (fastforce simp: leads_to_def folder_at_def)

lemma leads_to_CC_CA: "leads_to fs path i \<Longrightarrow> CC_CA fs False path = (GP_OK, fs)"
  by (auto simp: leads_to_def CC_CA_def fs_cancelled_def split: option.splits)

lemma leads_to_update:
  assumes "leads_to fs path i" "file_setter g" "folder_update fs j g = Some fs'" "fs_wf fs'"
  shows "leads_to fs' path i"
  using assms fs_wfD [of fs]
  by (auto simp: leads_to_def folder_update_def resolve_update update_folder_fields split: option.splits)

lemma leads_to_same_root:
  "leads_to fs path i \<Longrightarrow> fs_wf fs' \<Longrightarrow> fs_rootfolder fs' = fs_rootfolder fs \<Longrightarrow> leads_to fs' path i"
  by (simp add: leads_to_def)

lemma folder_update_same:
  "folder_update fs i g = Some fs' \<Longrightarrow> file_setter g \<Longrightarrow> folder_at fs i = Some f \<Longrightarrow>
     folder_at fs' i = Some (g f) \<and> fs_cells fs' = fs_cells fs \<and> fs_next fs' = fs_next fs \<and>
     fs_funcs fs' = fs_funcs fs \<and> fs_data fs' = fs_data fs"
  by (auto simp: folder_update_def folder_at_def find_update_folder split: option.splits)

lemma leads_to_set_files_dirty:
  assumes "leads_to fs path i" "folder_update fs i (set_files_dirty b) = Some fs'"
  shows "leads_to fs' path i"
  using leads_to_update [OF assms(1) _ assms(2)] wf_flags(1) [OF _ assms(2)] assms(1)
  by (simp add: leads_to_def)

lemma leads_to_delete_all_files:
  assumes "leads_to fs path i" "delete_all_files fs i = Some fs'"
  shows "leads_to fs' path i" "\<exists>f f'. folder_at fs i = Some f \<and> folder_at fs' i = Some f' \<and>
    fo_files f' = [] \<and> fo_files_dirty f' = fo_files_dirty f" "fs_funcs fs' = fs_funcs fs"
proof -
  obtain f fs1 where s: "folder_at fs i = Some f" "delete_entries fs (fo_files f) = Some fs1"
      "folder_update fs1 i (set_files []) = Some fs'"
    using assms(2) by (auto simp: delete_all_files_def bind_Some_iff)
  have d: "freed fs fs1 (set (fo_files f))" by (rule delete_entries_freed [OF s(2)])
  have "fs_wf fs'" using wf_delete_all_files assms by (auto simp: leads_to_def)
  moreover have "fs_rootfolder fs' = update_folder i (set_files []) (fs_rootfolder fs)"
    using s(3) d by (auto simp: folder_update_def freed_def split: option.splits)
  ultimately show "leads_to fs' path i"
    using assms(1) fs_wfD [of fs] by (auto simp: leads_to_def resolve_update update_folder_fields)
  have f1: "folder_at fs1 i = Some f" using s(1) d by (simp add: folder_at_def freed_def)
  show "\<exists>f f'. folder_at fs i = Some f \<and> folder_at fs' i = Some f' \<and>
      fo_files f' = [] \<and> fo_files_dirty f' = fo_files_dirty f"
    using s(1) folder_update_same [OF s(3) _ f1] by simp
  show "fs_funcs fs' = fs_funcs fs"
    using folder_update_same [OF s(3) _ f1] d by (simp add: freed_def)
qed

text \<open>Appending a name: the folder's list grows by it, or it was there.\<close>

lemma link_entry_at:
  assumes "folder_at fs i = Some f"
  shows "\<exists>fs'. link_entry fs i c = Some fs' \<and> folder_at fs' i = Some (set_files (fo_files f @ [fs_next fs]) f) \<and>
    fs_cells fs' = (fs_cells fs)(fs_next fs \<mapsto> c) \<and> fs_funcs fs' = fs_funcs fs \<and>
    fs_data fs' = fs_data fs \<and> fs_objs fs' = fs_objs fs \<and>
    fs_rootfolder fs' = update_folder i (set_files (fo_files f @ [fs_next fs])) (fs_rootfolder fs)"
  using assms by (auto simp: link_entry_def folder_update_def folder_at_def find_update_folder)

lemma wf_folder:
  assumes "fs_wf fs" "folder_at fs i = Some f"
  shows "distinct (fo_files f)" "\<forall>a \<in> set (fo_files f). fs_cells fs a \<noteq> None \<and> a < fs_next fs"
    "distinct (map (entry_name (fs_cells fs)) (fo_files f))"
proof -
  have m: "(fo_id f, fo_files f) \<in> set (contents (fs_rootfolder fs))"
    using folder_atD [OF assms(2)] by (auto simp: contents_def)
  then show "distinct (map (entry_name (fs_cells fs)) (fo_files f))"
    using assms(1) unfolding fs_wf_def tree_wf_def by force
  then show "distinct (fo_files f)" by (simp add: distinct_map)
  have "\<forall>a \<in> set (fo_files f). a < fs_next fs \<and> entry_name (fs_cells fs) a \<noteq> None"
    using m assms(1) unfolding fs_wf_def tree_wf_def by force
  then show "\<forall>a \<in> set (fo_files f). fs_cells fs a \<noteq> None \<and> a < fs_next fs"
    by (auto simp: entry_name_def)
qed

lemma names_of_wf:
  assumes "\<forall>a \<in> set xs. cells a \<noteq> None"
  shows "\<exists>ns. names_of cells xs = Some ns \<and> map Some ns = map (entry_name cells) xs"
  using assms by (induction xs) (auto simp: entry_name_def)

lemma find_entry_names:
  assumes "names_of cells xs = Some ns"
  shows "find_entry cells n xs =
    Some (if n \<in> set ns then Some (xs ! length (takeWhile (\<lambda>m. m \<noteq> n) ns)) else None)"
  using assms by (induction xs arbitrary: ns) (auto simp: bind_Some_iff)

lemma number_of_names:
  assumes "names_of cells xs = Some ns"
  shows "number_of cells n xs k =
    Some (if n \<in> set ns then Some (k + length (takeWhile (\<lambda>m. m \<noteq> n) ns)) else None)"
  using assms by (induction xs arbitrary: ns k) (auto simp: bind_Some_iff)

section \<open>Listing the files of a folder\<close>

lemma update_folder_fixed:
  "\<forall>h \<in> set (all_folders r). fo_id h = i \<longrightarrow> g h = h \<Longrightarrow> update_folder i g r = r"
  by (induction i g r rule: update_folder.induct) (auto intro!: map_idI)

lemma folder_update_fixed:
  assumes "folder_at fs i = Some f" "g f = f" "fs_wf fs"
  shows "folder_update fs i g = Some fs"
proof -
  have "h = f" if "h \<in> set (all_folders (fs_rootfolder fs))" "fo_id h = i" for h
    using find_folder_distinct [OF fs_wfD [OF assms(3)] that(1)] that(2) assms(1) by (simp add: folder_at_def)
  then have "update_folder i g (fs_rootfolder fs) = fs_rootfolder fs"
    using assms(2) by (intro update_folder_fixed) blast
  then show ?thesis using assms(1) by (simp add: folder_update_def)
qed

text \<open>The files of a folder as a listing that asks nobody sees them.\<close>

definition settled :: "('p, 'd) CameraFilesystem \<Rightarrow> string \<Rightarrow> nat \<Rightarrow> string list \<Rightarrow> bool" where
  "settled fs path i ns \<longleftrightarrow> leads_to fs path i \<and>
     (\<exists>f. folder_at fs i = Some f \<and> \<not> fo_files_dirty f \<and> names_of (fs_cells fs) (fo_files f) = Some ns)"

lemma set_files_dirty_same: "fo_files_dirty f = b \<Longrightarrow> set_files_dirty b f = f"
  by (cases f) simp

lemma list_files_settled:
  assumes "settled fs path i ns"
  shows "gp_filesystem_list_files fs False path l = Some ((GP_OK, ns), fs)"
proof -
  obtain f where f: "leads_to fs path i" "folder_at fs i = Some f" "\<not> fo_files_dirty f"
      "names_of (fs_cells fs) (fo_files f) = Some ns"
    using assms by (auto simp: settled_def)
  have "folder_update fs i (set_files_dirty False) = Some fs"
    using folder_update_fixed [OF f(2), of "set_files_dirty False"] f(1,3)
    by (simp add: leads_to_def set_files_dirty_same)
  then show ?thesis
    using f leads_to_CC_CA [OF f(1)] leads_to_lookup [OF f(1)] by (simp add: gp_filesystem_list_files_def)
qed

lemma internal_append_leads_to:
  assumes "internal_append fs i n = Some (r, fs')" "leads_to fs path i" "folder_at fs i = Some f"
  shows "leads_to fs' path i" "\<exists>f'. folder_at fs' i = Some f' \<and> fo_files_dirty f' = fo_files_dirty f"
    "fs_funcs fs' = fs_funcs fs"
proof -
  obtain old where old: "find_entry (fs_cells fs) n (fo_files f) = Some old"
    using assms(1,3) by (auto simp: internal_append_def bind_Some_iff)
  have wf: "fs_wf fs'" using wf_internal_append [OF assms(1)] assms(2) by (simp add: leads_to_def)
  have "leads_to fs' path i \<and> (\<exists>f'. folder_at fs' i = Some f' \<and> fo_files_dirty f' = fo_files_dirty f) \<and>
      fs_funcs fs' = fs_funcs fs"
  proof (cases old)
    case None
    then have l: "link_entry fs i (new_entry n) = Some fs'"
      using assms(1,3) old by (auto simp: internal_append_def)
    obtain fs1 where "link_entry fs i (new_entry n) = Some fs1"
        "folder_at fs1 i = Some (set_files (fo_files f @ [fs_next fs]) f)" "fs_funcs fs1 = fs_funcs fs"
        "fs_rootfolder fs1 = update_folder i (set_files (fo_files f @ [fs_next fs])) (fs_rootfolder fs)"
      using link_entry_at [OF assms(3)] by blast
    then show ?thesis using l wf assms(2) fs_wfD [of fs]
      by (auto simp: leads_to_def resolve_update update_folder_fields)
  next
    case (Some a)
    then show ?thesis using assms old by (auto simp: internal_append_def)
  qed
  then show "leads_to fs' path i" "\<exists>f'. folder_at fs' i = Some f' \<and> fo_files_dirty f' = fo_files_dirty f"
    "fs_funcs fs' = fs_funcs fs" by auto
qed

lemma append_names_leads_to:
  assumes "append_names fs i ns = Some (r, fs')" "leads_to fs path i" "folder_at fs i = Some f"
  shows "leads_to fs' path i \<and> (\<exists>f'. folder_at fs' i = Some f' \<and> fo_files_dirty f' = fo_files_dirty f)"
  using assms
proof (induction ns arbitrary: fs f)
  case (Cons n ns)
  obtain r1 fs1 where 1: "internal_append fs i n = Some (r1, fs1)"
    using Cons.prems(1) by (auto simp: CR_def split: option.splits)
  obtain f1 where f1: "leads_to fs1 path i" "folder_at fs1 i = Some f1" "fo_files_dirty f1 = fo_files_dirty f"
    using internal_append_leads_to [OF 1 Cons.prems(2,3)] by blast
  show ?case
  proof (cases "r1 < 0")
    case True
    then show ?thesis using Cons.prems(1) 1 f1 by (auto simp: CR_def)
  next
    case False
    then show ?thesis using Cons.IH [OF _ f1(1,2)] Cons.prems(1) 1 f1(3) by (simp add: CR_def)
  qed
qed auto

lemma settled_names:
  assumes "leads_to fs path i" "folder_at fs i = Some f" "\<not> fo_files_dirty f"
  shows "\<exists>ns. settled fs path i ns"
  using assms names_of_wf [of "fo_files f" "fs_cells fs"] wf_folder(2) [of fs i f]
  by (auto simp: settled_def leads_to_def)

text \<open>
  After a listing of a folder, successful or not, the folder is settled: the next listing
  asks nobody, changes nothing and succeeds.
\<close>

lemma list_files_settles:
  assumes "leads_to fs path i" "gp_filesystem_list_files fs False path l = Some ((r, ns), fs')"
  shows "\<exists>ns'. settled fs' path i ns' \<and> (0 \<le> r \<longrightarrow> r = GP_OK \<and> ns' = ns)"
proof -
  note s = gp_filesystem_list_files_def leads_to_CC_CA [OF assms(1)] leads_to_lookup [OF assms(1)]
  obtain f where f: "folder_at fs i = Some f" using leads_to_folder [OF assms(1)] by blast
  have fin: "settled fs' path i ns \<and> r = GP_OK" if "leads_to fs1 path i" "folder_at fs1 i = Some f1"
      "do { fs \<leftarrow> folder_update fs1 i (set_files_dirty False);
            fo \<leftarrow> folder_at fs i;
            ns \<leftarrow> names_of (fs_cells fs) (fo_files fo);
            Some ((GP_OK, ns), fs) } = Some ((r, ns), fs')" for fs1 f1
  proof -
    note h = that
    obtain fs2 fo where 2: "folder_update fs1 i (set_files_dirty False) = Some fs2" "folder_at fs2 i = Some fo"
        "names_of (fs_cells fs2) (fo_files fo) = Some ns" "r = GP_OK" "fs' = fs2"
      using h(3) by (auto simp: bind_Some_iff)
    then show ?thesis
      using leads_to_set_files_dirty [OF h(1) 2(1)] folder_update_same [OF 2(1) _ h(2)]
      by (auto simp: settled_def)
  qed
  show ?thesis
  proof (cases "if fo_files_dirty f then file_list_func (fs_funcs fs) else None")
    case None
    then show ?thesis using assms(2) f fin [OF assms(1) f] by (auto simp: s)
  next
    case (Some lf)
    obtain fs1 fs2 where d: "delete_all_files fs i = Some fs1"
        "folder_update fs1 i (set_files_dirty False) = Some fs2"
      using assms(2) f Some by (auto simp: s bind_Some_iff)
    obtain f1 where f1: "leads_to fs1 path i" "folder_at fs1 i = Some f1"
      using leads_to_delete_all_files [OF assms(1) d(1)] by blast
    have f2: "leads_to fs2 path i" "folder_at fs2 i = Some (set_files_dirty False f1)"
      using leads_to_set_files_dirty [OF f1(1) d(2)] folder_update_same [OF d(2) _ f1(2)] by auto
    obtain r2 names dd where lf: "lf (fs_data fs2) path = ((r2, names), dd)"
      by (cases "lf (fs_data fs2) path") auto
    let ?fs = "fs2\<lparr>fs_data := dd\<rparr>"
    have f3: "leads_to ?fs path i" "folder_at ?fs i = Some (set_files_dirty False f1)"
      using f2 by (auto simp: leads_to_def fs_wf_def folder_at_def)
    show ?thesis
    proof (cases "r2 < 0")
      case True
      then have "fs' = ?fs" "r < 0" using assms(2) f Some d lf by (auto simp: s)
      then show ?thesis using settled_names [OF f3] by auto
    next
      case False
      obtain r3 fs4 where a: "append_names ?fs i names = Some (r3, fs4)"
        using assms(2) f Some d lf False by (auto simp: s bind_Some_iff)
      obtain f4 where f4: "leads_to fs4 path i" "folder_at fs4 i = Some f4" "\<not> fo_files_dirty f4"
        using append_names_leads_to [OF a f3] by auto
      show ?thesis
      proof (cases "r3 < 0")
        case True
        then have "fs' = fs4" "r < 0" using assms(2) f Some d lf False a by (auto simp: s)
        then show ?thesis using settled_names [OF f4] by auto
      next
        case r3: False
        then show ?thesis using assms(2) f Some d lf False a fin [OF f4(1,2)] by (auto simp: s)
      qed
    qed
  qed
qed

text \<open>
  C26. After a successful listing the next one gives the same names, asks nobody and changes nothing.
\<close>

theorem gp_filesystem_list_files_cached:
  assumes "leads_to fs path i" "gp_filesystem_list_files fs False path l = Some ((GP_OK, ns), fs')"
  shows "gp_filesystem_list_files fs' False path l' = Some ((GP_OK, ns), fs')"
  using list_files_settles [OF assms] list_files_settled by fastforce

lemma takeWhile_nth:
  "distinct ns \<Longrightarrow> k < length ns \<Longrightarrow> length (takeWhile (\<lambda>m. m \<noteq> ns ! k) ns) = k"
  by (induction ns arbitrary: k) (auto simp: nth_Cons split: nat.splits)

text \<open>
  Counting, naming and numbering agree with the listing: the file with number \<open>k\<close> is the listed
  one, and its number is \<open>k\<close>.
\<close>

theorem gp_filesystem_numbering:
  assumes "leads_to fs path i" "gp_filesystem_list_files fs False path l = Some ((GP_OK, ns), fs')"
    "k < length ns"
  shows "gp_filesystem_count fs' False path = Some (int (length ns), fs') \<and>
    gp_filesystem_name fs' False path (int k) = Some (GP_OK, Some (ns ! k), fs') \<and>
    gp_filesystem_number fs' False path (ns ! k) = Some (int k, fs')"
proof -
  obtain f where f: "leads_to fs' path i" "folder_at fs' i = Some f"
      "names_of (fs_cells fs') (fo_files f) = Some ns"
    using list_files_settles [OF assms(1,2)] by (auto simp: settled_def)
  have wf: "fs_wf fs'" using f(1) by (simp add: leads_to_def)
  have m: "map Some ns = map (entry_name (fs_cells fs')) (fo_files f)"
    using names_of_wf [of "fo_files f" "fs_cells fs'"] wf_folder(2) [OF wf f(2)] f(3) by auto
  then have len: "length ns = length (fo_files f)" by (metis length_map)
  have "distinct (map Some ns)" unfolding m by (rule wf_folder(3) [OF wf f(2)])
  then have d: "distinct ns" by (simp add: distinct_map)
  have "entry_name (fs_cells fs') (fo_files f ! k) = Some (ns ! k)"
    using arg_cong [OF m, of "\<lambda>x. x ! k"] assms(3) len by simp
  then obtain c where c: "fs_cells fs' (fo_files f ! k) = Some c" "ff_name c = ns ! k"
    by (auto simp: entry_name_def)
  note s = leads_to_CC_CA [OF f(1)] leads_to_lookup [OF f(1)] f(2)
  have "gp_filesystem_number fs' False path (ns ! k) = Some (int k, fs')"
    using assms(3) d
    by (subst gp_filesystem_number.simps) (simp add: s number_of_names [OF f(3)] takeWhile_nth)
  then show ?thesis
    using c len assms(3) by (simp add: gp_filesystem_count_def gp_filesystem_name_def at_folder_def s)
qed

text \<open>
  C28. When the driver fails to list a folder, the error is reported once; from then on the folder
  lists as empty, with success, until the file system is reset.
\<close>

theorem gp_filesystem_list_files_failure:
  assumes "leads_to fs path i" "folder_at fs i = Some f" "fo_files_dirty f" "fo_files f = []"
    "file_list_func (fs_funcs fs) = Some lf" "lf (fs_data fs) path = ((r, names), d)" "r < 0"
  shows "\<exists>fs'. gp_filesystem_list_files fs False path l = Some ((r, names), fs') \<and>
    gp_filesystem_list_files fs' False path l' = Some ((GP_OK, []), fs')"
proof -
  note s = gp_filesystem_list_files_def leads_to_CC_CA [OF assms(1)] leads_to_lookup [OF assms(1)]
  have "fs_wf fs" using assms(1) by (simp add: leads_to_def)
  then have da: "delete_all_files fs i = Some fs"
    using assms(2,4) folder_update_fixed [OF assms(2), of "set_files []"]
    by (cases f) (simp add: delete_all_files_def)
  obtain fs1 where u: "folder_update fs i (set_files_dirty False) = Some fs1"
    using assms(2) by (simp add: folder_update_def)
  have f1: "folder_at fs1 i = Some (set_files_dirty False f)" "fs_data fs1 = fs_data fs"
    using folder_update_same [OF u _ assms(2)] by auto
  let ?fs' = "fs1\<lparr>fs_data := d\<rparr>"
  have "gp_filesystem_list_files fs False path l = Some ((r, names), ?fs')"
    using assms(2-7) da u f1 by (simp add: s)
  moreover have "settled ?fs' path i []"
    using leads_to_set_files_dirty [OF assms(1) u] f1 assms(4)
    by (simp add: settled_def leads_to_def fs_wf_def folder_at_def)
  ultimately show ?thesis using list_files_settled by blast
qed

text \<open>
  An uploaded file of any type becomes the normal picture of its entry: after a successful
  upload of a thumbnail, the thumbnail is what the cache has as the picture.
\<close>

theorem gp_filesystem_put_file_type:
  assumes "leads_to fs path i" "folder_at fs i = Some f" "names_of (fs_cells fs) (fo_files f) = Some ns"
    "n \<notin> set ns" "put_file_func (fs_funcs fs) = Some put" "fs_objs fs ob = Some cf"
    "put (fs_data fs) path n ty cf = (r, d)" "0 \<le> r"
  shows "\<exists>fs' a c. gp_filesystem_put_file fs False path n ty ob = Some (GP_OK, fs') \<and>
    fs_cells fs' a = Some c \<and> ff_name c = n \<and> ff_normal c = Some ob \<and> ff_preview c = None \<and>
    fs_objs fs' ob = Some (cf\<lparr>cf_ref_count := cf_ref_count cf + 1\<rparr>)"
proof -
  let ?fs = "fs\<lparr>fs_data := d\<rparr>"
  let ?c = "(new_entry n)\<lparr>ff_normal := Some ob\<rparr>"
  have "folder_at ?fs i = Some f" using assms(2) by (simp add: folder_at_def)
  from link_entry_at [OF this, of ?c] obtain fs1 where l: "link_entry ?fs i ?c = Some fs1"
      "fs_cells fs1 = (fs_cells fs)(fs_next fs \<mapsto> ?c)" "fs_objs fs1 = fs_objs fs" by auto
  let ?fs' = "fs1\<lparr>fs_objs := (fs_objs fs1)(ob \<mapsto> cf\<lparr>cf_ref_count := cf_ref_count cf + 1\<rparr>)\<rparr>"
  have "append_file ?fs i n ob = Some (GP_OK, ?fs')"
    using assms(2,4,6) l find_entry_names [OF assms(3), of n]
    by (simp add: append_file_def obj_ref_def store_ref_def gp_file_ref_def folder_at_def)
  then have "gp_filesystem_put_file fs False path n ty ob = Some (GP_OK, ?fs')"
    using assms(5-8) leads_to_CC_CA [OF assms(1)] leads_to_lookup [OF assms(1)]
    by (simp add: gp_filesystem_put_file_def at_folder_def CR_def)
  moreover have "fs_cells ?fs' (fs_next fs) = Some ?c" using l by simp
  ultimately show ?thesis
    by (intro exI [of _ ?fs'] exI [of _ "fs_next fs"] exI [of _ ?c]) (simp add: new_entry_def)
qed

text \<open>
  A card with one folder that has not been listed, for the witnesses; the driver lists two
  files, or fails.
\<close>

definition card_funcs :: "(unit, bool) CameraFilesystemFuncs" where
  "card_funcs = no_funcs\<lparr>file_list_func :=
       Some (\<lambda>ok folder. (if ok then (GP_OK, [''x'', ''y'']) else (GP_ERROR, []), ok)),
     put_file_func := Some (\<lambda>ok _ _ _ _. (GP_OK, ok))\<rparr>"

definition card_fs :: "bool \<Rightarrow> (unit, bool) CameraFilesystem" where
  "card_fs ok = \<lparr>fs_rootfolder = Folder 0 ''/'' True False [Folder 1 ''d'' True True [] []] [],
     fs_lru_first = None, fs_lru_last = None, fs_lru_size = 0, fs_funcs = card_funcs, fs_data = ok,
     fs_cells = (\<lambda>_. None), fs_objs = [5 \<mapsto> empty_file], fs_host = h0, fs_next = 6,
     fs_pictures_to_keep = 2, fs_cached_images = None\<rparr>"

lemma card_wf: "fs_wf (card_fs ok)"
  by (simp add: card_fs_def fs_wf_def tree_wf_def)

lemma card_components: "components ''//d/'' = [''d'']" "components ''/d'' = [''d'']"
  by (simp_all add: components.simps)

lemma card_leads_to: "leads_to (card_fs ok) ''/d'' 1"
  by (simp add: leads_to_def card_wf card_components) (simp add: card_fs_def absolute_def)

lemma card_folder: "folder_at (card_fs ok) 1 = Some (Folder 1 ''d'' True True [] [])"
  by (simp add: card_fs_def folder_at_def)

lemma card_list: "\<exists>fs. gp_filesystem_list_files (card_fs True) False ''/d'' [] = Some ((GP_OK, [''x'', ''y'']), fs)"
  by (simp add: gp_filesystem_list_files_def leads_to_CC_CA [OF card_leads_to]
      leads_to_lookup [OF card_leads_to] card_folder)
     (simp add: card_fs_def card_funcs_def no_funcs_def folder_at_def delete_all_files_def
      folder_update_def internal_append_def link_entry_def new_entry_def CR_def)

theorem lookup_folder_listed_witness:
  "lookup_folder (card_fs True) True 0 ''//d/'' = Some (Some 1, card_fs True)"
  using lookup_folder_listed [OF card_wf, of True "''//d/''" True]
  by (simp add: card_components) (simp add: card_fs_def root_id_def)

theorem gp_filesystem_list_files_cached_witness:
  "\<exists>fs. gp_filesystem_list_files (card_fs True) False ''/d'' [] = Some ((GP_OK, [''x'', ''y'']), fs) \<and>
     gp_filesystem_list_files fs False ''/d'' [] = Some ((GP_OK, [''x'', ''y'']), fs)"
proof -
  obtain fs where "gp_filesystem_list_files (card_fs True) False ''/d'' [] = Some ((GP_OK, [''x'', ''y'']), fs)"
    using card_list by blast
  with gp_filesystem_list_files_cached [OF card_leads_to this] show ?thesis by blast
qed

theorem gp_filesystem_numbering_witness:
  "\<exists>fs. gp_filesystem_list_files (card_fs True) False ''/d'' [] = Some ((GP_OK, [''x'', ''y'']), fs) \<and>
     gp_filesystem_count fs False ''/d'' = Some (2, fs) \<and>
     gp_filesystem_name fs False ''/d'' 1 = Some (GP_OK, Some ''y'', fs) \<and>
     gp_filesystem_number fs False ''/d'' ''y'' = Some (1, fs)"
proof -
  obtain fs where l: "gp_filesystem_list_files (card_fs True) False ''/d'' [] = Some ((GP_OK, [''x'', ''y'']), fs)"
    using card_list by blast
  from gp_filesystem_numbering [OF card_leads_to l, of 1] l show ?thesis by auto
qed

theorem gp_filesystem_list_files_failure_witness:
  "\<exists>fs. gp_filesystem_list_files (card_fs False) False ''/d'' [] = Some ((GP_ERROR, []), fs) \<and>
     gp_filesystem_list_files fs False ''/d'' [] = Some ((GP_OK, []), fs)"
  using gp_filesystem_list_files_failure [OF card_leads_to card_folder,
      of False _ GP_ERROR "[]" False "[]" "[]"]
  by (simp add: card_fs_def card_funcs_def no_funcs_def)

theorem gp_filesystem_put_file_type_witness:
  "\<exists>fs a c. gp_filesystem_put_file (card_fs True) False ''/d'' ''t'' GP_FILE_TYPE_PREVIEW 5 = Some (GP_OK, fs) \<and>
     fs_cells fs a = Some c \<and> ff_name c = ''t'' \<and> ff_normal c = Some 5 \<and> ff_preview c = None"
  using gp_filesystem_put_file_type [OF card_leads_to card_folder, of True "[]" "''t''"
      "\<lambda>ok _ _ _ _. (GP_OK, ok)" 5 empty_file GP_FILE_TYPE_PREVIEW GP_OK True]
  by (fastforce simp: card_fs_def card_funcs_def no_funcs_def)

section \<open>Three ways to go wrong\<close>

text \<open>A driver whose folder listing fails the first time and then succeeds.\<close>

definition flaky_funcs :: "(unit, nat) CameraFilesystemFuncs" where
  "flaky_funcs = no_funcs\<lparr>folder_list_func :=
     Some (\<lambda>n folder. (if n = 0 then (GP_ERROR, []) else (GP_OK, [''a'']), n + 1))\<rparr>"

definition flaky_fs :: "(unit, nat) CameraFilesystem" where
  "flaky_fs = \<lparr>fs_rootfolder = Folder 0 ''/'' True True [Folder 1 ''a'' True True [] []] [],
     fs_lru_first = None, fs_lru_last = None, fs_lru_size = 0, fs_funcs = flaky_funcs, fs_data = 0,
     fs_cells = (\<lambda>_. None), fs_objs = (\<lambda>_. None), fs_host = h0, fs_next = 2,
     fs_pictures_to_keep = 2, fs_cached_images = None\<rparr>"


text \<open>
  An announced file in a folder of which two components are missing: only the first one is
  created, and the file is refused.
\<close>

definition bare_fs :: "(unit, unit) CameraFilesystem" where
  "bare_fs = snd (gp_filesystem_new demo_fs True True)"

theorem gp_filesystem_append_deep:
  "(case gp_filesystem_append bare_fs False ''/a/b'' (Some ''f'') of
      None \<Rightarrow> None | Some (r, fs) \<Rightarrow> Some (r, map fo_name (all_folders (fs_rootfolder fs)))) =
    Some (GP_ERROR_DIRECTORY_NOT_FOUND, [''/'', ''a''])"
  by (simp add: gp_filesystem_append_def bare_fs_def demo_fs_def gp_filesystem_new_def no_funcs_def
      CC_CA_def fs_cancelled_def absolute_def lookup_folder_def root_id_def next_component_def
      lookup_at.simps [of _ _ _ _ 0] lookup_at.simps [of _ _ _ _ "Suc (Suc 0)"]
      gp_filesystem_list_folders.simps folder_at_def folder_update_def append_folder_def
      append_to_folder.simps append_folder_one_def gp_filesystem_list_files_def)

text \<open>The path of a subfolder, cut off to \<open>path[128]\<close>.\<close>

lemma scan_path_full:
  assumes "length p = 127"
  shows "scan_path p d = Some p"
  using assms by (auto simp: scan_path_def)

text \<open>
  C29. A listed folder whose path fills \<open>path[128]\<close> and that has a subfolder: the path of the
  subfolder is cut off to the folder's own, and a search for a file that is not there never
  ends.
\<close>

theorem gp_filesystem_scan_diverges:
  assumes "settled fs p i ns" "n \<notin> set ns" "length p = 127" "folder_at fs i = Some f"
    "\<not> fo_folders_dirty f" "fo_folders f \<noteq> []"
  shows "gp_filesystem_scan fs False p n = None"
proof -
  have lt: "leads_to fs p i" using assms(1) by (simp add: settled_def)
  have "folder_update fs i (set_folders_dirty False) = Some fs"
    using folder_update_fixed [OF assms(4), of "set_folders_dirty False"] assms(5) lt
    by (cases f) (simp add: leads_to_def)
  then have lf: "gp_filesystem_list_folders fs False p l = Some ((GP_OK, map fo_name (fo_folders f)), fs)" for l
    using assms(4,5) leads_to_CC_CA [OF lt] leads_to_lookup [OF lt, of False]
    by (subst gp_filesystem_list_folders.simps) (simp add: lookup_folder_def)
  have "folder' = p \<Longrightarrow> fs' = fs \<Longrightarrow> ctx' = False \<Longrightarrow> n' = n \<Longrightarrow> todo \<noteq> Some [] \<Longrightarrow> False"
    if "scan_loop fs' ctx' folder' todo n' = Some y" for fs' ctx' folder' todo n' y
    using that
  proof (induct rule: scan_loop.raw_induct [rotated, consumes 1, case_names step])
    case (step scan fs' ctx' folder' todo n' y)
    show ?case
    proof (cases todo)
      case None
      then have "scan fs False p (Some (map fo_name (fo_folders f))) n = Some y"
        using step(2-6) leads_to_CC_CA [OF lt] list_files_settled [OF assms(1)] lf assms(2) by simp
      then show ?thesis using step(1) assms(6) by fastforce
    next
      case (Some ds)
      then obtain d ds' where "ds = d # ds'" using step(7) by (cases ds) auto
      then have "scan fs False p None n \<noteq> None"
        using step(2-6) Some scan_path_full [OF assms(3)] by (auto simp: bind_Some_iff)
      then show ?thesis using step(1) by fastforce
    qed
  qed
  then show ?thesis unfolding gp_filesystem_scan_def by (metis not_Some_eq option.distinct(1))
qed

definition long_fs :: "(unit, unit) CameraFilesystem" where
  "long_fs = \<lparr>fs_rootfolder = Folder 0 ''/'' False False
       [Folder 1 (replicate 126 CHR ''x'') False False [Folder 2 ''y'' True True [] []] []] [],
     fs_lru_first = None, fs_lru_last = None, fs_lru_size = 0, fs_funcs = no_funcs, fs_data = (),
     fs_cells = (\<lambda>_. None), fs_objs = (\<lambda>_. None), fs_host = h0, fs_next = 3,
     fs_pictures_to_keep = 2, fs_cached_images = None\<rparr>"

theorem gp_filesystem_scan_diverges_witness:
  "gp_filesystem_scan long_fs False (CHR ''/'' # replicate 126 CHR ''x'') ''f'' = None"
proof (rule gp_filesystem_scan_diverges [where i = 1 and ns = "[]" and
      f = "Folder 1 (replicate 126 CHR ''x'') False False [Folder 2 ''y'' True True [] []] []"])
  have "components (CHR ''/'' # replicate 126 CHR ''x'') = [replicate 126 CHR ''x'']"
    by (simp add: components.simps takeWhile_replicate)
  then show "settled long_fs (CHR ''/'' # replicate 126 CHR ''x'') 1 []"
    by (simp add: settled_def leads_to_def) (simp add: long_fs_def fs_wf_def tree_wf_def absolute_def folder_at_def)
qed (simp_all add: long_fs_def folder_at_def)

end
