(* ===== verification/PtpCodec.thy ===== *)
theory PtpCodec
  imports Prelude "HOL-Library.Monad_Syntax"
begin

unbundle bit_operations_syntax

text \<open>
  The base of the PTP data codecs in \<open>camlibs/ptp2/ptp-pack.c\<close>: what the functions use of
  \<open>PTPParams\<close>, reads and writes of a dataset buffer, strings and arrays. The codecs walk a
  buffer with a \<open>uint32_t\<close> offset and a \<open>uint32_t\<close> size. Sums with a \<open>sizeof\<close> are computed in
  the 64 bits of \<open>size_t\<close>, where they do not wrap, and are natural numbers here; the sums of
  32-bit operands alone wrap.

  A read or write outside the buffer, or through a NULL pointer, is the value \<open>None\<close> of the
  outer option (undefined behaviour in C). The function results inside it are a C truth
  value, the offset after the call and the value stored through the result pointer. The value
  of a call that fails is not looked at by any caller; it is the empty one here.
\<close>

section \<open>Parameters and buffers\<close>

text \<open>
  \<open>pp_ucs2_to_locale\<close> and \<open>pp_locale_to_ucs2\<close> are the \<open>iconv\<close> descriptors: \<open>None\<close> is
  \<open>(iconv_t)-1\<close>, a function returns the converted text or \<open>None\<close> for \<open>(size_t)-1\<close>.
  \<open>pp_alloc n\<close> tells whether the allocator grants \<open>n\<close> bytes and \<open>pp_junk\<close> is what
  uninitialised memory holds; \<open>pp_mktime\<close> is the C library's \<open>mktime\<close>.
\<close>

record tm =
  tm_year :: int
  tm_mon :: int
  tm_mday :: int
  tm_hour :: int
  tm_min :: int
  tm_sec :: int

record ptp_params =
  pp_ucs2_to_locale :: "(u16 list \<Rightarrow> string option) option"
  pp_locale_to_ucs2 :: "(string \<Rightarrow> u16 list option) option"
  pp_alloc :: "nat \<Rightarrow> bool"
  pp_junk :: "nat \<Rightarrow> byte"
  pp_mktime :: "tm \<Rightarrow> int"
  pp_ocs64 :: bool
  pp_sony_mode_ver :: int

type_synonym buffer = "byte list option"

definition rd8 :: "buffer \<Rightarrow> u32 \<Rightarrow> u8 option" where
  "rd8 b i = (case b of None \<Rightarrow> None
     | Some d \<Rightarrow> if unat i + 1 \<le> length d then Some (d ! unat i) else None)"

definition rd16 :: "buffer \<Rightarrow> u32 \<Rightarrow> u16 option" where
  "rd16 b i = (case b of None \<Rightarrow> None
     | Some d \<Rightarrow> if unat i + 2 \<le> length d then Some (le16 d (unat i)) else None)"

definition rd32 :: "buffer \<Rightarrow> u32 \<Rightarrow> u32 option" where
  "rd32 b i = (case b of None \<Rightarrow> None
     | Some d \<Rightarrow> if unat i + 4 \<le> length d then Some (le32 d (unat i)) else None)"

definition rd64 :: "buffer \<Rightarrow> u32 \<Rightarrow> u64 option" where
  "rd64 b i = (case b of None \<Rightarrow> None
     | Some d \<Rightarrow> if unat i + 8 \<le> length d then Some (le64 d (unat i)) else None)"

text \<open>\<open>n\<close> consecutive reads of \<open>k\<close> bytes each, with the offset after them.\<close>

fun rd_n :: "(u32 \<Rightarrow> 'w option) \<Rightarrow> u32 \<Rightarrow> nat \<Rightarrow> u32 \<Rightarrow> ('w list \<times> u32) option" where
  "rd_n r k 0 off = Some ([], off)"
| "rd_n r k (Suc n) off =
     do { w \<leftarrow> r off; (ws, off) \<leftarrow> rd_n r k n (off + k); Some (w # ws, off) }"

text \<open>A write of some bytes into a buffer.\<close>

definition wr :: "byte list \<Rightarrow> nat \<Rightarrow> byte list \<Rightarrow> byte list option" where
  "wr d i bs =
     (if i + length bs \<le> length d then Some (take i d @ bs @ drop (i + length bs) d) else None)"

definition c_strdup :: "'p ptp_params_scheme \<Rightarrow> string \<Rightarrow> string option" where
  "c_strdup p s = (if pp_alloc p (length s + 1) then Some s else None)"

text \<open>The bytes of a C string end at its first NUL.\<close>

definition c_text :: "string \<Rightarrow> string" where
  "c_text s = takeWhile (\<lambda>c. c \<noteq> CHR 0x00) s"

definition char_byte :: "char \<Rightarrow> u8" where
  "char_byte c = of_nat (of_char c)"

definition PTP_MAXSTRLEN :: nat where
  "PTP_MAXSTRLEN = 255"

section \<open>Strings\<close>

text \<open>\<open>ptp_unpack_string\<close>; the conversion is \<open>iconv\<close> or, without it, the 7-bit characters.\<close>

definition ucs2_fallback :: "u16 list \<Rightarrow> string" where
  "ucs2_fallback us = map (\<lambda>u. if 127 < u then CHR ''?'' else char_of (unat u)) us"

definition ptp_unpack_string ::
    "'p ptp_params_scheme \<Rightarrow> buffer \<Rightarrow> u32 \<Rightarrow> u32 \<Rightarrow> (bool \<times> u32 \<times> string option) option" where
  "ptp_unpack_string p data off sz =
     (if data = None then Some (False, off, None)
      else if sz < off + 1 then Some (False, off, None)
      else do {
        ucs2len \<leftarrow> rd8 data off;
        let off = off + 1;
        if ucs2len = 0 then Some (True, off, c_strdup p [])
        else if unat sz < unat off + unat ucs2len * 2 then Some (False, off, None)
        else do {
          (ucs2src, _) \<leftarrow> rd_n (rd16 data) 2 (unat ucs2len) off;
          let nconv = (case pp_ucs2_to_locale p of None \<Rightarrow> None | Some f \<Rightarrow> f ucs2src);
          let utf8dest = (case nconv of
                None \<Rightarrow> ucs2_fallback ucs2src
              | Some dest \<Rightarrow> take (PTP_MAXSTRLEN * 3) dest);
          Some (True, off + 2 * ucast ucs2len, c_strdup p (c_text utf8dest))
        }
      })"

definition ucs2strlen :: "u16 list \<Rightarrow> nat" where
  "ucs2strlen us = length (takeWhile (\<lambda>u. u \<noteq> 0) us)"

text \<open>
  \<open>ptp_pack_string\<close>: the buffer after the writes at \<open>off\<close> and the length in characters; the
  plain conversion widens the (signed) characters.
\<close>

definition ptp_pack_string ::
    "'p ptp_params_scheme \<Rightarrow> string \<Rightarrow> byte list \<Rightarrow> nat \<Rightarrow> (byte list \<times> u8) option" where
  "ptp_pack_string p str data off =
     (if PTP_MAXSTRLEN < length str then Some (data, 0)
      else
        let ucs2str =
              (case pp_locale_to_ucs2 p of
                 Some f \<Rightarrow>
                   (case f str of None \<Rightarrow> replicate (PTP_MAXSTRLEN + 1) 0
                    | Some us \<Rightarrow>
                        (let us = take PTP_MAXSTRLEN us
                         in us @ replicate (PTP_MAXSTRLEN + 1 - length us) 0))
               | None \<Rightarrow> map (\<lambda>c. scast (char_byte c)) str
                         @ replicate (PTP_MAXSTRLEN + 1 - length str) 0);
            packedlen = ucs2strlen ucs2str
        in if PTP_MAXSTRLEN - 1 < packedlen then Some (data, 0)
           else do {
             data \<leftarrow> wr data off [of_nat (packedlen + 1)];
             data \<leftarrow> wr data (off + 1) (concat (map put16 (take packedlen ucs2str)));
             data \<leftarrow> wr data (off + packedlen * 2 + 1) (put16 0);
             Some (data, of_nat packedlen + 1)
           })"

text \<open>\<open>ptp_get_packed_stringcopy\<close>: the copy and its size; the copy is NULL without memory.\<close>

definition ptp_get_packed_stringcopy ::
    "'p ptp_params_scheme \<Rightarrow> string option \<Rightarrow> (buffer \<times> u32) option" where
  "ptp_get_packed_stringcopy p str = do {
     (packed, len) \<leftarrow> ptp_pack_string p (case str of None \<Rightarrow> [] | Some s \<Rightarrow> s)
                        (map (pp_junk p) [0..<PTP_MAXSTRLEN * 2 + 3]) 0;
     let plen = unat len * 2 + 1;
     if pp_alloc p plen then Some (Some (take plen packed), of_nat plen)
     else Some (None, 0)
   }"

section \<open>Arrays\<close>

text \<open>
  \<open>ptp_unpack_uint32_t_array\<close> and \<open>ptp_unpack_uint16_t_array\<close>: the array and its length are
  one list, empty when nothing was unpacked.
\<close>

definition ptp_unpack_uint32_t_array ::
    "'p ptp_params_scheme \<Rightarrow> buffer \<Rightarrow> u32 \<Rightarrow> u32 \<Rightarrow> (bool \<times> u32 \<times> u32 list) option" where
  "ptp_unpack_uint32_t_array p data off datalen =
     (if data = None \<or> unat datalen < unat off + 4 then Some (False, off, [])
      else do {
        n \<leftarrow> rd32 data off;
        let off = off + 4;
        if n = 0 then Some (True, off, [])
        else if unat datalen < unat off + unat n * 4 then Some (False, off, [])
        else if \<not> pp_alloc p (unat n * 4) then Some (False, off, [])
        else do {
          (array, off) \<leftarrow> rd_n (rd32 data) 4 (unat n) off;
          Some (True, off, array)
        }
      })"

definition ptp_unpack_uint16_t_array ::
    "'p ptp_params_scheme \<Rightarrow> buffer \<Rightarrow> u32 \<Rightarrow> u32 \<Rightarrow> (bool \<times> u32 \<times> u16 list) option" where
  "ptp_unpack_uint16_t_array p data off datalen =
     (if data = None \<or> unat datalen < unat off + 4 then Some (False, off, [])
      else do {
        n \<leftarrow> rd32 data off;
        let off = off + 4;
        if n = 0 then Some (True, off, [])
        else if unat datalen < unat off + unat n * 2 then Some (False, off, [])
        else if \<not> pp_alloc p (unat n * 2) then Some (False, off, [])
        else do {
          (array, off) \<leftarrow> rd_n (rd16 data) 2 (unat n) off;
          Some (True, off, array)
        }
      })"

text \<open>
  \<open>ptp_pack_uint32_t_array\<close>: the number of elements and the elements. The first argument of
  \<open>calloc\<close> is the 32-bit sum \<open>arraylen + 1\<close>; writing past what was allocated is undefined.
\<close>

definition ptp_pack_uint32_t_array ::
    "'p ptp_params_scheme \<Rightarrow> u32 list \<Rightarrow> (buffer \<times> u32) option" where
  "ptp_pack_uint32_t_array p array =
     (let arraylen = of_nat (length array) :: u32; n = unat (arraylen + 1) * 4
      in if \<not> pp_alloc p n then Some (None, 0)
         else do {
           data \<leftarrow> wr (replicate n 0) 0 (put32 arraylen);
           data \<leftarrow> wr data 4 (concat (map put32 array));
           Some (Some data, (arraylen + 1) * 4)
         })"

section \<open>Reads inside the buffer\<close>

text \<open>A read succeeds exactly when its bytes are in the buffer.\<close>

lemma rd_NULL [simp]: "rd8 None i = None" "rd16 None i = None" "rd32 None i = None" "rd64 None i = None"
  by (simp_all add: rd8_def rd16_def rd32_def rd64_def)

lemma rd_in [simp]:
  "unat i < length d \<Longrightarrow> rd8 (Some d) i = Some (d ! unat i)"
  "unat i + 2 \<le> length d \<Longrightarrow> rd16 (Some d) i = Some (le16 d (unat i))"
  "unat i + 4 \<le> length d \<Longrightarrow> rd32 (Some d) i = Some (le32 d (unat i))"
  "unat i + 8 \<le> length d \<Longrightarrow> rd64 (Some d) i = Some (le64 d (unat i))"
  by (simp_all add: rd8_def rd16_def rd32_def rd64_def)

lemma rd_None_iff:
  "rd8 (Some d) i = None \<longleftrightarrow> length d < unat i + 1"
  "rd16 (Some d) i = None \<longleftrightarrow> length d < unat i + 2"
  "rd32 (Some d) i = None \<longleftrightarrow> length d < unat i + 4"
  "rd64 (Some d) i = None \<longleftrightarrow> length d < unat i + 8"
  by (auto simp: rd8_def rd16_def rd32_def rd64_def)

text \<open>Offsets as natural numbers: a sum that stays within a size does not wrap.\<close>

lemma unat_of_nat_u32: "n < 2 ^ 32 \<Longrightarrow> unat (of_nat n :: u32) = n"
  by (simp add: unsigned_of_nat take_bit_nat_eq_self)

lemma unat_off_add:
  assumes "unat (off :: u32) + n < 2 ^ 32"
  shows "unat (off + of_nat n) = unat off + n"
  using assms by (subst unat_add_lem [THEN iffD1]) (auto simp: unat_of_nat_u32)

lemma unat_off_add_numeral [simp]:
  "unat (off :: u32) + 1 < 2 ^ 32 \<Longrightarrow> unat (off + 1) = unat off + 1"
  "unat (off :: u32) + numeral k < 2 ^ 32 \<Longrightarrow> unat (off + numeral k) = unat off + numeral k"
  using unat_off_add [of off 1] unat_off_add [of off "numeral k"] by simp_all

lemma rd_n_total:
  assumes "\<And>i. unat i + k \<le> L \<Longrightarrow> r i \<noteq> None" "unat off + n * k \<le> L" "L < 2 ^ 32" "kw = of_nat k"
  obtains ws where "rd_n r kw n off = Some (ws, off + of_nat (n * k))" "length ws = n"
proof -
  have "\<exists>ws. rd_n r kw n off = Some (ws, off + of_nat (n * k)) \<and> length ws = n"
    using assms(2)
  proof (induction n arbitrary: off)
    case (Suc n)
    from Suc.prems assms(3) have u: "unat (off + kw) = unat off + k"
      unfolding assms(4) by (intro unat_off_add) simp
    obtain w where w: "r off = Some w" using assms(1) [of off] Suc.prems by auto
    from Suc.IH [of "off + kw"] Suc.prems u obtain ws where
      "rd_n r kw n (off + kw) = Some (ws, off + kw + of_nat (n * k))" "length ws = n" by auto
    with w assms(4) show ?case by (simp add: algebra_simps)
  qed simp
  then show thesis using that by blast
qed

text \<open>What was written is read back, in front of and behind other bytes.\<close>

lemma unat_pre: "length pre + n < 2 ^ 32 \<Longrightarrow> unat (of_nat (length pre) :: u32) = length pre"
  by (simp add: unat_of_nat_u32)

lemma rd8_at: "length pre < 2 ^ 32 \<Longrightarrow> rd8 (Some (pre @ w # post)) (of_nat (length pre)) = Some w"
  by (simp add: unat_of_nat_u32)

lemma rd16_at:
  "length pre < 2 ^ 32 \<Longrightarrow> rd16 (Some (pre @ put16 w @ post)) (of_nat (length pre)) = Some w"
  using le_append(1) [of pre "put16 w @ post" 0] by (simp add: unat_of_nat_u32)

lemma rd32_at:
  "length pre < 2 ^ 32 \<Longrightarrow> rd32 (Some (pre @ put32 w @ post)) (of_nat (length pre)) = Some w"
  using le_append(2) [of pre "put32 w @ post" 0] by (simp add: unat_of_nat_u32)

lemma rd64_at:
  "length pre < 2 ^ 32 \<Longrightarrow> rd64 (Some (pre @ put64 w @ post)) (of_nat (length pre)) = Some w"
  using le_append(3) [of pre "put64 w @ post" 0] by (simp add: unat_of_nat_u32)

lemma rd_n_at:
  assumes at: "\<And>pre w post. length pre < 2 ^ 32 \<Longrightarrow>
       r (Some (pre @ enc w @ post)) (of_nat (length pre)) = Some w"
    and "\<And>w. length (enc w) = k" "kw = of_nat k" "length pre + length ws * k < 2 ^ 32"
  shows "rd_n (r (Some (pre @ concat (map enc ws) @ post))) kw (length ws) (of_nat (length pre))
      = Some (ws, of_nat (length pre + length ws * k))"
  using assms(4)
proof (induction ws arbitrary: pre)
  case (Cons w ws)
  have r: "r (Some (pre @ concat (map enc (w # ws)) @ post)) (of_nat (length pre)) = Some w"
    using at [of pre w "concat (map enc ws) @ post"] Cons.prems by simp
  from Cons.IH [of "pre @ enc w"] Cons.prems assms(2)
  have "rd_n (r (Some (pre @ concat (map enc (w # ws)) @ post))) kw (length ws)
      (of_nat (length pre) + kw) = Some (ws, of_nat (length pre + length (w # ws) * k))"
    by (simp add: assms(3) algebra_simps)
  with r show ?case by simp
qed simp

section \<open>Total correctness of a computation\<close>

text \<open>
  \<open>runs m P\<close>: the computation \<open>m\<close> has a defined result, which satisfies \<open>P\<close>. The rules go through
  a function body from its first step.
\<close>

named_theorems runs_intros \<open>rules for defined results\<close>

definition runs :: "'a option \<Rightarrow> ('a \<Rightarrow> bool) \<Rightarrow> bool" where
  "runs m P = (case m of None \<Rightarrow> False | Some x \<Rightarrow> P x)"

lemma runs_simps [simp]: "runs (Some x) P = P x" "\<not> runs None P"
  by (simp_all add: runs_def)

lemma runs_iff: "runs m P \<longleftrightarrow> (\<exists>x. m = Some x \<and> P x)"
  by (cases m) simp_all

lemma runs_bind [simp]: "runs (Option.bind m f) P = runs m (\<lambda>x. runs (f x) P)"
  by (cases m) simp_all

lemma runs_mono: "runs m P \<Longrightarrow> (\<And>x. P x \<Longrightarrow> Q x) \<Longrightarrow> runs m Q"
  by (cases m) simp_all

lemma runs_defined: "runs m (\<lambda>_. True) \<longleftrightarrow> m \<noteq> None"
  by (cases m) simp_all

lemma runs_if [runs_intros]:
  "(c \<Longrightarrow> runs a P) \<Longrightarrow> (\<not> c \<Longrightarrow> runs b P) \<Longrightarrow> runs (if c then a else b) P"
  by simp

lemma runs_rd [runs_intros]:
  "unat i < length d \<Longrightarrow> (\<And>w. P w) \<Longrightarrow> runs (rd8 (Some d) i) P"
  "unat i + 2 \<le> length d \<Longrightarrow> (\<And>w. Q w) \<Longrightarrow> runs (rd16 (Some d) i) Q"
  "unat i + 4 \<le> length d \<Longrightarrow> (\<And>w. R w) \<Longrightarrow> runs (rd32 (Some d) i) R"
  "unat i + 8 \<le> length d \<Longrightarrow> (\<And>w. S w) \<Longrightarrow> runs (rd64 (Some d) i) S"
  by simp_all

section \<open>The interfaces of an unpacking function and of a codec\<close>

text \<open>
  An unpacking function called with an offset inside a buffer of the given size reads only
  inside it and leaves the offset inside. The largest size is excluded: with it the sum
  \<open>*offset + 1\<close> of \<open>ptp_unpack_string\<close> can wrap. A codec reads back what its packing
  function produced, wherever that is in the buffer.
\<close>

locale unpacker =
  fixes unpack :: "'p ptp_params_scheme \<Rightarrow> buffer \<Rightarrow> u32 \<Rightarrow> u32 \<Rightarrow> (bool \<times> u32 \<times> 'v) option"
  assumes unpack_safe: "unat sz \<le> length d \<Longrightarrow> sz \<noteq> - 1 \<Longrightarrow> off \<le> sz \<Longrightarrow>
    \<exists>ok off' v. unpack p (Some d) off sz = Some (ok, off', v) \<and> off \<le> off' \<and> off' \<le> sz"
begin

lemma unpack_runs:
  assumes "unat sz \<le> length d" "sz \<noteq> - 1" "off \<le> sz"
    and "\<And>ok off' v. off \<le> off' \<Longrightarrow> off' \<le> sz \<Longrightarrow> P (ok, off', v)"
  shows "runs (unpack p (Some d) off sz) P"
  using unpack_safe [OF assms(1-3), of p] assms(4) by auto

end

locale codec = unpacker unpack
  for unpack :: "'p ptp_params_scheme \<Rightarrow> buffer \<Rightarrow> u32 \<Rightarrow> u32 \<Rightarrow> (bool \<times> u32 \<times> 'v) option" +
  fixes pack :: "'p ptp_params_scheme \<Rightarrow> 'v \<Rightarrow> (buffer \<times> u32) option"
    and valid :: "'p ptp_params_scheme \<Rightarrow> 'v \<Rightarrow> bool"
  assumes pack_unpack: "valid p v \<Longrightarrow> pack p v = Some (Some bs, n) \<Longrightarrow>
      length pre + length bs + length post < 2 ^ 32 - 1 \<Longrightarrow>
      unat n = length bs \<and>
      unpack p (Some (pre @ bs @ post)) (of_nat (length pre)) (of_nat (length (pre @ bs @ post)))
        = Some (True, of_nat (length pre + length bs), v)"

section \<open>Strings and arrays are unpacked safely\<close>

lemma u32_not_max: "sz \<noteq> - 1 \<Longrightarrow> unat (sz :: u32) < 2 ^ 32 - 1"
proof -
  have "unat (- 1 :: u32) = 2 ^ 32 - 1" by (simp add: unsigned_minus_1_eq_mask mask_eq_exp_minus_1)
  moreover assume "sz \<noteq> - 1"
  ultimately have "unat sz \<noteq> 2 ^ 32 - 1" by (metis word_unat_eq_iff)
  moreover have "unat sz < 2 ^ 32" using unat_u32_less [of sz] by simp
  ultimately show ?thesis by linarith
qed

lemma unat_ucast_8_32 [simp]: "unat (ucast (w :: u8) :: u32) = unat w"
  by (simp add: unsigned_ucast_eq take_bit_nat_eq_self less_trans [OF unsigned_less [of w]])

lemma unat_u32_max: "unat (- 1 :: u32) = 4294967295"
  by (simp add: unsigned_minus_1_eq_mask mask_eq_exp_minus_1)

text \<open>Reads behind a prefix of known length.\<close>

lemma le_skip:
  "length a \<le> i \<Longrightarrow> le16 (a @ d) i = le16 d (i - length a)"
  "length a \<le> i \<Longrightarrow> le32 (a @ d) i = le32 d (i - length a)"
  "length a \<le> i \<Longrightarrow> le64 (a @ d) i = le64 d (i - length a)"
  using le_append [of a d "i - length a"] by simp_all

lemma ptp_unpack_string_safe:
  assumes "unat sz \<le> length d" "sz \<noteq> - 1" "off \<le> sz"
  shows "\<exists>ok off' v. ptp_unpack_string p (Some d) off sz = Some (ok, off', v) \<and> off \<le> off' \<and> off' \<le> sz"
proof -
  have sz: "unat sz < 2 ^ 32 - 1" "unat off \<le> unat sz"
    using u32_not_max [OF assms(2)] assms(3) by (simp_all add: word_le_nat_alt)
  then have u1: "unat (off + 1) = unat off + 1" by simp
  show ?thesis
  proof (cases "sz < off + 1")
    case True
    then show ?thesis using assms(3) by (auto simp: ptp_unpack_string_def)
  next
    case False
    with u1 have o1: "unat off + 1 \<le> unat sz" by (simp add: word_less_nat_alt)
    define n where "n = d ! unat off"
    show ?thesis
    proof (cases "n = 0 \<or> unat sz < unat (off + 1) + unat n * 2")
      case True
      then show ?thesis using False o1 assms(1) u1 sz
        by (auto simp: ptp_unpack_string_def n_def word_le_nat_alt Let_def)
    next
      case n: False
      then have le: "unat (off + 1) + unat n * 2 \<le> unat sz" by simp
      then obtain ws where "rd_n (rd16 (Some d)) 2 (unat n) (off + 1)
          = Some (ws, off + 1 + of_nat (unat n * 2))" "length ws = unat n"
        using assms(1) sz(1)
        by (elim rd_n_total [rotated, where k = 2 and L = "unat sz"]) (auto simp: rd_None_iff)
      moreover have "unat (off + 1 + 2 * ucast n) = unat (off + 1) + unat n * 2"
        using unat_off_add [of "off + 1" "unat n * 2"] le sz(1) by (simp add: mult.commute)
      ultimately show ?thesis using n False o1 assms(1) u1 le
        by (auto simp: ptp_unpack_string_def n_def word_le_nat_alt Let_def)
    qed
  qed
qed

lemma array_safe:
  assumes "unat sz \<le> length d" "off \<le> sz"
    and r: "\<And>i. unat i + k \<le> unat sz \<Longrightarrow> r i \<noteq> None" and kw: "kw = of_nat k"
    and u: "u = (if unat sz < unat off + 4 then Some (False, off, [])
      else do {
        n \<leftarrow> rd32 (Some d) off;
        let off = off + 4;
        if n = 0 then Some (True, off, [])
        else if unat sz < unat off + unat n * k then Some (False, off, [])
        else if \<not> pp_alloc p (unat n * k) then Some (False, off, [])
        else do {
          (array, off) \<leftarrow> rd_n r kw (unat n) off;
          Some (True, off, array)
        }
      })"
  shows "\<exists>ok off' v. u = Some (ok, off', v) \<and> off \<le> off' \<and> off' \<le> sz"
proof (cases "unat sz < unat off + 4")
  case True
  then show ?thesis using assms(2) u by auto
next
  case False
  define n where "n = le32 d (unat off)"
  have u4: "unat (off + 4) = unat off + 4"
    using False unat_u32_less [of sz] by (intro unat_off_add_numeral) simp
  show ?thesis
  proof (cases "n = 0 \<or> unat sz < unat (off + 4) + unat n * k \<or> \<not> pp_alloc p (unat n * k)")
    case True
    then show ?thesis using False u4 assms(1) by (auto simp: u n_def word_le_nat_alt Let_def)
  next
    case n: False
    then have le: "unat (off + 4) + unat n * k \<le> unat sz" by simp
    obtain ws where "rd_n r kw (unat n) (off + 4) = Some (ws, off + 4 + of_nat (unat n * k))"
      using r le unat_u32_less [of sz] kw
      by (elim rd_n_total [rotated, where k = k and L = "unat sz"]) auto
    moreover have "unat (off + 4 + of_nat (unat n * k)) = unat (off + 4) + unat n * k"
      using le unat_u32_less [of sz] by (intro unat_off_add) simp
    ultimately show ?thesis using n False u4 assms(1) le
      by (auto simp: u n_def word_le_nat_alt Let_def)
  qed
qed

lemma ptp_unpack_uint32_t_array_safe:
  assumes "unat sz \<le> length d" "off \<le> sz"
  shows "\<exists>ok off' v. ptp_unpack_uint32_t_array p (Some d) off sz = Some (ok, off', v)
      \<and> off \<le> off' \<and> off' \<le> sz"
  by (rule array_safe [OF assms(1,2), where k = 4 and r = "rd32 (Some d)" and kw = 4])
    (use assms(1) in \<open>auto simp: rd_None_iff ptp_unpack_uint32_t_array_def\<close>)

lemma ptp_unpack_uint16_t_array_safe:
  assumes "unat sz \<le> length d" "off \<le> sz"
  shows "\<exists>ok off' v. ptp_unpack_uint16_t_array p (Some d) off sz = Some (ok, off', v)
      \<and> off \<le> off' \<and> off' \<le> sz"
  by (rule array_safe [OF assms(1,2), where k = 2 and r = "rd16 (Some d)" and kw = 2])
    (use assms(1) in \<open>auto simp: rd_None_iff ptp_unpack_uint16_t_array_def\<close>)

section \<open>Strings and arrays are read back\<close>

lemma wr_append: "Option.bind (wr d i as) (\<lambda>d. wr d (i + length as) bs) = wr d i (as @ bs)"
  by (auto simp: wr_def ac_simps)

lemma wr_then:
  "j = i + length as \<Longrightarrow> Option.bind (wr d i as) (\<lambda>d. Option.bind (wr d j bs) f)
     = Option.bind (wr d i (as @ bs)) f"
  by (simp add: wr_append [symmetric] split: Option.bind_split)

lemma wr_app: "i = length a \<Longrightarrow> length x \<le> length r \<Longrightarrow> wr (a @ r) i x = Some (a @ x @ drop (length x) r)"
  by (simp add: wr_def)

lemma concat_map_length: "(\<And>w. length (f w) = k) \<Longrightarrow> length (concat (map f ws)) = k * length ws"
  by (induction ws) auto

text \<open>
  The UCS-2 text of a string, its packed form, and the strings both conversions take back and
  forth: at most 254 units without a NUL.
\<close>

definition ucs2_of :: "'p ptp_params_scheme \<Rightarrow> string \<Rightarrow> u16 list" where
  "ucs2_of p s =
     (case pp_locale_to_ucs2 p of None \<Rightarrow> map (\<lambda>c. scast (char_byte c)) s
      | Some f \<Rightarrow> (case f s of None \<Rightarrow> [] | Some us \<Rightarrow> us))"

definition string_bytes :: "u16 list \<Rightarrow> byte list" where
  "string_bytes us = of_nat (length us + 1) # concat (map put16 us) @ put16 0"

definition string_valid :: "'p ptp_params_scheme \<Rightarrow> string option \<Rightarrow> bool" where
  "string_valid p v =
     (case v of None \<Rightarrow> False
      | Some s \<Rightarrow>
          length s \<le> 255 \<and> length (ucs2_of p s) \<le> 254 \<and> 0 \<notin> set (ucs2_of p s) \<and>
          pp_alloc p (length s + 1) \<and>
          (case pp_ucs2_to_locale p of
             None \<Rightarrow> c_text (ucs2_fallback (ucs2_of p s)) = s
           | Some g \<Rightarrow> map_option (\<lambda>d. c_text (take 765 d)) (g (ucs2_of p s @ [0])) = Some s))"

lemma length_string_bytes [simp]: "length (string_bytes us) = 2 * length us + 3"
  by (simp add: string_bytes_def concat_map_length [where k = 2])

lemma ucs2strlen_pad:
  assumes "0 \<notin> set us" "k > 0"
  shows "ucs2strlen (us @ replicate k 0) = length us"
proof -
  have "takeWhile (\<lambda>u. u \<noteq> 0) (us @ replicate k 0) = us @ takeWhile (\<lambda>u. u \<noteq> 0) (replicate k 0)"
    using assms(1) by (intro takeWhile_append2) auto
  with assms(2) show ?thesis by (cases k) (simp_all add: ucs2strlen_def)
qed

lemma ptp_pack_string_bytes:
  assumes "length s \<le> 255" "length (ucs2_of p s) \<le> 254" "0 \<notin> set (ucs2_of p s)"
  shows "ptp_pack_string p s data off
      = map_option (\<lambda>d. (d, of_nat (length (ucs2_of p s)) + 1)) (wr data off (string_bytes (ucs2_of p s)))"
proof -
  define us where "us = ucs2_of p s"
  define a :: "byte list" where "a = [of_nat (length us + 1)]"
  define b where "b = concat (map put16 us)"
  have lb: "length a = 1" "length b = length us * 2"
    by (simp_all add: a_def b_def concat_map_length [where k = 2])
  have pk: "ptp_pack_string p s data off = do {
      data \<leftarrow> wr data off a; data \<leftarrow> wr data (off + 1) b;
      data \<leftarrow> wr data (off + length us * 2 + 1) (put16 0); Some (data, of_nat (length us) + 1) }"
    using assms
    by (auto simp: ptp_pack_string_def ucs2_of_def PTP_MAXSTRLEN_def Let_def us_def a_def b_def
        ucs2strlen_pad ucs2strlen_pad [of "[]", simplified] min_def
        simp del: replicate_Suc split: option.splits)
  have "wr data off (string_bytes us)
      = Option.bind (wr data off a) (\<lambda>d. wr d (off + 1) (b @ put16 0))"
    using wr_append [of data off a "b @ put16 0"] by (simp add: string_bytes_def a_def b_def)
  also have "\<dots> = Option.bind (wr data off a) (\<lambda>d. Option.bind (wr d (off + 1) b)
      (\<lambda>d. wr d (off + length us * 2 + 1) (put16 0)))"
    using wr_append [of _ "off + 1" b "put16 0"] lb by (simp add: ac_simps)
  finally show ?thesis
    by (simp add: pk us_def [symmetric] split: option.splits Option.bind_splits)
qed

lemma unat_of_nat_u8: "n < 256 \<Longrightarrow> unat (of_nat n :: u8) = n"
  by (simp add: unsigned_of_nat take_bit_nat_eq_self)

lemma ptp_get_packed_stringcopy_bytes:
  assumes "length s \<le> 255" "length (ucs2_of p s) \<le> 254" "0 \<notin> set (ucs2_of p s)"
  shows "ptp_get_packed_stringcopy p (Some s)
      = (if pp_alloc p (2 * length (ucs2_of p s) + 3)
         then Some (Some (string_bytes (ucs2_of p s)), of_nat (2 * length (ucs2_of p s) + 3))
         else Some (None, 0))"
proof -
  define us where "us = ucs2_of p s"
  have len: "unat (of_nat (length us) + 1 :: u8) = length us + 1"
    using unat_of_nat_u8 [of "length us + 1"] assms(2) by (simp add: us_def add.commute)
  have w: "wr (map (pp_junk p) [0..<513]) 0 (string_bytes us)
      = Some (string_bytes us @ drop (2 * length us + 3) (map (pp_junk p) [0..<513]))"
    using assms(2) by (simp add: wr_def us_def)
  have pm: "PTP_MAXSTRLEN * 2 + 3 = 513" by (simp add: PTP_MAXSTRLEN_def)
  show ?thesis
    unfolding ptp_get_packed_stringcopy_def ptp_pack_string_bytes [OF assms] us_def [symmetric] pm
      option.case w by (simp add: len Let_def numeral_3_eq_3 mult.commute)
qed

lemma ptp_unpack_string_at:
  assumes us: "length us \<le> 254"
    and len: "length pre + 2 * length us + 3 + length post < 2 ^ 32 - 1"
  shows "ptp_unpack_string p (Some (pre @ string_bytes us @ post)) (of_nat (length pre))
        (of_nat (length (pre @ string_bytes us @ post)))
    = Some (True, of_nat (length pre + 2 * length us + 3), c_strdup p (c_text
        (case (case pp_ucs2_to_locale p of None \<Rightarrow> None | Some f \<Rightarrow> f (us @ [0])) of
           None \<Rightarrow> ucs2_fallback (us @ [0]) | Some dest \<Rightarrow> take (PTP_MAXSTRLEN * 3) dest)))"
proof -
  define n :: u8 where "n = of_nat (length us + 1)"
  define d where "d = pre @ string_bytes us @ post"
  define off :: u32 where "off = of_nat (length pre)"
  define sz :: u32 where "sz = of_nat (length d)"
  have n: "unat n = length us + 1" "n \<noteq> 0"
    using unat_of_nat_u8 [of "length us + 1"] us unsigned_eq_0_iff [of n] by (auto simp: n_def)
  have d: "d = (pre @ [n]) @ concat (map put16 (us @ [0])) @ post"
    by (simp add: d_def string_bytes_def n_def)
  have u: "unat off = length pre" "unat sz = length pre + 2 * length us + 3 + length post"
    using len by (simp_all add: off_def sz_def d_def unat_of_nat_u32 del: of_nat_add)
  have u1: "unat (off + 1) = length pre + 1" using u len by simp
  have o1: "\<not> sz < off + 1" using u u1 by (simp add: word_less_nat_alt)
  have r8: "rd8 (Some d) off = Some n"
    using rd8_at [of pre n "concat (map put16 (us @ [0])) @ post"] len by (simp add: d off_def)
  have "rd_n (rd16 (Some d)) 2 (unat n) (off + 1) = Some (us @ [0], off + 1 + of_nat (unat n * 2))"
    using rd_n_at [where r = rd16 and enc = put16 and k = 2 and kw = 2 and pre = "pre @ [n]"
        and ws = "us @ [0]" and post = post, OF rd16_at] len
    by (simp add: d n off_def algebra_simps)
  moreover have "off + 1 + 2 * ucast n = of_nat (length pre + 2 * length us + 3)"
  proof -
    have "ucast n = (of_nat (unat n) :: u32)" by simp
    then show ?thesis unfolding n(1) by (simp add: off_def algebra_simps)
  qed
  moreover have "unat (off + 1) + unat n * 2 \<le> unat sz" using n u u1 by simp
  ultimately show ?thesis
    using o1 n(2) r8 unfolding d_def [symmetric] off_def [symmetric] sz_def [symmetric]
    by (simp add: ptp_unpack_string_def Let_def split: prod.splits)
qed

lemma c_text_snoc_NUL: "c_text (s @ [CHR 0x00]) = c_text s"
proof -
  have "takeWhile (\<lambda>c. c \<noteq> CHR 0x00) (s @ [CHR 0x00]) = takeWhile (\<lambda>c. c \<noteq> CHR 0x00) s"
    by (induction s) auto
  then show ?thesis by (simp add: c_text_def)
qed

lemma string_valid_text:
  assumes "string_valid p (Some s)"
  shows "c_text (case (case pp_ucs2_to_locale p of None \<Rightarrow> None | Some f \<Rightarrow> f (ucs2_of p s @ [0])) of
           None \<Rightarrow> ucs2_fallback (ucs2_of p s @ [0]) | Some dest \<Rightarrow> take (PTP_MAXSTRLEN * 3) dest) = s"
proof (cases "pp_ucs2_to_locale p")
  case None
  have "ucs2_fallback (ucs2_of p s @ [0]) = ucs2_fallback (ucs2_of p s) @ [CHR 0x00]"
    by (simp add: ucs2_fallback_def char_of_def)
  with None assms show ?thesis by (simp add: string_valid_def c_text_snoc_NUL)
next
  case (Some g)
  with assms show ?thesis by (auto simp: string_valid_def PTP_MAXSTRLEN_def)
qed

text \<open>Without \<open>iconv\<close> the strings of at most 254 7-bit characters are valid.\<close>

lemma ascii_units:
  assumes "of_char c < (128 :: nat)" "c \<noteq> CHR 0x00"
  defines "u \<equiv> scast (char_byte c) :: u16"
  shows "u \<le> 127" "u \<noteq> 0" "char_of (unat u) = c"
proof -
  define n where "n = (of_char c :: nat)"
  have "char_of n = c" by (simp add: n_def)
  moreover have "char_of (0 :: nat) = CHR 0x00" by (simp add: char_of_def)
  ultimately have n: "n < 128" "n \<noteq> 0"
    using assms(1,2) by (simp add: n_def, metis)
  have cb: "char_byte c = of_nat n" by (simp add: char_byte_def n_def)
  have "u = of_nat n"
    unfolding u_def cb scast_eq using n(1) by (simp add: signed_of_nat signed_take_bit_int_eq_self)
  moreover have "unat (of_nat n :: u16) = n"
    using n(1) by (simp add: unsigned_of_nat take_bit_nat_eq_self)
  ultimately show "u \<le> 127" "u \<noteq> 0" "char_of (unat u) = c"
    using n unsigned_eq_0_iff [of u] by (auto simp: word_le_nat_alt n_def)
qed

lemma ascii_valid:
  assumes "\<forall>c \<in> set s. of_char c < (128 :: nat) \<and> c \<noteq> CHR 0x00" "length s \<le> 254"
    and "pp_ucs2_to_locale p = None" "pp_locale_to_ucs2 p = None" "pp_alloc p (length s + 1)"
  shows "string_valid p (Some s)"
proof -
  let ?u = "\<lambda>c. scast (char_byte c) :: u16"
  have us: "ucs2_of p s = map ?u s" by (simp add: ucs2_of_def assms(4))
  have "ucs2_fallback (map ?u s) = s"
    unfolding ucs2_fallback_def map_map
    by (rule map_idI) (use assms(1) ascii_units(1,3) in \<open>auto simp: not_less [symmetric]\<close>)
  moreover have "c_text s = s"
    unfolding c_text_def takeWhile_eq_all_conv using assms(1) by blast
  moreover have "0 \<notin> set (map ?u s)" using assms(1) ascii_units(2) by force
  ultimately show ?thesis using assms by (simp add: string_valid_def us)
qed

interpretation array16: unpacker ptp_unpack_uint16_t_array
  by unfold_locales (rule ptp_unpack_uint16_t_array_safe)

interpretation string: codec ptp_unpack_string ptp_get_packed_stringcopy string_valid
proof (unfold_locales, rule ptp_unpack_string_safe)
  fix p :: "'p ptp_params_scheme" and v bs n and pre post :: "byte list"
  assume v: "string_valid p v" and pk: "ptp_get_packed_stringcopy p v = Some (Some bs, n)"
    and len: "length pre + length bs + length post < 2 ^ 32 - 1"
  obtain s where s: "v = Some s" using v by (cases v) (auto simp: string_valid_def)
  let ?us = "ucs2_of p s"
  from v s have us: "length s \<le> 255" "length ?us \<le> 254" "0 \<notin> set ?us" "pp_alloc p (length s + 1)"
    by (auto simp: string_valid_def)
  with pk s have bs: "bs = string_bytes ?us" "n = of_nat (2 * length ?us + 3)"
    by (simp_all add: ptp_get_packed_stringcopy_bytes split: if_splits)
  have "unat n = length bs"
    using us(2) by (simp add: bs unat_of_nat_u32 del: of_nat_add of_nat_mult)
  moreover have "ptp_unpack_string p (Some (pre @ bs @ post)) (of_nat (length pre))
      (of_nat (length (pre @ bs @ post))) = Some (True, of_nat (length pre + length bs), v)"
    using ptp_unpack_string_at [of ?us pre post p] string_valid_text [of p s] v us len
    by (simp add: bs s c_strdup_def add.assoc)
  ultimately show "unat n = length bs \<and> ptp_unpack_string p (Some (pre @ bs @ post))
      (of_nat (length pre)) (of_nat (length (pre @ bs @ post)))
      = Some (True, of_nat (length pre + length bs), v)" by simp
qed

text \<open>An array of handles, as \<open>ptp_pack_uint32_t_array\<close> writes it.\<close>

definition array_valid :: "'p ptp_params_scheme \<Rightarrow> u32 list \<Rightarrow> bool" where
  "array_valid p ws = (length ws * 4 + 4 < 2 ^ 32 - 1 \<and> pp_alloc p (length ws * 4))"

lemma ptp_pack_uint32_t_array_bytes:
  assumes "length ws * 4 + 4 < 2 ^ 32 - 1"
  shows "ptp_pack_uint32_t_array p ws
      = (if pp_alloc p (length ws * 4 + 4)
         then Some (Some (put32 (of_nat (length ws)) @ concat (map put32 ws)),
                    of_nat (length ws * 4 + 4))
         else Some (None, 0))"
proof -
  define n where "n = length ws * 4 + 4"
  have u: "unat (of_nat (length ws) + 1 :: u32) * 4 = n"
    using unat_of_nat_u32 [of "length ws + 1"] assms by (simp add: add.commute n_def)
  have w4: "wr d 4 (concat (map put32 ws)) = wr d (0 + length (put32 (of_nat (length ws)))) (concat (map put32 ws))"
    for d by simp
  have "Option.bind (wr (replicate n 0) 0 (put32 (of_nat (length ws))))
      (\<lambda>d. wr d 4 (concat (map put32 ws))) = Some (put32 (of_nat (length ws)) @ concat (map put32 ws))"
    unfolding w4 wr_append by (simp add: wr_def n_def concat_map_length [where k = 4] mult.commute)
  then show ?thesis
    unfolding ptp_pack_uint32_t_array_def Let_def u n_def [symmetric]
    by (auto simp: n_def algebra_simps bind_eq_Some_conv split: if_splits)
qed

text \<open>Arrays of either element width are read back from in front of other data.\<close>

lemma array_at:
  fixes rd :: "buffer \<Rightarrow> u32 \<Rightarrow> 'w option" and off sz :: u32
  assumes at: "\<And>pre w post. length pre < 2 ^ 32 \<Longrightarrow>
       rd (Some (pre @ enc w @ post)) (of_nat (length pre)) = Some w"
    and k: "\<And>w. length (enc w) = k" "kw = of_nat k" "k > 0"
    and d: "d = pre @ put32 (of_nat (length ws)) @ concat (map enc ws) @ post"
    and len: "length d < 2 ^ 32" and al: "pp_alloc p (length ws * k)"
    and off: "off = of_nat (length pre)" and sz: "sz = of_nat (length d)"
    and u: "u = (if unat sz < unat off + 4 then Some (False, off, [])
      else do {
        n \<leftarrow> rd32 (Some d) off;
        let off = off + 4;
        if n = 0 then Some (True, off, [])
        else if unat sz < unat off + unat n * k then Some (False, off, [])
        else if \<not> pp_alloc p (unat n * k) then Some (False, off, [])
        else do {
          (array, off) \<leftarrow> rd_n (rd (Some d)) kw (unat n) off;
          Some (True, off, array)
        }
      })"
  shows "u = Some (True, of_nat (length pre + 4 + length ws * k), ws)"
proof -
  define n :: u32 where "n = of_nat (length ws)"
  have ld: "length d = length pre + 4 + length ws * k + length post"
    by (simp add: d concat_map_length [where k = k, OF k(1)] mult.commute)
  have lk: "length ws \<le> length ws * k" using k(3) by (cases k) simp_all
  have "length ws < 2 ^ 32" using ld len lk by linarith
  then have n: "unat n = length ws" by (simp add: n_def unat_of_nat_u32)
  have "unat off = length pre" using ld len by (simp add: off unat_of_nat_u32)
  moreover have "unat sz = length d" unfolding sz by (rule unat_of_nat_u32 [OF len])
  ultimately have un: "unat off = length pre" "unat sz = length d" .
  have u4: "unat (off + 4) = length pre + 4" using un ld len by simp
  have r: "rd32 (Some d) off = Some n"
    using rd32_at [of pre n "concat (map enc ws) @ post"] ld len by (simp add: d n_def off)
  have "rd_n (rd (Some d)) kw (length ws) (off + 4) = Some (ws, off + 4 + of_nat (length ws * k))"
    using rd_n_at [where r = rd and enc = enc and k = k and kw = kw and pre = "pre @ put32 n"
        and ws = ws and post = post, OF at k(1,2)] ld len
    by (simp add: d n_def off algebra_simps)
  then show ?thesis
    using r un u4 n al ld unsigned_eq_0_iff [of n] unfolding u
    by (auto simp: Let_def off algebra_simps)
qed

definition array16_bytes :: "u16 list \<Rightarrow> byte list" where
  "array16_bytes ws = put32 (of_nat (length ws)) @ concat (map put16 ws)"

lemma length_array16 [simp]: "length (array16_bytes ws) = 4 + 2 * length ws"
  by (simp add: array16_bytes_def concat_map_length [where k = 2])

lemma ptp_unpack_uint16_t_array_at:
  assumes "d = pre @ array16_bytes ws @ post" "length d < 2 ^ 32" "pp_alloc p (length ws * 2)"
  shows "ptp_unpack_uint16_t_array p (Some d) (of_nat (length pre)) (of_nat (length d))
    = Some (True, of_nat (length (pre @ array16_bytes ws)), ws)"
proof -
  have "ptp_unpack_uint16_t_array p (Some d) (of_nat (length pre)) (of_nat (length d))
    = Some (True, of_nat (length pre + 4 + length ws * 2), ws)"
    by (rule array_at [where rd = rd16 and enc = put16 and kw = 2, OF rd16_at _ _ _
          assms(1) [unfolded array16_bytes_def append_assoc] assms(2,3) refl refl])
      (simp_all add: ptp_unpack_uint16_t_array_def)
  then show ?thesis by (simp add: algebra_simps)
qed

interpretation array: codec ptp_unpack_uint32_t_array ptp_pack_uint32_t_array array_valid
proof (unfold_locales, rule ptp_unpack_uint32_t_array_safe)
  fix p :: "'p ptp_params_scheme" and ws bs n and pre post :: "byte list"
  assume v: "array_valid p ws" and pk: "ptp_pack_uint32_t_array p ws = Some (Some bs, n)"
    and len: "length pre + length bs + length post < 2 ^ 32 - 1"
  from v have al: "length ws * 4 + 4 < 2 ^ 32 - 1" "pp_alloc p (length ws * 4)"
    by (simp_all add: array_valid_def)
  with pk have bs: "bs = put32 (of_nat (length ws)) @ concat (map put32 ws)"
    "n = of_nat (length ws * 4 + 4)"
    by (simp_all add: ptp_pack_uint32_t_array_bytes split: if_splits)
  have lb: "length bs = length ws * 4 + 4" by (simp add: bs concat_map_length [where k = 4])
  have "unat n = length bs"
    using al by (simp add: bs(2) lb unat_of_nat_u32 del: of_nat_add of_nat_mult)
  moreover have "ptp_unpack_uint32_t_array p (Some (pre @ bs @ post)) (of_nat (length pre))
      (of_nat (length (pre @ bs @ post))) = Some (True, of_nat (length pre + 4 + length ws * 4), ws)"
    by (rule array_at [where rd = rd32 and enc = put32 and kw = 4 and pre = pre and post = post,
          OF rd32_at _ _ _ _ _ al(2) refl refl])
      (use len bs(1) in \<open>simp_all add: ptp_unpack_uint32_t_array_def del: length_append of_nat_add\<close>, simp)
  ultimately show "unat n = length bs \<and> ptp_unpack_uint32_t_array p (Some (pre @ bs @ post))
      (of_nat (length pre)) (of_nat (length (pre @ bs @ post)))
      = Some (True, of_nat (length pre + length bs), ws)"
    by (simp add: lb algebra_simps)
qed

text \<open>A valid string in front of other data.\<close>

definition name_bytes :: "'p ptp_params_scheme \<Rightarrow> string option \<Rightarrow> byte list" where
  "name_bytes p v = (case v of None \<Rightarrow> [] | Some s \<Rightarrow> string_bytes (ucs2_of p s))"

lemma string_at:
  assumes "string_valid p v" "d = pre @ name_bytes p v @ post" "length d < 2 ^ 32 - 1"
  shows "ptp_unpack_string p (Some d) (of_nat (length pre)) (of_nat (length d))
    = Some (True, of_nat (length (pre @ name_bytes p v)), v)"
proof -
  obtain s where s: "v = Some s" "length (ucs2_of p s) \<le> 254" "pp_alloc p (length s + 1)"
    using assms(1) by (cases v) (auto simp: string_valid_def)
  with ptp_unpack_string_at [of "ucs2_of p s" pre post p] string_valid_text [of p s] assms
  show ?thesis by (simp add: name_bytes_def c_strdup_def add.assoc)
qed

lemmas unpack_runs = string.unpack_runs array.unpack_runs array16.unpack_runs

text \<open>Parameters of a device without \<open>iconv\<close>, for concrete runs.\<close>

definition plain_params :: ptp_params where
  "plain_params = \<lparr>pp_ucs2_to_locale = None, pp_locale_to_ucs2 = None, pp_alloc = (\<lambda>_. True),
     pp_junk = (\<lambda>_. 0xaa), pp_mktime = (\<lambda>t. tm_year t * 31536000 + tm_sec t), pp_ocs64 = False,
     pp_sony_mode_ver = 0\<rparr>"

text \<open>
  C22. Strings survive packing and unpacking: whatever stands before and behind it in the
  buffer, a packed string is unpacked to itself, with the offset behind it, for every pair of
  conversions that takes the string back and forth.
\<close>

theorem ptp_string_roundtrip:
  assumes "string_valid p (Some s)" "ptp_get_packed_stringcopy p (Some s) = Some (Some bs, n)"
    and "length pre + length bs + length post < 2 ^ 32 - 1"
  shows "unat n = length bs
    \<and> ptp_unpack_string p (Some (pre @ bs @ post)) (of_nat (length pre))
       (of_nat (length (pre @ bs @ post))) = Some (True, of_nat (length pre + length bs), Some s)"
  using string.pack_unpack [OF assms] .

theorem ptp_string_roundtrip_witness:
  "ptp_unpack_string plain_params (Some ([1, 2] @ string_bytes [0x41, 0x42] @ [3])) 2 10
     = Some (True, 9, Some ''AB'')"
proof -
  have v: "string_valid plain_params (Some ''AB'')"
    by (rule ascii_valid) (auto simp: plain_params_def)
  have us: "ucs2_of plain_params ''AB'' = [0x41, 0x42]"
    by (simp add: ucs2_of_def plain_params_def char_byte_def)
  then have "ptp_get_packed_stringcopy plain_params (Some ''AB'')
      = Some (Some (string_bytes [0x41, 0x42]), 7)"
    by (simp add: ptp_get_packed_stringcopy_bytes) (simp add: plain_params_def)
  from ptp_string_roundtrip [OF v this, of "[1, 2]" "[3]"] show ?thesis by simp
qed

text \<open>
  A string of 255 characters or more is not packed: its length is 0, and the copy handed out
  is one byte of uninitialised memory.
\<close>

lemma ptp_get_packed_stringcopy_long:
  assumes "255 < length s" "pp_alloc p 1"
  shows "ptp_get_packed_stringcopy p (Some s) = Some (Some [pp_junk p 0], 1)"
  using assms
  by (simp add: ptp_get_packed_stringcopy_def ptp_pack_string_def PTP_MAXSTRLEN_def upt_conv_Cons)

end
