(* ===== verification/PtpInfo.thy ===== *)
theory PtpInfo
  imports PtpCodec
begin

unbundle bit_operations_syntax

text \<open>
  The fixed datasets of \<open>camlibs/ptp2/ptp-pack.c\<close>: DeviceInfo (also Canon's EOS variant),
  StorageInfo, handle arrays and ObjectInfo with its date strings. A function that leaves its
  result structure as it was on some path takes the old structure as an argument.
\<close>

section \<open>DeviceInfo\<close>

record PTPDeviceInfo =
  di_StandardVersion :: u16
  di_VendorExtensionID :: u32
  di_VendorExtensionVersion :: u16
  di_VendorExtensionDesc :: "string option"
  di_FunctionalMode :: u16
  di_Operations :: "u16 list"
  di_Events :: "u16 list"
  di_DeviceProps :: "u16 list"
  di_CaptureFormats :: "u16 list"
  di_ImageFormats :: "u16 list"
  di_Manufacturer :: "string option"
  di_Model :: "string option"
  di_DeviceVersion :: "string option"
  di_SerialNumber :: "string option"

definition di_zero :: PTPDeviceInfo where
  "di_zero = \<lparr>di_StandardVersion = 0, di_VendorExtensionID = 0, di_VendorExtensionVersion = 0,
     di_VendorExtensionDesc = None, di_FunctionalMode = 0, di_Operations = [], di_Events = [],
     di_DeviceProps = [], di_CaptureFormats = [], di_ImageFormats = [], di_Manufacturer = None,
     di_Model = None, di_DeviceVersion = None, di_SerialNumber = None\<rparr>"

definition ptp_unpack_DI ::
    "'p ptp_params_scheme \<Rightarrow> buffer \<Rightarrow> PTPDeviceInfo \<Rightarrow> u32 \<Rightarrow> (bool \<times> PTPDeviceInfo) option" where
  "ptp_unpack_DI p data di datalen =
     (if data = None then Some (False, di)
      else if datalen < 12 then Some (False, di)
      else do {
        sv \<leftarrow> rd16 data 0;
        vid \<leftarrow> rd32 data 2;
        vv \<leftarrow> rd16 data 6;
        let di = di_zero\<lparr>di_StandardVersion := sv, di_VendorExtensionID := vid,
                   di_VendorExtensionVersion := vv\<rparr>;
        (ok, off, s) \<leftarrow> ptp_unpack_string p data 8 datalen;
        let di = di\<lparr>di_VendorExtensionDesc := s\<rparr>;
        if \<not> ok then Some (False, di)
        else if unat datalen \<le> unat off + 2 then Some (False, di)
        else do {
        fm \<leftarrow> rd16 data off;
        let di = di\<lparr>di_FunctionalMode := fm\<rparr>;
        (ok, off, ws) \<leftarrow> ptp_unpack_uint16_t_array p data (off + 2) datalen;
        let di = di\<lparr>di_Operations := ws\<rparr>;
        if \<not> ok then Some (False, di) else do {
        (ok, off, ws) \<leftarrow> ptp_unpack_uint16_t_array p data off datalen;
        let di = di\<lparr>di_Events := ws\<rparr>;
        if \<not> ok then Some (False, di) else do {
        (ok, off, ws) \<leftarrow> ptp_unpack_uint16_t_array p data off datalen;
        let di = di\<lparr>di_DeviceProps := ws\<rparr>;
        if \<not> ok then Some (False, di) else do {
        (ok, off, ws) \<leftarrow> ptp_unpack_uint16_t_array p data off datalen;
        let di = di\<lparr>di_CaptureFormats := ws\<rparr>;
        if \<not> ok then Some (False, di) else do {
        (ok, off, ws) \<leftarrow> ptp_unpack_uint16_t_array p data off datalen;
        let di = di\<lparr>di_ImageFormats := ws\<rparr>;
        if \<not> ok then Some (False, di) else do {
        (_, off, s) \<leftarrow> ptp_unpack_string p data off datalen;
        let di = di\<lparr>di_Manufacturer := s\<rparr>;
        (_, off, s) \<leftarrow> ptp_unpack_string p data off datalen;
        let di = di\<lparr>di_Model := s\<rparr>;
        (_, off, s) \<leftarrow> ptp_unpack_string p data off datalen;
        let di = di\<lparr>di_DeviceVersion := s\<rparr>;
        (_, _, s) \<leftarrow> ptp_unpack_string p data off datalen;
        Some (True, di\<lparr>di_SerialNumber := s\<rparr>)
        }}}}}}})"

record PTPCanonEOSDeviceInfo =
  edi_Events :: "u32 list"
  edi_DeviceProps :: "u32 list"
  edi_unk :: "u32 list"

definition ptp_unpack_EOS_DI ::
    "'p ptp_params_scheme \<Rightarrow> buffer \<Rightarrow> u32 \<Rightarrow> (bool \<times> PTPCanonEOSDeviceInfo) option" where
  "ptp_unpack_EOS_DI p data datalen = do {
     (_, off, es) \<leftarrow> ptp_unpack_uint32_t_array p data 4 datalen;
     (_, off, ps) \<leftarrow> ptp_unpack_uint32_t_array p data off datalen;
     (_, off, us) \<leftarrow> ptp_unpack_uint32_t_array p data off datalen;
     Some (16 \<le> off, \<lparr>edi_Events = es, edi_DeviceProps = ps, edi_unk = us\<rparr>)
   }"

text \<open>Object handles and storage IDs: no result, only the array.\<close>

definition ptp_unpack_ArrayU32 ::
    "'p ptp_params_scheme \<Rightarrow> buffer \<Rightarrow> u32 \<Rightarrow> u32 list option" where
  "ptp_unpack_ArrayU32 p data data_size = do {
     (_, _, ws) \<leftarrow> ptp_unpack_uint32_t_array p data 0 data_size;
     Some ws
   }"

section \<open>StorageInfo\<close>

record PTPStorageInfo =
  si_StorageType :: u16
  si_FilesystemType :: u16
  si_AccessCapability :: u16
  si_MaxCapability :: u64
  si_FreeSpaceInBytes :: u64
  si_FreeSpaceInImages :: u32
  si_StorageDescription :: "string option"
  si_VolumeLabel :: "string option"

definition ptp_unpack_SI ::
    "'p ptp_params_scheme \<Rightarrow> buffer \<Rightarrow> PTPStorageInfo \<Rightarrow> u32 \<Rightarrow> (bool \<times> PTPStorageInfo) option" where
  "ptp_unpack_SI p data si len =
     (if data = None \<or> len < 26 then Some (False, si)
      else do {
        st \<leftarrow> rd16 data 0;
        ft \<leftarrow> rd16 data 2;
        ac \<leftarrow> rd16 data 4;
        mc \<leftarrow> rd64 data 6;
        fb \<leftarrow> rd64 data 14;
        fi \<leftarrow> rd32 data 22;
        let si = si\<lparr>si_StorageType := st, si_FilesystemType := ft, si_AccessCapability := ac,
                   si_MaxCapability := mc, si_FreeSpaceInBytes := fb, si_FreeSpaceInImages := fi\<rparr>;
        (ok, off, s) \<leftarrow> ptp_unpack_string p data 26 len;
        let si = si\<lparr>si_StorageDescription := s\<rparr>;
        if \<not> ok then Some (False, si) else do {
        (ok, _, s) \<leftarrow> ptp_unpack_string p data off len;
        Some (ok, si\<lparr>si_VolumeLabel := s\<rparr>)
        }
      })"

section \<open>Dates\<close>

text \<open>\<open>atoi\<close>.\<close>

definition c_atoi :: "string \<Rightarrow> int" where
  "c_atoi s =
     (let t = dropWhile isspace s
      in case t of [] \<Rightarrow> 0
         | c # r \<Rightarrow> if c = CHR ''-'' then - int (digits_value (takeWhile isdigit r))
                   else if c = CHR ''+'' then int (digits_value (takeWhile isdigit r))
                   else int (digits_value (takeWhile isdigit t)))"

definition substring :: "string \<Rightarrow> nat \<Rightarrow> nat \<Rightarrow> string" where
  "substring s i n = take n (drop i s)"

definition ptp_unpack_PTPTIME :: "'p ptp_params_scheme \<Rightarrow> string option \<Rightarrow> int" where
  "ptp_unpack_PTPTIME p str =
     (case str of None \<Rightarrow> 0
      | Some ptpdate \<Rightarrow>
          if 40 \<le> length ptpdate then 0
          else if length ptpdate < 15 then 0
          else pp_mktime p \<lparr>tm_year = c_atoi (substring ptpdate 0 4) - 1900,
                 tm_mon = c_atoi (substring ptpdate 4 2) - 1,
                 tm_mday = c_atoi (substring ptpdate 6 2),
                 tm_hour = c_atoi (substring ptpdate 9 2),
                 tm_min = c_atoi (substring ptpdate 11 2),
                 tm_sec = c_atoi (substring ptpdate 13 2)\<rparr>)"

section \<open>ObjectInfo\<close>

record PTPObjectInfo =
  oi_Handle :: u32
  oi_StorageID :: u32
  oi_ObjectFormat :: u16
  oi_ProtectionStatus :: u16
  oi_ObjectSize :: u64
  oi_ThumbFormat :: u16
  oi_ThumbSize :: u32
  oi_ThumbPixWidth :: u32
  oi_ThumbPixHeight :: u32
  oi_ImagePixWidth :: u32
  oi_ImagePixHeight :: u32
  oi_ImageBitDepth :: u32
  oi_ParentObject :: u32
  oi_AssociationType :: u16
  oi_AssociationDesc :: u32
  oi_SequenceNumber :: u32
  oi_Filename :: "string option"
  oi_CaptureDate :: int
  oi_ModificationDate :: int
  oi_Keywords :: "string option"

text \<open>
  \<open>ptp_pack_OI\<close>: the buffer of \<open>PTP_oi_MaxLen\<close> bytes (four more for a 64-bit size) and the
  length of the dataset. A NULL name or a failed allocation is dereferenced.
\<close>

definition PTP_oi_MaxLen :: nat where
  "PTP_oi_MaxLen = 53 + (PTP_MAXSTRLEN + 1) * 2 + 3"

definition ptp_pack_OI ::
    "'p ptp_params_scheme \<Rightarrow> PTPObjectInfo \<Rightarrow> (byte list \<times> u32) option" where
  "ptp_pack_OI p oi =
     (let n = PTP_oi_MaxLen + (if pp_ocs64 p then 4 else 0);
          b = (if pp_ocs64 p then 4 else 0)
      in if \<not> pp_alloc p n then None else do {
        d \<leftarrow> wr (replicate n 0) 0 (put32 (oi_StorageID oi));
        d \<leftarrow> wr d 4 (put16 (oi_ObjectFormat oi));
        d \<leftarrow> wr d 6 (put16 (oi_ProtectionStatus oi));
        d \<leftarrow> wr d 8 (put32 (ucast (oi_ObjectSize oi)));
        d \<leftarrow> wr d (b + 12) (put16 (oi_ThumbFormat oi));
        d \<leftarrow> wr d (b + 14) (put32 (oi_ThumbSize oi));
        d \<leftarrow> wr d (b + 18) (put32 (oi_ThumbPixWidth oi));
        d \<leftarrow> wr d (b + 22) (put32 (oi_ThumbPixHeight oi));
        d \<leftarrow> wr d (b + 26) (put32 (oi_ImagePixWidth oi));
        d \<leftarrow> wr d (b + 30) (put32 (oi_ImagePixHeight oi));
        d \<leftarrow> wr d (b + 34) (put32 (oi_ImageBitDepth oi));
        d \<leftarrow> wr d (b + 38) (put32 (oi_ParentObject oi));
        d \<leftarrow> wr d (b + 42) (put16 (oi_AssociationType oi));
        d \<leftarrow> wr d (b + 44) (put32 (oi_AssociationDesc oi));
        d \<leftarrow> wr d (b + 48) (put32 (oi_SequenceNumber oi));
        nm \<leftarrow> oi_Filename oi;
        (d, filenamelen) \<leftarrow> ptp_pack_string p nm d (b + 52);
        Some (d, (53 + ucast filenamelen * 2 + 3) + of_nat b)
      })"

text \<open>
  \<open>ptp_unpack_OI\<close>: a zero where the length of the name should be, with a non-zero byte four
  further on, is taken for a dataset with a 64-bit object size, and noted in \<open>params\<close>.
\<close>

definition ptp_unpack_OI ::
    "'p ptp_params_scheme \<Rightarrow> buffer \<Rightarrow> PTPObjectInfo \<Rightarrow> u32
      \<Rightarrow> ('p ptp_params_scheme \<times> PTPObjectInfo) option" where
  "ptp_unpack_OI p data oi len =
     (if data = None \<or> len < 52 + 5 then Some (p, oi)
      else do {
        let oi = oi\<lparr>oi_Filename := None, oi_Keywords := None\<rparr>;
        sid \<leftarrow> rd32 data 0;
        fmt \<leftarrow> rd16 data 4;
        prot \<leftarrow> rd16 data 6;
        sz \<leftarrow> rd32 data 8;
        let oi = oi\<lparr>oi_StorageID := sid, oi_ObjectFormat := fmt, oi_ProtectionStatus := prot,
                   oi_ObjectSize := ucast sz\<rparr>;
        x \<leftarrow> rd8 data 52;
        y \<leftarrow> (if x = 0 then rd8 data 56 else Some 0);
        let big = (x = 0 \<and> y \<noteq> 0);
        let p = (if big then p\<lparr>pp_ocs64 := True\<rparr> else p);
        let data = (if big then map_option (drop 4) data else data);
        let len = (if big then len - 4 else len);
        tf \<leftarrow> rd16 data 12;
        ts \<leftarrow> rd32 data 14;
        tw \<leftarrow> rd32 data 18;
        th \<leftarrow> rd32 data 22;
        iw \<leftarrow> rd32 data 26;
        ih \<leftarrow> rd32 data 30;
        bd \<leftarrow> rd32 data 34;
        po \<leftarrow> rd32 data 38;
        at \<leftarrow> rd16 data 42;
        ad \<leftarrow> rd32 data 44;
        sn \<leftarrow> rd32 data 48;
        let oi = oi\<lparr>oi_ThumbFormat := tf, oi_ThumbSize := ts, oi_ThumbPixWidth := tw,
                   oi_ThumbPixHeight := th, oi_ImagePixWidth := iw, oi_ImagePixHeight := ih,
                   oi_ImageBitDepth := bd, oi_ParentObject := po, oi_AssociationType := at,
                   oi_AssociationDesc := ad, oi_SequenceNumber := sn\<rparr>;
        (_, off, nm) \<leftarrow> ptp_unpack_string p data 52 len;
        let oi = oi\<lparr>oi_Filename := nm\<rparr>;
        (_, off, date) \<leftarrow> ptp_unpack_string p data off len;
        let oi = oi\<lparr>oi_CaptureDate := ptp_unpack_PTPTIME p date\<rparr>;
        (_, _, date) \<leftarrow> ptp_unpack_string p data off len;
        Some (p, oi\<lparr>oi_ModificationDate := ptp_unpack_PTPTIME p date\<rparr>)
      })"

section \<open>Memory safety\<close>

text \<open>Every dataset is unpacked without a read outside its buffer.\<close>

lemma ptp_unpack_DI_runs:
  assumes "unat sz \<le> length d" "sz \<noteq> - 1"
  shows "runs (ptp_unpack_DI p (Some d) di sz) (\<lambda>_. True)"
proof (cases "sz < 12")
  case False
  have step: "off + 2 \<le> sz" if "\<not> unat sz \<le> unat off + 2" for off
    using that unat_u32_less [of sz] by (simp add: word_le_nat_alt)
  from False have "12 \<le> unat sz" "8 \<le> sz" by (simp_all add: word_less_nat_alt word_le_nat_alt not_less)
  with assms show ?thesis
    unfolding ptp_unpack_DI_def Let_def
    by (auto simp: split_beta step intro!: runs_intros unpack_runs)
qed (simp add: ptp_unpack_DI_def)

lemma ptp_unpack_SI_runs:
  assumes "unat sz \<le> length d" "sz \<noteq> - 1"
  shows "runs (ptp_unpack_SI p (Some d) si sz) (\<lambda>_. True)"
proof (cases "sz < 26")
  case False
  then have "26 \<le> unat sz" "26 \<le> sz" by (simp_all add: word_less_nat_alt word_le_nat_alt not_less)
  with assms show ?thesis
    unfolding ptp_unpack_SI_def Let_def
    by (auto simp: split_beta intro!: runs_intros unpack_runs)
qed (simp add: ptp_unpack_SI_def)

lemma ptp_unpack_EOS_DI_runs:
  assumes "unat sz \<le> length d" "sz \<noteq> - 1"
  shows "runs (ptp_unpack_EOS_DI p (Some d) sz) (\<lambda>_. True)"
proof (cases "unat sz < 4")
  case True
  then show ?thesis by (simp add: ptp_unpack_EOS_DI_def ptp_unpack_uint32_t_array_def)
next
  case False
  then have "4 \<le> sz" by (simp add: word_le_nat_alt)
  with assms show ?thesis
    unfolding ptp_unpack_EOS_DI_def by (auto simp: split_beta intro!: runs_intros unpack_runs)
qed

lemma ptp_unpack_OI_runs:
  assumes "unat sz \<le> length d" "sz \<noteq> - 1"
  shows "runs (ptp_unpack_OI p (Some d) oi sz) (\<lambda>_. True)"
proof (cases "sz < 57")
  case False
  then have sz: "57 \<le> unat sz" "57 \<le> length d" "52 \<le> sz"
    using assms(1) by (simp_all add: word_less_nat_alt word_le_nat_alt not_less)
  then have u4: "unat (sz - 4) = unat sz - 4" by (simp add: unat_sub word_le_nat_alt)
  then have s4: "52 \<le> sz - 4" "sz - 4 \<noteq> - 1" "unat (sz - 4) \<le> length (drop 4 d)"
    using sz assms u32_not_max [OF assms(2)] unat_u32_max
    by (auto simp: word_le_nat_alt word_unat_eq_iff [of "sz - 4"])
  show ?thesis
    using assms sz s4 unfolding ptp_unpack_OI_def Let_def
    by (auto simp: split_beta intro!: runs_intros unpack_runs)
qed (simp add: ptp_unpack_OI_def)

section \<open>ObjectInfo is read back\<close>

text \<open>
  The packed dataset: the fields up to the size, four zero bytes with a 64-bit size, the other
  fields, the name and a zeroed rest.
\<close>

definition oi_head :: "PTPObjectInfo \<Rightarrow> byte list" where
  "oi_head oi = put32 (oi_StorageID oi) @ put16 (oi_ObjectFormat oi) @ put16 (oi_ProtectionStatus oi)
     @ put32 (ucast (oi_ObjectSize oi))"

definition oi_tail :: "PTPObjectInfo \<Rightarrow> byte list" where
  "oi_tail oi = put16 (oi_ThumbFormat oi) @ put32 (oi_ThumbSize oi) @ put32 (oi_ThumbPixWidth oi)
     @ put32 (oi_ThumbPixHeight oi) @ put32 (oi_ImagePixWidth oi) @ put32 (oi_ImagePixHeight oi)
     @ put32 (oi_ImageBitDepth oi) @ put32 (oi_ParentObject oi) @ put16 (oi_AssociationType oi)
     @ put32 (oi_AssociationDesc oi) @ put32 (oi_SequenceNumber oi)"

lemma length_oi [simp]: "length (oi_head oi) = 12" "length (oi_tail oi) = 40"
  by (simp_all add: oi_head_def oi_tail_def)

lemma ptp_pack_OI_bytes:
  assumes "oi_Filename oi = Some nm" "length nm \<le> 255" "length (ucs2_of p nm) \<le> 254"
    "0 \<notin> set (ucs2_of p nm)" "pp_alloc p (568 + (if pp_ocs64 p then 4 else 0))"
  defines "us \<equiv> ucs2_of p nm"
  defines "b \<equiv> if pp_ocs64 p then 4 else 0"
  shows "ptp_pack_OI p oi = Some (oi_head oi @ replicate b 0 @ oi_tail oi @ string_bytes us
      @ replicate (513 - 2 * length us) 0, of_nat (b + 52 + (2 * length us + 3) + 3))"
proof -
  have us: "length us \<le> 254" using assms by simp
  define f where "f = (\<lambda>d. do {
      (d, l) \<leftarrow> ptp_pack_string p nm d (b + 52); Some (d, (53 + ucast l * 2 + 3) + of_nat b :: u32) })"
  have e1: "ptp_pack_OI p oi = do {
      d \<leftarrow> wr (replicate (568 + b) 0) 0 (oi_head oi); d \<leftarrow> wr d (b + 12) (oi_tail oi); f d }"
    using assms(1,5) unfolding ptp_pack_OI_def oi_head_def oi_tail_def f_def
    by (simp add: wr_then PTP_oi_MaxLen_def PTP_MAXSTRLEN_def b_def add.assoc del: replicate.simps)
  have e2: "wr (replicate (568 + b) 0) 0 (oi_head oi) = Some ((oi_head oi @ replicate b 0) @ replicate 556 0)"
    using wr_app [of 0 "[]" "oi_head oi" "replicate (568 + b) 0"]
    by (simp add: replicate_add [symmetric] add.commute)
  have e3: "wr ((oi_head oi @ replicate b 0) @ replicate 556 0) (b + 12) (oi_tail oi)
      = Some ((oi_head oi @ replicate b 0 @ oi_tail oi) @ replicate 516 0)"
    by (subst wr_app) simp_all
  have "ptp_pack_OI p oi
      = f ((oi_head oi @ replicate b 0 @ oi_tail oi) @ replicate 516 0)"
    by (simp only: e1 e2 e3 Option.bind.simps)
  moreover have "wr ((oi_head oi @ replicate b 0 @ oi_tail oi) @ replicate 516 0) (b + 52) (string_bytes us)
      = Some (oi_head oi @ replicate b 0 @ oi_tail oi @ string_bytes us @ replicate (513 - 2 * length us) 0)"
    using us by (subst wr_app) simp_all
  moreover have "ucast (of_nat (length us) + 1 :: u8) = (of_nat (length us + 1) :: u32)"
  proof -
    have "unat (of_nat (length us) + 1 :: u8) = length us + 1"
      using us unat_of_nat_u8 [of "length us + 1"] by (simp add: add.commute)
    then show ?thesis by (metis of_nat_unat)
  qed
  ultimately show ?thesis
    unfolding f_def by (simp add: ptp_pack_string_bytes [OF assms(2-4)] us_def [symmetric] algebra_simps)
qed

lemma string_NUL_at:
  assumes "unat off < unat sz" "unat sz \<le> length d" "d ! unat off = 0"
  shows "ptp_unpack_string p (Some d) off sz = Some (True, off + 1, c_strdup p [])"
proof -
  have "unat (off + 1) = unat off + 1"
    using assms(1) unat_u32_less [of sz] by (intro unat_off_add_numeral) simp
  then have "\<not> sz < off + 1" using assms(1) by (simp add: word_less_nat_alt)
  then show ?thesis using assms by (simp add: ptp_unpack_string_def)
qed

text \<open>
  C14. An ObjectInfo dataset packed for a device without 64-bit sizes is read back from
  the bytes that are sent: every field, the size modulo $2^{32}$, the name, no dates.
\<close>

theorem ptp_OI_roundtrip:
  assumes "oi_Filename oi = Some nm" "string_valid p (Some nm)" "pp_alloc p 568" "\<not> pp_ocs64 p"
    and "ptp_pack_OI p oi = Some (d, n)"
  shows "ptp_unpack_OI p (Some (take (unat n) d)) old n = Some (p, oi\<lparr>oi_Handle := oi_Handle old,
      oi_ObjectSize := ucast (ucast (oi_ObjectSize oi) :: u32), oi_CaptureDate := 0,
      oi_ModificationDate := 0, oi_Keywords := None\<rparr>)"
proof -
  define us where "us = ucs2_of p nm"
  from assms(2) have v: "length nm \<le> 255" "length us \<le> 254" "0 \<notin> set us" "pp_alloc p (length nm + 1)"
    by (simp_all add: string_valid_def us_def)
  define pre where "pre = oi_head oi @ oi_tail oi"
  define w where "w = pre @ string_bytes us @ [0, 0, 0]"
  have pre: "length pre = 52" by (simp add: pre_def)
  have d: "d = w @ replicate (510 - 2 * length us) 0" "n = of_nat (length w)"
  proof -
    have "513 - 2 * length us = Suc (Suc (Suc (510 - 2 * length us)))" using v(2) by simp
    then have "[0, 0, 0] @ replicate (510 - 2 * length us) 0 = replicate (513 - 2 * length us) (0 :: byte)"
      by (simp only: replicate_Suc append_Cons append_Nil)
    then show "d = w @ replicate (510 - 2 * length us) 0" "n = of_nat (length w)"
      using ptp_pack_OI_bytes [of oi nm p] assms v by (auto simp: us_def w_def pre_def)
  qed
  have lw: "length w = 58 + 2 * length us" "unat n = length w"
    using v(2) by (simp_all add: w_def pre_def d(2) unat_of_nat_u32 del: of_nat_add of_nat_mult)
  have tk: "take (unat n) d = w" by (simp add: d(1) lw)
  have "w ! 52 = of_nat (length us + 1)"
    by (simp add: w_def nth_append pre string_bytes_def)
  then have "unat (w ! 52) \<noteq> 0" using v(2) unat_of_nat_u8 [of "length us + 1"] by simp
  then have w52: "w ! 52 \<noteq> 0" by auto
  have fields: "le32 w 0 = oi_StorageID oi" "le16 w 4 = oi_ObjectFormat oi"
    "le16 w 6 = oi_ProtectionStatus oi" "le32 w 8 = ucast (oi_ObjectSize oi)"
    "le16 w 12 = oi_ThumbFormat oi" "le32 w 14 = oi_ThumbSize oi" "le32 w 18 = oi_ThumbPixWidth oi"
    "le32 w 22 = oi_ThumbPixHeight oi" "le32 w 26 = oi_ImagePixWidth oi"
    "le32 w 30 = oi_ImagePixHeight oi" "le32 w 34 = oi_ImageBitDepth oi"
    "le32 w 38 = oi_ParentObject oi" "le16 w 42 = oi_AssociationType oi"
    "le32 w 44 = oi_AssociationDesc oi" "le32 w 48 = oi_SequenceNumber oi"
    by (simp_all add: w_def pre_def oi_head_def oi_tail_def le_skip)
  define off where "off k = (of_nat (length pre + 2 * length us + 3 + k) :: u32)" for k
  have s1: "ptp_unpack_string p (Some w) 52 n = Some (True, off 0, Some nm)"
    using ptp_unpack_string_at [of us pre "[0, 0, 0]" p] v string_valid_text [OF assms(2), folded us_def]
    by (simp add: w_def [symmetric] pre d(2) [symmetric] off_def c_strdup_def)
  have s2: "ptp_unpack_string p (Some w) (off k) n = Some (True, off (k + 1), c_strdup p [])"
    if "k < 3" for k
  proof -
    have u: "unat (off k) = 55 + 2 * length us + k"
      using that v(2) by (simp add: off_def pre unat_of_nat_u32 del: of_nat_add of_nat_mult of_nat_numeral)
    have "w = (pre @ string_bytes us) @ [0, 0, 0]" by (simp add: w_def)
    then have "w ! (55 + 2 * length us + k) = [0, 0, 0] ! k"
      using nth_append_length_plus [of "pre @ string_bytes us" "[0, 0, 0]" k]
      by (simp add: pre add.commute add.left_commute)
    also have "\<dots> = 0" using that by (auto simp: less_Suc_eq eval_nat_numeral)
    finally show ?thesis
      using string_NUL_at [of "off k" n w p] that u by (simp add: lw off_def)
  qed
  have pt: "ptp_unpack_PTPTIME p (c_strdup p []) = 0"
    by (simp add: ptp_unpack_PTPTIME_def c_strdup_def)
  have n57: "\<not> n < 57" by (simp add: word_less_nat_alt lw)
  show ?thesis
    unfolding tk using s1 s2 [of 0] s2 [of 1] w52 lw n57
    by (simp add: ptp_unpack_OI_def Let_def fields pt assms(1))
qed

section \<open>DeviceInfo against its dataset\<close>

text \<open>
  The DeviceInfo dataset of the PTP standard, as a responder with valid strings sends it.
\<close>

definition di_bytes :: "'p ptp_params_scheme \<Rightarrow> PTPDeviceInfo \<Rightarrow> byte list" where
  "di_bytes p di = put16 (di_StandardVersion di) @ put32 (di_VendorExtensionID di)
     @ put16 (di_VendorExtensionVersion di) @ name_bytes p (di_VendorExtensionDesc di)
     @ put16 (di_FunctionalMode di) @ array16_bytes (di_Operations di)
     @ array16_bytes (di_Events di) @ array16_bytes (di_DeviceProps di)
     @ array16_bytes (di_CaptureFormats di) @ array16_bytes (di_ImageFormats di)
     @ name_bytes p (di_Manufacturer di) @ name_bytes p (di_Model di)
     @ name_bytes p (di_DeviceVersion di) @ name_bytes p (di_SerialNumber di)"

definition di_valid :: "'p ptp_params_scheme \<Rightarrow> PTPDeviceInfo \<Rightarrow> bool" where
  "di_valid p di = (length (di_bytes p di) < 2 ^ 32 - 1
     \<and> list_all (string_valid p) [di_VendorExtensionDesc di, di_Manufacturer di, di_Model di,
         di_DeviceVersion di, di_SerialNumber di]
     \<and> list_all (\<lambda>ws. pp_alloc p (length ws * 2)) [di_Operations di, di_Events di,
         di_DeviceProps di, di_CaptureFormats di, di_ImageFormats di])"

text \<open>
  C23. A well-formed DeviceInfo dataset is unpacked into exactly the structure it encodes.
\<close>

theorem ptp_unpack_DI_dataset:
  assumes "di_valid p di"
  shows "ptp_unpack_DI p (Some (di_bytes p di)) old (of_nat (length (di_bytes p di))) = Some (True, di)"
proof -
  define d where "d = di_bytes p di"
  define n :: u32 where "n = of_nat (length d)"
  have len: "length d < 2 ^ 32 - 1" and len': "length d < 2 ^ 32"
    using assms by (simp_all add: di_valid_def d_def)
  have v: "string_valid p (di_VendorExtensionDesc di)" "string_valid p (di_Manufacturer di)"
    "string_valid p (di_Model di)" "string_valid p (di_DeviceVersion di)"
    "string_valid p (di_SerialNumber di)"
    and al: "pp_alloc p (length (di_Operations di) * 2)" "pp_alloc p (length (di_Events di) * 2)"
    "pp_alloc p (length (di_DeviceProps di) * 2)" "pp_alloc p (length (di_CaptureFormats di) * 2)"
    "pp_alloc p (length (di_ImageFormats di) * 2)"
    using assms by (simp_all add: di_valid_def)
  define q0 where "q0 = put16 (di_StandardVersion di) @ put32 (di_VendorExtensionID di)
    @ put16 (di_VendorExtensionVersion di)"
  define q1 where "q1 = (q0 @ name_bytes p (di_VendorExtensionDesc di)) @ put16 (di_FunctionalMode di)"
  define q2 where "q2 = q1 @ array16_bytes (di_Operations di)"
  define q3 where "q3 = q2 @ array16_bytes (di_Events di)"
  define q4 where "q4 = q3 @ array16_bytes (di_DeviceProps di)"
  define q5 where "q5 = q4 @ array16_bytes (di_CaptureFormats di)"
  define q6 where "q6 = q5 @ array16_bytes (di_ImageFormats di)"
  define q7 where "q7 = q6 @ name_bytes p (di_Manufacturer di)"
  define q8 where "q8 = q7 @ name_bytes p (di_Model di)"
  define q9 where "q9 = q8 @ name_bytes p (di_DeviceVersion di)"
  note q = q1_def q2_def q3_def q4_def q5_def q6_def q7_def q8_def q9_def
  note str = string_at [OF _ _ len, folded n_def] and arr = ptp_unpack_uint16_t_array_at [OF _ len', folded n_def]
  note all = d_def di_bytes_def q0_def q
  have l0: "length q0 = 8" by (simp add: q0_def)
  have "ptp_unpack_string p (Some d) 8 n
      = Some (True, of_nat (length (q0 @ name_bytes p (di_VendorExtensionDesc di))), di_VendorExtensionDesc di)"
    using str [OF v(1), of q0] by (simp add: all l0)
  moreover have "ptp_unpack_uint16_t_array p (Some d) (of_nat (length q1)) n
      = Some (True, of_nat (length q2), di_Operations di)"
    using arr [OF _ al(1), of q1] by (simp add: all)
  moreover have "ptp_unpack_uint16_t_array p (Some d) (of_nat (length q2)) n
      = Some (True, of_nat (length q3), di_Events di)"
    using arr [OF _ al(2), of q2] by (simp add: all)
  moreover have "ptp_unpack_uint16_t_array p (Some d) (of_nat (length q3)) n
      = Some (True, of_nat (length q4), di_DeviceProps di)"
    using arr [OF _ al(3), of q3] by (simp add: all)
  moreover have "ptp_unpack_uint16_t_array p (Some d) (of_nat (length q4)) n
      = Some (True, of_nat (length q5), di_CaptureFormats di)"
    using arr [OF _ al(4), of q4] by (simp add: all)
  moreover have "ptp_unpack_uint16_t_array p (Some d) (of_nat (length q5)) n
      = Some (True, of_nat (length q6), di_ImageFormats di)"
    using arr [OF _ al(5), of q5] by (simp add: all)
  moreover have "ptp_unpack_string p (Some d) (of_nat (length q6)) n
      = Some (True, of_nat (length q7), di_Manufacturer di)"
    using str [OF v(2), of q6] by (simp add: all)
  moreover have "ptp_unpack_string p (Some d) (of_nat (length q7)) n
      = Some (True, of_nat (length q8), di_Model di)"
    using str [OF v(3), of q7] by (simp add: all)
  moreover have "ptp_unpack_string p (Some d) (of_nat (length q8)) n
      = Some (True, of_nat (length q9), di_DeviceVersion di)"
    using str [OF v(4), of q8] by (simp add: all)
  moreover obtain j where "ptp_unpack_string p (Some d) (of_nat (length q9)) n
      = Some (True, j, di_SerialNumber di)"
    using str [OF v(5), of q9 "[]"] by (simp add: all)
  moreover have "le16 d 0 = di_StandardVersion di" "le32 d 2 = di_VendorExtensionID di"
    "le16 d 6 = di_VendorExtensionVersion di"
    by (simp_all add: d_def di_bytes_def le_skip)
  moreover have "rd16 (Some d) (of_nat (length (q0 @ name_bytes p (di_VendorExtensionDesc di))))
      = Some (di_FunctionalMode di)"
    using rd16_at [of "q0 @ name_bytes p (di_VendorExtensionDesc di)"] len by (simp add: all)
  moreover have "of_nat (length (q0 @ name_bytes p (di_VendorExtensionDesc di))) + 2
      = (of_nat (length q1) :: u32)" by (simp add: q1_def)
  moreover have "unat n = length d" unfolding n_def by (rule unat_of_nat_u32 [OF len'])
  moreover have "20 \<le> length d" by (simp add: d_def di_bytes_def)
  moreover have "\<not> length d \<le> length (q0 @ name_bytes p (di_VendorExtensionDesc di)) + 2"
    by (simp add: all)
  moreover have "unat (of_nat (length (q0 @ name_bytes p (di_VendorExtensionDesc di))) :: u32)
      = length (q0 @ name_bytes p (di_VendorExtensionDesc di))"
    using len by (intro unat_of_nat_u32) (simp add: all)
  ultimately show ?thesis
    unfolding ptp_unpack_DI_def Let_def d_def [symmetric] n_def [symmetric]
    by (simp add: di_zero_def word_less_nat_alt del: length_append of_nat_add)
qed


section \<open>The properties at work\<close>



lemma c_atoi_digits:
  assumes "\<forall>c \<in> set ds. isdigit c"
  shows "c_atoi ds = int (digits_value ds)"
proof (cases ds)
  case (Cons c r)
  then have c: "isdigit c" using assms by simp
  have "\<not> isspace c" "c \<noteq> CHR ''-''" "c \<noteq> CHR ''+''"
    using c by (auto simp: isdigit_def isspace_def Let_def)
  moreover have "takeWhile isdigit ds = ds" using assms by simp
  ultimately show ?thesis by (simp add: c_atoi_def Cons)
qed (simp add: c_atoi_def digits_value_def)

lemma ptp_unpack_PTPTIME_date:
  assumes "list_all (\<lambda>ds. \<forall>c \<in> set ds. isdigit c) [y, mo, d, h, mi, s]"
    and "map length [y, mo, d, h, mi, s] = [4, 2, 2, 2, 2, 2]" "length rest < 25"
  shows "ptp_unpack_PTPTIME p (Some (y @ mo @ d @ CHR ''T'' # h @ mi @ s @ rest))
    = pp_mktime p \<lparr>tm_year = int (digits_value y) - 1900, tm_mon = int (digits_value mo) - 1,
        tm_mday = int (digits_value d), tm_hour = int (digits_value h),
        tm_min = int (digits_value mi), tm_sec = int (digits_value s)\<rparr>"
  using assms by (auto simp: ptp_unpack_PTPTIME_def substring_def c_atoi_digits)

definition sample_oi :: PTPObjectInfo where
  "sample_oi = \<lparr>oi_Handle = 7, oi_StorageID = 0x00010001, oi_ObjectFormat = 0x3801,
     oi_ProtectionStatus = 0, oi_ObjectSize = 0x123456789, oi_ThumbFormat = 0x3808,
     oi_ThumbSize = 5122, oi_ThumbPixWidth = 160, oi_ThumbPixHeight = 120, oi_ImagePixWidth = 4000,
     oi_ImagePixHeight = 3000, oi_ImageBitDepth = 24, oi_ParentObject = 0x92740000,
     oi_AssociationType = 0, oi_AssociationDesc = 0, oi_SequenceNumber = 1,
     oi_Filename = Some ''a.jpg'', oi_CaptureDate = 5, oi_ModificationDate = 6,
     oi_Keywords = None\<rparr>"

text \<open>
  Three truncated arrays move the offset past 16, so EOS DeviceInfo reports success with
  nothing unpacked.
\<close>

lemma ptp_unpack_EOS_DI_truncated:
  "ptp_unpack_EOS_DI plain_params (Some (replicate 16 0xff)) 16
    = Some (True, \<lparr>edi_Events = [], edi_DeviceProps = [], edi_unk = []\<rparr>)"
  by (simp add: ptp_unpack_EOS_DI_def ptp_unpack_uint32_t_array_def le32_def)

lemma sample_valid: "string_valid plain_params (Some ''a.jpg'')"
  by (rule ascii_valid) (auto simp: plain_params_def)

lemma ptp_pack_OI_defined:
  assumes "oi_Filename oi = Some nm" "string_valid p (Some nm)" "pp_alloc p 568" "\<not> pp_ocs64 p"
  obtains d n where "ptp_pack_OI p oi = Some (d, n)"
  using ptp_pack_OI_bytes [of oi nm p] assms by (auto simp: string_valid_def)

theorem ptp_OI_roundtrip_witness:
  "\<exists>d n. ptp_pack_OI plain_params sample_oi = Some (d, n) \<and>
     ptp_unpack_OI plain_params (Some (take (unat n) d)) sample_oi n = Some (plain_params,
       sample_oi\<lparr>oi_ObjectSize := 0x23456789, oi_CaptureDate := 0, oi_ModificationDate := 0\<rparr>)"
proof -
  have h: "oi_Filename sample_oi = Some ''a.jpg''" "pp_alloc plain_params 568" "\<not> pp_ocs64 plain_params"
    by (simp_all add: sample_oi_def plain_params_def)
  obtain d n where pk: "ptp_pack_OI plain_params sample_oi = Some (d, n)"
    by (rule ptp_pack_OI_defined [OF h(1) sample_valid h(2,3)])
  from ptp_OI_roundtrip [OF h(1) sample_valid h(2,3) pk, of sample_oi]
  show ?thesis using pk by (auto simp: sample_oi_def)
qed

definition sample_di :: PTPDeviceInfo where
  "sample_di = di_zero\<lparr>di_StandardVersion := 100, di_VendorExtensionID := 6,
     di_VendorExtensionDesc := Some ''microsoft.com'', di_Operations := [0x1001, 0x1002],
     di_Manufacturer := Some ''PENTAX'', di_Model := Some ''K-3'', di_DeviceVersion := Some ''1.0'',
     di_SerialNumber := Some []\<rparr>"

theorem ptp_unpack_DI_dataset_witness:
  "ptp_unpack_DI plain_params (Some (di_bytes plain_params sample_di)) di_zero
     (of_nat (length (di_bytes plain_params sample_di))) = Some (True, sample_di)"
proof (rule ptp_unpack_DI_dataset)
  show "di_valid plain_params sample_di"
    unfolding di_valid_def
    by (auto simp: sample_di_def di_zero_def di_bytes_def name_bytes_def ucs2_of_def plain_params_def
        intro!: ascii_valid)
qed


end
