(* ===== verification/PtpProps.thy ===== *)
theory PtpProps
  imports PtpCodec CamList
begin

unbundle bit_operations_syntax

text \<open>
  Property values and property descriptions of \<open>camlibs/ptp2/ptp-pack.c\<close>: the union
  \<open>PTPPropValue\<close>, device property descriptions (PTP and Sony), object property descriptions
  and MTP object property lists.
\<close>

section \<open>Property values\<close>

text \<open>
  The union is the member last written; \<open>PVzero\<close> is the union as \<open>memset\<close> and \<open>calloc\<close> leave it.
  An array is the list of its elements, \<open>count\<close> its length. Reading a member other than the one
  last written is not given a value.
\<close>

datatype propvalue =
    PVzero
  | PVi8 u8 | PVu8 u8 | PVi16 u16 | PVu16 u16 | PVi32 u32 | PVu32 u32 | PVi64 u64 | PVu64 u64
  | PVstr "string option"
  | PVarr "propvalue list"

fun pv_i8 :: "propvalue \<Rightarrow> u8 option" where
  "pv_i8 (PVi8 w) = Some w" | "pv_i8 PVzero = Some 0" | "pv_i8 _ = None"

fun pv_u8 :: "propvalue \<Rightarrow> u8 option" where
  "pv_u8 (PVu8 w) = Some w" | "pv_u8 PVzero = Some 0" | "pv_u8 _ = None"

fun pv_i16 :: "propvalue \<Rightarrow> u16 option" where
  "pv_i16 (PVi16 w) = Some w" | "pv_i16 PVzero = Some 0" | "pv_i16 _ = None"

fun pv_u16 :: "propvalue \<Rightarrow> u16 option" where
  "pv_u16 (PVu16 w) = Some w" | "pv_u16 PVzero = Some 0" | "pv_u16 _ = None"

fun pv_i32 :: "propvalue \<Rightarrow> u32 option" where
  "pv_i32 (PVi32 w) = Some w" | "pv_i32 PVzero = Some 0" | "pv_i32 _ = None"

fun pv_u32 :: "propvalue \<Rightarrow> u32 option" where
  "pv_u32 (PVu32 w) = Some w" | "pv_u32 PVzero = Some 0" | "pv_u32 _ = None"

fun pv_i64 :: "propvalue \<Rightarrow> u64 option" where
  "pv_i64 (PVi64 w) = Some w" | "pv_i64 PVzero = Some 0" | "pv_i64 _ = None"

fun pv_u64 :: "propvalue \<Rightarrow> u64 option" where
  "pv_u64 (PVu64 w) = Some w" | "pv_u64 PVzero = Some 0" | "pv_u64 _ = None"

fun pv_str :: "propvalue \<Rightarrow> string option option" where
  "pv_str (PVstr s) = Some s" | "pv_str PVzero = Some None" | "pv_str _ = None"

fun pv_arr :: "propvalue \<Rightarrow> propvalue list option" where
  "pv_arr (PVarr vs) = Some vs" | "pv_arr PVzero = Some []" | "pv_arr _ = None"

abbreviation PTP_DTC_UNDEF :: u16 where "PTP_DTC_UNDEF \<equiv> 0"
abbreviation PTP_DTC_INT8 :: u16 where "PTP_DTC_INT8 \<equiv> 1"
abbreviation PTP_DTC_UINT8 :: u16 where "PTP_DTC_UINT8 \<equiv> 2"
abbreviation PTP_DTC_INT16 :: u16 where "PTP_DTC_INT16 \<equiv> 3"
abbreviation PTP_DTC_UINT16 :: u16 where "PTP_DTC_UINT16 \<equiv> 4"
abbreviation PTP_DTC_INT32 :: u16 where "PTP_DTC_INT32 \<equiv> 5"
abbreviation PTP_DTC_UINT32 :: u16 where "PTP_DTC_UINT32 \<equiv> 6"
abbreviation PTP_DTC_INT64 :: u16 where "PTP_DTC_INT64 \<equiv> 7"
abbreviation PTP_DTC_UINT64 :: u16 where "PTP_DTC_UINT64 \<equiv> 8"
abbreviation PTP_DTC_INT128 :: u16 where "PTP_DTC_INT128 \<equiv> 9"
abbreviation PTP_DTC_UINT128 :: u16 where "PTP_DTC_UINT128 \<equiv> 10"
abbreviation PTP_DTC_ARRAY_MASK :: u16 where "PTP_DTC_ARRAY_MASK \<equiv> 0x4000"
abbreviation PTP_DTC_AINT8 :: u16 where "PTP_DTC_AINT8 \<equiv> 0x4001"
abbreviation PTP_DTC_AUINT8 :: u16 where "PTP_DTC_AUINT8 \<equiv> 0x4002"
abbreviation PTP_DTC_AINT16 :: u16 where "PTP_DTC_AINT16 \<equiv> 0x4003"
abbreviation PTP_DTC_AUINT16 :: u16 where "PTP_DTC_AUINT16 \<equiv> 0x4004"
abbreviation PTP_DTC_AINT32 :: u16 where "PTP_DTC_AINT32 \<equiv> 0x4005"
abbreviation PTP_DTC_AUINT32 :: u16 where "PTP_DTC_AUINT32 \<equiv> 0x4006"
abbreviation PTP_DTC_AINT64 :: u16 where "PTP_DTC_AINT64 \<equiv> 0x4007"
abbreviation PTP_DTC_AUINT64 :: u16 where "PTP_DTC_AUINT64 \<equiv> 0x4008"
abbreviation PTP_DTC_STR :: u16 where "PTP_DTC_STR \<equiv> 0xFFFF"

text \<open>
  The macros \<open>CTVAL\<close> and \<open>RARR\<close>, for an element of \<open>k\<close> bytes read by \<open>r\<close> and stored in the
  member \<open>c\<close>. A \<open>PTPPropValue\<close> takes 16 bytes.
\<close>

definition ctval ::
    "nat \<Rightarrow> (u32 \<Rightarrow> 'w option) \<Rightarrow> ('w \<Rightarrow> propvalue) \<Rightarrow> u32 \<Rightarrow> u32 \<Rightarrow> (bool \<times> u32 \<times> propvalue) option" where
  "ctval k r c off tot =
     (if unat (tot - off) < k then Some (False, off, PVzero)
      else do { w \<leftarrow> r off; Some (True, off + of_nat k, c w) })"

fun ctvals ::
    "nat \<Rightarrow> (u32 \<Rightarrow> 'w option) \<Rightarrow> ('w \<Rightarrow> propvalue) \<Rightarrow> nat \<Rightarrow> u32 \<Rightarrow> u32
      \<Rightarrow> (bool \<times> u32 \<times> propvalue list) option" where
  "ctvals k r c 0 off tot = Some (True, off, [])"
| "ctvals k r c (Suc n) off tot = do {
     (ok, off, v) \<leftarrow> ctval k r c off tot;
     if \<not> ok then Some (False, off, []) else do {
       (ok, off, vs) \<leftarrow> ctvals k r c n off tot;
       Some (ok, off, v # vs)
     }
   }"

definition rarr ::
    "'p ptp_params_scheme \<Rightarrow> buffer \<Rightarrow> nat \<Rightarrow> (u32 \<Rightarrow> 'w option) \<Rightarrow> ('w \<Rightarrow> propvalue) \<Rightarrow> u32 \<Rightarrow> u32
      \<Rightarrow> (bool \<times> u32 \<times> propvalue) option" where
  "rarr p data k r c off tot =
     (if unat (tot - off) < 4 then Some (False, off, PVzero)
      else do {
        n \<leftarrow> rd32 data off;
        let off = off + 4;
        if 4294967295 div 16 \<le> unat n then Some (False, off, PVzero)
        else if unat (tot - off) div k < unat n then Some (False, off, PVzero)
        else if \<not> pp_alloc p (unat n * 16) then Some (False, off, PVzero)
        else do {
          (ok, off, vs) \<leftarrow> ctvals k r c (unat n) off tot;
          Some (ok, off, if ok then PVarr vs else PVzero)
        }
      })"

definition ptp_unpack_DPV ::
    "'p ptp_params_scheme \<Rightarrow> buffer \<Rightarrow> u32 \<Rightarrow> u32 \<Rightarrow> u16 \<Rightarrow> (bool \<times> u32 \<times> propvalue) option" where
  "ptp_unpack_DPV p data off tot datatype =
     (if tot \<le> off then Some (False, off, PVzero)
      else if datatype = PTP_DTC_INT8 then ctval 1 (rd8 data) PVi8 off tot
      else if datatype = PTP_DTC_UINT8 then ctval 1 (rd8 data) PVu8 off tot
      else if datatype = PTP_DTC_INT16 then ctval 2 (rd16 data) PVi16 off tot
      else if datatype = PTP_DTC_UINT16 then ctval 2 (rd16 data) PVu16 off tot
      else if datatype = PTP_DTC_INT32 then ctval 4 (rd32 data) PVi32 off tot
      else if datatype = PTP_DTC_UINT32 then ctval 4 (rd32 data) PVu32 off tot
      else if datatype = PTP_DTC_INT64 then ctval 8 (rd64 data) PVi64 off tot
      else if datatype = PTP_DTC_UINT64 then ctval 8 (rd64 data) PVu64 off tot
      else if datatype = PTP_DTC_UINT128 \<or> datatype = PTP_DTC_INT128 then
        if unat (tot - off) < 16 then Some (False, off, PVzero) else Some (True, off + 16, PVzero)
      else if datatype = PTP_DTC_AINT8 then rarr p data 1 (rd8 data) PVi8 off tot
      else if datatype = PTP_DTC_AUINT8 then rarr p data 1 (rd8 data) PVu8 off tot
      else if datatype = PTP_DTC_AUINT16 then rarr p data 2 (rd16 data) PVu16 off tot
      else if datatype = PTP_DTC_AINT16 then rarr p data 2 (rd16 data) PVi16 off tot
      else if datatype = PTP_DTC_AUINT32 then rarr p data 4 (rd32 data) PVu32 off tot
      else if datatype = PTP_DTC_AINT32 then rarr p data 4 (rd32 data) PVi32 off tot
      else if datatype = PTP_DTC_AUINT64 then rarr p data 8 (rd64 data) PVu64 off tot
      else if datatype = PTP_DTC_AINT64 then rarr p data 8 (rd64 data) PVi64 off tot
      else if datatype = PTP_DTC_STR then do {
        (ok, off, s) \<leftarrow> ptp_unpack_string p data off tot;
        Some (ok, off, if ok then PVstr s else PVzero)
      }
      else Some (False, off, PVzero))"

text \<open>
  \<open>ptp_pack_DPV\<close>: the block and its size, a \<open>uint32_t\<close>. The block has the size asked for, so a
  write behind it is undefined, and so is a write through the NULL of a failed allocation.
\<close>

definition pack_block ::
    "'p ptp_params_scheme \<Rightarrow> u32 \<Rightarrow> byte list \<Rightarrow> (buffer \<times> u32) option" where
  "pack_block p sz bs =
     (if \<not> pp_alloc p (unat sz) then None
      else do { d \<leftarrow> wr (map (pp_junk p) [0..<unat sz]) 0 bs; Some (Some d, sz) })"

definition pack_array ::
    "'p ptp_params_scheme \<Rightarrow> nat \<Rightarrow> (propvalue \<Rightarrow> 'w option) \<Rightarrow> ('w \<Rightarrow> byte list) \<Rightarrow> propvalue
      \<Rightarrow> (buffer \<times> u32) option" where
  "pack_array p k member enc value = do {
     vs \<leftarrow> pv_arr value;
     ws \<leftarrow> those (map member vs);
     pack_block p (4 + of_nat (length vs) * of_nat k)
       (put32 (of_nat (length vs)) @ concat (map enc ws))
   }"

definition put8 :: "u8 \<Rightarrow> byte list" where
  "put8 w = [w]"

definition ptp_pack_DPV ::
    "'p ptp_params_scheme \<Rightarrow> propvalue \<Rightarrow> u16 \<Rightarrow> (buffer \<times> u32) option" where
  "ptp_pack_DPV p value datatype =
     (if datatype = PTP_DTC_INT8 then do { w \<leftarrow> pv_i8 value; pack_block p 1 (put8 w) }
      else if datatype = PTP_DTC_UINT8 then do { w \<leftarrow> pv_u8 value; pack_block p 1 (put8 w) }
      else if datatype = PTP_DTC_INT16 then do { w \<leftarrow> pv_i16 value; pack_block p 2 (put16 w) }
      else if datatype = PTP_DTC_UINT16 then do { w \<leftarrow> pv_u16 value; pack_block p 2 (put16 w) }
      else if datatype = PTP_DTC_INT32 then do { w \<leftarrow> pv_i32 value; pack_block p 4 (put32 w) }
      else if datatype = PTP_DTC_UINT32 then do { w \<leftarrow> pv_u32 value; pack_block p 4 (put32 w) }
      else if datatype = PTP_DTC_INT64 then do { w \<leftarrow> pv_i64 value; pack_block p 8 (put64 w) }
      else if datatype = PTP_DTC_UINT64 then do { w \<leftarrow> pv_u64 value; pack_block p 8 (put64 w) }
      else if datatype = PTP_DTC_AUINT8 then pack_array p 1 pv_u8 put8 value
      else if datatype = PTP_DTC_AINT8 then pack_array p 1 pv_i8 put8 value
      else if datatype = PTP_DTC_AUINT16 then pack_array p 2 pv_u16 put16 value
      else if datatype = PTP_DTC_AINT16 then pack_array p 2 pv_i16 put16 value
      else if datatype = PTP_DTC_AUINT32 then pack_array p 4 pv_u32 put32 value
      else if datatype = PTP_DTC_AINT32 then pack_array p 4 pv_i32 put32 value
      else if datatype = PTP_DTC_AUINT64 then pack_array p 8 pv_u64 put64 value
      else if datatype = PTP_DTC_AINT64 then pack_array p 8 pv_i64 put64 value
      else if datatype = PTP_DTC_STR then do { s \<leftarrow> pv_str value; ptp_get_packed_stringcopy p s }
      else Some (None, 0))"

text \<open>
  \<open>duplicate_PropertyValue\<close>, with the old contents of the destination; the elements of an array
  go into zeroed memory, whose allocation is not tested.
\<close>

definition dup_scalar :: "propvalue \<Rightarrow> propvalue \<Rightarrow> u16 \<Rightarrow> propvalue option" where
  "dup_scalar src dst t =
     (if t = PTP_DTC_INT8 then map_option PVi8 (pv_i8 src)
      else if t = PTP_DTC_UINT8 then map_option PVu8 (pv_u8 src)
      else if t = PTP_DTC_INT16 then map_option PVi16 (pv_i16 src)
      else if t = PTP_DTC_UINT16 then map_option PVu16 (pv_u16 src)
      else if t = PTP_DTC_INT32 then map_option PVi32 (pv_i32 src)
      else if t = PTP_DTC_UINT32 then map_option PVu32 (pv_u32 src)
      else if t = PTP_DTC_UINT64 then map_option PVu64 (pv_u64 src)
      else if t = PTP_DTC_INT64 then map_option PVi64 (pv_i64 src)
      else Some dst)"

definition dup_single :: "'p ptp_params_scheme \<Rightarrow> propvalue \<Rightarrow> propvalue \<Rightarrow> u16 \<Rightarrow> propvalue option" where
  "dup_single p src dst t =
     (if t = PTP_DTC_STR then do {
        s \<leftarrow> pv_str src;
        Some (PVstr (case s of None \<Rightarrow> None | Some s \<Rightarrow> c_strdup p s))
      }
      else dup_scalar src dst (t AND NOT PTP_DTC_ARRAY_MASK))"

definition duplicate_PropertyValue ::
    "'p ptp_params_scheme \<Rightarrow> propvalue \<Rightarrow> propvalue \<Rightarrow> u16 \<Rightarrow> propvalue option" where
  "duplicate_PropertyValue p src dst t =
     (if t = PTP_DTC_STR then dup_single p src dst t
      else if t AND PTP_DTC_ARRAY_MASK \<noteq> 0 then do {
        vs \<leftarrow> pv_arr src;
        if vs \<noteq> [] \<and> \<not> pp_alloc p (length vs * 16) then None
        else do {
          ws \<leftarrow> those (map (\<lambda>v. dup_single p v PVzero (t AND NOT PTP_DTC_ARRAY_MASK)) vs);
          Some (PVarr ws)
        }
      }
      else dup_single p src dst t)"

section \<open>Device property descriptions\<close>

text \<open>
  The union \<open>FORM\<close> is the form last written; an enumeration is the list of its values,
  \<open>NumberOfValues\<close> its length.
\<close>

datatype dpd_form =
    FORM_zero
  | FORM_Enum "propvalue list"
  | FORM_Range (MinValue: propvalue) (MaxValue: propvalue) (StepSize: propvalue)

record PTPDevicePropDesc =
  dpd_DevicePropCode :: u32
  dpd_DataType :: u16
  dpd_GetSet :: u8
  dpd_FormFlag :: u8
  dpd_DefaultValue :: propvalue
  dpd_CurrentValue :: propvalue
  dpd_FORM :: dpd_form
  dpd_timestamp :: int

definition dpd_zero :: PTPDevicePropDesc where
  "dpd_zero = \<lparr>dpd_DevicePropCode = 0, dpd_DataType = 0, dpd_GetSet = 0, dpd_FormFlag = 0,
     dpd_DefaultValue = PVzero, dpd_CurrentValue = PVzero, dpd_FORM = FORM_zero,
     dpd_timestamp = 0\<rparr>"

abbreviation PTP_DPFF_None :: u8 where "PTP_DPFF_None \<equiv> 0"
abbreviation PTP_DPFF_Range :: u8 where "PTP_DPFF_Range \<equiv> 1"
abbreviation PTP_DPFF_Enumeration :: u8 where "PTP_DPFF_Enumeration \<equiv> 2"
abbreviation PTP_DPGS_Get :: u8 where "PTP_DPGS_Get \<equiv> 0"
abbreviation PTP_DPGS_GetSet :: u8 where "PTP_DPGS_GetSet \<equiv> 1"

text \<open>
  \<open>ptp_free_devicepropdesc\<close>: the values are released (their pointers dangle and are not read
  again) and the description becomes one without type and form.
\<close>

definition ptp_free_devicepropdesc :: "PTPDevicePropDesc \<Rightarrow> PTPDevicePropDesc" where
  "ptp_free_devicepropdesc dpd =
     dpd\<lparr>dpd_DefaultValue := PVzero, dpd_CurrentValue := PVzero, dpd_FORM := FORM_zero,
       dpd_DataType := PTP_DTC_UNDEF, dpd_FormFlag := PTP_DPFF_None\<rparr>"

text \<open>
  The loop that reads the values of an enumeration: up to \<open>n\<close> of them, or up to the first that
  does not fit.
\<close>

fun unpack_values ::
    "(u32 \<Rightarrow> (bool \<times> u32 \<times> propvalue) option) \<Rightarrow> nat \<Rightarrow> u32 \<Rightarrow> (u32 \<times> propvalue list) option" where
  "unpack_values f 0 off = Some (off, [])"
| "unpack_values f (Suc n) off = do {
     (ok, off, v) \<leftarrow> f off;
     if \<not> ok then Some (off, []) else do {
       (off, vs) \<leftarrow> unpack_values f n off;
       Some (off, v # vs)
     }
   }"

text \<open>
  The enumeration form: its count and its values; no values at all, although some were
  announced, is an error. \<open>None\<close> inside stands for the jump to \<open>outofmemory\<close>.
\<close>

definition unpack_enum ::
    "'p ptp_params_scheme \<Rightarrow> buffer \<Rightarrow> u32 \<Rightarrow> u32 \<Rightarrow> u16 \<Rightarrow> (u32 \<times> propvalue list option) option" where
  "unpack_enum p data off len dt =
     (if unat len < unat off + 2 then Some (off, None)
      else do {
        n \<leftarrow> rd16 data off;
        let off = off + 2;
        if \<not> pp_alloc p (unat n * 16) then Some (off, None)
        else do {
          (off, vs) \<leftarrow> unpack_values (\<lambda>off. ptp_unpack_DPV p data off len dt) (unat n) off;
          Some (off, if n \<noteq> 0 \<and> vs = [] then None else Some vs)
        }
      })"

text \<open>The range form: three values.\<close>

definition unpack_range ::
    "'p ptp_params_scheme \<Rightarrow> buffer \<Rightarrow> u32 \<Rightarrow> u32 \<Rightarrow> u16
      \<Rightarrow> (u32 \<times> (propvalue \<times> propvalue \<times> propvalue) option) option" where
  "unpack_range p data off len dt = do {
     (ok, off, v1) \<leftarrow> ptp_unpack_DPV p data off len dt;
     if \<not> ok then Some (off, None) else do {
     (ok, off, v2) \<leftarrow> ptp_unpack_DPV p data off len dt;
     if \<not> ok then Some (off, None) else do {
     (ok, off, v3) \<leftarrow> ptp_unpack_DPV p data off len dt;
     Some (off, if ok then Some (v1, v2, v3) else None)
     }}
   }"

text \<open>
  From the form flag on, \<open>ptp_unpack_DPD\<close> and \<open>ptp_unpack_Sony_DPD\<close> go the same way: the form
  or the jump to \<open>outofmemory\<close>.
\<close>

definition unpack_form ::
    "'p ptp_params_scheme \<Rightarrow> buffer \<Rightarrow> u32 \<Rightarrow> u32 \<Rightarrow> u16 \<Rightarrow> u8 \<Rightarrow> (u32 \<times> dpd_form option) option" where
  "unpack_form p data off len dt flag =
     (if flag = PTP_DPFF_Range then do {
        (off, r) \<leftarrow> unpack_range p data off len dt;
        Some (off, map_option (\<lambda>(a, b, c). FORM_Range a b c) r)
      }
      else if flag = PTP_DPFF_Enumeration then do {
        (off, vs) \<leftarrow> unpack_enum p data off len dt;
        Some (off, map_option FORM_Enum vs)
      }
      else Some (off, Some FORM_zero))"

text \<open>
  \<open>ptp_unpack_DPD\<close>: the result, the offset (with its old value when the dataset is too short)
  and the description.
\<close>

definition ptp_unpack_DPD ::
    "'p ptp_params_scheme \<Rightarrow> buffer \<Rightarrow> u32 \<Rightarrow> u32 \<Rightarrow> (bool \<times> u32 \<times> PTPDevicePropDesc) option" where
  "ptp_unpack_DPD p data dpdlen off0 =
     (if dpdlen \<le> 5 then Some (False, off0, dpd_zero)
      else do {
        code \<leftarrow> rd16 data 0;
        dt \<leftarrow> rd16 data 2;
        gs \<leftarrow> rd8 data 4;
        let dpd = dpd_zero\<lparr>dpd_DevicePropCode := ucast code, dpd_DataType := dt, dpd_GetSet := gs,
                    dpd_FormFlag := PTP_DPFF_None\<rparr>;
        (ok, off, v) \<leftarrow> ptp_unpack_DPV p data 5 dpdlen dt;
        let dpd = dpd\<lparr>dpd_DefaultValue := v\<rparr>;
        if \<not> ok then Some (False, off, ptp_free_devicepropdesc dpd)
        else if dt = PTP_DTC_STR \<and> off = dpdlen then Some (True, off, dpd)
        else do {
        (ok, off, v) \<leftarrow> ptp_unpack_DPV p data off dpdlen dt;
        let dpd = dpd\<lparr>dpd_CurrentValue := v\<rparr>;
        if \<not> ok then Some (False, off, ptp_free_devicepropdesc dpd)
        else if unat dpdlen < unat off + 1 then Some (True, off, dpd)
        else do {
        flag \<leftarrow> rd8 data off;
        let dpd = dpd\<lparr>dpd_FormFlag := flag\<rparr>;
        (off, form) \<leftarrow> unpack_form p data (off + 1) dpdlen dt flag;
        Some (case form of
            None \<Rightarrow> (False, off, ptp_free_devicepropdesc dpd)
          | Some f \<Rightarrow> (True, off, dpd\<lparr>dpd_FORM := f\<rparr>))
        }}})"

text \<open>
  \<open>ptp_unpack_Sony_DPD\<close>: whether the property can be set is worked out from two bytes, the
  way the mode of the camera has it, and a second list may follow the enumeration.
\<close>

definition sony_mode2_settable_props :: "u16 list" where
  "sony_mode2_settable_props = [0x500A, 0x500B]"

definition sony_mode2_settable_always_props :: "u16 list" where
  "sony_mode2_settable_always_props = [0x500C]"

definition sony_GetSet :: "int \<Rightarrow> u16 \<Rightarrow> u8 \<Rightarrow> u8 \<Rightarrow> u8" where
  "sony_GetSet ver code gs isenabled =
     (if ver = 2 then
        (if gs AND 0x80 \<noteq> 0 then PTP_DPGS_GetSet
         else
           (let gs = (if isenabled = 0 then PTP_DPGS_Get
                      else if isenabled = 1 then PTP_DPGS_GetSet
                      else if code \<in> set sony_mode2_settable_props then PTP_DPGS_GetSet
                      else gs)
            in if gs = PTP_DPGS_Get \<and> code \<in> set sony_mode2_settable_always_props
               then PTP_DPGS_GetSet else gs))
      else (if isenabled = 1 then gs else PTP_DPGS_Get))"

definition sony_second_list ::
    "'p ptp_params_scheme \<Rightarrow> buffer \<Rightarrow> u32 \<Rightarrow> u32 \<Rightarrow> PTPDevicePropDesc
      \<Rightarrow> (bool \<times> u32 \<times> PTPDevicePropDesc) option" where
  "sony_second_list p data dpdlen off dpd =
     (if dpdlen < off + 2 then Some (True, off, dpd)
      else do {
        val \<leftarrow> rd16 data off;
        if val < 0x200 \<and> dpd_FormFlag dpd = PTP_DPFF_Enumeration then do {
          (off, vs) \<leftarrow> unpack_enum p data off dpdlen (dpd_DataType dpd);
          Some (case vs of
              None \<Rightarrow> (False, off, ptp_free_devicepropdesc dpd)
            | Some vs \<Rightarrow> (True, off, dpd\<lparr>dpd_FORM := FORM_Enum vs\<rparr>))
        }
        else Some (True, off, dpd)
      })"

definition ptp_unpack_Sony_DPD ::
    "'p ptp_params_scheme \<Rightarrow> buffer \<Rightarrow> PTPDevicePropDesc \<Rightarrow> u32 \<Rightarrow> u32
      \<Rightarrow> (bool \<times> u32 \<times> PTPDevicePropDesc) option" where
  "ptp_unpack_Sony_DPD p data dpd dpdlen off0 =
     (if data = None \<or> dpdlen < 6 then Some (False, off0, dpd)
      else do {
        code \<leftarrow> rd16 data 0;
        dt \<leftarrow> rd16 data 2;
        gs \<leftarrow> rd8 data 4;
        isenabled \<leftarrow> rd8 data 5;
        let dpd = dpd_zero\<lparr>dpd_DevicePropCode := ucast code, dpd_DataType := dt,
                    dpd_GetSet := sony_GetSet (pp_sony_mode_ver p) code gs isenabled,
                    dpd_FormFlag := PTP_DPFF_None\<rparr>;
        (ok, off, v) \<leftarrow> ptp_unpack_DPV p data 6 dpdlen dt;
        let dpd = dpd\<lparr>dpd_DefaultValue := v\<rparr>;
        if \<not> ok then Some (False, off, ptp_free_devicepropdesc dpd)
        else if dt = PTP_DTC_STR \<and> off = dpdlen then Some (True, off, dpd)
        else do {
        (ok, off, v) \<leftarrow> ptp_unpack_DPV p data off dpdlen dt;
        let dpd = dpd\<lparr>dpd_CurrentValue := v\<rparr>;
        if \<not> ok then Some (False, off, ptp_free_devicepropdesc dpd)
        else if off = 6 then Some (True, off, dpd)
        else if unat dpdlen < unat off + 1 then Some (True, off, dpd)
        else do {
        flag \<leftarrow> rd8 data off;
        let dpd = dpd\<lparr>dpd_FormFlag := flag\<rparr>;
        (off, form) \<leftarrow> unpack_form p data (off + 1) dpdlen dt flag;
        (case form of
            None \<Rightarrow> Some (False, off, ptp_free_devicepropdesc dpd)
          | Some f \<Rightarrow> sony_second_list p data dpdlen off (dpd\<lparr>dpd_FORM := f\<rparr>))
        }}})"

text \<open>
  \<open>duplicate_DevicePropDesc\<close>: the destination's old contents are kept where nothing is copied.
\<close>

definition duplicate_DevicePropDesc ::
    "'p ptp_params_scheme \<Rightarrow> PTPDevicePropDesc \<Rightarrow> PTPDevicePropDesc \<Rightarrow> PTPDevicePropDesc option" where
  "duplicate_DevicePropDesc p src dst = do {
     let t = dpd_DataType src;
     dv \<leftarrow> duplicate_PropertyValue p (dpd_DefaultValue src) (dpd_DefaultValue dst) t;
     cv \<leftarrow> duplicate_PropertyValue p (dpd_CurrentValue src) (dpd_CurrentValue dst) t;
     let dst = dst\<lparr>dpd_DevicePropCode := dpd_DevicePropCode src, dpd_DataType := t,
                 dpd_GetSet := dpd_GetSet src, dpd_DefaultValue := dv, dpd_CurrentValue := cv,
                 dpd_FormFlag := dpd_FormFlag src\<rparr>;
     if dpd_FormFlag src = PTP_DPFF_Range then
       (case (dpd_FORM src, dpd_FORM dst) of
          (FORM_Range a b c, FORM_Range a' b' c') \<Rightarrow> do {
            a \<leftarrow> duplicate_PropertyValue p a a' t;
            b \<leftarrow> duplicate_PropertyValue p b b' t;
            c \<leftarrow> duplicate_PropertyValue p c c' t;
            Some (dst\<lparr>dpd_FORM := FORM_Range a b c\<rparr>)
          }
        | (FORM_Range a b c, FORM_zero) \<Rightarrow> do {
            a \<leftarrow> duplicate_PropertyValue p a PVzero t;
            b \<leftarrow> duplicate_PropertyValue p b PVzero t;
            c \<leftarrow> duplicate_PropertyValue p c PVzero t;
            Some (dst\<lparr>dpd_FORM := FORM_Range a b c\<rparr>)
          }
        | _ \<Rightarrow> None)
     else if dpd_FormFlag src = PTP_DPFF_Enumeration then
       (case dpd_FORM src of
          FORM_Enum vs \<Rightarrow>
            if vs \<noteq> [] \<and> \<not> pp_alloc p (length vs * 16) then None
            else do {
              ws \<leftarrow> those (map (\<lambda>v. duplicate_PropertyValue p v PVzero t) vs);
              Some (dst\<lparr>dpd_FORM := FORM_Enum ws\<rparr>)
            }
        | _ \<Rightarrow> None)
     else Some dst
   }"

section \<open>Values are unpacked safely\<close>

lemma unat_room: "off \<le> tot \<Longrightarrow> unat (tot - off :: u32) = unat tot - unat off"
  by (simp add: unat_sub)

lemma ctvals_rd_n:
  assumes "rd_n r (of_nat k) n off = Some (ws, off')" "unat off + n * k \<le> unat tot"
  shows "ctvals k r c n off tot = Some (True, off', map c ws)"
  using assms
proof (induction n arbitrary: off ws)
  case (Suc n)
  from Suc.prems(1) obtain w ws' where w: "r off = Some w"
    "rd_n r (of_nat k) n (off + of_nat k) = Some (ws', off')" "ws = w # ws'"
    by (auto simp: bind_eq_Some_conv)
  have le: "off \<le> tot" "unat off + k \<le> unat tot"
    using Suc.prems(2) by (simp_all add: word_le_nat_alt)
  then have "ctval k r c off tot = Some (True, off + of_nat k, c w)"
    using w(1) by (simp add: ctval_def unat_room)
  moreover have "unat (off + of_nat k) = unat off + k"
    using le(2) unat_u32_less [of tot] by (intro unat_off_add) simp
  ultimately show ?case
    using Suc.IH [OF w(2)] Suc.prems(2) w(3) by simp
qed simp

definition in_bounds :: "u32 \<Rightarrow> u32 \<Rightarrow> (bool \<times> u32 \<times> 'v) option \<Rightarrow> bool" where
  "in_bounds off tot m = (\<exists>ok off' v. m = Some (ok, off', v) \<and> off \<le> off' \<and> off' \<le> tot)"

lemma in_bounds_simps [simp]:
  "in_bounds off tot (Some (ok, off', v)) \<longleftrightarrow> off \<le> off' \<and> off' \<le> tot"
  by (simp add: in_bounds_def)

lemma ctval_in_bounds:
  assumes "off \<le> tot" "\<And>i. unat i + k \<le> unat tot \<Longrightarrow> r i \<noteq> None"
  shows "in_bounds off tot (ctval k r c off tot)"
proof (cases "unat (tot - off) < k")
  case False
  then have le: "unat off + k \<le> unat tot"
    using assms(1) by (simp add: unat_room word_le_nat_alt)
  then obtain w where "r off = Some w" using assms(2) by blast
  moreover have "unat (off + of_nat k) = unat off + k"
    using le unat_u32_less [of tot] by (intro unat_off_add) simp
  ultimately show ?thesis using False le by (simp add: ctval_def word_le_nat_alt)
qed (simp add: ctval_def assms(1))

lemma rarr_in_bounds:
  assumes "unat tot \<le> length d" "off \<le> tot" "\<And>i. unat i + k \<le> unat tot \<Longrightarrow> r i \<noteq> None" "k > 0"
  shows "in_bounds off tot (rarr p (Some d) k r c off tot)"
proof (cases "unat (tot - off) < 4")
  case False
  then have le: "unat off + 4 \<le> unat tot" using assms(2) by (simp add: unat_room word_le_nat_alt)
  define n where "n = le32 d (unat off)"
  have u4: "unat (off + 4) = unat off + 4"
    using le unat_u32_less [of tot] by (intro unat_off_add_numeral) simp
  have r: "rd32 (Some d) off = Some n" using le assms(1) by (simp add: n_def)
  have le4: "off + 4 \<le> tot" "off \<le> off + 4" using u4 le by (simp_all add: word_le_nat_alt)
  show ?thesis
  proof (cases "4294967295 div 16 \<le> unat n \<or> unat (tot - (off + 4)) div k < unat n \<or> \<not> pp_alloc p (unat n * 16)")
    case True
    with False r le4 show ?thesis by (auto simp: rarr_def Let_def)
  next
    case n: False
    then have "unat n * k \<le> unat (tot - (off + 4))"
      by (metis assms(4) less_eq_div_iff_mult_less_eq not_less)
    then have le2: "unat (off + 4) + unat n * k \<le> unat tot"
      using le4(1) by (simp add: unat_room word_le_nat_alt)
    obtain ws where "rd_n r (of_nat k) (unat n) (off + 4) = Some (ws, off + 4 + of_nat (unat n * k))"
      using assms(3) le2 unat_u32_less [of tot]
      by (elim rd_n_total [rotated, where k = k and L = "unat tot"]) auto
    from ctvals_rd_n [OF this le2, of c]
    have "ctvals k r c (unat n) (off + 4) tot = Some (True, off + 4 + of_nat (unat n * k), map c ws)" .
    moreover have "unat (off + 4 + of_nat (unat n * k)) = unat (off + 4) + unat n * k"
      using le2 unat_u32_less [of tot] by (intro unat_off_add) simp
    ultimately show ?thesis
      using False r n le2 u4 by (simp add: rarr_def word_le_nat_alt Let_def)
  qed
qed (simp add: rarr_def assms(2))

lemma ptp_unpack_DPV_safe:
  assumes "unat tot \<le> length d" "tot \<noteq> - 1" "off \<le> tot"
  shows "in_bounds off tot (ptp_unpack_DPV p (Some d) off tot dt)"
proof -
  have "in_bounds off tot (ctval 1 (rd8 (Some d)) c off tot)" "in_bounds off tot (ctval 2 (rd16 (Some d)) c2 off tot)"
    "in_bounds off tot (ctval 4 (rd32 (Some d)) c3 off tot)" "in_bounds off tot (ctval 8 (rd64 (Some d)) c4 off tot)"
    for c c2 c3 c4 by (rule ctval_in_bounds [OF assms(3)], use assms(1) in simp)+
  moreover have "in_bounds off tot (rarr p (Some d) 1 (rd8 (Some d)) c off tot)"
    "in_bounds off tot (rarr p (Some d) 2 (rd16 (Some d)) c2 off tot)"
    "in_bounds off tot (rarr p (Some d) 4 (rd32 (Some d)) c3 off tot)"
    "in_bounds off tot (rarr p (Some d) 8 (rd64 (Some d)) c4 off tot)" for c c2 c3 c4
    by (rule rarr_in_bounds [OF assms(1,3)], use assms(1) in simp, simp)+
  moreover have "in_bounds off tot (if unat (tot - off) < 16 then Some (False, off, PVzero) else Some (True, off + 16, PVzero))"
  proof (cases "unat (tot - off) < 16")
    case False
    then have "unat off + 16 \<le> unat tot" using assms(3) by (simp add: unat_room word_le_nat_alt)
    moreover from this have "unat (off + 16) = unat off + 16"
      using unat_u32_less [of tot] by (intro unat_off_add_numeral) simp
    ultimately show ?thesis using False by (simp add: word_le_nat_alt)
  qed (simp add: assms(3))
  moreover have "in_bounds off tot (do {
        (ok, off, s) \<leftarrow> ptp_unpack_string p (Some d) off tot;
        Some (ok, off, if ok then PVstr s else PVzero)
      })"
    using ptp_unpack_string_safe [OF assms, of p] by (auto simp: in_bounds_def)
  ultimately show ?thesis
    unfolding ptp_unpack_DPV_def
    by (simp add: assms(3))
qed

section \<open>Values have the type asked for, and are read back\<close>

text \<open>The member of the union that a data type selects.\<close>

fun scalar_typed :: "u16 \<Rightarrow> propvalue \<Rightarrow> bool" where
  "scalar_typed dt (PVi8 _) = (dt = PTP_DTC_INT8)"
| "scalar_typed dt (PVu8 _) = (dt = PTP_DTC_UINT8)"
| "scalar_typed dt (PVi16 _) = (dt = PTP_DTC_INT16)"
| "scalar_typed dt (PVu16 _) = (dt = PTP_DTC_UINT16)"
| "scalar_typed dt (PVi32 _) = (dt = PTP_DTC_INT32)"
| "scalar_typed dt (PVu32 _) = (dt = PTP_DTC_UINT32)"
| "scalar_typed dt (PVi64 _) = (dt = PTP_DTC_INT64)"
| "scalar_typed dt (PVu64 _) = (dt = PTP_DTC_UINT64)"
| "scalar_typed dt _ = False"

definition pv_typed :: "u16 \<Rightarrow> propvalue \<Rightarrow> bool" where
  "pv_typed dt v =
     (case v of
        PVzero \<Rightarrow> dt = PTP_DTC_INT128 \<or> dt = PTP_DTC_UINT128
      | PVstr _ \<Rightarrow> dt = PTP_DTC_STR
      | PVarr vs \<Rightarrow> dt = PTP_DTC_AINT8 \<and> list_all (scalar_typed PTP_DTC_INT8) vs
          \<or> dt = PTP_DTC_AUINT8 \<and> list_all (scalar_typed PTP_DTC_UINT8) vs
          \<or> dt = PTP_DTC_AINT16 \<and> list_all (scalar_typed PTP_DTC_INT16) vs
          \<or> dt = PTP_DTC_AUINT16 \<and> list_all (scalar_typed PTP_DTC_UINT16) vs
          \<or> dt = PTP_DTC_AINT32 \<and> list_all (scalar_typed PTP_DTC_INT32) vs
          \<or> dt = PTP_DTC_AUINT32 \<and> list_all (scalar_typed PTP_DTC_UINT32) vs
          \<or> dt = PTP_DTC_AINT64 \<and> list_all (scalar_typed PTP_DTC_INT64) vs
          \<or> dt = PTP_DTC_AUINT64 \<and> list_all (scalar_typed PTP_DTC_UINT64) vs
      | _ \<Rightarrow> scalar_typed dt v)"

lemma ctval_value: "ctval k r c off tot = Some (True, off', v) \<Longrightarrow> \<exists>w. v = c w"
  by (auto simp: ctval_def bind_eq_Some_conv split: if_splits)

lemma ctvals_value: "ctvals k r c n off tot = Some (True, off', vs) \<Longrightarrow> \<exists>ws. vs = map c ws"
proof (induction n arbitrary: off vs)
  case (Suc n)
  from Suc.prems obtain off1 v vs' where c: "ctval k r c off tot = Some (True, off1, v)"
    "ctvals k r c n off1 tot = Some (True, off', vs')" "vs = v # vs'"
    by (auto simp: bind_eq_Some_conv split: if_splits)
  then obtain w ws where "v = c w" "vs' = map c ws" using ctval_value Suc.IH by blast
  then have "vs = map c (w # ws)" using c(3) by simp
  then show ?case by blast
qed simp

lemma rarr_value: "rarr p data k r c off tot = Some (True, off', v) \<Longrightarrow> \<exists>ws. v = PVarr (map c ws)"
  by (auto simp: rarr_def bind_eq_Some_conv Let_def split: if_splits dest: ctvals_value)

lemma ptp_unpack_DPV_type:
  assumes "ptp_unpack_DPV p data off tot dt = Some (True, off', v)"
  shows "pv_typed dt v"
  using assms unfolding ptp_unpack_DPV_def
  by (auto simp: pv_typed_def bind_eq_Some_conv list.pred_map o_def list.pred_True
      dest!: ctval_value rarr_value split: if_splits)

lemma pack_block_Some:
  assumes "pack_block p sz bs = Some (Some d, n)" "unat sz \<le> length bs"
  shows "d = bs \<and> unat n = length bs"
  using assms by (auto simp: pack_block_def bind_eq_Some_conv wr_def split: if_splits)

lemma ctval_at:
  assumes "r off = Some w" "off = of_nat (length pre)" "tot = of_nat (length (pre @ bs @ post))"
    and "length pre + length bs + length post < 2 ^ 32 - 1" "length bs = k"
  shows "ctval k r c off tot = Some (True, of_nat (length pre + length bs), c w)"
proof -
  have "unat off = length pre" using assms(2,4) by (simp add: unat_of_nat_u32)
  moreover have "unat tot = length pre + length bs + length post"
    unfolding assms(3) using assms(4) by (subst unat_of_nat_u32) simp_all
  ultimately have "\<not> unat (tot - off) < k"
    using assms(5) by (simp add: unat_room word_le_nat_alt)
  moreover have "off + of_nat k = of_nat (length pre + length bs)" by (simp add: assms(2,5))
  ultimately show ?thesis by (simp add: ctval_def assms(1))
qed

lemma rarr_at:
  fixes rd :: "buffer \<Rightarrow> u32 \<Rightarrow> 'w option"
  assumes at: "\<And>pre w post. length pre < 2 ^ 32 \<Longrightarrow>
       rd (Some (pre @ enc w @ post)) (of_nat (length pre)) = Some w"
    and k: "\<And>w. length (enc w) = k" "k > 0"
    and bs: "bs = put32 (of_nat (length ws)) @ concat (map enc ws)"
    and d: "d = pre @ bs @ post" and off: "off = of_nat (length pre)" and tot: "tot = of_nat (length d)"
    and len: "length pre + length bs + length post < 2 ^ 32 - 1"
    and small: "length ws < 268435455" "pp_alloc p (length ws * 16)"
  shows "rarr p (Some d) k (rd (Some d)) c off tot
    = Some (True, of_nat (length pre + length bs), PVarr (map c ws))"
proof -
  define n :: u32 where "n = of_nat (length ws)"
  have lb: "length bs = 4 + length ws * k"
    by (simp add: bs concat_map_length [where k = k, OF k(1)] mult.commute)
  have n: "unat n = length ws" using small(1) unat_of_nat_u32 [of "length ws"] by (simp add: n_def)
  have u: "unat off = length pre" using len by (simp add: off unat_of_nat_u32)
  have ut: "unat tot = length pre + length bs + length post"
    unfolding tot d using len by (subst unat_of_nat_u32) simp_all
  have u4: "unat (off + 4) = length pre + 4" using u len lb by simp
  have le: "off \<le> tot" "off + 4 \<le> tot" using u u4 ut lb by (simp_all add: word_le_nat_alt)
  have r: "rd32 (Some d) off = Some n"
    using rd32_at [of pre n "concat (map enc ws) @ post"] len lb by (simp add: d bs n_def off)
  have "rd_n (rd (Some d)) (of_nat k) (length ws) (off + 4) = Some (ws, of_nat (length pre + length bs))"
    using rd_n_at [where r = rd and enc = enc and k = k and kw = "of_nat k" and pre = "pre @ put32 n"
        and ws = ws and post = post, OF at k(1)] len lb
    by (simp add: d bs n_def off algebra_simps)
  then have "ctvals k (rd (Some d)) c (unat n) (off + 4) tot
      = Some (True, of_nat (length pre + length bs), map c ws)"
    unfolding n by (rule ctvals_rd_n) (simp add: u4 ut lb)
  moreover have "unat n \<le> unat (tot - (off + 4)) div k"
    using k(2) by (simp add: unat_room [OF le(2)] u4 ut lb n less_eq_div_iff_mult_less_eq)
  moreover have "4 \<le> unat (tot - off)" by (simp add: unat_room [OF le(1)] u ut lb)
  ultimately show ?thesis
    using r n small by (simp add: rarr_def Let_def not_less)
qed

lemma those_map: "(\<And>w. m (c w) = Some w) \<Longrightarrow> those (map m (map c ws)) = Some ws"
  by (induction ws) auto

lemma scalar_typed_iff:
  "scalar_typed PTP_DTC_INT8 v \<longleftrightarrow> (\<exists>w. v = PVi8 w)"
  "scalar_typed PTP_DTC_UINT8 v \<longleftrightarrow> (\<exists>w. v = PVu8 w)"
  "scalar_typed PTP_DTC_INT16 v \<longleftrightarrow> (\<exists>w. v = PVi16 w)"
  "scalar_typed PTP_DTC_UINT16 v \<longleftrightarrow> (\<exists>w. v = PVu16 w)"
  "scalar_typed PTP_DTC_INT32 v \<longleftrightarrow> (\<exists>w. v = PVi32 w)"
  "scalar_typed PTP_DTC_UINT32 v \<longleftrightarrow> (\<exists>w. v = PVu32 w)"
  "scalar_typed PTP_DTC_INT64 v \<longleftrightarrow> (\<exists>w. v = PVi64 w)"
  "scalar_typed PTP_DTC_UINT64 v \<longleftrightarrow> (\<exists>w. v = PVu64 w)"
  by (cases v; simp)+

lemma typed_elements:
  "list_all (scalar_typed PTP_DTC_INT8) vs \<Longrightarrow> \<exists>ws. vs = map PVi8 ws"
  "list_all (scalar_typed PTP_DTC_UINT8) vs \<Longrightarrow> \<exists>ws. vs = map PVu8 ws"
  "list_all (scalar_typed PTP_DTC_INT16) vs \<Longrightarrow> \<exists>ws. vs = map PVi16 ws"
  "list_all (scalar_typed PTP_DTC_UINT16) vs \<Longrightarrow> \<exists>ws. vs = map PVu16 ws"
  "list_all (scalar_typed PTP_DTC_INT32) vs \<Longrightarrow> \<exists>ws. vs = map PVi32 ws"
  "list_all (scalar_typed PTP_DTC_UINT32) vs \<Longrightarrow> \<exists>ws. vs = map PVu32 ws"
  "list_all (scalar_typed PTP_DTC_INT64) vs \<Longrightarrow> \<exists>ws. vs = map PVi64 ws"
  "list_all (scalar_typed PTP_DTC_UINT64) vs \<Longrightarrow> \<exists>ws. vs = map PVu64 ws"
  unfolding ex_map_conv list_all_iff by (auto simp: scalar_typed_iff)

definition dpv_valid :: "u16 \<Rightarrow> 'p ptp_params_scheme \<Rightarrow> propvalue \<Rightarrow> bool" where
  "dpv_valid dt p v = (pv_typed dt v \<and>
     (case v of PVarr vs \<Rightarrow> length vs < 268435455 \<and> pp_alloc p (length vs * 16)
      | PVstr s \<Rightarrow> string_valid p s | _ \<Rightarrow> True))"

lemma put8_simps [simp]: "length (put8 w) = 1" "put8 w @ r = w # r"
  by (simp_all add: put8_def)

lemma unat_of_nat_le_u32: "unat (of_nat n :: u32) \<le> n"
  by (simp add: unsigned_of_nat take_bit_nat_less_eq_self)

lemma pack_array_at:
  fixes rd :: "buffer \<Rightarrow> u32 \<Rightarrow> 'w option"
  assumes at: "\<And>pre w post. length pre < 2 ^ 32 \<Longrightarrow>
       rd (Some (pre @ enc w @ post)) (of_nat (length pre)) = Some w"
    and k: "\<And>w. length (enc w) = k" "k > 0" and m: "\<And>w. m (c w) = Some w"
    and pk: "pack_array p k m enc (PVarr (map c ws)) = Some (Some bs, n)"
    and len: "length pre + length bs + length post < 2 ^ 32 - 1"
    and small: "length ws < 268435455" "pp_alloc p (length ws * 16)"
  shows "bs \<noteq> [] \<and> unat n = length bs \<and> rarr p (Some (pre @ bs @ post)) k (rd (Some (pre @ bs @ post))) c
      (of_nat (length pre)) (of_nat (length (pre @ bs @ post)))
    = Some (True, of_nat (length pre + length bs), PVarr (map c ws))"
proof -
  define b where "b = put32 (of_nat (length ws)) @ concat (map enc ws)"
  have lb: "length b = 4 + length ws * k"
    by (simp add: b_def concat_map_length [where k = k, OF k(1)] mult.commute)
  have "unat (4 + of_nat (length ws) * of_nat k :: u32) \<le> length b"
    using unat_of_nat_le_u32 [of "length b"] lb by simp
  moreover have "pack_block p (4 + of_nat (length ws) * of_nat k) b = Some (Some bs, n)"
    using pk those_map [of m c ws, OF m] by (simp add: pack_array_def b_def)
  ultimately have bs: "bs = b" "unat n = length bs" using pack_block_Some by blast+
  then show ?thesis
    using rarr_at [where rd = rd and enc = enc, OF at k bs(1) [unfolded b_def] refl refl refl len small] lb
    by auto
qed

lemma pack_scalar_at:
  fixes rd :: "buffer \<Rightarrow> u32 \<Rightarrow> 'w option"
  assumes at: "\<And>pre w post. length pre < 2 ^ 32 \<Longrightarrow>
       rd (Some (pre @ enc w @ post)) (of_nat (length pre)) = Some w"
    and pk: "pack_block p k (enc w) = Some (Some bs, n)"
    and k: "unat k = length (enc w)" "0 < length (enc w)" "j = length (enc w)"
    and len: "length pre + length bs + length post < 2 ^ 32 - 1"
  shows "bs \<noteq> [] \<and> unat n = length bs \<and> ctval j (rd (Some (pre @ bs @ post))) c
      (of_nat (length pre)) (of_nat (length (pre @ bs @ post)))
    = Some (True, of_nat (length pre + length bs), c w)"
proof -
  have bs: "bs = enc w" "unat n = length bs" using pack_block_Some [OF pk] k(1) by simp_all
  moreover have "rd (Some (pre @ bs @ post)) (of_nat (length pre)) = Some w"
    unfolding bs(1) using len by (intro at) simp
  from ctval_at [where r = "rd (Some (pre @ bs @ post))", OF this refl refl len] bs(1) k(3)
  have "ctval j (rd (Some (pre @ bs @ post))) c (of_nat (length pre)) (of_nat (length (pre @ bs @ post)))
    = Some (True, of_nat (length pre + length bs), c w)" by simp
  ultimately show ?thesis using k(2) by auto
qed

text \<open>The four widths, alone and in arrays.\<close>

lemma pack_scalar8:
  "pack_block p 1 (put8 w) = Some (Some bs, n) \<Longrightarrow> length pre + length bs + length post < 2 ^ 32 - 1 \<Longrightarrow>
    bs \<noteq> [] \<and> unat n = length bs \<and> ctval 1 (rd8 (Some (pre @ bs @ post))) c
      (of_nat (length pre)) (of_nat (length (pre @ bs @ post)))
    = Some (True, of_nat (length pre + length bs), c w)"
  by (rule pack_scalar_at [where rd = rd8 and enc = put8 and k = 1 and p = p]) (simp_all add: rd8_at)

lemma pack_scalar16:
  "pack_block p 2 (put16 w) = Some (Some bs, n) \<Longrightarrow> length pre + length bs + length post < 2 ^ 32 - 1 \<Longrightarrow>
    bs \<noteq> [] \<and> unat n = length bs \<and> ctval 2 (rd16 (Some (pre @ bs @ post))) c
      (of_nat (length pre)) (of_nat (length (pre @ bs @ post)))
    = Some (True, of_nat (length pre + length bs), c w)"
  by (rule pack_scalar_at [where rd = rd16 and enc = put16 and k = 2 and p = p]) (simp_all add: rd16_at)

lemma pack_scalar32:
  "pack_block p 4 (put32 w) = Some (Some bs, n) \<Longrightarrow> length pre + length bs + length post < 2 ^ 32 - 1 \<Longrightarrow>
    bs \<noteq> [] \<and> unat n = length bs \<and> ctval 4 (rd32 (Some (pre @ bs @ post))) c
      (of_nat (length pre)) (of_nat (length (pre @ bs @ post)))
    = Some (True, of_nat (length pre + length bs), c w)"
  by (rule pack_scalar_at [where rd = rd32 and enc = put32 and k = 4 and p = p]) (simp_all add: rd32_at)

lemma pack_scalar64:
  "pack_block p 8 (put64 w) = Some (Some bs, n) \<Longrightarrow> length pre + length bs + length post < 2 ^ 32 - 1 \<Longrightarrow>
    bs \<noteq> [] \<and> unat n = length bs \<and> ctval 8 (rd64 (Some (pre @ bs @ post))) c
      (of_nat (length pre)) (of_nat (length (pre @ bs @ post)))
    = Some (True, of_nat (length pre + length bs), c w)"
  by (rule pack_scalar_at [where rd = rd64 and enc = put64 and k = 8 and p = p]) (simp_all add: rd64_at)

lemma pack_array8:
  "pack_array p 1 m put8 (PVarr (map c ws)) = Some (Some bs, n) \<Longrightarrow> (\<And>w. m (c w) = Some w) \<Longrightarrow>
    length pre + length bs + length post < 2 ^ 32 - 1 \<Longrightarrow>
    length ws < 268435455 \<Longrightarrow> pp_alloc p (length ws * 16) \<Longrightarrow>
    bs \<noteq> [] \<and> unat n = length bs \<and>
    rarr p (Some (pre @ bs @ post)) 1 (rd8 (Some (pre @ bs @ post))) c
      (of_nat (length pre)) (of_nat (length (pre @ bs @ post)))
    = Some (True, of_nat (length pre + length bs), PVarr (map c ws))"
  by (rule pack_array_at [where rd = rd8 and enc = put8]) (simp_all add: rd8_at)

lemma pack_array16:
  "pack_array p 2 m put16 (PVarr (map c ws)) = Some (Some bs, n) \<Longrightarrow> (\<And>w. m (c w) = Some w) \<Longrightarrow>
    length pre + length bs + length post < 2 ^ 32 - 1 \<Longrightarrow>
    length ws < 268435455 \<Longrightarrow> pp_alloc p (length ws * 16) \<Longrightarrow>
    bs \<noteq> [] \<and> unat n = length bs \<and>
    rarr p (Some (pre @ bs @ post)) 2 (rd16 (Some (pre @ bs @ post))) c
      (of_nat (length pre)) (of_nat (length (pre @ bs @ post)))
    = Some (True, of_nat (length pre + length bs), PVarr (map c ws))"
  by (rule pack_array_at [where rd = rd16 and enc = put16]) (simp_all add: rd16_at)

lemma pack_array32:
  "pack_array p 4 m put32 (PVarr (map c ws)) = Some (Some bs, n) \<Longrightarrow> (\<And>w. m (c w) = Some w) \<Longrightarrow>
    length pre + length bs + length post < 2 ^ 32 - 1 \<Longrightarrow>
    length ws < 268435455 \<Longrightarrow> pp_alloc p (length ws * 16) \<Longrightarrow>
    bs \<noteq> [] \<and> unat n = length bs \<and>
    rarr p (Some (pre @ bs @ post)) 4 (rd32 (Some (pre @ bs @ post))) c
      (of_nat (length pre)) (of_nat (length (pre @ bs @ post)))
    = Some (True, of_nat (length pre + length bs), PVarr (map c ws))"
  by (rule pack_array_at [where rd = rd32 and enc = put32]) (simp_all add: rd32_at)

lemma pack_array64:
  "pack_array p 8 m put64 (PVarr (map c ws)) = Some (Some bs, n) \<Longrightarrow> (\<And>w. m (c w) = Some w) \<Longrightarrow>
    length pre + length bs + length post < 2 ^ 32 - 1 \<Longrightarrow>
    length ws < 268435455 \<Longrightarrow> pp_alloc p (length ws * 16) \<Longrightarrow>
    bs \<noteq> [] \<and> unat n = length bs \<and>
    rarr p (Some (pre @ bs @ post)) 8 (rd64 (Some (pre @ bs @ post))) c
      (of_nat (length pre)) (of_nat (length (pre @ bs @ post)))
    = Some (True, of_nat (length pre + length bs), PVarr (map c ws))"
  by (rule pack_array_at [where rd = rd64 and enc = put64]) (simp_all add: rd64_at)

lemma DPV_room:
  assumes "length pre + length bs + length post < 2 ^ 32 - 1" "bs \<noteq> []"
  shows "\<not> of_nat (length (pre @ bs @ post)) \<le> (of_nat (length pre) :: u32)"
proof -
  have "unat (of_nat (length pre) :: u32) = length pre" using assms(1) by (intro unat_of_nat_u32) simp
  moreover have "unat (of_nat (length (pre @ bs @ post)) :: u32) = length (pre @ bs @ post)"
    using assms(1) by (intro unat_of_nat_u32) simp
  moreover have "length pre < length (pre @ bs @ post)" using assms(2) by simp
  ultimately show ?thesis by (simp only: word_le_nat_alt not_le)
qed

definition read_back ::
    "'p ptp_params_scheme \<Rightarrow> u16 \<Rightarrow> propvalue \<Rightarrow> byte list \<Rightarrow> u32 \<Rightarrow> byte list \<Rightarrow> byte list \<Rightarrow> bool" where
  "read_back p dt v bs n pre post = (unat n = length bs \<and>
     ptp_unpack_DPV p (Some (pre @ bs @ post)) (of_nat (length pre)) (of_nat (length (pre @ bs @ post))) dt
       = Some (True, of_nat (length pre + length bs), v))"

text \<open>The data types one by one.\<close>

lemma read_back_PVi8:
  "ptp_pack_DPV p (PVi8 w) PTP_DTC_INT8 = Some (Some bs, n) \<Longrightarrow> length pre + length bs + length post < 2 ^ 32 - 1 \<Longrightarrow>
    read_back p PTP_DTC_INT8 (PVi8 w) bs n pre post"
  "ptp_pack_DPV p (PVarr (map PVi8 ws)) PTP_DTC_AINT8 = Some (Some bs, n) \<Longrightarrow>
    length pre + length bs + length post < 2 ^ 32 - 1 \<Longrightarrow>
    length ws < 268435455 \<Longrightarrow> pp_alloc p (length ws * 16) \<Longrightarrow>
    read_back p PTP_DTC_AINT8 (PVarr (map PVi8 ws)) bs n pre post"
  using pack_scalar8 [of p w bs n pre post PVi8] pack_array8 [of p pv_i8 PVi8 ws bs n pre post] DPV_room [of pre bs post]
  by (simp_all only: ptp_pack_DPV_def ptp_unpack_DPV_def read_back_def) simp_all

lemma read_back_PVu8:
  "ptp_pack_DPV p (PVu8 w) PTP_DTC_UINT8 = Some (Some bs, n) \<Longrightarrow> length pre + length bs + length post < 2 ^ 32 - 1 \<Longrightarrow>
    read_back p PTP_DTC_UINT8 (PVu8 w) bs n pre post"
  "ptp_pack_DPV p (PVarr (map PVu8 ws)) PTP_DTC_AUINT8 = Some (Some bs, n) \<Longrightarrow>
    length pre + length bs + length post < 2 ^ 32 - 1 \<Longrightarrow>
    length ws < 268435455 \<Longrightarrow> pp_alloc p (length ws * 16) \<Longrightarrow>
    read_back p PTP_DTC_AUINT8 (PVarr (map PVu8 ws)) bs n pre post"
  using pack_scalar8 [of p w bs n pre post PVu8] pack_array8 [of p pv_u8 PVu8 ws bs n pre post] DPV_room [of pre bs post]
  by (simp_all only: ptp_pack_DPV_def ptp_unpack_DPV_def read_back_def) simp_all

lemma read_back_PVi16:
  "ptp_pack_DPV p (PVi16 w) PTP_DTC_INT16 = Some (Some bs, n) \<Longrightarrow> length pre + length bs + length post < 2 ^ 32 - 1 \<Longrightarrow>
    read_back p PTP_DTC_INT16 (PVi16 w) bs n pre post"
  "ptp_pack_DPV p (PVarr (map PVi16 ws)) PTP_DTC_AINT16 = Some (Some bs, n) \<Longrightarrow>
    length pre + length bs + length post < 2 ^ 32 - 1 \<Longrightarrow>
    length ws < 268435455 \<Longrightarrow> pp_alloc p (length ws * 16) \<Longrightarrow>
    read_back p PTP_DTC_AINT16 (PVarr (map PVi16 ws)) bs n pre post"
  using pack_scalar16 [of p w bs n pre post PVi16] pack_array16 [of p pv_i16 PVi16 ws bs n pre post] DPV_room [of pre bs post]
  by (simp_all only: ptp_pack_DPV_def ptp_unpack_DPV_def read_back_def) simp_all

lemma read_back_PVu16:
  "ptp_pack_DPV p (PVu16 w) PTP_DTC_UINT16 = Some (Some bs, n) \<Longrightarrow> length pre + length bs + length post < 2 ^ 32 - 1 \<Longrightarrow>
    read_back p PTP_DTC_UINT16 (PVu16 w) bs n pre post"
  "ptp_pack_DPV p (PVarr (map PVu16 ws)) PTP_DTC_AUINT16 = Some (Some bs, n) \<Longrightarrow>
    length pre + length bs + length post < 2 ^ 32 - 1 \<Longrightarrow>
    length ws < 268435455 \<Longrightarrow> pp_alloc p (length ws * 16) \<Longrightarrow>
    read_back p PTP_DTC_AUINT16 (PVarr (map PVu16 ws)) bs n pre post"
  using pack_scalar16 [of p w bs n pre post PVu16] pack_array16 [of p pv_u16 PVu16 ws bs n pre post] DPV_room [of pre bs post]
  by (simp_all only: ptp_pack_DPV_def ptp_unpack_DPV_def read_back_def) simp_all

lemma read_back_PVi32:
  "ptp_pack_DPV p (PVi32 w) PTP_DTC_INT32 = Some (Some bs, n) \<Longrightarrow> length pre + length bs + length post < 2 ^ 32 - 1 \<Longrightarrow>
    read_back p PTP_DTC_INT32 (PVi32 w) bs n pre post"
  "ptp_pack_DPV p (PVarr (map PVi32 ws)) PTP_DTC_AINT32 = Some (Some bs, n) \<Longrightarrow>
    length pre + length bs + length post < 2 ^ 32 - 1 \<Longrightarrow>
    length ws < 268435455 \<Longrightarrow> pp_alloc p (length ws * 16) \<Longrightarrow>
    read_back p PTP_DTC_AINT32 (PVarr (map PVi32 ws)) bs n pre post"
  using pack_scalar32 [of p w bs n pre post PVi32] pack_array32 [of p pv_i32 PVi32 ws bs n pre post] DPV_room [of pre bs post]
  by (simp_all only: ptp_pack_DPV_def ptp_unpack_DPV_def read_back_def) simp_all

lemma read_back_PVu32:
  "ptp_pack_DPV p (PVu32 w) PTP_DTC_UINT32 = Some (Some bs, n) \<Longrightarrow> length pre + length bs + length post < 2 ^ 32 - 1 \<Longrightarrow>
    read_back p PTP_DTC_UINT32 (PVu32 w) bs n pre post"
  "ptp_pack_DPV p (PVarr (map PVu32 ws)) PTP_DTC_AUINT32 = Some (Some bs, n) \<Longrightarrow>
    length pre + length bs + length post < 2 ^ 32 - 1 \<Longrightarrow>
    length ws < 268435455 \<Longrightarrow> pp_alloc p (length ws * 16) \<Longrightarrow>
    read_back p PTP_DTC_AUINT32 (PVarr (map PVu32 ws)) bs n pre post"
  using pack_scalar32 [of p w bs n pre post PVu32] pack_array32 [of p pv_u32 PVu32 ws bs n pre post] DPV_room [of pre bs post]
  by (simp_all only: ptp_pack_DPV_def ptp_unpack_DPV_def read_back_def) simp_all

lemma read_back_PVi64:
  "ptp_pack_DPV p (PVi64 w) PTP_DTC_INT64 = Some (Some bs, n) \<Longrightarrow> length pre + length bs + length post < 2 ^ 32 - 1 \<Longrightarrow>
    read_back p PTP_DTC_INT64 (PVi64 w) bs n pre post"
  "ptp_pack_DPV p (PVarr (map PVi64 ws)) PTP_DTC_AINT64 = Some (Some bs, n) \<Longrightarrow>
    length pre + length bs + length post < 2 ^ 32 - 1 \<Longrightarrow>
    length ws < 268435455 \<Longrightarrow> pp_alloc p (length ws * 16) \<Longrightarrow>
    read_back p PTP_DTC_AINT64 (PVarr (map PVi64 ws)) bs n pre post"
  using pack_scalar64 [of p w bs n pre post PVi64] pack_array64 [of p pv_i64 PVi64 ws bs n pre post] DPV_room [of pre bs post]
  by (simp_all only: ptp_pack_DPV_def ptp_unpack_DPV_def read_back_def) simp_all

lemma read_back_PVu64:
  "ptp_pack_DPV p (PVu64 w) PTP_DTC_UINT64 = Some (Some bs, n) \<Longrightarrow> length pre + length bs + length post < 2 ^ 32 - 1 \<Longrightarrow>
    read_back p PTP_DTC_UINT64 (PVu64 w) bs n pre post"
  "ptp_pack_DPV p (PVarr (map PVu64 ws)) PTP_DTC_AUINT64 = Some (Some bs, n) \<Longrightarrow>
    length pre + length bs + length post < 2 ^ 32 - 1 \<Longrightarrow>
    length ws < 268435455 \<Longrightarrow> pp_alloc p (length ws * 16) \<Longrightarrow>
    read_back p PTP_DTC_AUINT64 (PVarr (map PVu64 ws)) bs n pre post"
  using pack_scalar64 [of p w bs n pre post PVu64] pack_array64 [of p pv_u64 PVu64 ws bs n pre post] DPV_room [of pre bs post]
  by (simp_all only: ptp_pack_DPV_def ptp_unpack_DPV_def read_back_def) simp_all

lemma pv_array_cases:
  assumes "pv_typed dt (PVarr vs)"
  obtains ws where "dt = PTP_DTC_AINT8" "vs = map PVi8 ws"
    | ws where "dt = PTP_DTC_AUINT8" "vs = map PVu8 ws"
    | ws where "dt = PTP_DTC_AINT16" "vs = map PVi16 ws"
    | ws where "dt = PTP_DTC_AUINT16" "vs = map PVu16 ws"
    | ws where "dt = PTP_DTC_AINT32" "vs = map PVi32 ws"
    | ws where "dt = PTP_DTC_AUINT32" "vs = map PVu32 ws"
    | ws where "dt = PTP_DTC_AINT64" "vs = map PVi64 ws"
    | ws where "dt = PTP_DTC_AUINT64" "vs = map PVu64 ws"
proof -
  from assms [unfolded pv_typed_def propvalue.case] show thesis
    by (elim disjE conjE) (drule typed_elements, erule exE, erule (1) that)+
qed

lemma ptp_pack_DPV_unpack:
  assumes v: "dpv_valid dt p v" and pk: "ptp_pack_DPV p v dt = Some (Some bs, n)"
    and len: "length pre + length bs + length post < 2 ^ 32 - 1"
  shows "read_back p dt v bs n pre post"
proof (cases v)
  case PVzero
  with v pk show ?thesis by (auto simp: dpv_valid_def pv_typed_def ptp_pack_DPV_def)
next
  case (PVstr s)
  with v pk have dt: "dt = PTP_DTC_STR" "string_valid p s" "ptp_get_packed_stringcopy p s = Some (Some bs, n)"
    by (auto simp: dpv_valid_def pv_typed_def ptp_pack_DPV_def)
  moreover from this have "bs \<noteq> []"
    by (cases s) (auto simp: string_valid_def ptp_get_packed_stringcopy_bytes string_bytes_def split: if_splits)
  ultimately show ?thesis
    using string.pack_unpack [OF dt(2,3) len] DPV_room [OF len] PVstr
    by (simp only: ptp_unpack_DPV_def read_back_def) simp
next
  case (PVarr vs)
  then have small: "length vs < 268435455" "pp_alloc p (length vs * 16)"
    using v by (simp_all add: dpv_valid_def)
  have "pv_typed dt (PVarr vs)" using v PVarr by (simp add: dpv_valid_def)
  then show ?thesis
    using pk small len unfolding PVarr
    by (cases rule: pv_array_cases)
      (simp_all add: read_back_PVi8(2) read_back_PVu8(2) read_back_PVi16(2) read_back_PVu16(2)
        read_back_PVi32(2) read_back_PVu32(2) read_back_PVi64(2) read_back_PVu64(2))
qed (use v pk len in \<open>simp_all add: dpv_valid_def pv_typed_def read_back_PVi8(1) read_back_PVu8(1)
      read_back_PVi16(1) read_back_PVu16(1) read_back_PVi32(1) read_back_PVu32(1) read_back_PVi64(1)
      read_back_PVu64(1)\<close>)

text \<open>A property value of every data type is a codec.\<close>

interpretation dpv: codec "\<lambda>p d off tot. ptp_unpack_DPV p d off tot dt" "\<lambda>p v. ptp_pack_DPV p v dt"
    "dpv_valid dt" for dt
  by unfold_locales (rule ptp_unpack_DPV_safe [unfolded in_bounds_def], assumption+,
    rule ptp_pack_DPV_unpack [unfolded read_back_def])

section \<open>Descriptions are unpacked safely\<close>

lemma DPV_runs:
  assumes "unat sz \<le> length d" "sz \<noteq> - 1" "off \<le> sz"
    and "\<And>ok off' v. off \<le> off' \<Longrightarrow> off' \<le> sz \<Longrightarrow> (ok \<Longrightarrow> pv_typed dt v) \<Longrightarrow> P (ok, off', v)"
  shows "runs (ptp_unpack_DPV p (Some d) off sz dt) P"
proof -
  obtain ok off' v where u: "ptp_unpack_DPV p (Some d) off sz dt = Some (ok, off', v)"
    "off \<le> off'" "off' \<le> sz"
    using ptp_unpack_DPV_safe [OF assms(1-3), of p dt] by (auto simp: in_bounds_def)
  then have "ok \<Longrightarrow> pv_typed dt v" using ptp_unpack_DPV_type [of p "Some d" off sz dt off' v] by simp
  with u assms(4) show ?thesis by simp
qed

lemma unpack_values_runs:
  assumes "unat sz \<le> length d" "sz \<noteq> - 1" "off \<le> sz"
    and "\<And>off' vs. off \<le> off' \<Longrightarrow> off' \<le> sz \<Longrightarrow> length vs \<le> n \<Longrightarrow> list_all (pv_typed dt) vs \<Longrightarrow> P (off', vs)"
  shows "runs (unpack_values (\<lambda>off. ptp_unpack_DPV p (Some d) off sz dt) n off) P"
  using assms(3,4)
proof (induction n arbitrary: off P)
  case (Suc n)
  show ?case
    using Suc.prems
    by (auto simp: split_beta intro!: runs_intros DPV_runs [OF assms(1,2)] Suc.IH)
qed simp

lemma u32_room:
  assumes "\<not> unat (sz :: u32) < unat off + k" "kw = of_nat k"
  shows "off \<le> off + kw" "off + kw \<le> sz" "unat (off + kw) = unat off + k"
proof -
  show u: "unat (off + kw) = unat off + k"
    unfolding assms(2) using assms(1) unat_u32_less [of sz] by (intro unat_off_add) simp
  with assms(1) show "off \<le> off + kw" "off + kw \<le> sz" by (simp_all add: word_le_nat_alt)
qed

lemma unpack_enum_runs:
  assumes "unat sz \<le> length d" "sz \<noteq> - 1" "off \<le> sz"
    and "\<And>off' r. off \<le> off' \<Longrightarrow> off' \<le> sz \<Longrightarrow>
      (\<And>vs. r = Some vs \<Longrightarrow> length vs < 65536 \<and> list_all (pv_typed dt) vs) \<Longrightarrow> P (off', r)"
  shows "runs (unpack_enum p (Some d) off sz dt) P"
proof (cases "unat sz < unat off + 2")
  case False
  note room = u32_room [OF False, of 2, simplified]
  define n where "n = le16 d (unat off)"
  have "unat n < 65536" using unsigned_less [of n] by simp
  with room assms(1) False show ?thesis
    unfolding unpack_enum_def Let_def
    by (auto simp: n_def [symmetric] split_beta intro!: runs_intros unpack_values_runs [OF assms(1,2)] assms(4))
qed (auto simp: unpack_enum_def assms(3) intro!: assms(4))

lemma unpack_range_runs:
  assumes "unat sz \<le> length d" "sz \<noteq> - 1" "off \<le> sz"
    and "\<And>off' r. off \<le> off' \<Longrightarrow> off' \<le> sz \<Longrightarrow>
      (\<And>a b c. r = Some (a, b, c) \<Longrightarrow> pv_typed dt a \<and> pv_typed dt b \<and> pv_typed dt c) \<Longrightarrow> P (off', r)"
  shows "runs (unpack_range p (Some d) off sz dt) P"
  unfolding unpack_range_def
  by (auto simp: split_beta assms(3) intro!: runs_intros DPV_runs [OF assms(1,2)] assms(4))

text \<open>A form of the kind its flag names, with values of the data type.\<close>

definition form_typed :: "u16 \<Rightarrow> u8 \<Rightarrow> dpd_form \<Rightarrow> bool" where
  "form_typed dt flag f =
     (case f of
        FORM_zero \<Rightarrow> flag \<noteq> PTP_DPFF_Range \<and> flag \<noteq> PTP_DPFF_Enumeration
      | FORM_Enum vs \<Rightarrow> flag = PTP_DPFF_Enumeration \<and> length vs < 65536 \<and> list_all (pv_typed dt) vs
      | FORM_Range a b c \<Rightarrow> flag = PTP_DPFF_Range \<and> pv_typed dt a \<and> pv_typed dt b \<and> pv_typed dt c)"

lemma unpack_form_runs:
  assumes "unat sz \<le> length d" "sz \<noteq> - 1" "off \<le> sz"
    and "\<And>off' r. off \<le> off' \<Longrightarrow> off' \<le> sz \<Longrightarrow> (\<And>f. r = Some f \<Longrightarrow> form_typed dt flag f) \<Longrightarrow> P (off', r)"
  shows "runs (unpack_form p (Some d) off sz dt flag) P"
  unfolding unpack_form_def
  by (auto simp: split_beta assms(3) form_typed_def intro!: runs_intros unpack_enum_runs [OF assms(1,2)]
      unpack_range_runs [OF assms(1,2)] assms(4))

lemma form_typed_none [simp]: "form_typed dt PTP_DPFF_None FORM_zero"
  by (simp add: form_typed_def)

text \<open>
  A description has values of its data type throughout; the string properties that end with
  the default value have no current value.
\<close>

definition dpd_typed :: "PTPDevicePropDesc \<Rightarrow> bool" where
  "dpd_typed d = (pv_typed (dpd_DataType d) (dpd_DefaultValue d)
     \<and> (pv_typed (dpd_DataType d) (dpd_CurrentValue d)
        \<or> dpd_DataType d = PTP_DTC_STR \<and> dpd_CurrentValue d = PVzero)
     \<and> form_typed (dpd_DataType d) (dpd_FormFlag d) (dpd_FORM d))"

lemma dpd_typed_simps [simp]:
  "dpd_typed \<lparr>dpd_DevicePropCode = code, dpd_DataType = dt, dpd_GetSet = gs, dpd_FormFlag = flag,
      dpd_DefaultValue = dv, dpd_CurrentValue = cv, dpd_FORM = form, dpd_timestamp = t\<rparr>
    \<longleftrightarrow> pv_typed dt dv \<and> (pv_typed dt cv \<or> dt = PTP_DTC_STR \<and> cv = PVzero) \<and> form_typed dt flag form"
  by (simp add: dpd_typed_def)

definition good_dpd :: "u32 \<Rightarrow> bool \<times> u32 \<times> PTPDevicePropDesc \<Rightarrow> bool" where
  "good_dpd sz r = (case r of (ok, off, dpd) \<Rightarrow> off \<le> sz \<and> (ok \<longrightarrow> dpd_typed dpd))"

lemma good_dpd_simps [simp]:
  "good_dpd sz (ok, off, dpd) \<longleftrightarrow> off \<le> sz \<and> (ok \<longrightarrow> dpd_typed dpd)"
  by (simp add: good_dpd_def)

lemma ptp_unpack_DPD_runs:
  assumes "unat sz \<le> length d" "sz \<noteq> - 1" "off0 \<le> sz"
  shows "runs (ptp_unpack_DPD p (Some d) sz off0) (good_dpd sz)"
proof (cases "sz \<le> 5")
  case False
  then have "6 \<le> unat sz" "5 \<le> sz" by (simp_all add: word_less_nat_alt word_le_nat_alt not_le)
  then show ?thesis
    using assms False unfolding ptp_unpack_DPD_def Let_def
    by (auto simp: split_beta dpd_zero_def not_less u32_room(2) [where k = 1, simplified]
        split: option.splits intro!: runs_intros DPV_runs [OF assms(1,2)] unpack_form_runs [OF assms(1,2)])
qed (simp add: ptp_unpack_DPD_def assms(3))

lemma sony_second_list_runs:
  assumes "unat sz \<le> length d" "unat sz < 2 ^ 32 - 2" "off \<le> sz" "dpd_typed dpd"
  shows "runs (sony_second_list p (Some d) sz off dpd) (good_dpd sz)"
proof -
  have ne: "sz \<noteq> - 1" using assms(2) unat_u32_max by auto
  have room: "unat off + 2 \<le> unat sz" if "off + 2 \<le> sz"
  proof -
    have "unat (off + 2) = unat off + 2"
      using assms(2,3) by (intro unat_off_add_numeral) (simp add: word_le_nat_alt)
    with that show ?thesis by (simp add: word_le_nat_alt)
  qed
  show ?thesis
    using assms(1,3,4) room unfolding sony_second_list_def Let_def
    by (auto simp: split_beta not_less dpd_typed_def form_typed_def split: option.splits
        intro!: runs_intros unpack_enum_runs [OF assms(1) ne])
qed

lemma ptp_unpack_Sony_DPD_runs:
  assumes "unat sz \<le> length d" "unat sz < 2 ^ 32 - 2" "off0 \<le> sz"
  shows "runs (ptp_unpack_Sony_DPD p (Some d) dpd0 sz off0) (good_dpd sz)"
proof (cases "sz < 6")
  case False
  then have s6: "6 \<le> unat sz" "6 \<le> sz" by (simp_all add: word_less_nat_alt word_le_nat_alt not_less)
  have ne: "sz \<noteq> - 1" using assms(2) unat_u32_max by auto
  show ?thesis
    using assms(1) False s6 unfolding ptp_unpack_Sony_DPD_def Let_def
    by (auto simp: split_beta dpd_zero_def not_less u32_room(2) [where k = 1, simplified]
        split: option.splits intro!: runs_intros DPV_runs [OF assms(1) ne] unpack_form_runs [OF assms(1) ne]
        sony_second_list_runs [OF assms(1,2)])
qed (simp add: ptp_unpack_Sony_DPD_def assms(3))

section \<open>Copies are faithful\<close>

lemma those_same: "(\<And>v. v \<in> set vs \<Longrightarrow> f v = Some v) \<Longrightarrow> those (map f vs) = Some vs"
  by (induction vs) auto

lemma dup_single_typed: "scalar_typed dt v \<Longrightarrow> dup_single p v dst dt = Some v"
  by (cases v) (auto simp: dup_single_def dup_scalar_def)

lemma duplicate_typed:
  assumes "pv_typed dt v" "\<forall>n. pp_alloc p n"
  shows "duplicate_PropertyValue p v PVzero dt = Some v"
proof (cases v)
  case (PVarr vs)
  have same: "those (map (\<lambda>v. dup_single p v PVzero t) vs) = Some vs" if "list_all (scalar_typed t) vs" for t
    using that by (auto intro!: those_same dup_single_typed simp: list_all_iff)
  have "pv_typed dt (PVarr vs)" using assms(1) PVarr by simp
  then have "dt \<noteq> PTP_DTC_STR \<and> dt AND PTP_DTC_ARRAY_MASK \<noteq> 0
      \<and> list_all (scalar_typed (dt AND NOT PTP_DTC_ARRAY_MASK)) vs"
    by (cases rule: pv_array_cases) (simp_all add: list_all_iff)
  then show ?thesis
    using assms(2) PVarr same by (simp add: duplicate_PropertyValue_def)
next
  case (PVstr s)
  with assms show ?thesis
    by (cases s) (simp_all add: pv_typed_def duplicate_PropertyValue_def dup_single_def c_strdup_def)
qed (use assms in \<open>auto simp: pv_typed_def duplicate_PropertyValue_def dup_single_def dup_scalar_def\<close>)

text \<open>A missing string value comes out as the NULL string, which is the same union.\<close>

definition norm_value :: "u16 \<Rightarrow> propvalue \<Rightarrow> propvalue" where
  "norm_value dt v = (if dt = PTP_DTC_STR \<and> v = PVzero then PVstr None else v)"

lemma duplicate_norm:
  assumes "pv_typed dt v \<or> dt = PTP_DTC_STR \<and> v = PVzero" "\<forall>n. pp_alloc p n"
  shows "duplicate_PropertyValue p v PVzero dt = Some (norm_value dt v)"
proof (cases "dt = PTP_DTC_STR \<and> v = PVzero")
  case True
  then show ?thesis by (simp add: norm_value_def duplicate_PropertyValue_def dup_single_def)
next
  case False
  with assms have "pv_typed dt v" by blast
  from duplicate_typed [OF this assms(2)] False show ?thesis by (simp add: norm_value_def)
qed

lemma duplicate_DevicePropDesc_typed:
  assumes "dpd_typed d" "\<forall>n. pp_alloc p n"
  shows "duplicate_DevicePropDesc p d dpd_zero = Some (d\<lparr>
      dpd_CurrentValue := norm_value (dpd_DataType d) (dpd_CurrentValue d), dpd_timestamp := 0,
      dpd_FORM := dpd_FORM d\<rparr>)"
proof (cases d)
  case (fields code dt gs flag dv cv form t)
  with assms(1) have ty: "pv_typed dt dv" "pv_typed dt cv \<or> dt = PTP_DTC_STR \<and> cv = PVzero"
    "form_typed dt flag form" by simp_all
  note dv = duplicate_typed [OF ty(1) assms(2)] and cv = duplicate_norm [OF ty(2) assms(2)]
  show ?thesis
  proof (cases form)
    case FORM_zero
    with ty(3) show ?thesis
      by (simp add: duplicate_DevicePropDesc_def fields dpd_zero_def dv cv form_typed_def Let_def)
  next
    case (FORM_Enum vs)
    with ty(3) have "flag = PTP_DPFF_Enumeration" "those (map (\<lambda>v. duplicate_PropertyValue p v PVzero dt) vs) = Some vs"
      using duplicate_typed [OF _ assms(2)] by (auto simp: form_typed_def list_all_iff intro!: those_same)
    with FORM_Enum assms(2) show ?thesis
      by (simp add: duplicate_DevicePropDesc_def fields dpd_zero_def dv cv Let_def)
  next
    case (FORM_Range a b c)
    with ty(3) have "flag = PTP_DPFF_Range" "pv_typed dt a" "pv_typed dt b" "pv_typed dt c"
      by (simp_all add: form_typed_def)
    with FORM_Range assms(2) show ?thesis
      by (simp add: duplicate_DevicePropDesc_def fields dpd_zero_def dv cv duplicate_typed Let_def)
  qed
qed

section \<open>The properties of values and descriptions\<close>

text \<open>
  C21. A property value of any data type survives packing and unpacking: the packed block is
  unpacked to the value it was made of, wherever it stands, and the offset moves behind it.
\<close>

theorem ptp_DPV_roundtrip:
  assumes "dpv_valid dt p v" "ptp_pack_DPV p v dt = Some (Some bs, n)"
    and "length pre + length bs + length post < 2 ^ 32 - 1"
  shows "unat n = length bs \<and>
    ptp_unpack_DPV p (Some (pre @ bs @ post)) (of_nat (length pre))
        (of_nat (length (pre @ bs @ post))) dt
      = Some (True, of_nat (length pre + length bs), v)"
  using dpv.pack_unpack [OF assms] .

theorem ptp_DPV_roundtrip_witness:
  "ptp_unpack_DPV plain_params (Some ([9] @ (put32 2 @ put16 5 @ put16 0x1234) @ [])) 1 9 PTP_DTC_AUINT16
     = Some (True, 9, PVarr [PVu16 5, PVu16 0x1234])"
proof -
  have "dpv_valid PTP_DTC_AUINT16 plain_params (PVarr [PVu16 5, PVu16 0x1234])"
    by (simp add: dpv_valid_def pv_typed_def plain_params_def)
  moreover have "ptp_pack_DPV plain_params (PVarr [PVu16 5, PVu16 0x1234]) PTP_DTC_AUINT16
      = Some (Some (put32 2 @ put16 5 @ put16 0x1234), 8)"
    by (simp add: ptp_pack_DPV_def pack_array_def pack_block_def plain_params_def wr_def)
  ultimately show ?thesis
    using ptp_DPV_roundtrip [of PTP_DTC_AUINT16 plain_params _ _ 8 "[9]" "[]"] by fastforce
qed

text \<open>
  C12. Whatever the device sends as a property description, PTP or Sony, no byte outside
  the received ones is read, the offset stays inside them, and a description that is accepted
  holds values of its data type in a form that its flag names.
\<close>

theorem ptp_unpack_DPD_typed:
  assumes "length d < 2 ^ 32 - 2"
  shows "\<exists>ok off dpd ok' off' dpd'. ptp_unpack_DPD p (Some d) (of_nat (length d)) 0 = Some (ok, off, dpd)
    \<and> ptp_unpack_Sony_DPD p (Some d) dpd0 (of_nat (length d)) 0 = Some (ok', off', dpd')
    \<and> unat off \<le> length d \<and> unat off' \<le> length d
    \<and> (ok \<longrightarrow> dpd_typed dpd) \<and> (ok' \<longrightarrow> dpd_typed dpd')"
proof -
  have u: "unat (of_nat (length d) :: u32) = length d" using assms by (intro unat_of_nat_u32) simp
  then have "of_nat (length d) \<noteq> (- 1 :: u32)"
    using assms by (auto simp: word_unat_eq_iff [of "of_nat (length d)"] unat_u32_max)
  then have "runs (ptp_unpack_DPD p (Some d) (of_nat (length d)) 0) (good_dpd (of_nat (length d)))"
    using u by (intro ptp_unpack_DPD_runs) simp_all
  then obtain ok off dpd where a: "ptp_unpack_DPD p (Some d) (of_nat (length d)) 0 = Some (ok, off, dpd)"
    "off \<le> of_nat (length d)" "ok \<Longrightarrow> dpd_typed dpd"
    by (auto simp: runs_iff good_dpd_def)
  have "runs (ptp_unpack_Sony_DPD p (Some d) dpd0 (of_nat (length d)) 0) (good_dpd (of_nat (length d)))"
    using u assms by (intro ptp_unpack_Sony_DPD_runs) simp_all
  then obtain ok' off' dpd' where b: "ptp_unpack_Sony_DPD p (Some d) dpd0 (of_nat (length d)) 0 = Some (ok', off', dpd')"
    "off' \<le> of_nat (length d)" "ok' \<Longrightarrow> dpd_typed dpd'"
    by (auto simp: runs_iff good_dpd_def)
  from a(2) b(2) have "unat off \<le> length d" "unat off' \<le> length d"
    by (simp_all add: word_le_nat_alt u)
  with a b show ?thesis by blast
qed

definition sample_dpd :: "byte list" where
  "sample_dpd = [0x01, 0x50, 2, 0, 0, 50, 51, 2, 2, 0, 50, 51]"

theorem ptp_unpack_DPD_typed_witness:
  "\<exists>ok off dpd. ptp_unpack_DPD plain_params (Some sample_dpd) 12 0 = Some (ok, off, dpd)
    \<and> (ok \<longrightarrow> dpd_typed dpd)"
proof -
  have "length sample_dpd = 12" by (simp add: sample_dpd_def)
  with ptp_unpack_DPD_typed [of sample_dpd plain_params dpd_zero] show ?thesis by fastforce
qed

text \<open>
  C24. The cached copy of an accepted description has the same values: copying into a
  zeroed description changes nothing but the time stamp (and spells a missing string as the
  NULL string).
\<close>

theorem duplicate_DevicePropDesc_faithful:
  assumes "ptp_unpack_DPD p (Some d) sz off0 = Some (True, off, dpd)"
    and "unat sz \<le> length d" "sz \<noteq> - 1" "off0 \<le> sz" "\<forall>n. pp_alloc p n"
  shows "duplicate_DevicePropDesc p dpd dpd_zero = Some (dpd\<lparr>
      dpd_CurrentValue := norm_value (dpd_DataType dpd) (dpd_CurrentValue dpd), dpd_timestamp := 0\<rparr>)"
proof -
  have "dpd_typed dpd" using ptp_unpack_DPD_runs [OF assms(2-4), of p] assms(1) by simp
  from duplicate_DevicePropDesc_typed [OF this assms(5)] show ?thesis by simp
qed

lemma sample_values:
  "ptp_unpack_DPV plain_params (Some sample_dpd) 5 12 PTP_DTC_UINT8 = Some (True, 6, PVu8 50)"
  "ptp_unpack_DPV plain_params (Some sample_dpd) 6 12 PTP_DTC_UINT8 = Some (True, 7, PVu8 51)"
  "ptp_unpack_DPV plain_params (Some sample_dpd) 10 12 PTP_DTC_UINT8 = Some (True, 11, PVu8 50)"
  "ptp_unpack_DPV plain_params (Some sample_dpd) 11 12 PTP_DTC_UINT8 = Some (True, 12, PVu8 51)"
  by (simp_all add: ptp_unpack_DPV_def ctval_def sample_dpd_def)

lemma sample_enum:
  "unpack_enum plain_params (Some sample_dpd) 8 12 PTP_DTC_UINT8 = Some (12, Some [PVu8 50, PVu8 51])"
proof -
  have "unpack_values f (Suc (Suc 0)) 10 = Some (12, [PVu8 50, PVu8 51])"
    if "f 10 = Some (True, 11, PVu8 50)" "f 11 = Some (True, 12, PVu8 51)" for f
    using that by simp
  from this [of "\<lambda>off. ptp_unpack_DPV plain_params (Some sample_dpd) off 12 PTP_DTC_UINT8"]
  have "unpack_values (\<lambda>off. ptp_unpack_DPV plain_params (Some sample_dpd) off 12 PTP_DTC_UINT8)
      2 10 = Some (12, [PVu8 50, PVu8 51])"
    by (simp only: sample_values numeral_2_eq_2 simp_thms)
  moreover have "rd16 (Some sample_dpd) 8 = Some 2" by (simp add: sample_dpd_def le16_def)
  moreover have "pp_alloc plain_params n" for n by (simp add: plain_params_def)
  ultimately show ?thesis by (simp add: unpack_enum_def Let_def)
qed

lemma sample_dpd_unpacked:
  "ptp_unpack_DPD plain_params (Some sample_dpd) 12 0 = Some (True, 12,
     dpd_zero\<lparr>dpd_DevicePropCode := 0x5001, dpd_DataType := PTP_DTC_UINT8, dpd_FormFlag := 2,
       dpd_DefaultValue := PVu8 50, dpd_CurrentValue := PVu8 51,
       dpd_FORM := FORM_Enum [PVu8 50, PVu8 51]\<rparr>)"
proof -
  have "rd16 (Some sample_dpd) 0 = Some 0x5001" "rd16 (Some sample_dpd) 2 = Some PTP_DTC_UINT8"
    "rd8 (Some sample_dpd) 4 = Some 0" "rd8 (Some sample_dpd) 7 = Some PTP_DPFF_Enumeration"
    by (simp_all add: sample_dpd_def le16_def)
  then show ?thesis
    by (simp add: ptp_unpack_DPD_def sample_values sample_enum unpack_form_def dpd_zero_def Let_def)
qed

theorem duplicate_DevicePropDesc_faithful_witness:
  "duplicate_DevicePropDesc plain_params
     (dpd_zero\<lparr>dpd_DevicePropCode := 0x5001, dpd_DataType := PTP_DTC_UINT8, dpd_FormFlag := 2,
       dpd_DefaultValue := PVu8 50, dpd_CurrentValue := PVu8 51,
       dpd_FORM := FORM_Enum [PVu8 50, PVu8 51]\<rparr>) dpd_zero
   = Some (dpd_zero\<lparr>dpd_DevicePropCode := 0x5001, dpd_DataType := PTP_DTC_UINT8, dpd_FormFlag := 2,
       dpd_DefaultValue := PVu8 50, dpd_CurrentValue := PVu8 51,
       dpd_FORM := FORM_Enum [PVu8 50, PVu8 51]\<rparr>)"
  using duplicate_DevicePropDesc_faithful [OF sample_dpd_unpacked]
  by (simp add: sample_dpd_def plain_params_def norm_value_def dpd_zero_def)

end
