(* ===== verification/PtpObjects.thy ===== *)
theory PtpObjects
  imports PtpProps
begin

unbundle bit_operations_syntax

text \<open>
  MTP object property descriptions and object property lists (\<open>camlibs/ptp2/ptp-pack.c\<close>,
  \<open>ptp_unpack_OPD\<close>, \<open>ptp_pack_OPL\<close> and \<open>ptp_unpack_OPL\<close>).
\<close>

section \<open>Object property descriptions\<close>

datatype opd_form =
    OF_zero
  | OF_Enum "propvalue list"
  | OF_Range propvalue propvalue propvalue
  | OF_DateTime "string option"
  | OF_RegularExpression "string option"
  | OF_FixedLengthArray u16
  | OF_ByteArray u16

record PTPObjectPropDesc =
  opd_ObjectPropCode :: u16
  opd_DataType :: u16
  opd_GetSet :: u8
  opd_DefaultValue :: propvalue
  opd_GroupCode :: u32
  opd_FormFlag :: u8
  opd_FORM :: opd_form

definition opd_zero :: PTPObjectPropDesc where
  "opd_zero = \<lparr>opd_ObjectPropCode = 0, opd_DataType = 0, opd_GetSet = 0, opd_DefaultValue = PVzero,
     opd_GroupCode = 0, opd_FormFlag = 0, opd_FORM = OF_zero\<rparr>"

text \<open>
  The form of a description; the inner \<open>None\<close> is the jump to \<open>outofmemory\<close>. A date or regular
  expression that cannot be read is left NULL without an error.
\<close>

definition unpack_opd_form ::
    "'p ptp_params_scheme \<Rightarrow> buffer \<Rightarrow> u32 \<Rightarrow> u32 \<Rightarrow> u16 \<Rightarrow> u8 \<Rightarrow> opd_form option option" where
  "unpack_opd_form p data off opdlen dt flag =
     (if flag = 0x01 then do {
        (_, r) \<leftarrow> unpack_range p data off opdlen dt;
        Some (map_option (\<lambda>(a, b, c). OF_Range a b c) r)
      }
      else if flag = 0x02 then do {
        (_, vs) \<leftarrow> unpack_enum p data off opdlen dt;
        Some (map_option OF_Enum vs)
      }
      else if flag = 0x03 then do {
        (_, _, s) \<leftarrow> ptp_unpack_string p data off opdlen;
        Some (Some (OF_DateTime s))
      }
      else if flag = 0x05 then do {
        (_, _, s) \<leftarrow> ptp_unpack_string p data off opdlen;
        Some (Some (OF_RegularExpression s))
      }
      else if flag = 0x04 \<or> flag = 0x06 then
        (if unat opdlen < unat off + 2 then Some None
         else do {
           n \<leftarrow> rd16 data off;
           Some (Some (if flag = 0x04 then OF_FixedLengthArray n else OF_ByteArray n))
         })
      else Some (Some OF_zero))"

text \<open>
  \<open>ptp_unpack_OPD\<close>. On an error the values are released, the other fields stay as they are
  (\<open>ptp_free_objectpropdesc\<close> resets nothing).
\<close>

definition ptp_free_objectpropdesc :: "PTPObjectPropDesc \<Rightarrow> PTPObjectPropDesc" where
  "ptp_free_objectpropdesc opd = opd\<lparr>opd_DefaultValue := PVzero, opd_FORM := OF_zero\<rparr>"

definition ptp_unpack_OPD ::
    "'p ptp_params_scheme \<Rightarrow> buffer \<Rightarrow> u32 \<Rightarrow> (bool \<times> PTPObjectPropDesc) option" where
  "ptp_unpack_OPD p data opdlen =
     (if opdlen < 5 then Some (False, opd_zero)
      else do {
        code \<leftarrow> rd16 data 0;
        dt \<leftarrow> rd16 data 2;
        gs \<leftarrow> rd8 data 4;
        let opd = opd_zero\<lparr>opd_ObjectPropCode := code, opd_DataType := dt, opd_GetSet := gs\<rparr>;
        (ok, off, v) \<leftarrow> ptp_unpack_DPV p data 5 opdlen dt;
        let opd = opd\<lparr>opd_DefaultValue := v\<rparr>;
        if \<not> ok \<or> unat opdlen < unat off + 4 then Some (False, ptp_free_objectpropdesc opd)
        else do {
        grp \<leftarrow> rd32 data off;
        let opd = opd\<lparr>opd_GroupCode := grp\<rparr>;
        let off = off + 4;
        if unat opdlen < unat off + 1 then Some (False, ptp_free_objectpropdesc opd)
        else do {
        flag \<leftarrow> rd8 data off;
        let opd = opd\<lparr>opd_FormFlag := flag\<rparr>;
        form \<leftarrow> unpack_opd_form p data (off + 1) opdlen dt flag;
        Some (case form of
            None \<Rightarrow> (False, ptp_free_objectpropdesc opd)
          | Some f \<Rightarrow> (True, opd\<lparr>opd_FORM := f\<rparr>))
        }}})"

section \<open>Object property lists\<close>

record MTPObjectProp =
  op_PropCode :: u16
  op_DataType :: u16
  op_ObjectHandle :: u32
  op_Value :: propvalue

definition MAX_MTP_PROPS :: nat where
  "MAX_MTP_PROPS = 127"

text \<open>
  \<open>ptp_pack_OPL\<close> on a list of \<open>nrofprops\<close> elements: the first loop packs at most
  \<open>MAX_MTP_PROPS\<close> values and adds up the sizes in 32 bits, the second one copies them into one
  block of that size.
\<close>

fun opl_collect ::
    "'p ptp_params_scheme \<Rightarrow> MTPObjectProp list \<Rightarrow> (MTPObjectProp \<times> buffer \<times> u32) list option" where
  "opl_collect p [] = Some []"
| "opl_collect p (x # xs) = do {
     (b, n) \<leftarrow> ptp_pack_DPV p (op_Value x) (op_DataType x);
     ys \<leftarrow> opl_collect p xs;
     Some ((x, b, n) # ys)
   }"

fun opl_size :: "(MTPObjectProp \<times> buffer \<times> u32) list \<Rightarrow> u32" where
  "opl_size [] = 4"
| "opl_size ((x, b, n) # ys) = opl_size ys + 4 + 2 + 2 + n"

fun opl_copy :: "(MTPObjectProp \<times> buffer \<times> u32) list \<Rightarrow> byte list \<Rightarrow> u32 \<Rightarrow> byte list option" where
  "opl_copy [] d bufp = Some d"
| "opl_copy ((x, b, n) # ys) d bufp = do {
     d \<leftarrow> wr d (unat bufp) (put32 (op_ObjectHandle x));
     let bufp = bufp + 4;
     d \<leftarrow> wr d (unat bufp) (put16 (op_PropCode x));
     let bufp = bufp + 2;
     d \<leftarrow> wr d (unat bufp) (put16 (op_DataType x));
     let bufp = bufp + 2;
     d \<leftarrow> (case b of
             None \<Rightarrow> if n = 0 then Some d else None
           | Some bs \<Rightarrow> if unat n \<le> length bs then wr d (unat bufp) (take (unat n) bs) else None);
     opl_copy ys d (bufp + n)
   }"

definition ptp_pack_OPL ::
    "'p ptp_params_scheme \<Rightarrow> MTPObjectProp list \<Rightarrow> (byte list \<times> u32) option" where
  "ptp_pack_OPL p props = do {
     items \<leftarrow> opl_collect p (take MAX_MTP_PROPS props);
     let totalsize = opl_size items;
     if \<not> pp_alloc p (unat totalsize) then None
     else do {
       d \<leftarrow> wr (map (pp_junk p) [0..<unat totalsize]) 0 (put32 (of_nat (length items)));
       d \<leftarrow> opl_copy items d 4;
       Some (d, totalsize)
     }
   }"

text \<open>\<open>_compare_func\<close>: the difference of the handles, as an \<open>int\<close>.\<close>

definition compare_func :: "MTPObjectProp \<Rightarrow> MTPObjectProp \<Rightarrow> int" where
  "compare_func px py = sint (op_ObjectHandle px - op_ObjectHandle py)"

text \<open>
  The loop of \<open>ptp_unpack_OPL\<close>: the elements read until the list is complete, or until the
  data is short or a value does not fit.
\<close>

fun opl_loop ::
    "'p ptp_params_scheme \<Rightarrow> buffer \<Rightarrow> u32 \<Rightarrow> nat \<Rightarrow> u32 \<Rightarrow> MTPObjectProp list option" where
  "opl_loop p data len 0 off = Some []"
| "opl_loop p data len (Suc n) off =
     (if len \<le> off + 4 + 2 + 2 then Some []
      else do {
        h \<leftarrow> rd32 data off;
        let off = off + 4;
        c \<leftarrow> rd16 data off;
        let off = off + 2;
        t \<leftarrow> rd16 data off;
        let off = off + 2;
        (ok, off, v) \<leftarrow> ptp_unpack_DPV p data off len t;
        if \<not> ok then Some []
        else do {
          xs \<leftarrow> opl_loop p data len n off;
          Some (\<lparr>op_PropCode = c, op_DataType = t, op_ObjectHandle = h, op_Value = v\<rparr> # xs)
        }
      })"

definition ptp_unpack_OPL ::
    "'p ptp_params_scheme \<Rightarrow> buffer \<Rightarrow> u32 \<Rightarrow> (int \<times> MTPObjectProp list) option" where
  "ptp_unpack_OPL p data len =
     (if len < 4 then Some (0, [])
      else do {
        prop_count \<leftarrow> rd32 data 0;
        if prop_count = 0 then Some (0, [])
        else if 2147483647 div 24 \<le> unat prop_count then Some (0, [])
        else if \<not> pp_alloc p (unat prop_count * 24) then Some (0, [])
        else do {
          xs \<leftarrow> opl_loop p data len (unat prop_count) 4;
          Some (int (length xs), qsort compare_func xs)
        }
      })"

section \<open>Lists and descriptions are unpacked safely\<close>

lemma ptp_unpack_OPD_runs:
  assumes "unat sz \<le> length d" "sz \<noteq> - 1"
  shows "runs (ptp_unpack_OPD p (Some d) sz) (\<lambda>r. fst r \<longrightarrow> pv_typed (opd_DataType (snd r)) (opd_DefaultValue (snd r)))"
proof (cases "sz < 5")
  case False
  then have s5: "5 \<le> unat sz" "5 \<le> sz" by (simp_all add: word_less_nat_alt word_le_nat_alt not_less)
  have form: "runs (unpack_opd_form p (Some d) off sz dt flag) P"
    if "off \<le> sz" "\<And>f. P f" for off dt flag P
    using that(1) assms(1) unfolding unpack_opd_form_def
    by (auto simp: split_beta that(2) intro!: runs_intros unpack_enum_runs [OF assms] unpack_range_runs [OF assms]
        string.unpack_runs [OF assms])
  have o5: "5 + off \<le> sz" if "\<not> unat sz < Suc (unat (off + 4))" for off
    using u32_room(2) [of sz "off + 4" 1 1] that by (simp add: add.commute)
  show ?thesis
    using assms(1) False s5 o5 unfolding ptp_unpack_OPD_def Let_def
    by (auto simp: split_beta opd_zero_def ptp_free_objectpropdesc_def split: option.splits
        intro!: runs_intros DPV_runs [OF assms] form)
qed (simp add: ptp_unpack_OPD_def)

lemma opl_loop_runs:
  assumes "unat len \<le> length d" "unat len < 2 ^ 32 - 8" "off \<le> len"
  shows "runs (opl_loop p (Some d) len n off) (\<lambda>xs. length xs \<le> n \<and> (\<forall>x \<in> set xs. pv_typed (op_DataType x) (op_Value x)))"
  using assms(3)
proof (induction n arbitrary: off)
  case (Suc n)
  have ne: "len \<noteq> - 1" using assms(2) unat_u32_max by auto
  show ?case
  proof (cases "len \<le> off + 4 + 2 + 2")
    case False
    have le: "unat off \<le> unat len" using Suc.prems by (simp add: word_le_nat_alt)
    have u: "unat (off + 4) = unat off + 4" "unat (off + 6) = unat off + 6" "unat (off + 8) = unat off + 8"
      using le assms(2) by (simp_all add: unat_off_add_numeral)
    have e: "off + 4 + 2 = off + 6" "off + 6 + 2 = off + 8" by simp_all
    from False u(3) have lt: "unat off + 8 < unat len" by (simp add: e word_le_nat_alt)
    then have o8: "8 + off \<le> len" "off + 8 \<le> len" by (simp_all add: word_le_nat_alt u add.commute [of 8])
    have ih: "runs (opl_loop p (Some d) len n off') (\<lambda>xs. length xs \<le> n \<and>
        (\<forall>x \<in> set xs. pv_typed (op_DataType x) (op_Value x)))" if "off' \<le> len" for off'
      using Suc.IH that .
    show ?thesis
      using False lt o8 assms(1) u
      by (auto simp: e split_beta Let_def intro!: runs_intros DPV_runs [OF assms(1) ne] runs_mono [OF ih])
  qed simp
qed simp

lemma ptp_unpack_OPL_runs:
  assumes "unat len \<le> length d" "unat len < 2 ^ 32 - 8"
  shows "runs (ptp_unpack_OPL p (Some d) len) (\<lambda>(n, xs). n = int (length xs)
    \<and> (\<forall>x \<in> set xs. pv_typed (op_DataType x) (op_Value x)))"
proof (cases "len < 4")
  case False
  then have "4 \<le> unat len" "4 \<le> len" by (simp_all add: word_less_nat_alt word_le_nat_alt not_less)
  moreover have "set (qsort cmp xs) = set xs" for cmp and xs :: "MTPObjectProp list"
    using mset_qsort [of cmp xs] by (metis set_mset_mset)
  ultimately show ?thesis
    using assms False unfolding ptp_unpack_OPL_def
    by (auto intro!: runs_intros runs_mono [OF opl_loop_runs [OF assms]])
qed (simp add: ptp_unpack_OPL_def)

section \<open>The order of a list\<close>

text \<open>
  \<open>_compare_func\<close> returns the difference of two handles as an \<open>int\<close>. That is an order only
  among handles less than \<open>2 ^ 31\<close> apart; over all handles it goes round in a circle.
\<close>

definition by_handle :: "MTPObjectProp \<Rightarrow> MTPObjectProp \<Rightarrow> int" where
  "by_handle x y = int (unat (op_ObjectHandle x)) - int (unat (op_ObjectHandle y))"

interpretation handle_order: comparator by_handle
  by unfold_locales (auto simp: by_handle_def)

lemma insort_by_cong:
  "(\<And>y. y \<in> set xs \<Longrightarrow> cmp x y \<le> 0 \<longleftrightarrow> cmp' x y \<le> 0) \<Longrightarrow> insort_by cmp x xs = insort_by cmp' x xs"
  by (induction xs) auto

lemma qsort_cong:
  "(\<And>x y. x \<in> set xs \<Longrightarrow> y \<in> set xs \<Longrightarrow> cmp x y \<le> 0 \<longleftrightarrow> cmp' x y \<le> 0) \<Longrightarrow>
    qsort cmp xs = qsort cmp' xs"
proof (induction xs)
  case (Cons x xs)
  have "set (qsort cmp' xs) = set xs"
    using mset_qsort [of cmp' xs] by (metis set_mset_mset)
  then have "insort_by cmp x (qsort cmp' xs) = insort_by cmp' x (qsort cmp' xs)"
    using Cons.prems by (intro insort_by_cong) auto
  with Cons show ?case by simp
qed simp

lemma sint_diff:
  assumes "\<bar>int (unat a) - int (unat (b :: u32))\<bar> < 2 ^ 31"
  shows "sint (a - b) = int (unat a) - int (unat b)"
proof -
  have "a - b = word_of_int (int (unat a) - int (unat b))" by simp
  then have "sint (a - b) = signed_take_bit 31 (int (unat a) - int (unat b))"
    by (simp only: signed_of_int) simp
  also have "\<dots> = int (unat a) - int (unat b)"
    using assms by (intro signed_take_bit_int_eq_self) auto
  finally show ?thesis .
qed

definition close_handles :: "MTPObjectProp list \<Rightarrow> bool" where
  "close_handles xs = (\<forall>x \<in> set xs. \<forall>y \<in> set xs.
     \<bar>int (unat (op_ObjectHandle x)) - int (unat (op_ObjectHandle y))\<bar> < 2 ^ 31)"

lemma qsort_compare_func:
  assumes "close_handles xs"
  shows "sorted (map (\<lambda>x. unat (op_ObjectHandle x)) (qsort compare_func xs))"
proof -
  have "qsort compare_func xs = qsort by_handle xs"
  proof (rule qsort_cong)
    fix x y
    assume "x \<in> set xs" "y \<in> set xs"
    then have "compare_func x y = by_handle x y"
      using assms by (simp add: compare_func_def by_handle_def close_handles_def sint_diff)
    then show "compare_func x y \<le> 0 \<longleftrightarrow> by_handle x y \<le> 0" by simp
  qed
  moreover have "sorted_wrt (\<lambda>a b. by_handle a b \<le> 0) (qsort by_handle xs)"
    by (rule handle_order.qsort_sorted)
  moreover have "(\<lambda>a b. by_handle a b \<le> 0) = (\<lambda>a b. unat (op_ObjectHandle a) \<le> unat (op_ObjectHandle b))"
    by (simp only: by_handle_def fun_eq_iff diff_le_0_iff_le of_nat_le_iff simp_thms)
  ultimately show ?thesis by (simp add: sorted_map)
qed

lemma compare_func_cycle:
  "compare_func (x\<lparr>op_ObjectHandle := 0\<rparr>) (x\<lparr>op_ObjectHandle := 0x60000000\<rparr>) < 0
   \<and> compare_func (x\<lparr>op_ObjectHandle := 0x60000000\<rparr>) (x\<lparr>op_ObjectHandle := 0xC0000000\<rparr>) < 0
   \<and> compare_func (x\<lparr>op_ObjectHandle := 0xC0000000\<rparr>) (x\<lparr>op_ObjectHandle := 0\<rparr>) < 0"
  by (simp add: compare_func_def)

section \<open>Lists are read back\<close>

definition op_bytes :: "MTPObjectProp \<times> buffer \<times> u32 \<Rightarrow> byte list" where
  "op_bytes r = (case r of (x, b, n) \<Rightarrow>
     put32 (op_ObjectHandle x) @ put16 (op_PropCode x) @ put16 (op_DataType x)
       @ (case b of None \<Rightarrow> [] | Some bs \<Rightarrow> bs))"

definition op_valid :: "'p ptp_params_scheme \<Rightarrow> MTPObjectProp \<Rightarrow> bool" where
  "op_valid p x = dpv_valid (op_DataType x) p (op_Value x)"

text \<open>An item of the first loop: a valid property with its packed value.\<close>

definition op_item :: "'p ptp_params_scheme \<Rightarrow> MTPObjectProp \<times> buffer \<times> u32 \<Rightarrow> bool" where
  "op_item p r = (case r of (x, b, n) \<Rightarrow> op_valid p x \<and> b \<noteq> None
     \<and> ptp_pack_DPV p (op_Value x) (op_DataType x) = Some (b, n))"

lemma op_item_bytes:
  assumes "op_item p (x, b, n)" "length pre + length (op_bytes (x, b, n)) + length post < 2 ^ 32 - 1"
  obtains bs where "b = Some bs" "unat n = length bs" "bs \<noteq> []" "op_bytes (x, b, n)
      = put32 (op_ObjectHandle x) @ put16 (op_PropCode x) @ put16 (op_DataType x) @ bs"
    "length (op_bytes (x, b, n)) = 8 + length bs"
proof -
  from assms(1) obtain bs where bs: "b = Some bs" "dpv_valid (op_DataType x) p (op_Value x)"
    "ptp_pack_DPV p (op_Value x) (op_DataType x) = Some (Some bs, n)"
    by (auto simp: op_item_def op_valid_def)
  then have l: "length (op_bytes (x, b, n)) = 8 + length bs" by (simp add: op_bytes_def)
  from dpv.pack_unpack [OF bs(2,3), of "[]" "[]"] assms(2) l
  have u: "unat n = length bs" "ptp_unpack_DPV p (Some bs) 0 (of_nat (length bs)) (op_DataType x)
      = Some (True, of_nat (length bs), op_Value x)" by simp_all
  have "bs \<noteq> []"
  proof
    assume "bs = []"
    with u(2) show False by (simp add: ptp_unpack_DPV_def)
  qed
  with that [of bs] bs(1) u(1) l show thesis by (simp add: op_bytes_def)
qed

lemma opl_copy_bytes:
  assumes "\<forall>r \<in> set items. op_item p r" "unat bufp = length pre"
    and "length pre + length (concat (map op_bytes items)) < 2 ^ 32 - 1"
    and "length rest = length (concat (map op_bytes items))"
  shows "opl_copy items (pre @ rest) bufp = Some (pre @ concat (map op_bytes items))"
  using assms
proof (induction items arbitrary: pre rest bufp)
  case (Cons r items)
  obtain x b n where r: "r = (x, b, n)" by (cases r)
  have len: "length pre + length (op_bytes (x, b, n)) < 2 ^ 32 - 1"
    using Cons.prems(3) by (simp add: r)
  obtain bs where bs: "b = Some bs" "unat n = length bs"
    "op_bytes (x, b, n) = put32 (op_ObjectHandle x) @ put16 (op_PropCode x) @ put16 (op_DataType x) @ bs"
    "length (op_bytes (x, b, n)) = 8 + length bs"
    using op_item_bytes [of p x b n pre "[]"] Cons.prems(1) len by (auto simp: r)
  define k where "k = 8 + length bs"
  obtain r1 r2 where rest: "rest = r1 @ r2" "length r1 = k"
    using Cons.prems(4) bs(4) that [of "take k rest" "drop k rest"]
    by (auto simp: r k_def min_absorb2)
  have u: "unat (bufp + 4) = length pre + 4" "unat (bufp + 4 + 2) = length pre + 6"
    "unat (bufp + 4 + 2 + 2) = length pre + 8" "unat (bufp + 4 + 2 + 2 + n) = length pre + k"
  proof -
    show u4: "unat (bufp + 4) = length pre + 4" using Cons.prems(2) len bs(4) by simp
    then show u6: "unat (bufp + 4 + 2) = length pre + 6" using len bs(4) by (subst unat_off_add_numeral(2)) simp_all
    then show u8: "unat (bufp + 4 + 2 + 2) = length pre + 8"
      using len bs(4) by (subst unat_off_add_numeral(2)) simp_all
    have nbs: "n = of_nat (length bs)" unfolding bs(2) [symmetric] by simp
    have "unat (bufp + 4 + 2 + 2 + of_nat (length bs)) = length pre + 8 + length bs"
      using u8 len bs(4) by (subst unat_off_add) simp_all
    then show "unat (bufp + 4 + 2 + 2 + n) = length pre + k"
      using nbs by (simp add: k_def)
  qed
  have w: "Option.bind (wr (pre @ rest) (length pre) (put32 h)) (\<lambda>d. Option.bind (wr d (length pre + 4) (put16 c))
      (\<lambda>d. Option.bind (wr d (length pre + 6) (put16 t)) (\<lambda>d. Option.bind (wr d (length pre + 8) bs) f)))
     = f ((pre @ put32 h @ put16 c @ put16 t @ bs) @ r2)" for h c t f
  proof -
    have "wr (pre @ rest) (length pre) (put32 h @ put16 c @ put16 t @ bs)
        = Some (pre @ (put32 h @ put16 c @ put16 t @ bs) @ r2)"
      using rest by (simp add: wr_def k_def)
    then show ?thesis by (simp add: wr_then)
  qed
  have "opl_copy (r # items) (pre @ rest) bufp
      = opl_copy items ((pre @ op_bytes (x, b, n)) @ r2) (bufp + 4 + 2 + 2 + n)"
    using w [of "op_ObjectHandle x" "op_PropCode x" "op_DataType x"
        "\<lambda>d. opl_copy items d (bufp + 4 + 2 + 2 + n)"] Cons.prems(2) u bs
    by (simp add: r Let_def)
  also have "\<dots> = Some ((pre @ op_bytes (x, b, n)) @ concat (map op_bytes items))"
    using Cons.prems bs(4) u(4) rest by (intro Cons.IH) (auto simp: r k_def)
  finally show ?case by (simp add: r)
qed simp

lemma opl_loop_at:
  assumes "\<forall>r \<in> set items. op_item p r" "off = of_nat (length pre)" "sz = of_nat (length d)"
    and "d = pre @ concat (map op_bytes items) @ post" "length d < 2 ^ 32 - 9"
  shows "opl_loop p (Some d) sz (length items) off = Some (map fst items)"
  using assms(1,2,4)
proof (induction items arbitrary: pre off)
  case (Cons r items)
  obtain x b n where r: "r = (x, b, n)" by (cases r)
  define post' where "post' = concat (map op_bytes items) @ post"
  have d: "d = pre @ op_bytes (x, b, n) @ post'" using Cons.prems(3) by (simp add: r post'_def)
  have len: "length pre + length (op_bytes (x, b, n)) + length post' < 2 ^ 32 - 9"
    using assms(5) by (simp add: d)
  obtain bs where bs: "b = Some bs" "unat n = length bs" "bs \<noteq> []"
    "op_bytes (x, b, n) = put32 (op_ObjectHandle x) @ put16 (op_PropCode x) @ put16 (op_DataType x) @ bs"
    "length (op_bytes (x, b, n)) = 8 + length bs"
    using op_item_bytes [of p x b n pre post'] Cons.prems(1) len by (auto simp: r)
  define p1 where "p1 = pre @ put32 (op_ObjectHandle x)"
  define p2 where "p2 = p1 @ put16 (op_PropCode x)"
  define p3 where "p3 = p2 @ put16 (op_DataType x)"
  have l: "length p1 = length pre + 4" "length p2 = length pre + 6" "length p3 = length pre + 8"
    by (simp_all add: p1_def p2_def p3_def)
  have o: "off + 4 = of_nat (length p1)" "of_nat (length p1) + 2 = (of_nat (length p2) :: u32)"
    "of_nat (length p2) + 2 = (of_nat (length p3) :: u32)"
    "4 + of_nat (length p1) = (of_nat (length p3) :: u32)"
    by (simp_all add: Cons.prems(2) l)
  have reads: "rd32 (Some d) off = Some (op_ObjectHandle x)"
    "rd16 (Some d) (of_nat (length p1)) = Some (op_PropCode x)"
    "rd16 (Some d) (of_nat (length p2)) = Some (op_DataType x)"
    using rd32_at [of pre "op_ObjectHandle x" "put16 (op_PropCode x) @ put16 (op_DataType x) @ bs @ post'"]
      rd16_at [of p1 "op_PropCode x" "put16 (op_DataType x) @ bs @ post'"]
      rd16_at [of p2 "op_DataType x" "bs @ post'"] len bs(5)
    by (simp_all add: d bs(4) p1_def p2_def Cons.prems(2))
  have "dpv_valid (op_DataType x) p (op_Value x)" "ptp_pack_DPV p (op_Value x) (op_DataType x) = Some (Some bs, n)"
    using Cons.prems(1) bs(1) by (simp_all add: r op_item_def op_valid_def)
  from dpv.pack_unpack [OF this, of p3 post'] len bs(5) l
  have v: "ptp_unpack_DPV p (Some d) (of_nat (length p3)) sz (op_DataType x)
      = Some (True, of_nat (length p3 + length bs), op_Value x)"
    by (simp add: d bs(4) p1_def p2_def p3_def assms(3))
  have room: "\<not> sz \<le> of_nat (length p3)"
  proof -
    have "unat sz = length d" unfolding assms(3) using assms(5) by (intro unat_of_nat_u32) simp
    moreover have "unat (of_nat (length p3) :: u32) = length p3"
      using l len by (intro unat_of_nat_u32) simp
    ultimately show ?thesis using l bs(3,5) by (simp add: word_le_nat_alt d)
  qed
  have "opl_loop p (Some d) sz (length items) (of_nat (length p3 + length bs)) = Some (map fst items)"
    using Cons.prems(1,3) bs(4,5) l
    by (intro Cons.IH [where pre = "p3 @ bs"]) (simp_all add: r p1_def p2_def p3_def)
  then show ?case
    using reads v room by (simp add: r o Let_def)
qed simp

lemma opl_collect_items:
  assumes "opl_collect p xs = Some items" "\<forall>x \<in> set xs. op_valid p x"
    and "\<forall>(x, b, n) \<in> set items. b \<noteq> None"
  shows "map fst items = xs \<and> (\<forall>r \<in> set items. op_item p r)"
  using assms
proof (induction xs arbitrary: items)
  case (Cons x xs)
  from Cons.prems(1) obtain b n ys where i: "ptp_pack_DPV p (op_Value x) (op_DataType x) = Some (b, n)"
    "opl_collect p xs = Some ys" "items = (x, b, n) # ys"
    by (auto simp: bind_eq_Some_conv)
  then show ?case using Cons.IH [OF i(2)] Cons.prems(2,3) by (auto simp: op_item_def)
qed simp

lemma opl_size_bytes:
  assumes "\<forall>r \<in> set items. op_item p r" "length (concat (map op_bytes items)) < 2 ^ 32 - 10"
  shows "opl_size items = of_nat (4 + length (concat (map op_bytes items)))"
  using assms
proof (induction items)
  case (Cons r items)
  obtain x b n where r: "r = (x, b, n)" by (cases r)
  have "op_item p (x, b, n)" "length ([] :: byte list) + length (op_bytes (x, b, n)) + length ([] :: byte list) < 2 ^ 32 - 1"
    using Cons.prems by (simp_all add: r)
  then obtain bs :: "byte list" where bs: "unat n = length bs" "length (op_bytes (x, b, n)) = 8 + length bs"
    by (rule op_item_bytes) blast
  have "n = of_nat (length bs)" unfolding bs(1) [symmetric] by simp
  with Cons bs(2) show ?case by (simp add: r)
qed simp

text \<open>
  C13. An object property list survives packing and unpacking: at most 127 valid properties
  are all read back, sorted by \<open>_compare_func\<close>.
\<close>

theorem ptp_OPL_roundtrip:
  assumes "props \<noteq> []" "length props \<le> 127" "\<forall>x \<in> set props. op_valid p x" "\<forall>n. pp_alloc p n"
    and "opl_collect p props = Some items" "\<forall>(x, b, n) \<in> set items. b \<noteq> None"
    and "length (concat (map op_bytes items)) < 2 ^ 32 - 20"
  shows "\<exists>d n. ptp_pack_OPL p props = Some (d, n) \<and> unat n = length d \<and>
    ptp_unpack_OPL p (Some d) n = Some (int (length props), qsort compare_func props)"
proof -
  define body where "body = concat (map op_bytes items)"
  define d where "d = put32 (of_nat (length items)) @ body"
  define n :: u32 where "n = of_nat (length d)"
  have items: "map fst items = props" "\<forall>r \<in> set items. op_item p r"
    using opl_collect_items [OF assms(5,3,6)] by simp_all
  then have li: "length items = length props" by (metis length_map)
  have ld: "length d = 4 + length body" "length d < 2 ^ 32 - 10"
    using assms(7) by (simp_all add: d_def body_def)
  have un: "unat n = length d" unfolding n_def using ld(2) by (intro unat_of_nat_u32) simp
  have sz: "opl_size items = n"
    using opl_size_bytes [OF items(2)] assms(7) by (simp add: n_def ld(1) body_def)
  have "opl_copy items (put32 (of_nat (length items)) @ drop 4 (map (pp_junk p) [0..<length d])) 4 = Some d"
    using opl_copy_bytes [OF items(2), of 4 "put32 (of_nat (length items))"] assms(7) ld
    by (simp add: d_def body_def)
  moreover have "take MAX_MTP_PROPS props = props" using assms(2) by (simp add: MAX_MTP_PROPS_def)
  ultimately have pk: "ptp_pack_OPL p props = Some (d, n)"
    using assms(4,5) ld(1) by (simp add: ptp_pack_OPL_def sz un wr_def Let_def)
  have c: "rd32 (Some d) 0 = Some (of_nat (length items))"
    using rd32_at [of "[]" "of_nat (length items)" body] by (simp add: d_def)
  have cn: "unat (of_nat (length items) :: u32) = length items"
    using assms(2) li by (intro unat_of_nat_u32) simp
  have c0: "of_nat (length items) \<noteq> (0 :: u32)"
  proof
    assume "of_nat (length items) = (0 :: u32)"
    then have "unat (of_nat (length items) :: u32) = 0" by simp
    with cn li assms(1) show False by simp
  qed
  have "opl_loop p (Some d) n (length items) 4 = Some props"
    using opl_loop_at [OF items(2), of 4 "put32 (of_nat (length items))" n d "[]"] ld(2) items(1)
    by (simp add: d_def body_def n_def)
  moreover have "\<not> n < 4" using un ld(1) by (simp add: word_less_nat_alt)
  ultimately have "ptp_unpack_OPL p (Some d) n = Some (int (length props), qsort compare_func props)"
    using c cn c0 assms(2,4) li by (simp add: ptp_unpack_OPL_def)
  with pk un show ?thesis by blast
qed

definition sample_props :: "MTPObjectProp list" where
  "sample_props = [\<lparr>op_PropCode = 0xDC02, op_DataType = PTP_DTC_UINT16, op_ObjectHandle = 9, op_Value = PVu16 0x3801\<rparr>,
     \<lparr>op_PropCode = 0xDC04, op_DataType = PTP_DTC_UINT64, op_ObjectHandle = 3, op_Value = PVu64 5\<rparr>]"

theorem ptp_OPL_roundtrip_witness:
  "\<exists>d n. ptp_pack_OPL plain_params sample_props = Some (d, n) \<and> unat n = length d \<and>
    ptp_unpack_OPL plain_params (Some d) n = Some (2, rev sample_props)"
proof -
  have c: "opl_collect plain_params sample_props = Some [(sample_props ! 0, Some (put16 0x3801), 2),
      (sample_props ! 1, Some (put64 5), 8)]"
    by (simp add: sample_props_def ptp_pack_DPV_def pack_block_def wr_def plain_params_def)
  have v: "\<forall>x \<in> set sample_props. op_valid plain_params x"
    by (simp add: sample_props_def op_valid_def dpv_valid_def pv_typed_def)
  have s: "qsort compare_func sample_props = rev sample_props"
    by (simp add: sample_props_def compare_func_def)
  show ?thesis
    using ptp_OPL_roundtrip [OF _ _ v _ c]
    by (simp add: s) (simp add: sample_props_def plain_params_def op_bytes_def)
qed

text \<open>
  C20. Whatever the device sends as an object property list or description, no byte outside
  the received ones is read, every value has the type it was sent with, and a list whose handles
  are less than \<open>2 ^ 31\<close> apart comes out sorted by handle.
\<close>

theorem ptp_unpack_OPL_sorted:
  assumes "length d < 2 ^ 32 - 8"
  shows "ptp_unpack_OPD p (Some d) (of_nat (length d)) \<noteq> None \<and>
    (\<exists>n xs. ptp_unpack_OPL p (Some d) (of_nat (length d)) = Some (n, xs) \<and> n = int (length xs)
      \<and> (\<forall>x \<in> set xs. pv_typed (op_DataType x) (op_Value x))
      \<and> (close_handles xs \<longrightarrow> sorted (map (\<lambda>x. unat (op_ObjectHandle x)) xs)))"
proof -
  have u: "unat (of_nat (length d) :: u32) = length d" using assms by (intro unat_of_nat_u32) simp
  then have ne: "of_nat (length d) \<noteq> (- 1 :: u32)"
    using assms by (auto simp: word_unat_eq_iff [of "of_nat (length d)"] unat_u32_max)
  have "ptp_unpack_OPD p (Some d) (of_nat (length d)) \<noteq> None"
    using ptp_unpack_OPD_runs [of "of_nat (length d)" d p] u ne by (auto simp: runs_iff)
  moreover obtain n xs where o: "ptp_unpack_OPL p (Some d) (of_nat (length d)) = Some (n, xs)"
    "n = int (length xs)" "\<forall>x \<in> set xs. pv_typed (op_DataType x) (op_Value x)"
    using ptp_unpack_OPL_runs [of "of_nat (length d)" d p] u assms by (auto simp: runs_iff)
  moreover have "sorted (map (\<lambda>x. unat (op_ObjectHandle x)) xs)" if "close_handles xs"
  proof -
    from o(1) obtain ys where "xs = qsort compare_func ys"
      by (auto simp: ptp_unpack_OPL_def bind_eq_Some_conv split: if_splits intro: that [of "[]"])
    moreover from this have "set xs = set ys" using mset_qsort [of compare_func ys] by (metis set_mset_mset)
    ultimately show ?thesis using qsort_compare_func [of ys] that by (simp add: close_handles_def)
  qed
  ultimately show ?thesis by blast
qed

definition sample_opl :: "byte list" where
  "sample_opl = put32 2 @ put32 9 @ put16 0xDC02 @ put16 PTP_DTC_UINT8 @ [7]
     @ put32 3 @ put16 0xDC04 @ put16 PTP_DTC_UINT8 @ [8]"

theorem ptp_unpack_OPL_sorted_witness:
  "\<exists>n xs. ptp_unpack_OPL plain_params (Some sample_opl) (of_nat (length sample_opl)) = Some (n, xs) \<and> n = int (length xs)"
proof -
  have "length sample_opl < 2 ^ 32 - 8" by (simp add: sample_opl_def)
  then show ?thesis using ptp_unpack_OPL_sorted [of sample_opl plain_params] by blast
qed

end
