(* ===== verification/PtpCanon.thy ===== *)
theory PtpCanon
  imports PtpCodec
begin

unbundle bit_operations_syntax

text \<open>
  Canon's events, folder entries and image formats (\<open>camlibs/ptp2/ptp-pack.c\<close>).
\<close>

section \<open>Events\<close>

record PTPContainer =
  pc_Code :: u16
  pc_SessionID :: u32
  pc_Transaction_ID :: u32
  pc_Param1 :: u32
  pc_Param2 :: u32
  pc_Param3 :: u32
  pc_Param4 :: u32
  pc_Param5 :: u32
  pc_Nparam :: u8

definition container_zero :: PTPContainer where
  "container_zero = \<lparr>pc_Code = 0, pc_SessionID = 0, pc_Transaction_ID = 0, pc_Param1 = 0,
     pc_Param2 = 0, pc_Param3 = 0, pc_Param4 = 0, pc_Param5 = 0, pc_Nparam = 0\<rparr>"

definition PTP_USB_CONTAINER_EVENT :: u16 where
  "PTP_USB_CONTAINER_EVENT = 4"

definition ptp_unpack_canon_event :: "buffer \<Rightarrow> PTPContainer \<Rightarrow> u32 \<Rightarrow> PTPContainer option" where
  "ptp_unpack_canon_event data ec len =
     (if data = None then Some ec
      else do {
        length' \<leftarrow> rd32 data 0;
        if len < length' then Some container_zero
        else do {
        type \<leftarrow> rd16 data 4;
        code \<leftarrow> rd16 data 6;
        tid \<leftarrow> rd32 data 8;
        let ec = container_zero\<lparr>pc_Code := code, pc_Transaction_ID := tid\<rparr>;
        if type \<noteq> PTP_USB_CONTAINER_EVENT then Some ec
        else do {
        ec \<leftarrow> (if 12 + 4 \<le> length' then do { w \<leftarrow> rd32 data 12; Some (ec\<lparr>pc_Param1 := w, pc_Nparam := 1\<rparr>) } else Some ec);
        ec \<leftarrow> (if 16 + 4 \<le> length' then do { w \<leftarrow> rd32 data 16; Some (ec\<lparr>pc_Param2 := w, pc_Nparam := 2\<rparr>) } else Some ec);
        if 20 + 4 \<le> length' then do { w \<leftarrow> rd32 data 20; Some (ec\<lparr>pc_Param3 := w, pc_Nparam := 3\<rparr>) } else Some ec
        }}})"

section \<open>Folder entries\<close>

record PTPCANONFolderEntry =
  fe_ObjectHandle :: u32
  fe_ObjectFormatCode :: u16
  fe_Flags :: u8
  fe_ObjectSize :: u32
  fe_Time :: u32
  fe_Filename :: string
  fe_StorageID :: u32

definition PTP_CANON_FilenameBufferLen :: nat where
  "PTP_CANON_FilenameBufferLen = 13"

text \<open>
  \<open>strncpy\<close> of up to \<open>n\<close> bytes of the buffer with the last byte of the destination set to NUL:
  the text is what stands in front of the first NUL among the first \<open>n - 1\<close> bytes. \<open>strncpy\<close> reads
  up to the NUL, or \<open>n\<close> bytes.
\<close>

fun c_strncpy :: "buffer \<Rightarrow> u32 \<Rightarrow> nat \<Rightarrow> byte list option" where
  "c_strncpy data i 0 = Some []"
| "c_strncpy data i (Suc n) = do {
     b \<leftarrow> rd8 data i;
     if b = 0 then Some [] else do { bs \<leftarrow> c_strncpy data (i + 1) n; Some (b # bs) }
   }"

definition filename_text :: "byte list \<Rightarrow> string" where
  "filename_text bs = map (\<lambda>b. char_of (unat b)) (take (PTP_CANON_FilenameBufferLen - 1) bs)"

definition ptp_unpack_Canon_FE ::
    "buffer \<Rightarrow> PTPCANONFolderEntry \<Rightarrow> PTPCANONFolderEntry option" where
  "ptp_unpack_Canon_FE data fe =
     (if data = None then Some fe
      else do {
        h \<leftarrow> rd32 data 0;
        c \<leftarrow> rd16 data 4;
        fl \<leftarrow> rd8 data 6;
        sz \<leftarrow> rd32 data 7;
        t \<leftarrow> rd32 data 11;
        nm \<leftarrow> c_strncpy data 15 PTP_CANON_FilenameBufferLen;
        Some (fe\<lparr>fe_ObjectHandle := h, fe_ObjectFormatCode := c, fe_Flags := fl,
          fe_ObjectSize := sz, fe_Time := t, fe_Filename := filename_text nm\<rparr>)
      })"

definition ptp_unpack_Canon_EOS_FE ::
    "buffer \<Rightarrow> u32 \<Rightarrow> PTPCANONFolderEntry \<Rightarrow> PTPCANONFolderEntry option" where
  "ptp_unpack_Canon_EOS_FE data size' fe =
     (if size' < 48 + 4 then Some fe
      else do {
        h \<leftarrow> rd32 data 0;
        c \<leftarrow> rd16 data 8;
        fl \<leftarrow> rd8 data 16;
        sz \<leftarrow> rd32 data 20;
        t \<leftarrow> rd32 data 48;
        nm \<leftarrow> c_strncpy data 32 PTP_CANON_FilenameBufferLen;
        Some (fe\<lparr>fe_ObjectHandle := h, fe_ObjectFormatCode := c, fe_Flags := fl,
          fe_ObjectSize := sz, fe_Time := t, fe_Filename := filename_text nm\<rparr>)
      })"

section \<open>EOS image formats\<close>

text \<open>
  \<open>ptp_unpack_EOS_ImageFormat\<close> on the bytes from \<open>*data\<close> on: the value, how far \<open>*data\<close> moves
  and the new \<open>*size\<close>. The second group of three values is not subtracted from the size.
\<close>

definition eos_s123 :: "u32 \<Rightarrow> u32" where
  "eos_s123 s = (if 0xe \<le> s then s - 1 else s)"

definition eos_condense :: "u32 \<times> u32 \<times> u32 \<Rightarrow> u32 \<times> u32 \<times> u32 \<Rightarrow> u16" where
  "eos_condense e1 e2 =
     (let (t1, s1, c1) = e1; (t2, s2, c2) = e2;
          s1 = eos_s123 s1; s2 = eos_s123 s2;
          c1 = c1 OR (if t1 = 6 then 8 else 0);
          c2 = c2 OR (if t2 = 6 then 8 else 0);
          (s2, c2) = (if s2 = 0 \<and> c2 = 0 then (0xF, 0xF) else (s2, c2))
      in ucast (push_bit 12 (s1 AND 0xF) OR push_bit 8 (c1 AND 0xF)
           OR push_bit 4 (s2 AND 0xF) OR (c2 AND 0xF)))"

definition ptp_unpack_EOS_ImageFormat :: "buffer \<Rightarrow> u32 \<Rightarrow> (u16 \<times> u32 \<times> u32) option" where
  "ptp_unpack_EOS_ImageFormat d size0 =
     (if size0 < 4 then Some (0, 0, size0)
      else do {
        n \<leftarrow> rd32 d 0;
        let size1 = size0 - 4;
        if n \<noteq> 1 \<and> n \<noteq> 2 then Some (0, 0, size1)
        else if size1 < 4 then Some (0, 0, size1)
        else do {
        l \<leftarrow> rd32 d 4;
        let size2 = size1 - 4;
        if l \<noteq> 0x10 then Some (0, 0, size2)
        else if size2 < 12 then Some (0, 0, size2)
        else do {
        t1 \<leftarrow> rd32 d 8;
        s1 \<leftarrow> rd32 d 12;
        c1 \<leftarrow> rd32 d 16;
        let size3 = size2 - 12;
        if n = 2 then
          (if size3 < 4 then Some (0, 0, size3)
           else do {
             l \<leftarrow> rd32 d 20;
             let size4 = size3 - 4;
             if l \<noteq> 0x10 then Some (0, 0, size4)
             else if size4 < 12 then Some (0, 0, size4)
             else do {
               t2 \<leftarrow> rd32 d 24;
               s2 \<leftarrow> rd32 d 28;
               c2 \<leftarrow> rd32 d 32;
               Some (eos_condense (t1, s1, c1) (t2, s2, c2), 36, size4)
             }
           })
        else Some (eos_condense (t1, s1, c1) (0, 0, 0), 20, size3)
        }}})"

text \<open>\<open>ptp_pack_EOS_ImageFormat\<close>: the size, and the bytes written when there is a buffer.\<close>

definition eos_size_word :: "u16 \<Rightarrow> u32" where
  "eos_size_word x = (if 0xd \<le> x then ucast x + 1 else ucast x)"

definition ptp_pack_EOS_ImageFormat :: "buffer \<Rightarrow> u16 \<Rightarrow> (buffer \<times> u32) option" where
  "ptp_pack_EOS_ImageFormat data val =
     (let n = (if val AND 0xFF = 0xFF then 1 else 2 :: u32);
          s = 4 + 0x10 * n
      in case data of
           None \<Rightarrow> Some (None, s)
         | Some d \<Rightarrow> do {
             d \<leftarrow> wr d 0 (put32 n);
             d \<leftarrow> wr d 4 (put32 0x10);
             d \<leftarrow> wr d 8 (put32 (if val AND 0x0800 \<noteq> 0 then 6 else 1));
             d \<leftarrow> wr d 12 (put32 (eos_size_word (drop_bit 12 val AND 0xF)));
             d \<leftarrow> wr d 16 (put32 (ucast (drop_bit 8 val AND 0x7)));
             if n = 2 then do {
               d \<leftarrow> wr d 20 (put32 0x10);
               d \<leftarrow> wr d 24 (put32 (if val AND 0x08 \<noteq> 0 then 6 else 1));
               d \<leftarrow> wr d 28 (put32 (eos_size_word (drop_bit 4 val AND 0xF)));
               d \<leftarrow> wr d 32 (put32 (ucast (val AND 0x7)));
               Some (Some d, s)
             }
             else Some (Some d, s)
           })"

section \<open>Image formats are read back\<close>

lemma nibble_cases:
  assumes "n \<le> (15 :: u16)"
  shows "n \<in> {0, 1, 2, 3, 4, 5, 6, 7, 8, 9, 10, 11, 12, 13, 14, 15}"
proof -
  have "unat n \<in> set [0..<16]" using assms by (simp add: word_le_nat_alt)
  then show ?thesis by (auto simp: word_unat_eq_iff upt_rec)
qed

lemma eos_size_word_s123: "n \<le> 15 \<Longrightarrow> eos_s123 (eos_size_word n) = ucast n"
  by (drule nibble_cases) (auto simp: eos_s123_def eos_size_word_def word_le_nat_alt)

lemma nibble_le: "w AND 0xF \<le> (15 :: u16)"
  by (rule word_and_le1)

lemma compression_nibble:
  "ucast (drop_bit k w AND 7) OR (if w AND 2 ^ (k + 3) \<noteq> 0 then 8 else 0) = (ucast (drop_bit k (w :: u16) AND 0xF) :: u32)"
proof -
  have m: "(7 :: u16) = mask 3" "(0xF :: u16) = mask 4" "(8 :: u32) = 2 ^ 3"
    by (simp_all add: mask_eq_exp_minus_1)
  have k: "w AND 2 ^ (k + 3) \<noteq> 0 \<longleftrightarrow> bit w (k + 3)"
    using and_exp_eq_0_iff_not_bit by blast
  show ?thesis
  proof (rule bit_word_eqI)
    fix i assume i: "i < LENGTH(32)"
    have "bit (8 :: u32) i \<longleftrightarrow> i = 3"
      unfolding m(3) using i by (simp only: bit_exp_iff) auto
    moreover have "i < 4 \<longleftrightarrow> i < 3 \<or> i = 3" by linarith
    ultimately show "bit (ucast (drop_bit k w AND 7) OR (if w AND 2 ^ (k + 3) \<noteq> 0 then 8 else 0) :: u32) i
        = bit (ucast (drop_bit k (w :: u16) AND 0xF) :: u32) i"
      unfolding m(1,2) k using i by (cases "bit w (k + 3)") (auto simp: bit_simps)
  qed
qed

lemma nibbles:
  "ucast (push_bit 12 (ucast (drop_bit 12 v AND 0xF)) OR push_bit 8 (ucast (drop_bit 8 v AND 0xF))
     OR push_bit 4 (ucast (drop_bit 4 v AND 0xF)) OR (ucast (v AND 0xF) :: u32)) = (v :: u16)"
proof (rule bit_word_eqI)
  fix i assume i: "i < LENGTH(16)"
  have m: "(0xF :: u16) = mask 4" by (simp add: mask_eq_exp_minus_1)
  consider "i < 4" | "4 \<le> i \<and> i < 8" | "8 \<le> i \<and> i < 12" | "12 \<le> i \<and> i < 16" using i by fastforce
  then show "bit (ucast (push_bit 12 (ucast (drop_bit 12 v AND 0xF)) OR push_bit 8 (ucast (drop_bit 8 v AND 0xF))
     OR push_bit 4 (ucast (drop_bit 4 v AND 0xF)) OR (ucast (v AND 0xF) :: u32)) :: u16) i = bit v i"
    unfolding m by cases (auto simp: bit_simps)
qed

lemma and_mask_zero: "w AND mask n = (0 :: 'a :: len word) \<longleftrightarrow> (\<forall>i < n. \<not> bit w i)"
  by (auto simp: bit_eq_iff [of "w AND mask n"] bit_simps bit_imp_le_length dest: bit_imp_le_length)

lemma low_byte_nibbles: "(v :: u16) AND 0xFF = 0 \<longleftrightarrow> drop_bit 4 v AND 0xF = 0 \<and> v AND 0xF = 0"
proof -
  have m: "(0xF :: u16) = mask 4" "(0xFF :: u16) = mask 8" by (simp_all add: mask_eq_exp_minus_1)
  have "(\<forall>i < 8. \<not> bit v i) \<longleftrightarrow> (\<forall>i < 4. \<not> bit v (4 + i)) \<and> (\<forall>i < 4. \<not> bit v i)" (is "?l = ?r")
  proof
    assume r: ?r
    show ?l
    proof (intro allI impI)
      fix i :: nat assume "i < 8"
      then show "\<not> bit v i"
        using r by (cases "i < 4") (auto dest: spec [of _ "i - 4"])
    qed
  qed auto
  moreover have "v AND mask 8 = 0 \<longleftrightarrow> (\<forall>i < 8. \<not> bit v i)"
    "drop_bit 4 v AND mask 4 = 0 \<longleftrightarrow> (\<forall>i < 4. \<not> bit v (4 + i))"
    "v AND mask 4 = 0 \<longleftrightarrow> (\<forall>i < 4. \<not> bit v i)"
    by (simp_all add: and_mask_zero bit_simps)
  ultimately show ?thesis unfolding m by simp
qed

definition eos_format_bytes :: "u16 \<Rightarrow> byte list" where
  "eos_format_bytes v =
     (let one = (\<lambda>t s c. put32 0x10 @ put32 (if t then 6 else 1) @ put32 (eos_size_word s) @ put32 (ucast (c AND 7)))
      in put32 (if v AND 0xFF = 0xFF then 1 else 2)
           @ one (v AND 0x0800 \<noteq> 0) (drop_bit 12 v AND 0xF) (drop_bit 8 v)
           @ (if v AND 0xFF = 0xFF then [] else one (v AND 8 \<noteq> 0) (drop_bit 4 v AND 0xF) v))"

lemma ptp_pack_EOS_ImageFormat_bytes:
  assumes "length d = (if v AND 0xFF = 0xFF then 20 else 36)"
  shows "ptp_pack_EOS_ImageFormat (Some d) v = Some (Some (eos_format_bytes v), of_nat (length d))"
  using assms wr_app [of 0 "[]" "eos_format_bytes v" d]
  by (cases "v AND 0xFF = 0xFF")
    (simp_all add: ptp_pack_EOS_ImageFormat_def wr_then eos_format_bytes_def Let_def)

lemma nibble_ucast: "ucast (x AND 0xF :: u16) AND 0xF = (ucast (x AND 0xF) :: u32)"
proof -
  have "(0xF :: u16) = mask 4" "(0xF :: u32) = mask 4" by (simp_all add: mask_eq_exp_minus_1)
  then show ?thesis by (intro bit_word_eqI) (auto simp: bit_simps)
qed

lemma eos_condense_entries:
  assumes "v AND 0xFF \<noteq> 0"
  shows "eos_condense (if v AND 0x0800 \<noteq> 0 then 6 else 1, eos_size_word (drop_bit 12 v AND 0xF), ucast (drop_bit 8 v AND 7))
     (if v AND 8 \<noteq> 0 then 6 else 1, eos_size_word (drop_bit 4 v AND 0xF), ucast (v AND 7)) = v"
proof -
  have c: "ucast (drop_bit 8 v AND 7) OR (if v AND 0x0800 \<noteq> 0 then 8 else 0 :: u32) = ucast (drop_bit 8 v AND 0xF)"
    "ucast (v AND 7) OR (if v AND 8 \<noteq> 0 then 8 else 0 :: u32) = ucast (v AND 0xF)"
    using compression_nibble [of 8 v] compression_nibble [of 0 v] by simp_all
  have t: "(if b then 6 else 1) = (6 :: u32) \<longleftrightarrow> b" for b by simp
  have u: "ucast x = (0 :: u32) \<longleftrightarrow> x = 0" for x :: u16
    by (simp add: word_unat_eq_iff unsigned_ucast_eq take_bit_nat_eq_self less_trans [OF unsigned_less [of x]])
  have z: "\<not> (ucast (drop_bit 4 v AND 0xF) = (0 :: u32) \<and> ucast (v AND 0xF) = (0 :: u32))"
    using assms low_byte_nibbles [of v] by (simp add: u)
  show ?thesis
    using nibbles [of v]
    by (simp add: eos_condense_def t z c eos_size_word_s123 nibble_le nibble_ucast Let_def
        del: push_bit_or push_bit_and split del: if_split)
qed

lemma eos_condense_no_second:
  assumes "(t2, s2, c2) = (0, 0, 0) \<or> (t2, s2, c2) = (1, 0, 0 :: u32)"
  shows "eos_condense (if v AND 0x0800 \<noteq> 0 then 6 else 1, eos_size_word (drop_bit 12 v AND 0xF), ucast (drop_bit 8 v AND 7))
     (t2, s2, c2) = v OR 0xFF"
proof -
  have c: "ucast (drop_bit 8 v AND 7) OR (if v AND 0x0800 \<noteq> 0 then 8 else 0 :: u32) = ucast (drop_bit 8 v AND 0xF)"
    using compression_nibble [of 8 v] by simp
  have t: "(if b then 6 else 1) = (6 :: u32) \<longleftrightarrow> b" for b by simp
  have k: "drop_bit 12 (v OR 0xFF) AND 0xF = drop_bit 12 v AND 0xF" "drop_bit 8 (v OR 0xFF) AND 0xF = drop_bit 8 v AND 0xF"
     "drop_bit 4 (v OR 0xFF) AND 0xF = 0xF" "(v OR 0xFF) AND 0xF = 0xF"
  proof -
    have m: "(0xF :: u16) = mask 4" "(0xFF :: u16) = mask 8" by (simp_all add: mask_eq_exp_minus_1)
    show "drop_bit 12 (v OR 0xFF) AND 0xF = drop_bit 12 v AND 0xF" "drop_bit 8 (v OR 0xFF) AND 0xF = drop_bit 8 v AND 0xF"
     "drop_bit 4 (v OR 0xFF) AND 0xF = 0xF" "(v OR 0xFF) AND 0xF = 0xF"
      unfolding m by (auto intro!: bit_word_eqI simp: bit_simps)
  qed
  have "eos_s123 0 = 0" by (simp add: eos_s123_def)
  then show ?thesis
    using nibbles [of "v OR 0xFF"] assms unfolding eos_condense_def t k by (auto simp: c eos_size_word_s123 nibble_le nibble_ucast t Let_def simp del: push_bit_or push_bit_and split del: if_split)
qed

lemma le32_put32_end [simp]: "le32 (put32 w) 0 = w"
  using le32_put32 [of w "[]"] by simp

lemma ptp_unpack_EOS_ImageFormat_bytes:
  "ptp_unpack_EOS_ImageFormat (Some (eos_format_bytes v)) (if v AND 0xFF = 0xFF then 20 else 36)
     = Some (if v AND 0xFF = 0 then v OR 0xFF else v,
         (if v AND 0xFF = 0xFF then 20 else 36), (if v AND 0xFF = 0xFF then 0 else 12))"
proof (cases "v AND 0xFF = 0xFF")
  case True
  have "v OR (v AND 0xFF) = v" by (rule word_ao_absorbs(6))
  then have v: "v OR 0xFF = v" "v AND 0xFF \<noteq> 0" using True by simp_all
  show ?thesis
    using True by (simp add: ptp_unpack_EOS_ImageFormat_def eos_format_bytes_def le_skip eos_condense_no_second v Let_def split del: if_split)
next
  case False
  show ?thesis
  proof (cases "v AND 0xFF = 0")
    case True
    then have z: "v AND 8 = 0" "drop_bit 4 v AND 0xF = 0" "v AND 7 = 0"
    proof -
      have m: "(8 :: u16) = 2 ^ 3" "(0xF :: u16) = mask 4" "(7 :: u16) = mask 3" by (simp_all add: mask_eq_exp_minus_1)
      have "\<forall>i < 8. \<not> bit v i"
        using True and_mask_zero [of v 8] by (simp add: mask_eq_exp_minus_1)
      then show "v AND 8 = 0" "drop_bit 4 v AND 0xF = 0" "v AND 7 = 0"
        unfolding m and_mask_zero and_exp_eq_0_iff_not_bit by (simp_all add: bit_simps)
    qed
    moreover have "eos_size_word 0 = 0" by (simp add: eos_size_word_def)
    ultimately show ?thesis
      using True by (simp add: ptp_unpack_EOS_ImageFormat_def eos_format_bytes_def le_skip eos_condense_no_second Let_def split del: if_split)
  next
    case n: False
    then show ?thesis
      using False by (simp add: ptp_unpack_EOS_ImageFormat_def eos_format_bytes_def le_skip eos_condense_entries Let_def split del: if_split)
  qed
qed

text \<open>
  The condensed form of an EOS image format survives packing and unpacking, and the packed
  form is read to its end. The exception is a second entry with the code \<open>0x00\<close> (a large JPEG of
  the lowest compression): it comes back as \<open>0xFF\<close>, the mark of a missing second entry.
\<close>

theorem EOS_ImageFormat_roundtrip:
  assumes "ptp_pack_EOS_ImageFormat None v = Some (None, s)" "length d = unat s"
  shows "\<exists>d' left. ptp_pack_EOS_ImageFormat (Some d) v = Some (Some d', s) \<and> length d' = length d \<and>
    ptp_unpack_EOS_ImageFormat (Some d') s = Some (if v AND 0xFF = 0 then v OR 0xFF else v, s, left)"
proof -
  have s: "s = (if v AND 0xFF = 0xFF then 20 else 36)" and ld: "length d = (if v AND 0xFF = 0xFF then 20 else 36)"
    using assms by (auto simp: ptp_pack_EOS_ImageFormat_def Let_def)
  have "s = of_nat (length d)" "length (eos_format_bytes v) = length d"
    using s ld by (auto simp: eos_format_bytes_def Let_def)
  then show ?thesis
    using ptp_pack_EOS_ImageFormat_bytes [OF ld] ptp_unpack_EOS_ImageFormat_bytes [of v] by (auto simp: s)
qed

theorem EOS_ImageFormat_roundtrip_witness:
  "\<exists>d' left. ptp_pack_EOS_ImageFormat (Some (replicate 36 0)) 0x0BD2 = Some (Some d', 36) \<and> length d' = 36 \<and>
    ptp_unpack_EOS_ImageFormat (Some d') 36 = Some (0x0BD2, 36, left)"
proof -
  have "ptp_pack_EOS_ImageFormat None 0x0BD2 = Some (None, 36)" by (simp add: ptp_pack_EOS_ImageFormat_def)
  then show ?thesis
    using EOS_ImageFormat_roundtrip [of "0x0BD2" 36 "replicate 36 0"] by (simp del: replicate.simps)
qed

text \<open>What the decoders read: the first two stay inside the buffer, the other two do not look.\<close>

lemma ptp_unpack_EOS_ImageFormat_safe:
  "unat size0 \<le> length d \<Longrightarrow> ptp_unpack_EOS_ImageFormat (Some d) size0 \<noteq> None"
  by (auto simp: ptp_unpack_EOS_ImageFormat_def Let_def bind_eq_None_conv rd_None_iff unat_sub
      word_less_nat_alt word_le_nat_alt)

lemma c_strncpy_safe: "unat i + n \<le> length d \<Longrightarrow> length d < 2 ^ 32 \<Longrightarrow> c_strncpy (Some d) i n \<noteq> None"
proof (induction n arbitrary: i)
  case (Suc n)
  then have "unat (i + 1) = unat i + 1" by simp
  with Suc.prems Suc.IH [of "i + 1"] show ?case by (auto simp: bind_eq_None_conv)
qed simp

lemma ptp_unpack_Canon_EOS_FE_safe:
  assumes "unat size' \<le> length d" "length d < 2 ^ 32"
  shows "ptp_unpack_Canon_EOS_FE (Some d) size' fe \<noteq> None"
proof (cases "size' < 48 + 4")
  case False
  then have "52 \<le> length d" using assms by (simp add: word_less_nat_alt)
  then show ?thesis
    using False c_strncpy_safe [of 32 PTP_CANON_FilenameBufferLen d] assms(2)
    by (auto simp: ptp_unpack_Canon_EOS_FE_def PTP_CANON_FilenameBufferLen_def)
qed (simp add: ptp_unpack_Canon_EOS_FE_def)

lemma ptp_unpack_canon_event_short:
  "ptp_unpack_canon_event (Some [4, 0, 0, 0]) ec 4 = None"
  by (simp add: ptp_unpack_canon_event_def rd16_def rd32_def le32_def)

lemma ptp_unpack_Canon_FE_short: "length d < 15 \<Longrightarrow> ptp_unpack_Canon_FE (Some d) fe = None"
  by (auto simp: ptp_unpack_Canon_FE_def rd32_def rd16_def rd8_def)

end
