(* ===== verification/GpPort.thy ===== *)
theory GpPort
  imports Prelude
begin

text \<open>
  The calls of the port library (\<open>libgphoto2_port/gphoto2-port.c\<close>) through which a camera driver
  reaches its device. The operations of a port are those of the loaded I/O library, the structure
  \<open>GPPortOperations\<close>: a parameter of the model, in which an operation that the library does not
  have is \<open>None\<close>, the NULL pointer. The operations get the port, whose last field stands for the
  private data of the I/O library and for the device. Loading an I/O library is not modelled.
\<close>

section \<open>Ports\<close>

datatype GPPortSettings =
    SettingsSerial (ss_port: string) (ss_speed: int) (ss_bits: int) (ss_parity: int) (ss_stopbits: int)
  | SettingsUSB (su_inep: int) (su_outep: int) (su_intep: int) (su_config: int) (su_interface: int)
      (su_altsetting: int) (su_maxpacketsize: int) (su_port: string)
  | SettingsDiskDirect (sd_path: string)
  | SettingsScsi (sc_path: string)

record 'd GPPort =
  gp_type :: int
  gp_settings :: GPPortSettings
  gp_settings_pending :: GPPortSettings
  gp_timeout :: int
  gp_error :: string
  gp_dev :: 'd

text \<open>
  An operation returns a gphoto2 result; a reading one also the bytes it has stored in the
  caller's buffer.
\<close>

record 'p GPPortOperations =
  op_open :: "('p \<Rightarrow> int \<times> 'p) option"
  op_close :: "('p \<Rightarrow> int \<times> 'p) option"
  op_read :: "(int \<Rightarrow> 'p \<Rightarrow> int \<times> byte list \<times> 'p) option"
  op_check_int :: "(int \<Rightarrow> int \<Rightarrow> 'p \<Rightarrow> int \<times> byte list \<times> 'p) option"
  op_write :: "(byte list \<Rightarrow> 'p \<Rightarrow> int \<times> 'p) option"
  op_update :: "('p \<Rightarrow> int \<times> 'p) option"
  op_get_pin :: "(int \<Rightarrow> 'p \<Rightarrow> int \<times> int \<times> 'p) option"
  op_set_pin :: "(int \<Rightarrow> int \<Rightarrow> 'p \<Rightarrow> int \<times> 'p) option"
  op_send_break :: "(int \<Rightarrow> 'p \<Rightarrow> int \<times> 'p) option"
  op_flush :: "(int \<Rightarrow> 'p \<Rightarrow> int \<times> 'p) option"
  op_find_device :: "(int \<Rightarrow> int \<Rightarrow> 'p \<Rightarrow> int \<times> 'p) option"
  op_find_device_by_class :: "(int \<Rightarrow> int \<Rightarrow> int \<Rightarrow> 'p \<Rightarrow> int \<times> 'p) option"
  op_clear_halt :: "(int \<Rightarrow> 'p \<Rightarrow> int \<times> 'p) option"
  op_msg_write :: "(int \<Rightarrow> int \<Rightarrow> int \<Rightarrow> byte list \<Rightarrow> 'p \<Rightarrow> int \<times> 'p) option"
  op_msg_read :: "(int \<Rightarrow> int \<Rightarrow> int \<Rightarrow> int \<Rightarrow> 'p \<Rightarrow> int \<times> byte list \<times> 'p) option"
  op_msg_interface_write :: "(int \<Rightarrow> int \<Rightarrow> int \<Rightarrow> byte list \<Rightarrow> 'p \<Rightarrow> int \<times> 'p) option"
  op_msg_interface_read :: "(int \<Rightarrow> int \<Rightarrow> int \<Rightarrow> int \<Rightarrow> 'p \<Rightarrow> int \<times> byte list \<times> 'p) option"
  op_msg_class_write :: "(int \<Rightarrow> int \<Rightarrow> int \<Rightarrow> byte list \<Rightarrow> 'p \<Rightarrow> int \<times> 'p) option"
  op_msg_class_read :: "(int \<Rightarrow> int \<Rightarrow> int \<Rightarrow> int \<Rightarrow> 'p \<Rightarrow> int \<times> byte list \<times> 'p) option"
  op_seek :: "(int \<Rightarrow> int \<Rightarrow> 'p \<Rightarrow> int \<times> 'p) option"
  op_reset :: "('p \<Rightarrow> int \<times> 'p) option"

type_synonym 'd port_ops = "'d GPPort GPPortOperations"

section \<open>Guards\<close>

text \<open>\<open>gp_port_set_error\<close> with a formatted message; the buffer has 2048 bytes.\<close>

definition gp_port_set_error :: "string option \<Rightarrow> 'd GPPort \<Rightarrow> int \<times> 'd GPPort" where
  "gp_port_set_error msg port =
     (GP_OK, port\<lparr>gp_error := (case msg of None \<Rightarrow> [] | Some m \<Rightarrow> take 2047 m)\<rparr>)"

definition gp_port_get_error :: "'d GPPort option \<Rightarrow> string" where
  "gp_port_get_error port =
     (case port of
        Some p \<Rightarrow> if gp_error p \<noteq> [] then gp_error p else ''No error description available''
      | None \<Rightarrow> ''No error description available'')"

text \<open>
  \<open>CHECK_INIT\<close> and \<open>CHECK_SUPP\<close> in front of an operation; \<open>pc->ops\<close> is \<open>None\<close> until an I/O
  library is loaded. The two messages are kept in the port.
\<close>

definition check_init ::
    "'d port_ops option \<Rightarrow> 'd GPPort \<Rightarrow> (int \<Rightarrow> 'd GPPort \<Rightarrow> 'r) \<Rightarrow> ('d port_ops \<Rightarrow> 'r) \<Rightarrow> 'r" where
  "check_init ops port err f =
     (case ops of
        None \<Rightarrow> err GP_ERROR_BAD_PARAMETERS
          (snd (gp_port_set_error (Some ''The port has not yet been initialized'') port))
      | Some ops \<Rightarrow> f ops)"

definition check_supp ::
    "string \<Rightarrow> 'f option \<Rightarrow> 'd GPPort \<Rightarrow> (int \<Rightarrow> 'd GPPort \<Rightarrow> 'r) \<Rightarrow> ('f \<Rightarrow> 'r) \<Rightarrow> 'r" where
  "check_supp nm oper port err f =
     (case oper of
        None \<Rightarrow> err GP_ERROR_NOT_SUPPORTED
          (snd (gp_port_set_error (Some (''The operation '' @ [CHR 0x27] @ nm @ [CHR 0x27] @
             '' is not supported by this device'')) port))
      | Some f' \<Rightarrow> f f')"

text \<open>\<open>CHECK_RESULT\<close>: an error ends the function with it, anything else with \<open>GP_OK\<close>.\<close>

definition check_result :: "int \<times> 'x \<Rightarrow> int \<times> 'x" where
  "check_result r = (if fst r < 0 then r else (GP_OK, snd r))"

definition guarded ::
    "string \<Rightarrow> ('d port_ops \<Rightarrow> 'f option) \<Rightarrow> 'd port_ops option \<Rightarrow> 'd GPPort
      \<Rightarrow> (int \<Rightarrow> 'd GPPort \<Rightarrow> 'r) \<Rightarrow> ('f \<Rightarrow> 'r) \<Rightarrow> 'r" where
  "guarded nm sel ops port err f = check_init ops port err (\<lambda>o'. check_supp nm (sel o') port err f)"

text \<open>The two kinds of operations: with a result only, and with bytes for the caller's buffer.\<close>

definition plain_op ::
    "string \<Rightarrow> ('d port_ops \<Rightarrow> 'f option) \<Rightarrow> 'd port_ops option \<Rightarrow> 'd GPPort
      \<Rightarrow> ('f \<Rightarrow> int \<times> 'd GPPort) \<Rightarrow> int \<times> 'd GPPort" where
  "plain_op nm sel ops port f = guarded nm sel ops port (\<lambda>e p. (e, p)) f"

definition data_op ::
    "string \<Rightarrow> ('d port_ops \<Rightarrow> 'f option) \<Rightarrow> 'd port_ops option \<Rightarrow> 'd GPPort
      \<Rightarrow> ('f \<Rightarrow> int \<times> byte list \<times> 'd GPPort) \<Rightarrow> int \<times> byte list \<times> 'd GPPort" where
  "data_op nm sel ops port f = guarded nm sel ops port (\<lambda>e p. (e, [], p)) f"

section \<open>Operations\<close>

definition gp_port_open :: "'d port_ops option \<Rightarrow> 'd GPPort \<Rightarrow> int \<times> 'd GPPort" where
  "gp_port_open ops port = plain_op ''open'' op_open ops port (\<lambda>f. check_result (f port))"

definition gp_port_close :: "'d port_ops option \<Rightarrow> 'd GPPort \<Rightarrow> int \<times> 'd GPPort" where
  "gp_port_close ops port = plain_op ''close'' op_close ops port (\<lambda>f. check_result (f port))"

definition gp_port_reset :: "'d port_ops option \<Rightarrow> 'd GPPort \<Rightarrow> int \<times> 'd GPPort" where
  "gp_port_reset ops port = plain_op ''reset'' op_reset ops port (\<lambda>f. check_result (f port))"

definition gp_port_write :: "'d port_ops option \<Rightarrow> byte list option \<Rightarrow> 'd GPPort \<Rightarrow> int \<times> 'd GPPort" where
  "gp_port_write ops data port =
     (case data of
        None \<Rightarrow> (GP_ERROR_BAD_PARAMETERS, port)
      | Some d \<Rightarrow> plain_op ''write'' op_write ops port (\<lambda>f. f d port))"

definition gp_port_read :: "'d port_ops option \<Rightarrow> int \<Rightarrow> 'd GPPort \<Rightarrow> int \<times> byte list \<times> 'd GPPort" where
  "gp_port_read ops sz port = data_op ''read'' op_read ops port (\<lambda>f. f sz port)"

definition gp_port_check_int :: "'d port_ops option \<Rightarrow> int \<Rightarrow> 'd GPPort \<Rightarrow> int \<times> byte list \<times> 'd GPPort" where
  "gp_port_check_int ops sz port =
     data_op ''check_int'' op_check_int ops port (\<lambda>f. f sz (gp_timeout port) port)"

definition FAST_TIMEOUT :: int where
  "FAST_TIMEOUT = 50"

definition gp_port_check_int_fast :: "'d port_ops option \<Rightarrow> int \<Rightarrow> 'd GPPort \<Rightarrow> int \<times> byte list \<times> 'd GPPort" where
  "gp_port_check_int_fast ops sz port =
     data_op ''check_int'' op_check_int ops port (\<lambda>f. f sz FAST_TIMEOUT port)"

definition gp_port_set_timeout :: "int \<Rightarrow> 'd GPPort \<Rightarrow> int \<times> 'd GPPort" where
  "gp_port_set_timeout timeout port = (GP_OK, port\<lparr>gp_timeout := timeout\<rparr>)"

definition gp_port_get_timeout :: "'d GPPort \<Rightarrow> int \<times> int" where
  "gp_port_get_timeout port = (GP_OK, gp_timeout port)"

definition gp_port_set_settings :: "'d port_ops option \<Rightarrow> GPPortSettings \<Rightarrow> 'd GPPort \<Rightarrow> int \<times> 'd GPPort" where
  "gp_port_set_settings ops settings port =
     check_init ops port Pair (\<lambda>o'.
       let port = port\<lparr>gp_settings_pending := settings\<rparr>
       in check_supp ''update'' (op_update o') port Pair (\<lambda>f. check_result (f port)))"

definition gp_port_get_settings :: "'d GPPort \<Rightarrow> int \<times> GPPortSettings" where
  "gp_port_get_settings port = (GP_OK, gp_settings port)"

definition gp_port_get_pin :: "'d port_ops option \<Rightarrow> int \<Rightarrow> 'd GPPort \<Rightarrow> int \<times> int option \<times> 'd GPPort" where
  "gp_port_get_pin ops pin port =
     guarded ''get_pin'' op_get_pin ops port (\<lambda>e p. (e, None, p))
       (\<lambda>f. let (r, level, port) = f pin port in check_result (r, Some level, port))"

definition gp_port_set_pin :: "'d port_ops option \<Rightarrow> int \<Rightarrow> int \<Rightarrow> 'd GPPort \<Rightarrow> int \<times> 'd GPPort" where
  "gp_port_set_pin ops pin level port =
     plain_op ''set_pin'' op_set_pin ops port (\<lambda>f. check_result (f pin level port))"

definition gp_port_send_break :: "'d port_ops option \<Rightarrow> int \<Rightarrow> 'd GPPort \<Rightarrow> int \<times> 'd GPPort" where
  "gp_port_send_break ops duration port =
     plain_op ''send_break'' op_send_break ops port (\<lambda>f. check_result (f duration port))"

text \<open>\<open>gp_port_flush\<close> does not check that a library is loaded: NULL is dereferenced.\<close>

definition gp_port_flush :: "'d port_ops option \<Rightarrow> int \<Rightarrow> 'd GPPort \<Rightarrow> (int \<times> 'd GPPort) option" where
  "gp_port_flush ops direction port =
     (case ops of
        None \<Rightarrow> None
      | Some o' \<Rightarrow> Some (check_supp ''flush'' (op_flush o') port Pair (\<lambda>f. check_result (f direction port))))"

definition gp_port_usb_find_device ::
    "'d port_ops option \<Rightarrow> int \<Rightarrow> int \<Rightarrow> 'd GPPort \<Rightarrow> int \<times> 'd GPPort" where
  "gp_port_usb_find_device ops idvendor idproduct port =
     plain_op ''find_device'' op_find_device ops port (\<lambda>f. check_result (f idvendor idproduct port))"

definition gp_port_usb_find_device_by_class ::
    "'d port_ops option \<Rightarrow> int \<Rightarrow> int \<Rightarrow> int \<Rightarrow> 'd GPPort \<Rightarrow> int \<times> 'd GPPort" where
  "gp_port_usb_find_device_by_class ops mainclass subclass protocol port =
     plain_op ''find_device_by_class'' op_find_device_by_class ops port
       (\<lambda>f. check_result (f mainclass subclass protocol port))"

definition gp_port_usb_clear_halt :: "'d port_ops option \<Rightarrow> int \<Rightarrow> 'd GPPort \<Rightarrow> int \<times> 'd GPPort" where
  "gp_port_usb_clear_halt ops ep port =
     plain_op ''clear_halt'' op_clear_halt ops port (\<lambda>f. check_result (f ep port))"

text \<open>Control messages: standard, to the interface and of a class; the names of the messages
  are those of the code.\<close>

definition gp_port_usb_msg_write ::
    "'d port_ops option \<Rightarrow> int \<Rightarrow> int \<Rightarrow> int \<Rightarrow> byte list \<Rightarrow> 'd GPPort \<Rightarrow> int \<times> 'd GPPort" where
  "gp_port_usb_msg_write ops request value index bytes port =
     plain_op ''msg_write'' op_msg_write ops port (\<lambda>f. f request value index bytes port)"

definition gp_port_usb_msg_read ::
    "'d port_ops option \<Rightarrow> int \<Rightarrow> int \<Rightarrow> int \<Rightarrow> int \<Rightarrow> 'd GPPort \<Rightarrow> int \<times> byte list \<times> 'd GPPort" where
  "gp_port_usb_msg_read ops request value index sz port =
     data_op ''msg_read'' op_msg_read ops port (\<lambda>f. f request value index sz port)"

definition gp_port_usb_msg_interface_write ::
    "'d port_ops option \<Rightarrow> int \<Rightarrow> int \<Rightarrow> int \<Rightarrow> byte list \<Rightarrow> 'd GPPort \<Rightarrow> int \<times> 'd GPPort" where
  "gp_port_usb_msg_interface_write ops request value index bytes port =
     plain_op ''msg_build'' op_msg_interface_write ops port (\<lambda>f. f request value index bytes port)"

definition gp_port_usb_msg_interface_read ::
    "'d port_ops option \<Rightarrow> int \<Rightarrow> int \<Rightarrow> int \<Rightarrow> int \<Rightarrow> 'd GPPort \<Rightarrow> int \<times> byte list \<times> 'd GPPort" where
  "gp_port_usb_msg_interface_read ops request value index sz port =
     data_op ''msg_read'' op_msg_interface_read ops port (\<lambda>f. f request value index sz port)"

definition gp_port_usb_msg_class_write ::
    "'d port_ops option \<Rightarrow> int \<Rightarrow> int \<Rightarrow> int \<Rightarrow> byte list \<Rightarrow> 'd GPPort \<Rightarrow> int \<times> 'd GPPort" where
  "gp_port_usb_msg_class_write ops request value index bytes port =
     plain_op ''msg_build'' op_msg_class_write ops port (\<lambda>f. f request value index bytes port)"

definition gp_port_usb_msg_class_read ::
    "'d port_ops option \<Rightarrow> int \<Rightarrow> int \<Rightarrow> int \<Rightarrow> int \<Rightarrow> 'd GPPort \<Rightarrow> int \<times> byte list \<times> 'd GPPort" where
  "gp_port_usb_msg_class_read ops request value index sz port =
     data_op ''msg_read'' op_msg_class_read ops port (\<lambda>f. f request value index sz port)"

definition gp_port_seek :: "'d port_ops option \<Rightarrow> int \<Rightarrow> int \<Rightarrow> 'd GPPort \<Rightarrow> int \<times> 'd GPPort" where
  "gp_port_seek ops offset whence port = plain_op ''seek'' op_seek ops port (\<lambda>f. f offset whence port)"

section \<open>Delegation\<close>

text \<open>
  Every guarded call either leaves the device alone and fails with a message, or is the operation
  of the library. The two wrappers add nothing but the sign of the result.
\<close>

lemmas port_guards = guarded_def plain_op_def data_op_def check_init_def check_supp_def
  gp_port_set_error_def

lemma plain_op_cases:
  obtains (uninitialised) "ops = None" "fst (plain_op nm sel ops port f) = GP_ERROR_BAD_PARAMETERS"
    "gp_dev (snd (plain_op nm sel ops port f)) = gp_dev port" "gp_error (snd (plain_op nm sel ops port f)) \<noteq> []"
  | (unsupported) o' where "ops = Some o'" "sel o' = None" "fst (plain_op nm sel ops port f) = GP_ERROR_NOT_SUPPORTED"
    "gp_dev (snd (plain_op nm sel ops port f)) = gp_dev port" "gp_error (snd (plain_op nm sel ops port f)) \<noteq> []"
  | (call) o' g where "ops = Some o'" "sel o' = Some g" "plain_op nm sel ops port f = f g"
  by (cases ops) (auto simp: port_guards split: option.splits intro: that)

lemma check_result_neg [simp]: "fst (check_result r) < 0 \<longleftrightarrow> fst r < 0" "0 \<le> fst r \<Longrightarrow> fst (check_result r) = GP_OK"
  by (auto simp: check_result_def)

lemma port_write_call [simp]:
  "op_write o' = Some f \<Longrightarrow> gp_port_write (Some o') (Some d) port = f d port"
  by (simp add: gp_port_write_def port_guards)

lemma port_read_call [simp]:
  "op_read o' = Some f \<Longrightarrow> gp_port_read (Some o') n port = f n port"
  by (simp add: gp_port_read_def port_guards)

lemma port_check_int_call [simp]:
  "op_check_int o' = Some f \<Longrightarrow> gp_port_check_int (Some o') n port = f n (gp_timeout port) port"
  by (simp add: gp_port_check_int_def port_guards)

lemma gp_port_timeout [simp]:
  "gp_port_get_timeout (snd (gp_port_set_timeout t port)) = (GP_OK, t)"
  by (simp add: gp_port_get_timeout_def gp_port_set_timeout_def)

lemma gp_port_flush_null: "gp_port_flush None direction port = None"
  by (simp add: gp_port_flush_def)

end
