(* ===== verification/PtpTransaction.thy ===== *)
theory PtpTransaction
  imports PtpInfo PtpObjects PtpCanon Host
begin

unbundle bit_operations_syntax

text \<open>
  PTP transactions (\<open>camlibs/ptp2/ptp.c\<close>): containers, the data handlers that take and give the
  bytes of a data phase, and the transaction itself over a transport. The transport (USB, PTP/IP,
  \<dots>) is the group of function pointers in \<open>PTPParams\<close>, a parameter of this theory; the USB
  one is in theory PtpUsb.
\<close>

section \<open>The state of a connection\<close>

record PTPObject =
  ob_oid :: u32
  ob_flags :: u32
  ob_oi :: PTPObjectInfo
  ob_canon_flags :: u32
  ob_mtp_props :: "MTPObjectProp list"

text \<open>
  \<open>PTPParams\<close>, with the fields the functions here use. \<open>pp_response_packet\<close> is the buffered
  response, empty for a size of 0; \<open>pp_objects\<close> is the array of the object cache, \<open>None\<close> when its
  pointer is NULL although its length is not 0; \<open>pp_io\<close> stands for what \<open>params->data\<close> leads to: the camera
  with its port.
\<close>

record 'd PTPParams = ptp_params +
  pp_transaction_id :: u32
  pp_session_id :: u32
  pp_split_header_data :: bool
  pp_response_packet :: "byte list"
  pp_maxpacketsize :: u16
  pp_device_flags :: u32
  pp_deviceinfo :: PTPDeviceInfo
  pp_objects :: "PTPObject list option"
  pp_events :: "PTPContainer list"
  pp_storageids :: "u32 list"
  pp_storagechanged :: bool
  pp_event90c7works :: bool
  pp_canon_event_mode :: int
  pp_dpd_cache :: "(PTPDevicePropDesc \<times> int) list"
  pp_io :: 'd

abbreviation PTP_RC_OK :: u16 where "PTP_RC_OK \<equiv> 0x2001"
abbreviation PTP_RC_GeneralError :: u16 where "PTP_RC_GeneralError \<equiv> 0x2002"
abbreviation PTP_RC_OperationNotSupported :: u16 where "PTP_RC_OperationNotSupported \<equiv> 0x2005"
abbreviation PTP_RC_ParameterNotSupported :: u16 where "PTP_RC_ParameterNotSupported \<equiv> 0x2006"
abbreviation PTP_RC_DeviceBusy :: u16 where "PTP_RC_DeviceBusy \<equiv> 0x2019"
abbreviation PTP_ERROR_NODEVICE :: u16 where "PTP_ERROR_NODEVICE \<equiv> 0x02F9"
abbreviation PTP_ERROR_TIMEOUT :: u16 where "PTP_ERROR_TIMEOUT \<equiv> 0x02FA"
abbreviation PTP_ERROR_CANCEL :: u16 where "PTP_ERROR_CANCEL \<equiv> 0x02FB"
abbreviation PTP_ERROR_BADPARAM :: u16 where "PTP_ERROR_BADPARAM \<equiv> 0x02FC"
abbreviation PTP_ERROR_RESP_EXPECTED :: u16 where "PTP_ERROR_RESP_EXPECTED \<equiv> 0x02FD"
abbreviation PTP_ERROR_DATA_EXPECTED :: u16 where "PTP_ERROR_DATA_EXPECTED \<equiv> 0x02FE"
abbreviation PTP_ERROR_IO :: u16 where "PTP_ERROR_IO \<equiv> 0x02FF"

abbreviation PTP_OC_GetDeviceInfo :: u16 where "PTP_OC_GetDeviceInfo \<equiv> 0x1001"
abbreviation PTP_OC_OpenSession :: u16 where "PTP_OC_OpenSession \<equiv> 0x1002"
abbreviation PTP_OC_CloseSession :: u16 where "PTP_OC_CloseSession \<equiv> 0x1003"
abbreviation PTP_OC_GetStorageIDs :: u16 where "PTP_OC_GetStorageIDs \<equiv> 0x1004"
abbreviation PTP_OC_GetStorageInfo :: u16 where "PTP_OC_GetStorageInfo \<equiv> 0x1005"
abbreviation PTP_OC_GetObjectHandles :: u16 where "PTP_OC_GetObjectHandles \<equiv> 0x1007"
abbreviation PTP_OC_GetObjectInfo :: u16 where "PTP_OC_GetObjectInfo \<equiv> 0x1008"

abbreviation PTP_DP_NODATA :: u16 where "PTP_DP_NODATA \<equiv> 0"
abbreviation PTP_DP_SENDDATA :: u16 where "PTP_DP_SENDDATA \<equiv> 1"
abbreviation PTP_DP_GETDATA :: u16 where "PTP_DP_GETDATA \<equiv> 2"
abbreviation PTP_DP_DATA_MASK :: u16 where "PTP_DP_DATA_MASK \<equiv> 0xFF"

text \<open>
  \<open>ptp_init_container\<close>, through \<open>PTP_CNT_INIT\<close>: the parameters given, zeros after them; those
  past the fifth are counted but not stored.
\<close>

definition ptp_init_container :: "u16 \<Rightarrow> u32 list \<Rightarrow> PTPContainer" where
  "ptp_init_container code ps =
     (let q = (\<lambda>i. if i < length ps then ps ! i else 0)
      in container_zero\<lparr>pc_Code := code, pc_Nparam := of_nat (length ps),
           pc_Param1 := q 0, pc_Param2 := q 1, pc_Param3 := q 2, pc_Param4 := q 3, pc_Param5 := q 4\<rparr>)"

section \<open>Data handlers\<close>

text \<open>
  \<open>PTPDataHandler\<close>: the private state with the two functions on it. \<open>getfunc\<close> returns the
  bytes it has put into the caller's buffer of the wanted length; \<open>putfunc\<close> gets a length and
  the memory behind the pointer. \<open>None\<close> is undefined behaviour.
\<close>

record 'h PTPDataHandler =
  dh_getfunc :: "u64 \<Rightarrow> 'h \<Rightarrow> (u16 \<times> byte list \<times> 'h) option"
  dh_putfunc :: "u64 \<Rightarrow> byte list \<Rightarrow> 'h \<Rightarrow> (u16 \<times> 'h) option"
  dh_priv :: 'h

record PTPMemHandlerPrivate =
  mh_data :: buffer
  mh_size :: u64
  mh_curoff :: u64

definition memory_getfunc ::
    "u64 \<Rightarrow> PTPMemHandlerPrivate \<Rightarrow> (u16 \<times> byte list \<times> PTPMemHandlerPrivate) option" where
  "memory_getfunc wantlen priv =
     (let tocopy = (if mh_size priv < mh_curoff priv + wantlen then mh_size priv - mh_curoff priv else wantlen)
      in if tocopy = 0 then Some (PTP_RC_OK, [], priv)
         else case mh_data priv of
           None \<Rightarrow> None
         | Some d \<Rightarrow>
             if length d < unat (mh_curoff priv) + unat tocopy then None
             else Some (PTP_RC_OK, take (unat tocopy) (drop (unat (mh_curoff priv)) d),
                    priv\<lparr>mh_curoff := mh_curoff priv + tocopy\<rparr>))"

text \<open>\<open>realloc\<close> to \<open>n\<close> bytes: the old contents, then whatever the memory held.\<close>

definition realloc_bytes :: "'p ptp_params_scheme \<Rightarrow> buffer \<Rightarrow> nat \<Rightarrow> buffer" where
  "realloc_bytes p b n =
     (if pp_alloc p n
      then (let d = (case b of None \<Rightarrow> [] | Some d \<Rightarrow> d)
            in Some (take n d @ map (pp_junk p) [length d..<n]))
      else None)"

definition memory_putfunc ::
    "'p ptp_params_scheme \<Rightarrow> u64 \<Rightarrow> byte list \<Rightarrow> PTPMemHandlerPrivate
      \<Rightarrow> (u16 \<times> PTPMemHandlerPrivate) option" where
  "memory_putfunc p sendlen data priv = do {
     let total = mh_curoff priv + sendlen;
     let priv = (if mh_size priv < total
                 then (case realloc_bytes p (mh_data priv) (unat total) of
                         None \<Rightarrow> priv\<lparr>mh_data := None\<rparr>
                       | Some d \<Rightarrow> priv\<lparr>mh_data := Some d, mh_size := total\<rparr>)
                 else priv);
     if mh_size priv < total then Some (PTP_RC_GeneralError, priv)
     else if sendlen = 0 then Some (PTP_RC_OK, priv)
     else case mh_data priv of
       None \<Rightarrow> None
     | Some d \<Rightarrow>
         if length data < unat sendlen then None
         else do {
           d \<leftarrow> wr d (unat (mh_curoff priv)) (take (unat sendlen) data);
           Some (PTP_RC_OK, priv\<lparr>mh_data := Some d, mh_curoff := mh_curoff priv + sendlen\<rparr>)
         }
   }"

definition fd_getfunc :: "u64 \<Rightarrow> int \<times> host \<Rightarrow> (u16 \<times> byte list \<times> int \<times> host) option" where
  "fd_getfunc wantlen priv =
     (let (fd, h) = priv in
      case c_read h fd (unat wantlen) of
        (None, h) \<Rightarrow> Some (PTP_RC_GeneralError, [], fd, h)
      | (Some bs, h) \<Rightarrow> Some (PTP_RC_OK, bs, fd, h))"

definition fd_putfunc :: "u64 \<Rightarrow> byte list \<Rightarrow> int \<times> host \<Rightarrow> (u16 \<times> int \<times> host) option" where
  "fd_putfunc sendlen data priv =
     (let (fd, h) = priv in
      if length data < unat sendlen then None
      else case c_write h fd (take (unat sendlen) data) of
        (None, h) \<Rightarrow> Some (PTP_ERROR_IO, fd, h)
      | (Some n, h) \<Rightarrow> Some (if n = unat sendlen then PTP_RC_OK else PTP_ERROR_IO, fd, h))"

text \<open>
  The functions that set handlers up allocate the private structure (24 bytes for memory, 4 for a
  descriptor); \<open>None\<close> is \<open>PTP_RC_GeneralError\<close>. The ones that take them down hand the data back.
\<close>

definition memory_handler :: "'p ptp_params_scheme \<Rightarrow> buffer \<Rightarrow> u64 \<Rightarrow> PTPMemHandlerPrivate PTPDataHandler" where
  "memory_handler p data len =
     \<lparr>dh_getfunc = memory_getfunc, dh_putfunc = memory_putfunc p,
      dh_priv = \<lparr>mh_data = data, mh_size = len, mh_curoff = 0\<rparr>\<rparr>"

definition ptp_init_recv_memory_handler ::
    "'p ptp_params_scheme \<Rightarrow> PTPMemHandlerPrivate PTPDataHandler option" where
  "ptp_init_recv_memory_handler p = (if pp_alloc p 24 then Some (memory_handler p None 0) else None)"

definition ptp_init_send_memory_handler ::
    "'p ptp_params_scheme \<Rightarrow> buffer \<Rightarrow> u64 \<Rightarrow> PTPMemHandlerPrivate PTPDataHandler option" where
  "ptp_init_send_memory_handler p data len =
     (if pp_alloc p 24 then Some (memory_handler p data len) else None)"

definition ptp_exit_recv_memory_handler :: "PTPMemHandlerPrivate PTPDataHandler \<Rightarrow> buffer \<times> u64" where
  "ptp_exit_recv_memory_handler handler = (mh_data (dh_priv handler), mh_size (dh_priv handler))"

definition ptp_init_fd_handler ::
    "'p ptp_params_scheme \<Rightarrow> int \<Rightarrow> host \<Rightarrow> (int \<times> host) PTPDataHandler option" where
  "ptp_init_fd_handler p fd h =
     (if pp_alloc p 4
      then Some \<lparr>dh_getfunc = fd_getfunc, dh_putfunc = fd_putfunc, dh_priv = (fd, h)\<rparr> else None)"

text \<open>\<open>handler->getfunc\<close> and \<open>handler->putfunc\<close>, called on the handler's own state.\<close>

definition handler_get ::
    "'h PTPDataHandler \<Rightarrow> u64 \<Rightarrow> (u16 \<times> byte list \<times> 'h PTPDataHandler) option" where
  "handler_get h n = do { (r, bs, priv) \<leftarrow> dh_getfunc h n (dh_priv h); Some (r, bs, h\<lparr>dh_priv := priv\<rparr>) }"

definition handler_put ::
    "'h PTPDataHandler \<Rightarrow> u64 \<Rightarrow> byte list \<Rightarrow> (u16 \<times> 'h PTPDataHandler) option" where
  "handler_put h n bs = do { (r, priv) \<leftarrow> dh_putfunc h n bs (dh_priv h); Some (r, h\<lparr>dh_priv := priv\<rparr>) }"

section \<open>Transactions\<close>

text \<open>
  The transport's functions. Each may change the connection; an outer \<open>None\<close> is undefined
  behaviour, or a call that does not return.
\<close>

record ('d, 'h) ptp_io =
  io_sendreq :: "'d PTPParams \<Rightarrow> PTPContainer \<Rightarrow> u16 \<Rightarrow> (u16 \<times> 'd PTPParams) option"
  io_senddata :: "'d PTPParams \<Rightarrow> PTPContainer \<Rightarrow> u64 \<Rightarrow> 'h PTPDataHandler
    \<Rightarrow> (u16 \<times> 'h PTPDataHandler \<times> 'd PTPParams) option"
  io_getdata :: "'d PTPParams \<Rightarrow> PTPContainer \<Rightarrow> 'h PTPDataHandler
    \<Rightarrow> (u16 \<times> 'h PTPDataHandler \<times> 'd PTPParams) option"
  io_getresp :: "'d PTPParams \<Rightarrow> PTPContainer \<Rightarrow> (u16 \<times> PTPContainer \<times> 'd PTPParams) option"
  io_cancelreq :: "'d PTPParams \<Rightarrow> u32 \<Rightarrow> (u16 \<times> 'd PTPParams) option"

text \<open>
  The loop for the response, with fuel for its passes: \<open>tries\<close> is the counter at the test of the
  loop. A missing response and one of an earlier transaction give their try back.
\<close>

fun response_loop ::
    "('d, 'h) ptp_io \<Rightarrow> nat \<Rightarrow> u16 \<Rightarrow> int \<Rightarrow> PTPContainer \<Rightarrow> 'd PTPParams
      \<Rightarrow> (u16 \<times> PTPContainer \<times> 'd PTPParams) option" where
  "response_loop io 0 cmd tries ptp s = None"
| "response_loop io (Suc fuel) cmd tries ptp s =
     (if tries = 0 then Some (pc_Code ptp, ptp, s)
      else do {
        let tries = tries - 1;
        (ret, ptp, s) \<leftarrow> io_getresp io s ptp;
        if ret = PTP_ERROR_RESP_EXPECTED then response_loop io fuel cmd (tries + 1) ptp s
        else if ret \<noteq> PTP_RC_OK then Some (ret, ptp, s)
        else if pc_Transaction_ID ptp < pp_transaction_id s - 1 then
          (if cmd = PTP_OC_CloseSession then Some (pc_Code ptp, ptp, s)
           else response_loop io fuel cmd (tries + 1) ptp s)
        else if pc_Transaction_ID ptp \<noteq> pp_transaction_id s - 1 then
          (if cmd = PTP_OC_OpenSession \<and> tries \<noteq> 0 then response_loop io fuel cmd tries ptp s
           else Some (PTP_ERROR_BADPARAM, ptp, s))
        else Some (pc_Code ptp, ptp, s)
      })"

text \<open>The data phase, with the cancellation of the request when the transfer was cancelled.\<close>

definition cancel_if ::
    "('d, 'h) ptp_io \<Rightarrow> u16 \<Rightarrow> 'd PTPParams \<Rightarrow> (u16 \<times> 'd PTPParams) option" where
  "cancel_if io ret s =
     (if ret = PTP_ERROR_CANCEL then do {
        (r, s) \<leftarrow> io_cancelreq io s (pp_transaction_id s - 1);
        Some (if r \<noteq> PTP_RC_OK then r else ret, s)
      }
      else Some (ret, s))"

definition data_phase ::
    "('d, 'h) ptp_io \<Rightarrow> u16 \<Rightarrow> u64 \<Rightarrow> PTPContainer \<Rightarrow> 'h PTPDataHandler option \<Rightarrow> 'd PTPParams
      \<Rightarrow> (u16 \<times> 'h PTPDataHandler option \<times> 'd PTPParams) option" where
  "data_phase io flags sendlen ptp handler s =
     (let phase = flags AND PTP_DP_DATA_MASK in
      if phase = PTP_DP_SENDDATA then do {
        h \<leftarrow> handler;
        (ret, h, s) \<leftarrow> io_senddata io s ptp sendlen h;
        (ret, s) \<leftarrow> cancel_if io ret s;
        Some (ret, Some h, s)
      }
      else if phase = PTP_DP_GETDATA then do {
        h \<leftarrow> handler;
        (ret, h, s) \<leftarrow> io_getdata io s ptp h;
        (ret, s) \<leftarrow> cancel_if io ret s;
        Some (ret, Some h, s)
      }
      else if phase = PTP_DP_NODATA then Some (PTP_RC_OK, handler, s)
      else Some (PTP_ERROR_BADPARAM, handler, s))"

definition ptp_transaction_new ::
    "('d, 'h) ptp_io \<Rightarrow> nat \<Rightarrow> 'd PTPParams \<Rightarrow> PTPContainer option \<Rightarrow> u16 \<Rightarrow> u64 \<Rightarrow> 'h PTPDataHandler option
      \<Rightarrow> (u16 \<times> PTPContainer option \<times> 'h PTPDataHandler option \<times> 'd PTPParams) option" where
  "ptp_transaction_new io fuel s ptp flags sendlen handler =
     (case ptp of
        None \<Rightarrow> Some (PTP_ERROR_BADPARAM, None, handler, s)
      | Some ptp \<Rightarrow> do {
          let cmd = pc_Code ptp;
          let ptp = ptp\<lparr>pc_Transaction_ID := pp_transaction_id s, pc_SessionID := pp_session_id s\<rparr>;
          let s = s\<lparr>pp_transaction_id := pp_transaction_id s + 1\<rparr>;
          (ret, s) \<leftarrow> io_sendreq io s ptp flags;
          if ret \<noteq> PTP_RC_OK then Some (ret, Some ptp, handler, s)
          else do {
            (ret, handler, s) \<leftarrow> data_phase io flags sendlen ptp handler s;
            if ret \<noteq> PTP_RC_OK then Some (ret, Some ptp, handler, s)
            else do {
              (ret, ptp, s) \<leftarrow> response_loop io fuel cmd 3 ptp s;
              Some (ret, Some ptp, handler, s)
            }
          }
        })"

text \<open>
  \<open>ptp_transaction\<close>: the data phase in memory. \<open>data\<close> is the pointer to the caller's pointer; the
  result has the pointer after the call and \<open>*recvlen\<close>, which is not set for other phases.
\<close>

definition ptp_transaction ::
    "('d, PTPMemHandlerPrivate) ptp_io \<Rightarrow> nat \<Rightarrow> 'd PTPParams \<Rightarrow> PTPContainer option \<Rightarrow> u16 \<Rightarrow> u64
      \<Rightarrow> buffer option \<Rightarrow> (u16 \<times> PTPContainer option \<times> buffer option \<times> u32 option \<times> 'd PTPParams) option" where
  "ptp_transaction io fuel s ptp flags sendlen data =
     (let phase = flags AND PTP_DP_DATA_MASK in
      if phase = PTP_DP_SENDDATA then
        (case data of
           None \<Rightarrow> Some (PTP_ERROR_BADPARAM, ptp, data, None, s)
         | Some d \<Rightarrow>
             (case ptp_init_send_memory_handler s d sendlen of
                None \<Rightarrow> Some (PTP_RC_GeneralError, ptp, data, None, s)
              | Some h \<Rightarrow> do {
                  (ret, ptp, h, s) \<leftarrow> ptp_transaction_new io fuel s ptp flags sendlen (Some h);
                  Some (ret, ptp, data, None, s)
                }))
      else if phase = PTP_DP_GETDATA then
        (case data of
           None \<Rightarrow> Some (PTP_ERROR_BADPARAM, ptp, data, None, s)
         | Some _ \<Rightarrow>
             (case ptp_init_recv_memory_handler s of
                None \<Rightarrow> Some (PTP_RC_GeneralError, ptp, Some None, Some 0, s)
              | Some h \<Rightarrow> do {
                  (ret, ptp, h, s) \<leftarrow> ptp_transaction_new io fuel s ptp flags sendlen (Some h);
                  h \<leftarrow> h;
                  let (d, len) = ptp_exit_recv_memory_handler h;
                  Some (if ret \<noteq> PTP_RC_OK then (ret, ptp, Some None, Some 0, s)
                        else (ret, ptp, Some d, Some (ucast len), s))
                }))
      else do {
        (ret, ptp, _, s) \<leftarrow> ptp_transaction_new io fuel s ptp flags sendlen None;
        Some (ret, ptp, data, None, s)
      })"

section \<open>Answers\<close>

text \<open>
  What a transaction asks of a transport: it takes the numbers of the connection from
  \<open>PTPParams\<close> and does not change them, nor what the driver keeps of the device's objects.
\<close>

definition same_ids :: "'d PTPParams \<Rightarrow> 'd PTPParams \<Rightarrow> bool" where
  "same_ids s s' \<longleftrightarrow> pp_transaction_id s' = pp_transaction_id s \<and> pp_session_id s' = pp_session_id s
     \<and> pp_objects s' = pp_objects s \<and> pp_deviceinfo s' = pp_deviceinfo s \<and> pp_events s' = pp_events s
     \<and> pp_storageids s' = pp_storageids s \<and> pp_alloc s' = pp_alloc s"

text \<open>What a whole transaction leaves alone.\<close>

definition same_cache :: "'d PTPParams \<Rightarrow> 'd PTPParams \<Rightarrow> bool" where
  "same_cache s s' \<longleftrightarrow> pp_objects s' = pp_objects s \<and> pp_deviceinfo s' = pp_deviceinfo s
     \<and> pp_events s' = pp_events s \<and> pp_storageids s' = pp_storageids s \<and> pp_alloc s' = pp_alloc s"

lemma same_cache_refl [simp]: "same_cache s s"
  by (simp add: same_cache_def)

lemma same_cache_trans: "same_cache s s' \<Longrightarrow> same_cache s' s'' \<Longrightarrow> same_cache s s''"
  by (simp add: same_cache_def)

lemma same_ids_refl [simp]: "same_ids s s"
  by (simp add: same_ids_def)

lemma same_ids_trans: "same_ids s s' \<Longrightarrow> same_ids s' s'' \<Longrightarrow> same_ids s s''"
  by (simp add: same_ids_def)

locale transport =
  fixes io :: "('d, 'h) ptp_io"
  assumes sendreq_ids: "io_sendreq io s c f = Some (r, s') \<Longrightarrow> same_ids s s'"
    and senddata_ids: "io_senddata io s c n h = Some (r, h', s') \<Longrightarrow> same_ids s s'"
    and getdata_ids: "io_getdata io s c h = Some (r, h', s') \<Longrightarrow> same_ids s s'"
    and getresp_ids: "io_getresp io s c = Some (r, c', s') \<Longrightarrow> same_ids s s'"
    and cancelreq_ids: "io_cancelreq io s t = Some (r, s') \<Longrightarrow> same_ids s s'"
begin

lemma cancel_if_ids: "cancel_if io ret s = Some (r, s') \<Longrightarrow> same_ids s s'"
  by (auto simp: cancel_if_def bind_eq_Some_conv dest: cancelreq_ids split: if_splits)

lemma data_phase_ids: "data_phase io flags n c h s = Some (r, h', s') \<Longrightarrow> same_ids s s'"
  by (auto simp: data_phase_def Let_def bind_eq_Some_conv split: if_splits
      dest!: senddata_ids getdata_ids cancel_if_ids intro: same_ids_trans)

lemma response_loop_answer:
  assumes "response_loop io fuel cmd tries c s = Some (PTP_RC_OK, c', s')" "1 \<le> tries"
  shows "pc_Code c' = PTP_RC_OK \<and> same_ids s s' \<and>
    (pc_Transaction_ID c' = pp_transaction_id s - 1
     \<or> cmd = PTP_OC_CloseSession \<and> pc_Transaction_ID c' < pp_transaction_id s - 1)"
  using assms
proof (induction fuel arbitrary: tries c s)
  case (Suc fuel)
  then obtain ret c1 s1 where g: "io_getresp io s c = Some (ret, c1, s1)"
    by (auto simp: bind_eq_Some_conv Let_def split: if_splits)
  have i: "same_ids s s1" using getresp_ids [OF g] .
  then have t: "pp_transaction_id s1 = pp_transaction_id s" by (simp add: same_ids_def)
  have rec: ?case if "response_loop io fuel cmd t' c1 s1 = Some (PTP_RC_OK, c', s')" "1 \<le> t'" for t'
    using Suc.IH [OF that] same_ids_trans [OF i] t by auto
  show ?case
    using Suc.prems g rec i t by (auto simp: Let_def split: if_splits)
qed simp

text \<open>Whatever its outcome, a transaction leaves alone what the driver keeps of the device.\<close>

lemma response_loop_ids: "response_loop io fuel cmd tries c s = Some (r, c', s') \<Longrightarrow> same_ids s s'"
proof (induction fuel arbitrary: tries c s)
  case (Suc fuel)
  show ?case
  proof (cases "tries = 0")
    case False
    then obtain ret c1 s1 where g: "io_getresp io s c = Some (ret, c1, s1)"
      using Suc.prems by (auto simp: bind_eq_Some_conv Let_def)
    have rec: "same_ids s s'" if "response_loop io fuel cmd t' c1 s1 = Some (r, c', s')" for t'
      using same_ids_trans [OF getresp_ids [OF g] Suc.IH [OF that]] .
    from Suc.prems False g getresp_ids [OF g] rec show ?thesis by (auto simp: Let_def split: if_splits)
  qed (use Suc.prems in simp)
qed simp

lemma transaction_new_keeps:
  "ptp_transaction_new io fuel s c flags n h = Some (r, c', h', s') \<Longrightarrow> same_cache s s'"
  by (auto simp: ptp_transaction_new_def Let_def bind_eq_Some_conv same_ids_def same_cache_def split: if_splits option.splits
      dest!: response_loop_ids sendreq_ids data_phase_ids)

text \<open>A transaction that succeeds has been answered by a response to this request.\<close>

lemma transaction_answered:
  assumes "ptp_transaction_new io fuel s (Some c) flags n h = Some (PTP_RC_OK, c', h', s')"
  shows "pp_transaction_id s' = pp_transaction_id s + 1 \<and> pp_session_id s' = pp_session_id s \<and>
    (\<exists>r. c' = Some r \<and> pc_Code r = PTP_RC_OK \<and>
      (pc_Transaction_ID r = pp_transaction_id s
       \<or> pc_Code c = PTP_OC_CloseSession \<and> pc_Transaction_ID r < pp_transaction_id s))"
  using assms
  by (auto simp: ptp_transaction_new_def Let_def bind_eq_Some_conv same_ids_def split: if_splits
      dest!: response_loop_answer sendreq_ids data_phase_ids)

end

text \<open>The same for the transactions with their data in memory.\<close>

locale mem_transport = transport io for io :: "('d, PTPMemHandlerPrivate) ptp_io"
begin

lemma transaction_keeps:
  "ptp_transaction io fuel s c flags n d = Some (r, c', d', l, s') \<Longrightarrow> same_cache s s'"
  by (auto simp: ptp_transaction_def Let_def bind_eq_Some_conv ptp_exit_recv_memory_handler_def split: if_splits option.splits
      dest!: transaction_new_keeps)

end

text \<open>
  The answers of a device: \<open>n\<close> that do not count (a packet that is not a response, or a response to
  an earlier request) and then the one to this request.
\<close>

inductive answered :: "('d, 'h) ptp_io \<Rightarrow> nat \<Rightarrow> PTPContainer \<Rightarrow> 'd PTPParams \<Rightarrow> PTPContainer \<Rightarrow> 'd PTPParams \<Rightarrow> bool"
  for io where
  now: "io_getresp io s c = Some (PTP_RC_OK, c', s') \<Longrightarrow> pc_Transaction_ID c' = pp_transaction_id s' - 1
    \<Longrightarrow> answered io 0 c s c' s'"
| later: "io_getresp io s c = Some (ret, c1, s1)
    \<Longrightarrow> ret = PTP_ERROR_RESP_EXPECTED \<or> ret = PTP_RC_OK \<and> pc_Transaction_ID c1 < pp_transaction_id s1 - 1
    \<Longrightarrow> answered io n c1 s1 c' s' \<Longrightarrow> answered io (Suc n) c s c' s'"

lemma response_loop_answered:
  assumes "answered io n c s c' s'" "n < fuel" "cmd \<noteq> PTP_OC_CloseSession" "tries \<noteq> 0"
  shows "response_loop io fuel cmd tries c s = Some (pc_Code c', c', s')"
  using assms
proof (induction arbitrary: fuel rule: answered.induct)
  case (now s c c' s')
  then show ?case by (cases fuel) simp_all
next
  case (later s c ret c1 s1 n c' s')
  then obtain f where "fuel = Suc f" "n < f" by (cases fuel) auto
  with later show ?case by auto
qed

lemma response_loop_never:
  assumes "\<And>c s. \<exists>c1 s1. io_getresp io s c = Some (PTP_ERROR_RESP_EXPECTED, c1, s1)" "tries \<noteq> 0"
  shows "response_loop io fuel cmd tries c s = None"
proof (induction fuel arbitrary: c s)
  case (Suc fuel)
  obtain c1 s1 where "io_getresp io s c = Some (PTP_ERROR_RESP_EXPECTED, c1, s1)" using assms(1) by blast
  with Suc assms(2) show ?case by simp
qed simp

section \<open>Sinks and sources of bytes\<close>

text \<open>
  What the transport relies on: \<open>putfunc\<close> appends what it is given while there is room, and
  \<open>getfunc\<close> hands out the bytes in order, fewer than asked for only at the end.
\<close>

locale byte_sink =
  fixes put :: "u64 \<Rightarrow> byte list \<Rightarrow> 'h \<Rightarrow> (u16 \<times> 'h) option"
    and stored :: "'h \<Rightarrow> byte list"
    and room :: "'h \<Rightarrow> nat \<Rightarrow> bool"
  assumes put: "room h n \<Longrightarrow> m \<le> n \<Longrightarrow> m \<le> length bs \<Longrightarrow>
    \<exists>h'. put (of_nat m) bs h = Some (PTP_RC_OK, h') \<and> stored h' = stored h @ take m bs \<and> room h' (n - m)"
begin

definition sinks :: "'h PTPDataHandler \<Rightarrow> nat \<Rightarrow> bool" where
  "sinks h n \<longleftrightarrow> dh_putfunc h = put \<and> room (dh_priv h) n"

lemma handler_put_sinks:
  assumes "sinks h n" "m \<le> n" "m \<le> length bs"
  obtains h' where "handler_put h (of_nat m) bs = Some (PTP_RC_OK, h')"
    "stored (dh_priv h') = stored (dh_priv h) @ take m bs" "sinks h' (n - m)"
  using put [of "dh_priv h" n m bs] assms by (auto simp: sinks_def handler_put_def)

end

locale byte_source =
  fixes get :: "u64 \<Rightarrow> 'h \<Rightarrow> (u16 \<times> byte list \<times> 'h) option"
    and remaining :: "'h \<Rightarrow> byte list"
    and ready :: "'h \<Rightarrow> bool"
  assumes get: "ready h \<Longrightarrow> n < 2 ^ 63 \<Longrightarrow>
    \<exists>h'. get (of_nat n) h = Some (PTP_RC_OK, take n (remaining h), h') \<and> remaining h' = drop n (remaining h) \<and> ready h'"
begin

definition gives :: "'h PTPDataHandler \<Rightarrow> byte list \<Rightarrow> bool" where
  "gives h bs \<longleftrightarrow> dh_getfunc h = get \<and> ready (dh_priv h) \<and> remaining (dh_priv h) = bs"

lemma handler_get_gives:
  assumes "gives h bs" "n < 2 ^ 63"
  obtains h' where "handler_get h (of_nat n) = Some (PTP_RC_OK, take n bs, h')" "gives h' (drop n bs)"
  using get [of "dh_priv h" n] assms by (auto simp: gives_def handler_get_def)

end

definition mem_bytes :: "PTPMemHandlerPrivate \<Rightarrow> byte list" where
  "mem_bytes m = (case mh_data m of None \<Rightarrow> [] | Some d \<Rightarrow> d)"

definition mem_room :: "'p ptp_params_scheme \<Rightarrow> PTPMemHandlerPrivate \<Rightarrow> nat \<Rightarrow> bool" where
  "mem_room p m n \<longleftrightarrow> mh_curoff m = mh_size m \<and> mh_size m = of_nat (length (mem_bytes m))
     \<and> length (mem_bytes m) + n < 2 ^ 64 \<and> (\<forall>k \<le> length (mem_bytes m) + n. pp_alloc p k)"

lemma memory_putfunc_appends:
  assumes "mem_room p m n" "k \<le> n" "k \<le> length bs"
  shows "\<exists>m'. memory_putfunc p (of_nat k) bs m = Some (PTP_RC_OK, m') \<and>
    mem_bytes m' = mem_bytes m @ take k bs \<and> mem_room p m' (n - k)"
proof -
  define L where "L = length (mem_bytes m)"
  have u: "unat (of_nat L :: u64) = L" "unat (of_nat k :: u64) = k" "unat (of_nat L + of_nat k :: u64) = L + k"
    using assms unat_of_nat_u64 [of "L + k"] by (simp_all add: mem_room_def L_def unat_of_nat_u64)
  have c: "mh_curoff m = of_nat L" "mh_size m = of_nat L" and a: "pp_alloc p (L + k)"
    using assms by (simp_all add: mem_room_def L_def)
  show ?thesis
  proof (cases "k = 0")
    case True
    then show ?thesis using assms c by (auto simp: memory_putfunc_def)
  next
    case False
    then have lt: "of_nat L < (of_nat L + of_nat k :: u64)" using u by (simp add: word_less_nat_alt)
    have k0: "of_nat k \<noteq> (0 :: u64)" using False u(2) by (metis unat_0)
    have d: "realloc_bytes p (mh_data m) (L + k) = Some (mem_bytes m @ map (pp_junk p) [L..<L + k])"
      using a by (auto simp: realloc_bytes_def mem_bytes_def L_def split: option.splits)
    have w: "wr (mem_bytes m @ map (pp_junk p) [L..<L + k]) L (take k bs) = Some (mem_bytes m @ take k bs)"
      using assms(3) by (subst wr_app) (simp_all add: L_def)
    have "memory_putfunc p (of_nat k) bs m =
        Some (PTP_RC_OK, m\<lparr>mh_data := Some (mem_bytes m @ take k bs), mh_size := of_nat L + of_nat k,
          mh_curoff := of_nat L + of_nat k\<rparr>)"
      using assms(3) lt k0 by (simp add: memory_putfunc_def c u d w Let_def)
    then show ?thesis
      using assms by (auto simp: mem_bytes_def [of "mh_data_update _ _"] mem_room_def L_def [symmetric])
        (auto simp: mem_bytes_def L_def)
  qed
qed

interpretation mem_sink: byte_sink "memory_putfunc p" mem_bytes "mem_room p" for p :: "'p ptp_params_scheme"
  by unfold_locales (rule memory_putfunc_appends)

definition mem_ready :: "PTPMemHandlerPrivate \<Rightarrow> bool" where
  "mem_ready m \<longleftrightarrow> unat (mh_size m) = length (mem_bytes m) \<and> mh_curoff m \<le> mh_size m \<and> unat (mh_size m) < 2 ^ 63"

definition mem_rest :: "PTPMemHandlerPrivate \<Rightarrow> byte list" where
  "mem_rest m = drop (unat (mh_curoff m)) (mem_bytes m)"

interpretation mem_source: byte_source memory_getfunc mem_rest mem_ready
proof unfold_locales
  fix m :: PTPMemHandlerPrivate and n :: nat
  assume m: "mem_ready m" and n: "n < 2 ^ 63"
  define c where "c = unat (mh_curoff m)"
  have le: "c \<le> unat (mh_size m)" using m by (simp add: mem_ready_def c_def word_le_nat_alt)
  have un: "unat (of_nat n :: u64) = n" using n by (simp add: unat_of_nat_u64)
  have us: "unat (mh_curoff m + of_nat n) = c + n"
    using m le n un by (subst unat_add_lem [THEN iffD1]) (auto simp: mem_ready_def c_def)
  define k where "k = (if mh_size m < mh_curoff m + of_nat n then mh_size m - mh_curoff m else of_nat n)"
  have uk: "unat k = min n (unat (mh_size m) - c)"
    using le by (auto simp: k_def word_less_nat_alt us un c_def unat_sub word_le_nat_alt)
  have L: "length (mem_bytes m) = unat (mh_size m)" using m by (simp add: mem_ready_def)
  have t: "take n (mem_rest m) = take (unat k) (drop c (mem_bytes m))"
    by (auto simp: mem_rest_def c_def uk min_def L take_all_iff)
  have uc: "unat (mh_curoff m + k) = c + unat k"
    using m le uk by (subst unat_add_lem [THEN iffD1]) (auto simp: mem_ready_def c_def)
  show "\<exists>m'. memory_getfunc (of_nat n) m = Some (PTP_RC_OK, take n (mem_rest m), m')
      \<and> mem_rest m' = drop n (mem_rest m) \<and> mem_ready m'"
  proof (cases "k = 0")
    case True
    then have "memory_getfunc (of_nat n) m = Some (PTP_RC_OK, [], m)"
      by (simp add: memory_getfunc_def k_def [symmetric])
    moreover from True uk have "n = 0 \<or> unat (mh_size m) - c = 0" by (simp add: min_def split: if_splits)
    ultimately show ?thesis using m L by (auto simp: mem_rest_def c_def)
  next
    case False
    then obtain d where d: "mh_data m = Some d"
      using uk L le unat_eq_zero [of k] by (cases "mh_data m") (auto simp: mem_bytes_def c_def)
    have ld: "c + unat k \<le> length d" using L d le uk by (simp add: mem_bytes_def)
    have "memory_getfunc (of_nat n) m = Some (PTP_RC_OK, take (unat k) (drop c d), m\<lparr>mh_curoff := mh_curoff m + k\<rparr>)"
      using False ld by (simp add: memory_getfunc_def k_def [symmetric] d c_def [symmetric] Let_def)
    moreover have "drop n (mem_rest m) = drop (c + unat k) (mem_bytes m)"
      by (auto simp: mem_rest_def c_def [symmetric] uk min_def L add.commute)
    ultimately show ?thesis
      using m L ld uc d t by (auto simp: mem_rest_def mem_ready_def mem_bytes_def word_le_nat_alt)
  qed
qed

section \<open>Transactions come to an end\<close>

text \<open>A connection to a device that has not been opened, for concrete runs.\<close>

definition plain_connection :: "'d \<Rightarrow> 'd PTPParams" where
  "plain_connection d = ptp_params.extend plain_params
     (PTPParams.fields 0 0 False [] 512 0 di_zero (Some []) [] [] False False 0 [] d)"

lemma plain_connection_simps [simp]:
  "pp_transaction_id (plain_connection d) = 0" "pp_session_id (plain_connection d) = 0"
  "pp_split_header_data (plain_connection d) = False" "pp_response_packet (plain_connection d) = []"
  "pp_maxpacketsize (plain_connection d) = 512" "pp_device_flags (plain_connection d) = 0"
  "pp_alloc (plain_connection d) n" "pp_deviceinfo (plain_connection d) = di_zero"
  "pp_objects (plain_connection d) = Some []" "pp_events (plain_connection d) = []"
  "pp_io (plain_connection d) = d"
  by (simp_all add: plain_connection_def ptp_params.defs PTPParams.defs plain_params_def)

text \<open>A transport that answers from a script and does nothing else.\<close>

definition scripted :: "((u16 \<times> PTPContainer) list, 'h) ptp_io" where
  "scripted = \<lparr>io_sendreq = (\<lambda>s c f. Some (PTP_RC_OK, s)), io_senddata = (\<lambda>s c n h. Some (PTP_RC_OK, h, s)),
     io_getdata = (\<lambda>s c h. Some (PTP_RC_OK, h, s)),
     io_getresp = (\<lambda>s c. case pp_io s of [] \<Rightarrow> None | (r, c') # rs \<Rightarrow> Some (r, c', s\<lparr>pp_io := rs\<rparr>)),
     io_cancelreq = (\<lambda>s t. Some (PTP_RC_OK, s))\<rparr>"

text \<open>
  C4. A transaction comes to its end: when the request and the data phase go through and the
  device, after \<open>k\<close> packets that are no responses or answer earlier requests, answers this request,
  \<open>ptp_transaction_new\<close> returns the response code of that answer and its container, in \<open>k + 1\<close>
  passes of the response loop, although the counter \<open>tries\<close> starts at 3.
\<close>

theorem ptp_transaction_completes:
  assumes "io_sendreq io (s\<lparr>pp_transaction_id := pp_transaction_id s + 1\<rparr>)
      (c\<lparr>pc_Transaction_ID := pp_transaction_id s, pc_SessionID := pp_session_id s\<rparr>) flags = Some (PTP_RC_OK, s1)"
    and "data_phase io flags n (c\<lparr>pc_Transaction_ID := pp_transaction_id s, pc_SessionID := pp_session_id s\<rparr>) h s1
      = Some (PTP_RC_OK, h', s2)"
    and "answered io k (c\<lparr>pc_Transaction_ID := pp_transaction_id s, pc_SessionID := pp_session_id s\<rparr>) s2 c' s'"
    and "pc_Code c \<noteq> PTP_OC_CloseSession" "k < fuel"
  shows "ptp_transaction_new io fuel s (Some c) flags n h = Some (pc_Code c', Some c', h', s')"
  using assms response_loop_answered [OF assms(3,5,4)]
  by (simp add: ptp_transaction_new_def Let_def)

theorem ptp_transaction_completes_witness:
  "let s = plain_connection (replicate 4 (PTP_ERROR_RESP_EXPECTED, container_zero)
         @ [(PTP_RC_OK, container_zero\<lparr>pc_Code := PTP_RC_OK\<rparr>)]) :: (u16 \<times> PTPContainer) list PTPParams
   in ptp_transaction_new scripted 5 s (Some (container_zero\<lparr>pc_Code := 0x1001\<rparr>)) PTP_DP_NODATA 0 (None :: unit PTPDataHandler option)
     = Some (PTP_RC_OK, Some (container_zero\<lparr>pc_Code := PTP_RC_OK\<rparr>), None, s\<lparr>pp_transaction_id := 1, pp_io := []\<rparr>)"
proof -
  let ?io = "scripted :: (_, unit) ptp_io"
  let ?e = "(PTP_ERROR_RESP_EXPECTED, container_zero)"
  let ?r = "container_zero\<lparr>pc_Code := PTP_RC_OK\<rparr>"
  define s :: "(u16 \<times> PTPContainer) list PTPParams" where
    "s = plain_connection (replicate 4 ?e @ [(PTP_RC_OK, ?r)])"
  let ?c = "container_zero\<lparr>pc_Code := 0x1001\<rparr>"
  define c where "c = ?c\<lparr>pc_Transaction_ID := pp_transaction_id s, pc_SessionID := pp_session_id s\<rparr>"
  define s2 where "s2 = s\<lparr>pp_transaction_id := pp_transaction_id s + 1\<rparr>"
  have 0: "answered ?io 0 c1 (s2\<lparr>pp_io := [(PTP_RC_OK, ?r)]\<rparr>) ?r (s2\<lparr>pp_io := []\<rparr>)" for c1
    by (rule answered.now) (simp_all add: scripted_def s2_def s_def container_zero_def)
  have step: "answered ?io (Suc k) c1 (s2\<lparr>pp_io := ?e # rs\<rparr>) ?r (s2\<lparr>pp_io := []\<rparr>)"
    if a: "answered ?io k container_zero (s2\<lparr>pp_io := rs\<rparr>) ?r (s2\<lparr>pp_io := []\<rparr>)" for k rs c1
    by (rule answered.later [OF _ _ a, of _ _ PTP_ERROR_RESP_EXPECTED]) (simp_all add: scripted_def)
  have "answered ?io 4 c (s2\<lparr>pp_io := replicate 4 ?e @ [(PTP_RC_OK, ?r)]\<rparr>) ?r (s2\<lparr>pp_io := []\<rparr>)"
    using step [OF step [OF step [OF step [OF 0]]]] by (simp add: eval_nat_numeral)
  moreover have "s2\<lparr>pp_io := replicate 4 ?e @ [(PTP_RC_OK, ?r)]\<rparr> = s2"
    unfolding s2_def s_def by (simp add: plain_connection_def ptp_params.defs PTPParams.defs)
  ultimately have a: "answered ?io 4 c s2 ?r (s2\<lparr>pp_io := []\<rparr>)" by simp
  have "ptp_transaction_new scripted 5 s (Some ?c) PTP_DP_NODATA 0 (None :: unit PTPDataHandler option)
      = Some (pc_Code ?r, Some ?r, None, s2\<lparr>pp_io := []\<rparr>)"
  proof (rule ptp_transaction_completes [where k = 4, OF _ _ a [unfolded c_def]])
    show "io_sendreq scripted (s\<lparr>pp_transaction_id := pp_transaction_id s + 1\<rparr>)
        (?c\<lparr>pc_Transaction_ID := pp_transaction_id s, pc_SessionID := pp_session_id s\<rparr>) PTP_DP_NODATA = Some (PTP_RC_OK, s2)"
      by (simp add: scripted_def s2_def)
    show "data_phase scripted PTP_DP_NODATA 0 (?c\<lparr>pc_Transaction_ID := pp_transaction_id s, pc_SessionID := pp_session_id s\<rparr>)
        (None :: unit PTPDataHandler option) s2 = Some (PTP_RC_OK, None, s2)"
      by (simp add: data_phase_def)
  qed (simp_all add: container_zero_def)
  then show ?thesis by (simp add: s_def s2_def)
qed

end
