(* ===== verification/PtpUsb.thy ===== *)
theory PtpUsb
  imports PtpTransaction GpPort
begin

unbundle bit_operations_syntax

text \<open>
  PTP over USB (\<open>camlibs/ptp2/usb.c\<close>): requests, the two directions of the data phase, responses
  and events as packets on the port. The progress reports to the user interface and the debug
  output are left out; the question whether the user cancels is an operation of the environment.
\<close>

section \<open>The environment\<close>

text \<open>
  The port's operations and \<open>gp_context_cancel\<close>, which acts on what stands for the rest of the
  world. The connection's \<open>pp_io\<close> is the camera's port.
\<close>

record 'd usb_env =
  ue_ops :: "'d port_ops option"
  ue_cancel :: "'d \<Rightarrow> bool \<times> 'd"

type_synonym 'd usb_params = "'d GPPort PTPParams"

abbreviation GP_ERROR_IO_USB_FIND :: int where "GP_ERROR_IO_USB_FIND \<equiv> - 52"

definition translate_gp_result_to_ptp :: "int \<Rightarrow> u16" where
  "translate_gp_result_to_ptp r =
     (if r = GP_OK then PTP_RC_OK
      else if r = GP_ERROR_BAD_PARAMETERS then PTP_RC_ParameterNotSupported
      else if r = GP_ERROR_NOT_SUPPORTED then PTP_RC_OperationNotSupported
      else if r = GP_ERROR_CAMERA_BUSY then PTP_RC_DeviceBusy
      else if r = GP_ERROR_IO_USB_FIND then PTP_ERROR_NODEVICE
      else if r = GP_ERROR_TIMEOUT then PTP_ERROR_TIMEOUT
      else if r = GP_ERROR_CANCEL then PTP_ERROR_CANCEL
      else if r = GP_ERROR_IO then PTP_ERROR_IO
      else PTP_RC_GeneralError)"

abbreviation GP_PORT_USB_ENDPOINT_IN :: int where "GP_PORT_USB_ENDPOINT_IN \<equiv> 0"
abbreviation GP_PORT_USB_ENDPOINT_OUT :: int where "GP_PORT_USB_ENDPOINT_OUT \<equiv> 1"
abbreviation PTP_USB_CONTAINER_COMMAND :: u16 where "PTP_USB_CONTAINER_COMMAND \<equiv> 1"
abbreviation PTP_USB_CONTAINER_DATA :: u16 where "PTP_USB_CONTAINER_DATA \<equiv> 2"
abbreviation PTP_USB_CONTAINER_RESPONSE :: u16 where "PTP_USB_CONTAINER_RESPONSE \<equiv> 3"

text \<open>The calls of the port, on the port in the connection.\<close>

definition usb_write :: "'d usb_env \<Rightarrow> byte list \<Rightarrow> 'd usb_params \<Rightarrow> int \<times> 'd usb_params" where
  "usb_write e bs s = (let (r, p) = gp_port_write (ue_ops e) (Some bs) (pp_io s) in (r, s\<lparr>pp_io := p\<rparr>))"

definition usb_read :: "'d usb_env \<Rightarrow> int \<Rightarrow> 'd usb_params \<Rightarrow> int \<times> byte list \<times> 'd usb_params" where
  "usb_read e n s = (let (r, bs, p) = gp_port_read (ue_ops e) n (pp_io s) in (r, bs, s\<lparr>pp_io := p\<rparr>))"

definition usb_clear_halt :: "'d usb_env \<Rightarrow> int \<Rightarrow> 'd usb_params \<Rightarrow> 'd usb_params" where
  "usb_clear_halt e ep s = s\<lparr>pp_io := snd (gp_port_usb_clear_halt (ue_ops e) ep (pp_io s))\<rparr>"

definition usb_cancelled :: "'d usb_env \<Rightarrow> 'd usb_params \<Rightarrow> bool \<times> 'd usb_params" where
  "usb_cancelled e s =
     (let (c, d) = ue_cancel e (gp_dev (pp_io s)) in (c, s\<lparr>pp_io := (pp_io s)\<lparr>gp_dev := d\<rparr>\<rparr>))"

section \<open>Requests\<close>

text \<open>
  \<open>PTPUSBBulkContainer\<close> has 12 bytes of header and a payload of 1012 bytes. A request is written
  up to its last parameter; the structure on the stack is not initialised behind the fifth.
\<close>

definition bulk_header :: "u32 \<Rightarrow> u16 \<Rightarrow> u16 \<Rightarrow> u32 \<Rightarrow> byte list" where
  "bulk_header len type code tid = put32 len @ put16 type @ put16 code @ put32 tid"

definition request_packet :: "'p ptp_params_scheme \<Rightarrow> PTPContainer \<Rightarrow> byte list" where
  "request_packet p req =
     (let n = 12 + 4 * unat (pc_Nparam req)
      in take n (bulk_header (of_nat n) PTP_USB_CONTAINER_COMMAND (pc_Code req) (pc_Transaction_ID req)
           @ put32 (pc_Param1 req) @ put32 (pc_Param2 req) @ put32 (pc_Param3 req)
           @ put32 (pc_Param4 req) @ put32 (pc_Param5 req) @ map (pp_junk p) [32..<1024]))"

definition ptp_usb_sendreq ::
    "'d usb_env \<Rightarrow> 'd usb_params \<Rightarrow> PTPContainer \<Rightarrow> u16 \<Rightarrow> (u16 \<times> 'd usb_params) option" where
  "ptp_usb_sendreq e s req dataphase =
     (let pkt = request_packet s req; towrite = int (length pkt) in
      if length pkt < 12 + 4 * unat (pc_Nparam req) then None
      else
        (let (res, s) = usb_write e pkt s;
             (res, s) = (if res = GP_ERROR_IO_WRITE
                         then usb_write e pkt (usb_clear_halt e GP_PORT_USB_ENDPOINT_OUT s)
                         else (res, s))
         in Some (if res = towrite then PTP_RC_OK else translate_gp_result_to_ptp res, s)))"

section \<open>Sending data\<close>

text \<open>
  The loop over blocks of up to 4096 bytes, with fuel. The handler may give fewer bytes than asked
  for and the port may take fewer than given; only the latter count.
\<close>

fun senddata_loop ::
    "'d usb_env \<Rightarrow> nat \<Rightarrow> u64 \<Rightarrow> u64 \<Rightarrow> 'h PTPDataHandler \<Rightarrow> 'd usb_params
      \<Rightarrow> (u16 \<times> u64 \<times> 'h PTPDataHandler \<times> 'd usb_params) option" where
  "senddata_loop e 0 left written h s = None"
| "senddata_loop e (Suc fuel) left written h s =
     (if left = 0 then Some (PTP_RC_OK, written, h, s)
      else do {
        let toread = (if 4096 < left then 4096 else left);
        (ret, bs, h) \<leftarrow> handler_get h toread;
        if ret \<noteq> PTP_RC_OK then Some (ret, written, h, s)
        else
          (let (res, s) = usb_write e bs s in
           if res < 0 then Some (translate_gp_result_to_ptp res, written, h, s)
           else senddata_loop e fuel (left - of_int res) (written + of_int res) h s)
      })"

definition senddata_finish ::
    "'d usb_env \<Rightarrow> u16 \<Rightarrow> u64 \<Rightarrow> 'd usb_params \<Rightarrow> (u16 \<times> 'd usb_params) option" where
  "senddata_finish e ret written s = do {
     s \<leftarrow> (if ret = PTP_RC_OK then
             (if pp_maxpacketsize s = 0 then None
              else if written mod ucast (pp_maxpacketsize s) = 0 then Some (snd (usb_write e [] s))
              else Some s)
           else Some s);
     Some (if ret \<noteq> PTP_RC_OK \<and> ret \<noteq> PTP_ERROR_CANCEL then PTP_ERROR_IO else ret, s)
   }"

definition ptp_usb_senddata ::
    "'d usb_env \<Rightarrow> nat \<Rightarrow> 'd usb_params \<Rightarrow> PTPContainer \<Rightarrow> u64 \<Rightarrow> 'h PTPDataHandler
      \<Rightarrow> (u16 \<times> 'h PTPDataHandler \<times> 'd usb_params) option" where
  "ptp_usb_senddata e fuel s ptp size' h = do {
     let hdr = bulk_header (12 + ucast size') PTP_USB_CONTAINER_DATA (pc_Code ptp) (pc_Transaction_ID ptp);
     let datawlen = (if pp_split_header_data s then 0 else if size' < 1012 then size' else 1012 :: u64);
     (ret, bs, h) \<leftarrow> (if pp_split_header_data s then Some (PTP_RC_OK, [], h) else handler_get h datawlen);
     if ret \<noteq> PTP_RC_OK then Some (ret, h, s)
     else if length bs \<noteq> unat datawlen then Some (PTP_RC_GeneralError, h, s)
     else
       (let wlen = 12 + int (length bs); (res, s) = usb_write e (hdr @ bs) s in
        if res \<noteq> wlen then Some (translate_gp_result_to_ptp res, h, s)
        else if size' \<le> datawlen then do {
          (ret, s) \<leftarrow> senddata_finish e PTP_RC_OK (of_int wlen) s;
          Some (ret, h, s)
        }
        else if \<not> pp_alloc s 4096 then Some (PTP_RC_GeneralError, h, s)
        else do {
          (ret, written, h, s) \<leftarrow> senddata_loop e fuel (size' - datawlen) 0 h s;
          (ret, s) \<leftarrow> senddata_finish e ret written s;
          Some (ret, h, s)
        })
   }"

section \<open>Receiving packets\<close>

text \<open>
  \<open>ptp_usb_getpacket\<close>: the packet buffer after the call and \<open>*rlen\<close>, which is set on success
  only. A read of 0 bytes is done again; two of them in a row are reported as a success that leaves
  \<open>*rlen\<close> as it was. What is read goes to the front of the buffer.
\<close>

definition into_packet :: "byte list \<Rightarrow> byte list \<Rightarrow> byte list option" where
  "into_packet packet bs = wr packet 0 bs"

fun read_packet ::
    "'d usb_env \<Rightarrow> nat \<Rightarrow> 'd usb_params \<Rightarrow> byte list \<Rightarrow> u32 option
      \<Rightarrow> (u16 \<times> byte list \<times> u32 option \<times> 'd usb_params) option" where
  "read_packet e tries s packet rlen = do {
     let maxsize = int (length packet);
     let (result, bs, s) = usb_read e maxsize s;
     packet \<leftarrow> into_packet packet bs;
     (result, packet, s) \<leftarrow>
       (if result = 0
        then (let (result, bs, s) = usb_read e maxsize s
              in do { packet \<leftarrow> into_packet packet bs; Some (result, packet, s) })
        else Some (result, packet, s));
     if 0 < result then Some (PTP_RC_OK, packet, Some (of_int result), s)
     else if result = GP_ERROR_IO_READ then
       (let s = usb_clear_halt e GP_PORT_USB_ENDPOINT_IN s in
        case tries of
          0 \<Rightarrow> Some (translate_gp_result_to_ptp result, packet, rlen, s)
        | Suc tries \<Rightarrow> read_packet e tries s packet rlen)
     else Some (translate_gp_result_to_ptp result, packet, rlen, s)
   }"

declare read_packet.simps [simp del]

definition ptp_usb_getpacket ::
    "'d usb_env \<Rightarrow> 'd usb_params \<Rightarrow> byte list \<Rightarrow> u32 option
      \<Rightarrow> (u16 \<times> byte list \<times> u32 option \<times> 'd usb_params) option" where
  "ptp_usb_getpacket e s packet rlen =
     (if pp_response_packet s \<noteq> [] then
        (let resp = take (length packet) (pp_response_packet s)
         in do {
           packet \<leftarrow> into_packet packet resp;
           Some (PTP_RC_OK, packet, Some (of_nat (length resp)), s\<lparr>pp_response_packet := []\<rparr>)
         })
      else read_packet e 1 s packet rlen)"

text \<open>The fields of a bulk container; the host is little endian, as the protocol is.\<close>

abbreviation bulk_length :: "byte list \<Rightarrow> u32" where "bulk_length d \<equiv> le32 d 0"
abbreviation bulk_type :: "byte list \<Rightarrow> u16" where "bulk_type d \<equiv> le16 d 4"
abbreviation bulk_code :: "byte list \<Rightarrow> u16" where "bulk_code d \<equiv> le16 d 6"
abbreviation bulk_trans_id :: "byte list \<Rightarrow> u32" where "bulk_trans_id d \<equiv> le32 d 8"

definition MTP_ZEN_BROKEN_HEADER :: "'p PTPParams \<Rightarrow> bool" where
  "MTP_ZEN_BROKEN_HEADER s \<longleftrightarrow> pp_device_flags s AND 0x80 \<noteq> 0"

section \<open>Receiving data\<close>

abbreviation READLEN :: u64 where "READLEN \<equiv> 524288"

text \<open>How much the next read asks for; a packet size of 0 divides by zero.\<close>

definition chunk_to_read :: "u16 \<Rightarrow> u32 \<Rightarrow> u64 option" where
  "chunk_to_read maxpacketsize bytes_to_read =
     (let c = ucast bytes_to_read; m = ucast maxpacketsize in
      if READLEN < c then Some READLEN
      else if m < c then (if m = 0 then None else Some (c - c mod m))
      else Some c)"

text \<open>A packet that came late is drained; the number of bytes read is not used afterwards.\<close>

fun drain_loop :: "'d usb_env \<Rightarrow> nat \<Rightarrow> u32 \<Rightarrow> 'd usb_params \<Rightarrow> 'd usb_params option" where
  "drain_loop e 0 left s = None"
| "drain_loop e (Suc fuel) left s =
     (if left = 0 then Some s
      else do {
        chunk \<leftarrow> chunk_to_read (pp_maxpacketsize s) left;
        let (res, bs, s) = usb_read e (int (unat chunk)) s;
        if res \<le> 0 then Some s else drain_loop e fuel (left - of_int res) s
      })"

text \<open>
  The loop over the rest of the data, with fuel. A length of \<open>0xffffffff\<close> in the header means that
  the data ends with a short packet.
\<close>

fun getdata_loop ::
    "'d usb_env \<Rightarrow> nat \<Rightarrow> u32 \<Rightarrow> u32 \<Rightarrow> u32 \<Rightarrow> bool \<Rightarrow> 'h PTPDataHandler \<Rightarrow> 'd usb_params
      \<Rightarrow> (u16 \<times> 'h PTPDataHandler \<times> 'd usb_params) option" where
  "getdata_loop e 0 len left bytes_read do_retry h s = None"
| "getdata_loop e (Suc fuel) len left bytes_read do_retry h s =
     (if left = 0 then Some (PTP_RC_OK, h, s)
      else do {
        chunk \<leftarrow> (if len = 0xffffffff then Some 512 else chunk_to_read (pp_maxpacketsize s) left);
        let (res, bs, s) = usb_read e (int (unat chunk)) s;
        if res = GP_ERROR_IO_READ \<and> do_retry then
          getdata_loop e fuel len left bytes_read False h (usb_clear_halt e GP_PORT_USB_ENDPOINT_IN s)
        else if res \<le> 0 then Some (translate_gp_result_to_ptp res, h, s)
        else do {
          (ret, h) \<leftarrow> handler_put h (of_int res) bs;
          if ret \<noteq> PTP_RC_OK then Some (ret, h, s)
          else
            (let left = (if len = 0xffffffff then (if res < 512 then 0 else left) else left - of_int res);
                 bytes_read = bytes_read + of_int res;
                 (cancelled, s) = (if 1048576 \<le> bytes_read then usb_cancelled e s else (False, s))
             in if cancelled then Some (PTP_ERROR_CANCEL, h, s)
                else getdata_loop e fuel len left bytes_read False h s)
        }
      })"

text \<open>The end of \<open>ptp_usb_getdata\<close>: every error but a cancellation becomes \<open>PTP_ERROR_IO\<close>.\<close>

definition getdata_exit :: "u16 \<Rightarrow> u16" where
  "getdata_exit ret = (if ret \<noteq> PTP_RC_OK \<and> ret \<noteq> PTP_ERROR_CANCEL then PTP_ERROR_IO else ret)"

text \<open>
  A data packet whose header has been accepted: bytes behind its end are kept as the response, the
  payload is put away, and what is missing is read. With fewer than 12 bytes announced, the length
  of the payload wraps around.
\<close>

definition getdata_payload ::
    "'d usb_env \<Rightarrow> nat \<Rightarrow> 'd usb_params \<Rightarrow> byte list \<Rightarrow> u32 \<Rightarrow> 'h PTPDataHandler
      \<Rightarrow> (u16 \<times> 'h PTPDataHandler \<times> 'd usb_params) option" where
  "getdata_payload e fuel s usbdata bytes_read h =
     (let len = bulk_length usbdata;
          surplen = bytes_read - len;
          surplus = len < bytes_read \<and> 12 \<le> surplen in
      if surplus \<and> \<not> pp_alloc s (unat surplen) then Some (PTP_RC_GeneralError, h, s)
      else do {
        let s = (if surplus then s\<lparr>pp_response_packet := take (unat surplen) (drop (unat len) usbdata)\<rparr> else s);
        let bytes_read = (if len < bytes_read then len else bytes_read);
        let s = (if 12 < len \<and> bytes_read = 12 then s\<lparr>pp_split_header_data := True\<rparr> else s);
        (ret, h) \<leftarrow> handler_put h (ucast bytes_read - 12) (drop 12 usbdata);
        if ret \<noteq> PTP_RC_OK then Some (getdata_exit ret, h, s)
        else if len \<le> bytes_read then Some (PTP_RC_OK, h, s)
        else if \<not> pp_alloc s (unat READLEN) then Some (PTP_RC_GeneralError, h, s)
        else do {
          (ret, h, s) \<leftarrow> getdata_loop e fuel len (len - bytes_read) (bytes_read - 12) True h s;
          Some (getdata_exit ret, h, s)
        }
      })"

definition ptp_usb_getdata ::
    "'d usb_env \<Rightarrow> nat \<Rightarrow> 'd usb_params \<Rightarrow> PTPContainer \<Rightarrow> 'h PTPDataHandler
      \<Rightarrow> (u16 \<times> 'h PTPDataHandler \<times> 'd usb_params) option" where
  "ptp_usb_getdata e fuel s ptp h = do {
     (ret, usbdata, rlen, s) \<leftarrow> ptp_usb_getpacket e s (replicate 1024 0) (Some 0);
     bytes_read \<leftarrow> rlen;
     if ret \<noteq> PTP_RC_OK then Some (getdata_exit ret, h, s)
     else if bytes_read < 12 then Some (PTP_ERROR_IO, h, s)
     else if bulk_type usbdata \<noteq> PTP_USB_CONTAINER_DATA then
       (if bulk_type usbdata = PTP_USB_CONTAINER_RESPONSE then
          (if bytes_read \<noteq> bulk_length usbdata then Some (PTP_ERROR_IO, h, s)
           else if 1024 < bulk_length usbdata then Some (PTP_ERROR_IO, h, s)
           else if \<not> pp_alloc s (unat (bulk_length usbdata)) then Some (PTP_RC_GeneralError, h, s)
           else Some (PTP_RC_OK, h, s\<lparr>pp_response_packet := take (unat (bulk_length usbdata)) usbdata\<rparr>))
        else Some (PTP_ERROR_IO, h, s))
     else if bulk_code usbdata \<noteq> pc_Code ptp \<and> \<not> MTP_ZEN_BROKEN_HEADER s then
       (if bulk_length usbdata \<le> bytes_read then Some (PTP_ERROR_IO, h, s)
        else if \<not> pp_alloc s (unat READLEN) then Some (PTP_ERROR_IO, h, s)
        else do {
          s \<leftarrow> drain_loop e fuel (bulk_length usbdata - bytes_read) s;
          Some (PTP_ERROR_IO, h, s)
        })
     else getdata_payload e fuel s usbdata bytes_read h
   }"

section \<open>Responses\<close>

text \<open>
  \<open>ptp_usb_getresp\<close>. The length of the packet is not initialised by the caller; reading it when
  \<open>ptp_usb_getpacket\<close> has not set it is undefined. A response code other than the one in the
  container, and other than \<open>PTP_RC_OK\<close>, ends the function before the container is filled in.
\<close>

definition ptp_usb_getresp ::
    "'d usb_env \<Rightarrow> 'd usb_params \<Rightarrow> PTPContainer \<Rightarrow> (u16 \<times> PTPContainer \<times> 'd usb_params) option" where
  "ptp_usb_getresp e s resp = do {
     (ret, usbresp, rlen, s) \<leftarrow> ptp_usb_getpacket e s (replicate 1024 0) None;
     if ret \<noteq> PTP_RC_OK then Some (PTP_ERROR_IO, resp, s)
     else do {
       rlen \<leftarrow> rlen;
       let ret = (if rlen < 12 then PTP_ERROR_IO
                  else if rlen \<noteq> bulk_length usbresp then PTP_ERROR_IO
                  else if bulk_type usbresp \<noteq> PTP_USB_CONTAINER_RESPONSE then PTP_ERROR_RESP_EXPECTED
                  else if bulk_code usbresp \<noteq> pc_Code resp then bulk_code usbresp
                  else PTP_RC_OK);
       if ret \<noteq> PTP_RC_OK then Some (ret, resp, s)
       else
         (let tid = bulk_trans_id usbresp;
              tid = (if tid \<noteq> pp_transaction_id s - 1 \<and> MTP_ZEN_BROKEN_HEADER s
                     then pp_transaction_id s - 1 else tid)
          in Some (PTP_RC_OK,
               \<lparr>pc_Code = bulk_code usbresp, pc_SessionID = pp_session_id s, pc_Transaction_ID = tid,
                pc_Param1 = le32 usbresp 12, pc_Param2 = le32 usbresp 16, pc_Param3 = le32 usbresp 20,
                pc_Param4 = le32 usbresp 24, pc_Param5 = le32 usbresp 28,
                pc_Nparam = ucast ((rlen - 12) div 4)\<rparr>, s))
     }
   }"

section \<open>Events\<close>

text \<open>\<open>gp_port_check_int\<close> with a destination inside the event structure of 24 bytes.\<close>

definition check_int_at ::
    "'d usb_env \<Rightarrow> nat \<Rightarrow> byte list \<Rightarrow> 'd usb_params \<Rightarrow> (int \<times> byte list \<times> 'd usb_params) option" where
  "check_int_at e i ev s =
     (let (r, bs, p) = gp_port_check_int (ue_ops e) (int (length ev - i)) (pp_io s)
      in do { ev \<leftarrow> wr ev i bs; Some (r, ev, s\<lparr>pp_io := p\<rparr>) })"

definition usb_set_timeout :: "int \<Rightarrow> 'd usb_params \<Rightarrow> 'd usb_params" where
  "usb_set_timeout t s = s\<lparr>pp_io := snd (gp_port_set_timeout t (pp_io s))\<rparr>"

lemma wr_length: "wr d i bs = Some d' \<Longrightarrow> length d' = length d"
  by (auto simp: wr_def split: if_splits)

lemma check_int_at_length: "check_int_at e i ev s = Some (r, ev', s') \<Longrightarrow> length ev' = length ev"
  by (auto simp: check_int_at_def bind_eq_Some_conv wr_length split: prod.splits)

text \<open>A Canon event that comes in pieces: reads go on until it is complete or one brings nothing.\<close>

function event_rest ::
    "'d usb_env \<Rightarrow> nat \<Rightarrow> byte list \<Rightarrow> 'd usb_params \<Rightarrow> (nat \<times> byte list \<times> 'd usb_params) option" where
  "event_rest e rlen ev s =
     (if unat (bulk_length ev) \<le> rlen then Some (rlen, ev, s)
      else case check_int_at e rlen ev s of
        None \<Rightarrow> None
      | Some (r, ev', s') \<Rightarrow>
          if r \<le> 0 then Some (rlen, ev', s')
          else if length ev < rlen + nat r then None
          else event_rest e (rlen + nat r) ev' s')"
  by pat_completeness auto
termination
  by (relation "measure (\<lambda>(e, rlen, ev, s). length ev - rlen)")
    (auto dest!: check_int_at_length)

declare event_rest.simps [simp del]

datatype event_wait = PTP_EVENT_CHECK | PTP_EVENT_CHECK_FAST | PTP_EVENT_CHECK_QUEUE

abbreviation PTP2_FAST_TIMEOUT :: int where "PTP2_FAST_TIMEOUT \<equiv> 150"
abbreviation PTP_VENDOR_CANON :: u32 where "PTP_VENDOR_CANON \<equiv> 0xB"
abbreviation PTP_VENDOR_NIKON :: u32 where "PTP_VENDOR_NIKON \<equiv> 0xA"

text \<open>The first read of an event, done again when it brings nothing, except on a look at the queue.\<close>

definition event_first ::
    "'d usb_env \<Rightarrow> event_wait \<Rightarrow> byte list \<Rightarrow> 'd usb_params \<Rightarrow> (int \<times> byte list \<times> 'd usb_params) option" where
  "event_first e w ev s =
     (let timeout = snd (gp_port_get_timeout (pp_io s));
          fast = (if di_VendorExtensionID (pp_deviceinfo s) = PTP_VENDOR_CANON
                  then PTP2_FAST_TIMEOUT * 2 else PTP2_FAST_TIMEOUT);
          twice = (\<lambda>s. do {
            (r, ev, s) \<leftarrow> check_int_at e 0 ev s;
            if r \<le> 0 then check_int_at e 0 ev s else Some (r, ev, s)
          })
      in case w of
           PTP_EVENT_CHECK \<Rightarrow> twice s
         | PTP_EVENT_CHECK_FAST \<Rightarrow> do {
             (r, ev, s) \<leftarrow> twice (usb_set_timeout fast s);
             Some (r, ev, usb_set_timeout timeout s)
           }
         | PTP_EVENT_CHECK_QUEUE \<Rightarrow> do {
             (r, ev, s) \<leftarrow> check_int_at e 0 ev (usb_set_timeout 0 s);
             Some (r, ev, usb_set_timeout timeout s)
           })"

text \<open>
  \<open>ptp_usb_event\<close>; the fourth and fifth parameter of the caller's container are kept. The number
  of parameters is computed in the 64 bits of \<open>unsigned long\<close>.
\<close>

definition ptp_usb_event ::
    "'d usb_env \<Rightarrow> 'd usb_params \<Rightarrow> PTPContainer option \<Rightarrow> event_wait
      \<Rightarrow> (u16 \<times> PTPContainer option \<times> 'd usb_params) option" where
  "ptp_usb_event e s event w =
     (case event of
        None \<Rightarrow> Some (PTP_ERROR_BADPARAM, None, s)
      | Some ec \<Rightarrow> do {
          (result, ev, s) \<leftarrow> event_first e w (replicate 24 0) s;
          if result < 0 then Some (translate_gp_result_to_ptp result, event, s)
          else if result = 0 then Some (PTP_ERROR_TIMEOUT, event, s)
          else if result < 8 then Some (PTP_ERROR_IO, event, s)
          else do {
            (rlen, ev, s) \<leftarrow>
              (if bulk_type ev = PTP_USB_CONTAINER_EVENT \<and> result < int (unat (bulk_length ev)) then
                 (let timeout = snd (gp_port_get_timeout (pp_io s)) in do {
                    (rlen, ev, s) \<leftarrow> event_rest e (nat result) ev (usb_set_timeout PTP2_FAST_TIMEOUT s);
                    Some (rlen, ev, usb_set_timeout timeout s)
                  })
               else Some (nat result, ev, s));
            Some (PTP_RC_OK, Some (ec\<lparr>pc_Nparam := ucast ((of_nat rlen - 12 :: u64) div 4),
              pc_Code := bulk_code ev, pc_SessionID := pp_session_id s,
              pc_Transaction_ID := bulk_trans_id ev,
              pc_Param1 := le32 ev 12, pc_Param2 := le32 ev 16, pc_Param3 := le32 ev 20\<rparr>), s)
          }
        })"

definition ptp_usb_event_check_queue where
  "ptp_usb_event_check_queue e s event = ptp_usb_event e s event PTP_EVENT_CHECK_QUEUE"

definition ptp_usb_event_check where
  "ptp_usb_event_check e s event = ptp_usb_event e s event PTP_EVENT_CHECK_FAST"

definition ptp_usb_event_wait where
  "ptp_usb_event_wait e s event = ptp_usb_event e s event PTP_EVENT_CHECK"

section \<open>Control requests\<close>

text \<open>The interface in the port's settings is read from the union as the one of a USB port.\<close>

definition usb_interface :: "'d usb_params \<Rightarrow> int option" where
  "usb_interface s =
     (case snd (gp_port_get_settings (pp_io s)) of
        SettingsUSB _ _ _ _ i _ _ _ \<Rightarrow> Some i
      | _ \<Rightarrow> None)"

definition control_read ::
    "'d usb_env \<Rightarrow> int \<Rightarrow> 'd usb_params \<Rightarrow> int \<Rightarrow> (u16 \<times> byte list \<times> int \<times> 'd usb_params) option" where
  "control_read e request s size' = do {
     i \<leftarrow> usb_interface s;
     let (ret, bs, p) = gp_port_usb_msg_class_read (ue_ops e) request 0 i size' (pp_io s);
     Some (if ret < GP_OK then (PTP_ERROR_IO, bs, size', s\<lparr>pp_io := p\<rparr>)
           else (PTP_RC_OK, bs, ret, s\<lparr>pp_io := p\<rparr>))
   }"

definition control_write ::
    "'d usb_env \<Rightarrow> int \<Rightarrow> byte list \<Rightarrow> 'd usb_params \<Rightarrow> (u16 \<times> 'd usb_params) option" where
  "control_write e request bs s = do {
     i \<leftarrow> usb_interface s;
     let (ret, p) = gp_port_usb_msg_class_write (ue_ops e) request 0 i bs (pp_io s);
     Some (if ret < GP_OK then PTP_ERROR_IO else PTP_RC_OK, s\<lparr>pp_io := p\<rparr>)
   }"

definition ptp_usb_control_get_extended_event_data where
  "ptp_usb_control_get_extended_event_data e s size' = control_read e 0x65 s size'"

definition ptp_usb_control_device_reset_request where
  "ptp_usb_control_device_reset_request e s = control_write e 0x66 [] s"

definition ptp_usb_control_get_device_status where
  "ptp_usb_control_get_device_status e s size' = control_read e 0x67 s size'"

definition ptp_usb_control_cancel_request :: "'d usb_env \<Rightarrow> 'd usb_params \<Rightarrow> u32 \<Rightarrow> (u16 \<times> 'd usb_params) option" where
  "ptp_usb_control_cancel_request e s transactionid =
     control_write e 0x64 (put16 0x4001 @ put32 transactionid) s"

section \<open>The transport\<close>

definition usb_io :: "'d usb_env \<Rightarrow> nat \<Rightarrow> ('d GPPort, 'h) ptp_io" where
  "usb_io e fuel = \<lparr>io_sendreq = ptp_usb_sendreq e, io_senddata = ptp_usb_senddata e fuel,
     io_getdata = ptp_usb_getdata e fuel, io_getresp = ptp_usb_getresp e,
     io_cancelreq = ptp_usb_control_cancel_request e\<rparr>"

section \<open>The connection's numbers are kept\<close>

lemma usb_write_ids: "usb_write e bs s = (r, s') \<Longrightarrow> same_ids s s'"
  by (auto simp: usb_write_def same_ids_def split: prod.splits)

lemma usb_read_ids: "usb_read e n s = (r, bs, s') \<Longrightarrow> same_ids s s'"
  by (auto simp: usb_read_def same_ids_def split: prod.splits)

lemma usb_misc_ids [simp]: "same_ids s (usb_clear_halt e ep s')  \<longleftrightarrow> same_ids s s'"
  "same_ids s (s'\<lparr>pp_response_packet := r\<rparr>) \<longleftrightarrow> same_ids s s'" "same_ids s (s'\<lparr>pp_split_header_data := b\<rparr>) \<longleftrightarrow> same_ids s s'"
  "same_ids s (usb_set_timeout t s') \<longleftrightarrow> same_ids s s'" "same_ids s (s'\<lparr>pp_io := x\<rparr>) \<longleftrightarrow> same_ids s s'"
  by (auto simp: usb_clear_halt_def same_ids_def usb_set_timeout_def)

lemma usb_cancelled_ids: "usb_cancelled e s = (c, s') \<Longrightarrow> same_ids s s'"
  by (auto simp: usb_cancelled_def same_ids_def split: prod.splits)

lemma same_ids_from: "same_ids s1 s2 \<Longrightarrow> same_ids s0 s1 \<longleftrightarrow> same_ids s0 s2"
  by (auto simp: same_ids_def)

lemma same_ids_clear: "same_ids (usb_clear_halt e ep s) s' \<longleftrightarrow> same_ids s s'"
  "same_ids (s\<lparr>pp_response_packet := r\<rparr>) s' \<longleftrightarrow> same_ids s s'"
  "same_ids (s\<lparr>pp_split_header_data := b\<rparr>) s' \<longleftrightarrow> same_ids s s'"
  by (auto simp: same_ids_def usb_clear_halt_def)

lemma ptp_usb_sendreq_ids: "ptp_usb_sendreq e s c f = Some (r, s') \<Longrightarrow> same_ids s s'"
  by (auto simp: ptp_usb_sendreq_def Let_def same_ids_clear dest!: usb_write_ids intro: same_ids_trans split: prod.splits if_splits)

lemma senddata_loop_ids: "senddata_loop e fuel left written h s = Some (r, w, h', s') \<Longrightarrow> same_ids s s'"
proof (induction fuel arbitrary: left written h s)
  case (Suc fuel)
  then show ?case
    by (auto simp: Let_def bind_eq_Some_conv dest!: usb_write_ids intro: same_ids_trans split: prod.splits if_splits)
qed simp

lemma senddata_finish_ids: "senddata_finish e ret w s = Some (r, s') \<Longrightarrow> same_ids s s'"
  by (auto simp: senddata_finish_def bind_eq_Some_conv split: if_splits prod.splits)
    (metis usb_write_ids prod.collapse)+

lemma ptp_usb_senddata_ids: "ptp_usb_senddata e fuel s c n h = Some (r, h', s') \<Longrightarrow> same_ids s s'"
  by (auto simp: ptp_usb_senddata_def Let_def bind_eq_Some_conv
      dest!: usb_write_ids senddata_finish_ids senddata_loop_ids intro: same_ids_trans split: prod.splits if_splits)

lemma read_packet_ids: "read_packet e tries s packet rlen = Some (r, p', l, s') \<Longrightarrow> same_ids s s'"
proof (induction tries arbitrary: s packet)
  case 0
  then show ?case
    by (subst (asm) read_packet.simps)
      (auto simp: Let_def bind_eq_Some_conv dest!: usb_read_ids intro: same_ids_trans split: prod.splits if_splits)
next
  case (Suc tries)
  from Suc.prems show ?case
    by (subst (asm) read_packet.simps)
      (auto simp: Let_def bind_eq_Some_conv same_ids_clear dest!: usb_read_ids Suc.IH intro: same_ids_trans split: prod.splits if_splits)
qed

lemma ptp_usb_getpacket_ids: "ptp_usb_getpacket e s packet rlen = Some (r, p', l, s') \<Longrightarrow> same_ids s s'"
  by (auto simp: ptp_usb_getpacket_def bind_eq_Some_conv Let_def dest: read_packet_ids split: if_splits)

lemma drain_loop_ids: "drain_loop e fuel left s = Some s' \<Longrightarrow> same_ids s s'"
proof (induction fuel arbitrary: left s)
  case (Suc fuel)
  then show ?case
    by (auto simp: Let_def dest!: usb_read_ids intro: same_ids_trans
        split: prod.split_asm Option.bind_split_asm if_split_asm)
qed simp

lemma getdata_loop_ids: "getdata_loop e fuel len left rd retry h s = Some (r, h', s') \<Longrightarrow> same_ids s s'"
proof (induction fuel arbitrary: len left rd retry h s)
  case (Suc fuel)
  from Suc.prems show ?case
    by (auto simp: Let_def same_ids_clear dest!: usb_read_ids usb_cancelled_ids Suc.IH
        intro: same_ids_trans split: prod.split_asm Option.bind_split_asm if_split_asm)
qed simp

lemma getdata_payload_ids: "getdata_payload e fuel s d n h = Some (r, h', s') \<Longrightarrow> same_ids s s'"
  unfolding getdata_payload_def Let_def
  by (auto simp: same_ids_clear dest!: getdata_loop_ids
      split: prod.split_asm Option.bind_split_asm if_split_asm)

lemma ptp_usb_getdata_ids: "ptp_usb_getdata e fuel s c h = Some (r, h', s') \<Longrightarrow> same_ids s s'"
  unfolding ptp_usb_getdata_def
  by (auto dest!: ptp_usb_getpacket_ids getdata_payload_ids drain_loop_ids intro: same_ids_trans
      split: prod.split_asm Option.bind_split_asm if_split_asm)

lemma ptp_usb_getresp_ids: "ptp_usb_getresp e s c = Some (r, c', s') \<Longrightarrow> same_ids s s'"
  by (auto simp: ptp_usb_getresp_def Let_def bind_eq_Some_conv dest!: ptp_usb_getpacket_ids split: if_splits)

lemma cancel_request_ids: "ptp_usb_control_cancel_request e s t = Some (r, s') \<Longrightarrow> same_ids s s'"
  by (auto simp: ptp_usb_control_cancel_request_def control_write_def Let_def split: prod.split_asm Option.bind_split_asm if_split_asm)

interpretation usb: transport "usb_io e fuel" for e :: "'d usb_env" and fuel
  by unfold_locales
    (simp_all add: usb_io_def ptp_usb_sendreq_ids ptp_usb_senddata_ids ptp_usb_getdata_ids ptp_usb_getresp_ids cancel_request_ids)

interpretation usb_mem: mem_transport "usb_io e fuel" for e :: "'d usb_env" and fuel
  by unfold_locales

section \<open>A device that answers\<close>

text \<open>
  The device at the other end of the port for the theorems below: its transfers in the order in
  which it sends them, each handed out by as many reads as it takes, and what has been written to it.
\<close>

record bulk_dev =
  bd_in :: "byte list list"
  bd_out :: "byte list list"

definition bulk_read :: "int \<Rightarrow> bulk_dev GPPort \<Rightarrow> int \<times> byte list \<times> bulk_dev GPPort" where
  "bulk_read n p =
     (case bd_in (gp_dev p) of
        [] \<Rightarrow> (GP_ERROR_TIMEOUT, [], p)
      | t # ts \<Rightarrow>
          (int (length (take (nat n) t)), take (nat n) t,
           p\<lparr>gp_dev := (gp_dev p)\<lparr>bd_in := (if nat n < length t then drop (nat n) t # ts else ts)\<rparr>\<rparr>))"

definition bulk_write :: "byte list \<Rightarrow> bulk_dev GPPort \<Rightarrow> int \<times> bulk_dev GPPort" where
  "bulk_write bs p = (int (length bs), p\<lparr>gp_dev := (gp_dev p)\<lparr>bd_out := bd_out (gp_dev p) @ [bs]\<rparr>\<rparr>)"

definition bulk_ops :: "bulk_dev port_ops" where
  "bulk_ops = \<lparr>op_open = None, op_close = None, op_read = Some bulk_read, op_check_int = None,
     op_write = Some bulk_write, op_update = None, op_get_pin = None, op_set_pin = None, op_send_break = None,
     op_flush = None, op_find_device = None, op_find_device_by_class = None, op_clear_halt = None,
     op_msg_write = None, op_msg_read = None, op_msg_interface_write = None, op_msg_interface_read = None,
     op_msg_class_write = None, op_msg_class_read = None, op_seek = None, op_reset = None\<rparr>"

definition bulk_env :: "bulk_dev usb_env" where
  "bulk_env = \<lparr>ue_ops = Some bulk_ops, ue_cancel = (\<lambda>d. (False, d))\<rparr>"

text \<open>The connection with other transfers to come, and with one more written.\<close>

definition feed :: "bulk_dev usb_params \<Rightarrow> byte list list \<Rightarrow> bulk_dev usb_params" where
  "feed s ps = s\<lparr>pp_io := (pp_io s)\<lparr>gp_dev := (gp_dev (pp_io s))\<lparr>bd_in := ps\<rparr>\<rparr>\<rparr>"

definition sent :: "bulk_dev usb_params \<Rightarrow> byte list \<Rightarrow> bulk_dev usb_params" where
  "sent s bs = s\<lparr>pp_io := (pp_io s)\<lparr>gp_dev := (gp_dev (pp_io s))\<lparr>bd_out := bd_out (gp_dev (pp_io s)) @ [bs]\<rparr>\<rparr>\<rparr>"

lemma usb_read_feed [simp]:
  "usb_read bulk_env n (feed s (t # ts)) =
     (int (length (take (nat n) t)), take (nat n) t, feed s (if nat n < length t then drop (nat n) t # ts else ts))"
  by (simp add: usb_read_def bulk_env_def bulk_ops_def bulk_read_def feed_def)

lemma usb_write_feed [simp]:
  "usb_write bulk_env bs (feed s ts) = (int (length bs), feed (sent s bs) ts)"
  by (simp add: usb_write_def bulk_env_def bulk_ops_def bulk_write_def feed_def sent_def)

lemma usb_cancelled_feed [simp]: "usb_cancelled bulk_env s = (False, s)"
  by (simp add: usb_cancelled_def bulk_env_def)

lemma feed_simps [simp]:
  "pp_maxpacketsize (feed s ts) = pp_maxpacketsize s" "pp_alloc (feed s ts) = pp_alloc s"
  "pp_response_packet (feed s ts) = pp_response_packet s" "pp_device_flags (feed s ts) = pp_device_flags s"
  "pp_transaction_id (feed s ts) = pp_transaction_id s" "pp_session_id (feed s ts) = pp_session_id s"
  "(feed s ts)\<lparr>pp_transaction_id := t\<rparr> = feed (s\<lparr>pp_transaction_id := t\<rparr>) ts"
  "(feed s ts)\<lparr>pp_split_header_data := b\<rparr> = feed (s\<lparr>pp_split_header_data := b\<rparr>) ts"
  "feed (feed s ts) us = feed s us" "pp_junk (feed s ts) = pp_junk s"
  by (simp_all add: feed_def)

lemma sent_simps [simp]:
  "pp_maxpacketsize (sent s b) = pp_maxpacketsize s" "pp_alloc (sent s b) = pp_alloc s"
  "pp_response_packet (sent s b) = pp_response_packet s" "pp_device_flags (sent s b) = pp_device_flags s"
  "pp_transaction_id (sent s b) = pp_transaction_id s" "pp_session_id (sent s b) = pp_session_id s"
  by (simp_all add: sent_def)

lemma chunk_to_read_bounds:
  assumes "m \<noteq> 0" "left \<noteq> 0"
  obtains c where "chunk_to_read m left = Some c" "0 < unat c" "unat c \<le> unat left"
proof -
  define C :: u64 where "C = ucast left"
  define M :: u64 where "M = ucast m"
  have uC: "unat C = unat left" by (simp add: C_def unsigned_ucast_eq take_bit_nat_eq_self less_trans [OF unsigned_less [of left]])
  have uM: "unat M = unat m" by (simp add: M_def unsigned_ucast_eq take_bit_nat_eq_self less_trans [OF unsigned_less [of m]])
  have pos: "0 < unat left" "0 < unat m" using assms by (simp_all add: unat_gt_0)
  have "unat (C mod M) = unat left mod unat m" by (simp add: unat_mod uC uM)
  moreover have "C mod M \<le> C" by (simp add: word_le_nat_alt unat_mod)
  ultimately have sub: "unat (C - C mod M) = unat left - unat left mod unat m" by (simp add: unat_sub uC)
  consider "READLEN < C" | "\<not> READLEN < C" "M < C" | "\<not> READLEN < C" "\<not> M < C" by blast
  then show thesis
  proof cases
    case 1
    then show thesis using that [of READLEN] uC
      by (simp add: chunk_to_read_def C_def [symmetric] M_def [symmetric] word_less_nat_alt)
  next
    case 2
    then have "unat m < unat left" by (simp add: word_less_nat_alt uC uM)
    then have "0 < unat left - unat left mod unat m" using pos by (metis mod_less_divisor less_trans zero_less_diff)
    then show thesis using that [of "C - C mod M"] 2 pos sub uM
      by (simp add: chunk_to_read_def C_def [symmetric] M_def [symmetric]) (metis unat_0 less_irrefl)
  next
    case 3
    then show thesis using that [of C] uC pos by (simp add: chunk_to_read_def C_def [symmetric] M_def [symmetric])
  qed
qed

lemma concat_pieces_cases:
  assumes "concat ps \<noteq> []" "[] \<notin> set ps"
  obtains p qs where "ps = p # qs" "p \<noteq> []" "length p \<le> length (concat ps)"
  using assms by (cases ps) auto

context byte_sink
begin

text \<open>
  Whatever pieces the device sends its bytes in, the loop puts them away and goes on behind them.
\<close>

lemma getdata_loop_advances:
  assumes "sinks h cap" "concat ps = body" "[] \<notin> set ps" "len \<noteq> 0xffffffff"
    and "length body \<le> unat left" "length body \<le> cap" "pp_maxpacketsize s \<noteq> 0" "length body < fuel"
  shows "\<exists>h' f rd b. getdata_loop bulk_env fuel len left bytes_read do_retry h (feed s (ps @ rest))
      = getdata_loop bulk_env f len (left - of_nat (length body)) rd b h' (feed s rest)
    \<and> stored (dh_priv h') = stored (dh_priv h) @ body \<and> sinks h' (cap - length body) \<and> 0 < f"
  using assms
proof (induction fuel arbitrary: h cap body ps left bytes_read do_retry)
  case (Suc fuel)
  show ?case
  proof (cases "body = []")
    case True
    then have "ps = []" using Suc.prems(2,3) by (cases ps) auto
    then show ?thesis using True Suc.prems(1)
      by (intro exI [of _ h] exI [of _ "Suc fuel"] exI [of _ bytes_read] exI [of _ do_retry]) simp
  next
    case False
    then have l0: "left \<noteq> 0" using Suc.prems(5) by auto
    obtain c where c: "chunk_to_read (pp_maxpacketsize s) left = Some c" "0 < unat c" "unat c \<le> unat left"
      using chunk_to_read_bounds [OF Suc.prems(7) l0] by metis
    obtain p qs where p: "ps = p # qs" "p \<noteq> []" "length p \<le> length body"
      using concat_pieces_cases [of ps] Suc.prems(2,3) False by metis
    define k where "k = length (take (unat c) p)"
    define ps' where "ps' = (if unat c < length p then drop (unat c) p # qs else qs)"
    have k: "0 < k" "k \<le> length body" "take k p = take (unat c) p" using c p by (auto simp: k_def min_def)
    have ps': "concat ps' = drop k body" "[] \<notin> set ps'"
      using Suc.prems(2,3) p by (auto simp: ps'_def k_def)
    have tk: "take (unat c) p = take k body" using p Suc.prems(2) by (auto simp: k_def min_def)
    obtain h1 where h1: "handler_put h (of_nat k) (take (unat c) p) = Some (PTP_RC_OK, h1)"
      "stored (dh_priv h1) = stored (dh_priv h) @ take k body" "sinks h1 (cap - k)"
    proof -
      have "k \<le> length (take (unat c) p)" by (simp add: k_def)
      moreover have "take k (take (unat c) p) = take k body"
        unfolding tk [symmetric] by (rule take_all) (simp add: k_def)
      moreover have "k \<le> cap" using k(2) Suc.prems(6) by simp
      ultimately show thesis using handler_put_sinks [OF Suc.prems(1), of k "take (unat c) p"] that by metis
    qed
    have ul: "unat (left - of_nat k) = unat left - k"
    proof -
      have "unat (of_nat k :: u32) = k"
        using k(2) Suc.prems(5) unsigned_less [of left, where ?'a = nat] by (intro unat_of_nat_u32) simp
      then show ?thesis using k(2) Suc.prems(5) by (simp add: unat_sub word_le_nat_alt)
    qed
    have le: "length (drop k body) \<le> unat (left - of_nat k)" "length (drop k body) \<le> cap - k" "length (drop k body) < fuel"
      using Suc.prems(5,6,8) k ul by auto
    obtain h' f rd b where h': "getdata_loop bulk_env fuel len (left - of_nat k) (bytes_read + of_nat k) False h1 (feed s (ps' @ rest))
        = getdata_loop bulk_env f len (left - of_nat k - of_nat (length (drop k body))) rd b h' (feed s rest)"
      "stored (dh_priv h') = stored (dh_priv h1) @ drop k body" "sinks h' (cap - k - length (drop k body))" "0 < f"
      using Suc.IH [OF h1(3) ps'(1,2) Suc.prems(4) le(1,2) Suc.prems(7) le(3), of "bytes_read + of_nat k" False] by blast
    have lb: "left - of_nat k - of_nat (length (drop k body)) = left - of_nat (length body)"
      using k(2) by (simp add: of_nat_diff)
    have rd: "usb_read bulk_env (int (unat c)) (feed s (ps @ rest)) = (int k, take (unat c) p, feed s (ps' @ rest))"
      by (simp add: p(1) k_def ps'_def)
    have "getdata_loop bulk_env (Suc fuel) len left bytes_read do_retry h (feed s (ps @ rest))
        = getdata_loop bulk_env f len (left - of_nat (length body)) rd b h' (feed s rest)"
      using l0 Suc.prems(4) c(1) k(1) rd h1(1) h'(1) unfolding lb by (auto simp: Let_def)
    then show ?thesis using h'(2,3,4) h1(2) k(2) by (intro exI [of _ h'] exI [of _ f] exI [of _ rd] exI [of _ b]) auto
  qed
qed simp

lemma getdata_loop_delivers:
  assumes "sinks h (length body)" "concat ps = body" "[] \<notin> set ps" "len \<noteq> 0xffffffff"
    and "unat left = length body" "pp_maxpacketsize s \<noteq> 0" "length body < fuel"
  shows "\<exists>h'. getdata_loop bulk_env fuel len left bytes_read do_retry h (feed s (ps @ rest)) = Some (PTP_RC_OK, h', feed s rest)
    \<and> stored (dh_priv h') = stored (dh_priv h) @ body \<and> sinks h' 0"
proof -
  have l: "length body \<le> unat left" "left - of_nat (length body) = 0"
    by (simp_all add: assms(5) [symmetric])
  from getdata_loop_advances [OF assms(1-4) l(1) le_refl assms(6,7), of bytes_read do_retry rest] l(2)
  obtain h' f rd b where h: "getdata_loop bulk_env fuel len left bytes_read do_retry h (feed s (ps @ rest))
      = getdata_loop bulk_env f len 0 rd b h' (feed s rest)"
    "stored (dh_priv h') = stored (dh_priv h) @ body" "sinks h' 0" "0 < f" by auto
  then show ?thesis by (cases f) auto
qed

end

lemma bulk_header_fields:
  "length (bulk_header len ty code tid) = 12"
  "bulk_length (bulk_header len ty code tid @ r) = len" "bulk_type (bulk_header len ty code tid @ r) = ty"
  "bulk_code (bulk_header len ty code tid @ r) = code" "bulk_trans_id (bulk_header len ty code tid @ r) = tid"
  by (simp_all add: bulk_header_def le_skip)

lemma bulk_fields_cong:
  assumes "take 12 d = take 12 (e :: byte list)"
  shows "bulk_length d = bulk_length e" "bulk_type d = bulk_type e" "bulk_code d = bulk_code e" "bulk_trans_id d = bulk_trans_id e"
  using le32_cong [OF assms, of 0] le16_cong [OF assms, of 4] le16_cong [OF assms, of 6] le32_cong [OF assms, of 8]
  by simp_all

lemma getpacket_feed:
  assumes "pp_response_packet s = []" "p \<noteq> []" "length pkt = 1024"
  shows "ptp_usb_getpacket bulk_env (feed s (p # ts)) pkt rl =
    Some (PTP_RC_OK, take 1024 p @ drop (min 1024 (length p)) pkt, Some (of_nat (min 1024 (length p))),
      feed s (if 1024 < length p then drop 1024 p # ts else ts))"
proof -
  have "0 < int (length (take 1024 p))" using assms(2) by (cases p) simp_all
  moreover have "wr pkt 0 (take 1024 p) = Some (take 1024 p @ drop (min 1024 (length p)) pkt)"
    using assms(3) by (auto simp: wr_def min_def)
  ultimately show ?thesis
    using assms(1,3) by (subst ptp_usb_getpacket_def, subst read_packet.simps) (auto simp: into_packet_def min_def)
qed

lemma getdata_payload_no_surplus:
  fixes s :: "'d usb_params"
  assumes "bulk_length d = len" "bytes_read \<le> len"
  defines "s' \<equiv> (if 12 < len \<and> bytes_read = 12 then s\<lparr>pp_split_header_data := True\<rparr> else s)"
  shows "getdata_payload e fuel s d bytes_read h = do {
     (ret, h) \<leftarrow> handler_put h (ucast bytes_read - 12) (drop 12 d);
     if ret \<noteq> PTP_RC_OK then Some (getdata_exit ret, h, s')
     else if bytes_read = len then Some (PTP_RC_OK, h, s')
     else if \<not> pp_alloc s' (unat READLEN) then Some (PTP_RC_GeneralError, h, s')
     else do {
       (ret, h, s) \<leftarrow> getdata_loop e fuel len (len - bytes_read) (bytes_read - 12) True h s';
       Some (getdata_exit ret, h, s)
     }
   }"
proof -
  have "\<not> len < bytes_read" "len \<le> bytes_read \<longleftrightarrow> bytes_read = len" using assms(2) by auto
  then show ?thesis
    unfolding getdata_payload_def assms(1) s'_def Let_def by (simp only: if_False simp_thms)
qed

context byte_sink
begin

text \<open>
  A data packet that announces \<open>n\<close> bytes, whatever pieces its beginning comes in: what has come of
  the payload is put away, and the loop goes on for the rest.
\<close>

lemma getdata_reaches_loop:
  assumes "pp_response_packet s = []" "pp_maxpacketsize s \<noteq> 0" "\<forall>n. pp_alloc s n" "sinks h (length payload)"
    and "concat ps = bulk_header (of_nat n) PTP_USB_CONTAINER_DATA (pc_Code c) tid @ payload"
    and "[] \<notin> set ps" "12 \<le> length (hd ps)" "12 + length payload \<le> n" "n < 2 ^ 32 - 1" "length payload < fuel"
  shows "\<exists>h' b f rd rt. ptp_usb_getdata bulk_env fuel (feed s (ps @ rest)) c h = do {
      (ret, h, s) \<leftarrow> getdata_loop bulk_env (Suc f) (of_nat n) (of_nat (n - (12 + length payload))) rd rt h'
        (feed (s\<lparr>pp_split_header_data := b\<rparr>) rest);
      Some (getdata_exit ret, h, s) }
    \<and> stored (dh_priv h') = stored (dh_priv h) @ payload \<and> sinks h' 0"
proof -
  define m where "m = 12 + length payload"
  define T where "T = bulk_header (of_nat n) PTP_USB_CONTAINER_DATA (pc_Code c) tid @ payload"
  have T: "concat ps = T" "length T = m" "n < 2 ^ 32 - 1" "m \<le> n"
    using assms(5,8,9) by (simp_all add: T_def m_def bulk_header_fields)
  then have "concat ps \<noteq> []" by (auto simp: m_def)
  then obtain p qs where p: "ps = p # qs" "p \<noteq> []" "length p \<le> m"
    using concat_pieces_cases [of ps] assms(6) T by metis
  define k where "k = min 1024 (length p)"
  define d where "d = take 1024 p @ drop k (replicate 1024 (0 :: byte))"
  define ps' where "ps' = (if 1024 < length p then drop 1024 p # qs else qs)"
  have k: "12 \<le> k" "k \<le> m" "k \<le> 1024" using assms(7) p by (auto simp: k_def)
  have tk: "take k T = take 1024 p" using T(1) p(1) by (auto simp: k_def min_def)
  have ps': "concat ps' = drop k T" "[] \<notin> set ps'"
    using T(1) p(1) assms(6) by (auto simp: ps'_def k_def)
  have body: "drop k T = drop (k - 12) payload" "take (k - 12) (drop 12 d) = take (k - 12) payload"
  proof -
    have lb: "length (bulk_header (of_nat n) PTP_USB_CONTAINER_DATA (pc_Code c) tid) = 12"
      by (simp add: bulk_header_fields)
    then show "drop k T = drop (k - 12) payload" using k by (simp add: T_def)
    have "take (k - 12) (drop 12 d) = drop 12 (take k d)" using k by (simp add: drop_take)
    also have "take k d = take k T" unfolding tk by (simp add: d_def k_def min_def)
    also have "drop 12 (take k T) = take (k - 12) payload" using lb k by (simp add: T_def)
    finally show "take (k - 12) (drop 12 d) = take (k - 12) payload" .
  qed
  have "take 12 d = take 12 T"
  proof -
    have "take 12 d = take 12 (take k d)" using k by (simp add: min_def)
    also have "take k d = take k T" unfolding tk by (simp add: d_def k_def min_def)
    finally show ?thesis using k by (simp add: min_def)
  qed
  from bulk_fields_cong [OF this] have f: "bulk_length d = of_nat n" "bulk_type d = PTP_USB_CONTAINER_DATA" "bulk_code d = pc_Code c"
    by (simp_all add: T_def bulk_header_fields)
  have pk: "ptp_usb_getpacket bulk_env (feed s (ps @ rest)) (replicate 1024 0) (Some 0) = Some (PTP_RC_OK, d, Some (of_nat k), feed s (ps' @ rest))"
    using getpacket_feed [OF assms(1) p(2), of "replicate 1024 0" "qs @ rest" "Some 0"] p(1)
    by (simp add: d_def k_def ps'_def del: replicate.simps)
  have un: "unat (of_nat n :: u32) = n" "unat (of_nat k :: u32) = k" using T(3,4) k by (simp_all add: unat_of_nat_u32)
  have cmp: "\<not> of_nat n < (of_nat k :: u32)" "\<not> of_nat k < (12 :: u32)" "of_nat n \<le> (of_nat k :: u32) \<longleftrightarrow> n \<le> k"
    using k un T(4) by (simp_all add: word_less_nat_alt word_le_nat_alt)
  have nk: "of_nat k \<le> (of_nat n :: u32)" and eq: "of_nat k = (of_nat n :: u32) \<longleftrightarrow> n \<le> k"
    using k un T(4) by (auto simp: word_le_nat_alt word_unat_eq_iff)
  have u64: "ucast (of_nat k :: u32) - 12 = (of_nat (k - 12) :: u64)"
  proof -
    have "ucast (of_nat k :: u32) = (of_nat k :: u64)" by (metis of_nat_unat un(2))
    then show ?thesis using k by (simp add: of_nat_diff)
  qed
  have ld: "length d = 1024" by (auto simp: d_def k_def min_def)
  have zen: "\<not> (bulk_code d \<noteq> pc_Code c \<and> z)" for z using f(3) by simp
  obtain h1 where h1: "handler_put h (of_nat (k - 12)) (drop 12 d) = Some (PTP_RC_OK, h1)"
    "stored (dh_priv h1) = stored (dh_priv h) @ take (k - 12) payload" "sinks h1 (length payload - (k - 12))"
  proof -
    have "k - 12 \<le> length payload" using k by (simp add: m_def)
    moreover have "k - 12 \<le> length (drop 12 d)" using k ld by simp
    ultimately show thesis using handler_put_sinks [OF assms(4)] body(2) that by metis
  qed
  define b where "b = (if (12 :: u32) < of_nat n \<and> of_nat k = (12 :: u32) then True else pp_split_header_data s)"
  have sp: "(if (12 :: u32) < of_nat n \<and> of_nat k = (12 :: u32) then feed s x\<lparr>pp_split_header_data := True\<rparr> else feed s x)
      = feed (s\<lparr>pp_split_header_data := b\<rparr>) x" for x
    by (auto simp: b_def)
  have e: "ptp_usb_getdata bulk_env fuel (feed s (ps @ rest)) c h = getdata_payload bulk_env fuel (feed s (ps' @ rest)) d (of_nat k) h"
    unfolding ptp_usb_getdata_def pk using f cmp(2) zen by simp
  show ?thesis
  proof (cases "n \<le> k")
    case True
    then have "take (k - 12) payload = payload" "m = n" using T(4) k by (simp_all add: m_def)
    moreover from this have "ps' = []" using ps' True T(2) by (cases ps') auto
    moreover from \<open>m = n\<close> have "n - (12 + length payload) = 0" by (simp add: m_def)
    ultimately show ?thesis
      unfolding e using h1 True
      by (subst getdata_payload_no_surplus [OF f(1) nk])
        (intro exI [of _ h1] exI [of _ b], auto simp: sp u64 eq getdata_exit_def m_def)
  next
    case False
    define s' where "s' = s\<lparr>pp_split_header_data := b\<rparr>"
    define w where "w = drop (k - 12) payload"
    have lw: "length w = m - k" "length w \<le> n - k" using k T(4) by (simp_all add: w_def m_def)
    have un': "unat (of_nat n - of_nat k :: u32) = n - k"
      using un k T(4) by (simp add: unat_sub word_le_nat_alt)
    have ne: "of_nat n \<noteq> (0xffffffff :: u32)" using un(1) T(3) by auto
    have al: "pp_alloc s' m" for m using assms(3) by (simp add: s'_def)
    have fu: "length w < fuel" using assms(10) by (simp add: w_def)
    have room: "sinks h1 (length w)" "length w \<le> length w" using h1(3) by (simp_all add: w_def)
    obtain h' g rd rt where h': "getdata_loop bulk_env fuel (of_nat n) (of_nat n - of_nat k) (of_nat k - 12) True h1 (feed s' (ps' @ rest))
        = getdata_loop bulk_env g (of_nat n) (of_nat n - of_nat k - of_nat (length w)) rd rt h' (feed s' rest)"
        "stored (dh_priv h') = stored (dh_priv h1) @ w" "sinks h' (length w - length w)" "0 < g"
      using getdata_loop_advances [OF room(1) ps'(1) [unfolded body(1) w_def [symmetric]] ps'(2) ne _ room(2),
          where left = "of_nat n - of_nat k" and s = s' and fuel = fuel and bytes_read = "of_nat k - 12" and do_retry = True and rest = rest]
        lw(2) un' assms(2) fu by (auto simp: s'_def)
    have left: "of_nat n - of_nat k - of_nat (length w) = (of_nat (n - (12 + length payload)) :: u32)"
    proof -
      have "n - (12 + length payload) = n - (k + length w)" using k lw by (simp add: m_def)
      moreover have "k + length w \<le> n" using k lw T(4) by simp
      ultimately show ?thesis by (simp add: of_nat_diff)
    qed
    obtain f' where "g = Suc f'" using h'(4) by (cases g) auto
    moreover have "ptp_usb_getdata bulk_env fuel (feed s (ps @ rest)) c h = do {
        (ret, h, s) \<leftarrow> getdata_loop bulk_env g (of_nat n) (of_nat (n - (12 + length payload))) rd rt h' (feed s' rest);
        Some (getdata_exit ret, h, s) }"
      unfolding e left [symmetric] h'(1) [symmetric] using h1(1) al False
      by (subst getdata_payload_no_surplus [OF f(1) nk]) (simp add: sp s'_def [symmetric] u64 eq)
    moreover have "stored (dh_priv h') = stored (dh_priv h) @ payload" using h'(2) h1(2) by (simp add: w_def)
    ultimately show ?thesis using h'(3) unfolding s'_def by (intro exI [of _ h']) auto
  qed
qed

lemma getdata_delivers:
  assumes "pp_response_packet s = []" "pp_maxpacketsize s \<noteq> 0" "\<forall>n. pp_alloc s n" "sinks h (length payload)"
    and "concat ps = bulk_header (of_nat (12 + length payload)) PTP_USB_CONTAINER_DATA (pc_Code c) tid @ payload"
    and "[] \<notin> set ps" "12 \<le> length (hd ps)" "12 + length payload < 2 ^ 32 - 1" "length payload < fuel"
  shows "\<exists>h' b. ptp_usb_getdata bulk_env fuel (feed s (ps @ rest)) c h
      = Some (PTP_RC_OK, h', feed (s\<lparr>pp_split_header_data := b\<rparr>) rest)
    \<and> stored (dh_priv h') = stored (dh_priv h) @ payload \<and> sinks h' 0"
  using getdata_reaches_loop [OF assms(1-7) le_refl assms(8,9), of rest] by (auto simp: getdata_exit_def)

text \<open>A read of no bytes ends the data phase as if it were complete.\<close>

lemma getdata_short:
  assumes "pp_response_packet s = []" "pp_maxpacketsize s \<noteq> 0" "\<forall>n. pp_alloc s n" "sinks h (length payload)"
    and "concat ps = bulk_header (of_nat n) PTP_USB_CONTAINER_DATA (pc_Code c) tid @ payload"
    and "[] \<notin> set ps" "12 \<le> length (hd ps)" "12 + length payload < n" "n < 2 ^ 32 - 1" "length payload < fuel"
  shows "\<exists>h' b. ptp_usb_getdata bulk_env fuel (feed s (ps @ [] # rest)) c h
      = Some (PTP_RC_OK, h', feed (s\<lparr>pp_split_header_data := b\<rparr>) rest)
    \<and> stored (dh_priv h') = stored (dh_priv h) @ payload \<and> sinks h' 0"
proof -
  have n: "12 + length payload \<le> n" using assms(8) by simp
  have "unat (of_nat (n - (12 + length payload)) :: u32) = n - (12 + length payload)"
    "unat (of_nat n :: u32) = n" using assms(9) by (simp_all add: unat_of_nat_u32)
  then have left: "of_nat (n - (12 + length payload)) \<noteq> (0 :: u32)" "of_nat n \<noteq> (0xffffffff :: u32)"
    using assms(8,9) by auto
  obtain h' b f rd rt where g: "ptp_usb_getdata bulk_env fuel (feed s (ps @ [] # rest)) c h = do {
      (ret, h, s) \<leftarrow> getdata_loop bulk_env (Suc f) (of_nat n) (of_nat (n - (12 + length payload))) rd rt h'
        (feed (s\<lparr>pp_split_header_data := b\<rparr>) ([] # rest));
      Some (getdata_exit ret, h, s) }"
    "stored (dh_priv h') = stored (dh_priv h) @ payload" "sinks h' 0"
    using getdata_reaches_loop [OF assms(1-7) n assms(9,10), of "[] # rest"] by blast
  obtain k where "chunk_to_read (pp_maxpacketsize s) (of_nat (n - (12 + length payload))) = Some k" "0 < unat k"
    using chunk_to_read_bounds [OF assms(2) left(1)] by metis
  then show ?thesis
    using g left by (intro exI [of _ h'] exI [of _ b]) (simp add: Let_def translate_gp_result_to_ptp_def getdata_exit_def)
qed

end

lemma feed_ids [simp]: "same_ids (feed s ts) s' \<longleftrightarrow> same_ids s s'"
  by (simp add: same_ids_def feed_def)

lemma length_request_packet:
  assumes "unat (pc_Nparam c) \<le> 253"
  shows "length (request_packet p c) = 12 + 4 * unat (pc_Nparam c)"
proof -
  have "length (bulk_header l PTP_USB_CONTAINER_COMMAND k t @ put32 a @ put32 b @ put32 d @ put32 e @ put32 f
      @ map (pp_junk p) [32..<1024]) = 1024" for l k t a b d e f
    by (simp add: bulk_header_fields)
  with assms show ?thesis unfolding request_packet_def Let_def length_take by (simp only:)
qed

lemma sendreq_feed:
  assumes "unat (pc_Nparam c) \<le> 253"
  shows "ptp_usb_sendreq bulk_env (feed s ts) c d = Some (PTP_RC_OK, feed (sent s (request_packet s c)) ts)"
proof -
  have "request_packet (feed s ts) c = request_packet s c" by (simp add: request_packet_def)
  moreover have "47 + 4 * uint (pc_Nparam c) \<noteq> 0" using unsigned_greater_eq [of "pc_Nparam c"] by arith
  ultimately show ?thesis using length_request_packet [OF assms, of s] by (simp add: ptp_usb_sendreq_def Let_def)
qed

lemma getresp_feed:
  assumes "pp_response_packet s = []" "tid = pp_transaction_id s - 1"
  shows "\<exists>c'. ptp_usb_getresp bulk_env (feed s (bulk_header 12 PTP_USB_CONTAINER_RESPONSE PTP_RC_OK tid # ts)) c
      = Some (PTP_RC_OK, c', feed s ts) \<and> pc_Code c' = PTP_RC_OK \<and> pc_Transaction_ID c' = tid"
proof -
  let ?r = "bulk_header 12 PTP_USB_CONTAINER_RESPONSE PTP_RC_OK tid"
  define d where "d = ?r @ replicate 1012 (0 :: byte)"
  have l: "length ?r = 12" by (rule bulk_header_fields)
  have "?r \<noteq> []" using l by (metis list.size(3) zero_neq_numeral)
  from getpacket_feed [OF assms(1) this, of "replicate 1024 0" ts None] l
  have pk: "ptp_usb_getpacket bulk_env (feed s (?r # ts)) (replicate 1024 0) None = Some (PTP_RC_OK, d, Some 12, feed s ts)"
    by (simp add: d_def del: replicate.simps)
  have f: "bulk_length d = 12" "bulk_type d = PTP_USB_CONTAINER_RESPONSE" "bulk_code d = PTP_RC_OK" "bulk_trans_id d = tid"
    by (simp_all only: d_def bulk_header_fields)
  show ?thesis
    unfolding ptp_usb_getresp_def pk using assms(2) f by (simp add: Let_def)
qed

lemma memory_handler_feed: "memory_handler (feed s ts) = memory_handler s"
proof -
  have r: "realloc_bytes (feed s ts) = realloc_bytes s"
    by (intro ext) (simp add: realloc_bytes_def)
  have "memory_putfunc (feed s ts) = memory_putfunc s"
    by (intro ext) (simp only: memory_putfunc_def r)
  then show ?thesis by (intro ext) (simp add: memory_handler_def)
qed

text \<open>
  A transaction over a device of this kind whose data phase ends well with the payload in the
  caller's memory: the rest of the transaction adds nothing to it.
\<close>

lemma transaction_getdata:
  fixes s :: "bulk_dev usb_params"
  assumes "\<forall>n. pp_alloc s n" "pp_response_packet s = []" "pp_maxpacketsize s \<noteq> 0" "unat (pc_Nparam c) \<le> 5"
    and "payload \<noteq> []" "length payload < 2 ^ 32" "0 < fuel"
    and getdata: "\<And>s1 c1 h. \<lbrakk>pp_response_packet s1 = []; pp_maxpacketsize s1 \<noteq> 0; \<forall>n. pp_alloc s1 n; pc_Code c1 = pc_Code c;
        byte_sink.sinks (memory_putfunc s) (mem_room s) h (length payload)\<rbrakk>
      \<Longrightarrow> \<exists>h' b. ptp_usb_getdata bulk_env n (feed s1 (xs @ ys)) c1 h
            = Some (PTP_RC_OK, h', feed (s1\<lparr>pp_split_header_data := b\<rparr>) ys)
          \<and> mem_bytes (dh_priv h') = mem_bytes (dh_priv h) @ payload
          \<and> byte_sink.sinks (memory_putfunc s) (mem_room s) h' 0"
    and ys: "ys = bulk_header 12 PTP_USB_CONTAINER_RESPONSE PTP_RC_OK (pp_transaction_id s) # ts"
  shows "\<exists>c' s'. ptp_transaction (usb_io bulk_env n) fuel (feed s (xs @ ys)) (Some c) PTP_DP_GETDATA 0 (Some None)
    = Some (PTP_RC_OK, Some c', Some (Some payload), Some (of_nat (length payload)), feed s' ts)
    \<and> pc_Transaction_ID c' = pp_transaction_id s \<and> pp_transaction_id s' = pp_transaction_id s + 1
    \<and> bd_out (gp_dev (pp_io s')) = bd_out (gp_dev (pp_io s))
        @ [request_packet s (c\<lparr>pc_Transaction_ID := pp_transaction_id s, pc_SessionID := pp_session_id s\<rparr>)]"
proof -
  define c0 where "c0 = c\<lparr>pc_Transaction_ID := pp_transaction_id s, pc_SessionID := pp_session_id s\<rparr>"
  define s0 where "s0 = s\<lparr>pp_transaction_id := pp_transaction_id s + 1\<rparr>"
  define pkt where "pkt = request_packet s c0"
  define s1 where "s1 = sent s0 pkt"
  define h where "h = memory_handler s None 0"
  have pcn: "pc_Nparam c0 = pc_Nparam c" "pc_Code c0 = pc_Code c" by (simp_all add: c0_def)
  have sq: "ptp_usb_sendreq bulk_env (feed s0 ts') c0 PTP_DP_GETDATA = Some (PTP_RC_OK, feed s1 ts')" for ts'
    using assms(4) pcn(1) by (simp add: sendreq_feed s1_def pkt_def s0_def request_packet_def)
  have room: "byte_sink.sinks (memory_putfunc s) (mem_room s) h (length payload)"
    using assms(1,6) by (simp add: mem_sink.sinks_def h_def memory_handler_def mem_room_def mem_bytes_def)
  have s1: "pp_response_packet s1 = []" "pp_maxpacketsize s1 \<noteq> 0" "\<forall>n. pp_alloc s1 n"
    using assms(1-3) by (simp_all add: s1_def s0_def)
  obtain h' b where d: "ptp_usb_getdata bulk_env n (feed s1 (xs @ ys)) c0 h
      = Some (PTP_RC_OK, h', feed (s1\<lparr>pp_split_header_data := b\<rparr>) ys)" "mem_bytes (dh_priv h') = mem_bytes (dh_priv h) @ payload"
      "byte_sink.sinks (memory_putfunc s) (mem_room s) h' 0"
    using getdata [OF s1 pcn(2) room] by blast
  define s2 where "s2 = s1\<lparr>pp_split_header_data := b\<rparr>"
  obtain c' where r: "ptp_usb_getresp bulk_env (feed s2 ys) c0 = Some (PTP_RC_OK, c', feed s2 ts)"
    "pc_Code c' = PTP_RC_OK" "pc_Transaction_ID c' = pp_transaction_id s"
  proof -
    have "pp_response_packet s2 = []" "pp_transaction_id s = pp_transaction_id s2 - 1"
      using assms(2) by (simp_all add: s2_def s1_def s0_def)
    from getresp_feed [OF this, of ts c0] show thesis using that by (auto simp: ys)
  qed
  have m: "mh_data (dh_priv h') = Some payload" "mh_size (dh_priv h') = of_nat (length payload)"
    using d(2,3) assms(5) by (auto simp: mem_sink.sinks_def mem_room_def h_def memory_handler_def mem_bytes_def split: option.splits)
  have tid2: "pp_transaction_id s2 = pp_transaction_id s + 1" by (simp add: s2_def s1_def s0_def)
  have uc: "ucast (of_nat k :: u64) = (of_nat k :: u32)" for k
    by (rule bit_word_eqI) (simp add: bit_simps)
  have "ptp_transaction (usb_io bulk_env n) fuel (feed s (xs @ ys)) (Some c) PTP_DP_GETDATA 0 (Some None)
      = Some (PTP_RC_OK, Some c', Some (Some payload), Some (of_nat (length payload)), feed s2 ts)"
    using sq d(1) r assms(1,7) m
    by (cases fuel) (simp_all add: tid2 uc memory_handler_feed ptp_transaction_def ptp_init_recv_memory_handler_def ptp_transaction_new_def Let_def
        usb_io_def data_phase_def cancel_if_def c0_def [symmetric] s0_def [symmetric] h_def [symmetric] s2_def [symmetric]
        ptp_exit_recv_memory_handler_def)
  then show ?thesis using r by (auto simp: s2_def s1_def s0_def sent_def pkt_def c0_def)
qed

text \<open>
  C3. A transaction that asks for data, over USB: whatever pieces the device sends its data packet
  in (the first holding at least the header), and with an \<open>OK\<close> response behind it, \<open>ptp_transaction\<close>
  returns \<open>PTP_RC_OK\<close> with exactly the payload in the caller's memory, after writing exactly the
  request packet of the operation, with the connection's next transaction number in both.
\<close>

theorem ptp_transaction_delivers:
  assumes "\<forall>n. pp_alloc s n" "pp_response_packet s = []" "pp_maxpacketsize s \<noteq> 0" "unat (pc_Nparam c) \<le> 5"
    and "concat ps = bulk_header (of_nat (12 + length payload)) PTP_USB_CONTAINER_DATA (pc_Code c) tid @ payload"
    and "[] \<notin> set ps" "12 \<le> length (hd ps)" "payload \<noteq> []" "12 + length payload < 2 ^ 32 - 1" "length payload < n" "0 < fuel"
  shows "\<exists>c' s'. ptp_transaction (usb_io bulk_env n) fuel
      (feed s (ps @ bulk_header 12 PTP_USB_CONTAINER_RESPONSE PTP_RC_OK (pp_transaction_id s) # ts))
      (Some c) PTP_DP_GETDATA 0 (Some None)
    = Some (PTP_RC_OK, Some c', Some (Some payload), Some (of_nat (length payload)), feed s' ts)
    \<and> pc_Transaction_ID c' = pp_transaction_id s \<and> pp_transaction_id s' = pp_transaction_id s + 1
    \<and> bd_out (gp_dev (pp_io s')) = bd_out (gp_dev (pp_io s))
        @ [request_packet s (c\<lparr>pc_Transaction_ID := pp_transaction_id s, pc_SessionID := pp_session_id s\<rparr>)]"
proof -
  have l: "length payload < 2 ^ 32" using assms(9) by simp
  show ?thesis
  proof (rule transaction_getdata [OF assms(1-4,8) l assms(11) _ refl])
    fix s1 :: "bulk_dev usb_params" and c1 :: PTPContainer and h :: "PTPMemHandlerPrivate PTPDataHandler"
    assume a: "pp_response_packet s1 = []" "pp_maxpacketsize s1 \<noteq> 0" "\<forall>n. pp_alloc s1 n" "pc_Code c1 = pc_Code c"
      "byte_sink.sinks (memory_putfunc s) (mem_room s) h (length payload)"
    have "concat ps = bulk_header (of_nat (12 + length payload)) PTP_USB_CONTAINER_DATA (pc_Code c1) tid @ payload"
      using assms(5) by (simp only: a(4))
    from mem_sink.getdata_delivers [OF a(1-3,5) this assms(6,7,9,10)]
    show "\<exists>h' b. ptp_usb_getdata bulk_env n (feed s1 (ps @ bulk_header 12 PTP_USB_CONTAINER_RESPONSE PTP_RC_OK (pp_transaction_id s) # ts)) c1 h
        = Some (PTP_RC_OK, h', feed (s1\<lparr>pp_split_header_data := b\<rparr>) (bulk_header 12 PTP_USB_CONTAINER_RESPONSE PTP_RC_OK (pp_transaction_id s) # ts))
      \<and> mem_bytes (dh_priv h') = mem_bytes (dh_priv h) @ payload \<and> byte_sink.sinks (memory_putfunc s) (mem_room s) h' 0" .
  qed
qed

text \<open>
  C8. A data packet cut short: when the device announces more bytes than it sends and then sends a
  packet of no bytes, the transaction still returns \<open>PTP_RC_OK\<close>, with the bytes that came and
  their number, because \<open>ptp_usb_getdata\<close> takes a read of no bytes for the end of the data
  (\<open>translate_gp_result_to_ptp (0)\<close> is \<open>PTP_RC_OK\<close>) and does not compare with the announced length.
\<close>

theorem ptp_transaction_cut_short:
  assumes "\<forall>n. pp_alloc s n" "pp_response_packet s = []" "pp_maxpacketsize s \<noteq> 0" "unat (pc_Nparam c) \<le> 5"
    and "concat ps = bulk_header (of_nat m) PTP_USB_CONTAINER_DATA (pc_Code c) tid @ payload"
    and "[] \<notin> set ps" "12 \<le> length (hd ps)" "payload \<noteq> []" "12 + length payload < m" "m < 2 ^ 32 - 1" "length payload < n" "0 < fuel"
  shows "\<exists>c' s'. ptp_transaction (usb_io bulk_env n) fuel
      (feed s (ps @ [] # bulk_header 12 PTP_USB_CONTAINER_RESPONSE PTP_RC_OK (pp_transaction_id s) # ts))
      (Some c) PTP_DP_GETDATA 0 (Some None)
    = Some (PTP_RC_OK, Some c', Some (Some payload), Some (of_nat (length payload)), feed s' ts)"
proof -
  have l: "length payload < 2 ^ 32" using assms(9,10) by simp
  have "\<exists>c' s'. ptp_transaction (usb_io bulk_env n) fuel
      (feed s ((ps @ [[]]) @ bulk_header 12 PTP_USB_CONTAINER_RESPONSE PTP_RC_OK (pp_transaction_id s) # ts))
      (Some c) PTP_DP_GETDATA 0 (Some None)
    = Some (PTP_RC_OK, Some c', Some (Some payload), Some (of_nat (length payload)), feed s' ts)
    \<and> pc_Transaction_ID c' = pp_transaction_id s \<and> pp_transaction_id s' = pp_transaction_id s + 1
    \<and> bd_out (gp_dev (pp_io s')) = bd_out (gp_dev (pp_io s))
        @ [request_packet s (c\<lparr>pc_Transaction_ID := pp_transaction_id s, pc_SessionID := pp_session_id s\<rparr>)]"
  proof (rule transaction_getdata [OF assms(1-4,8) l assms(12) _ refl])
    fix s1 :: "bulk_dev usb_params" and c1 :: PTPContainer and h :: "PTPMemHandlerPrivate PTPDataHandler"
    assume a: "pp_response_packet s1 = []" "pp_maxpacketsize s1 \<noteq> 0" "\<forall>n. pp_alloc s1 n" "pc_Code c1 = pc_Code c"
      "byte_sink.sinks (memory_putfunc s) (mem_room s) h (length payload)"
    have "concat ps = bulk_header (of_nat m) PTP_USB_CONTAINER_DATA (pc_Code c1) tid @ payload"
      using assms(5) by (simp only: a(4))
    from mem_sink.getdata_short [OF a(1-3,5) this assms(6,7,9,10,11)]
    show "\<exists>h' b. ptp_usb_getdata bulk_env n (feed s1 ((ps @ [[]]) @ bulk_header 12 PTP_USB_CONTAINER_RESPONSE PTP_RC_OK (pp_transaction_id s) # ts)) c1 h
        = Some (PTP_RC_OK, h', feed (s1\<lparr>pp_split_header_data := b\<rparr>) (bulk_header 12 PTP_USB_CONTAINER_RESPONSE PTP_RC_OK (pp_transaction_id s) # ts))
      \<and> mem_bytes (dh_priv h') = mem_bytes (dh_priv h) @ payload \<and> byte_sink.sinks (memory_putfunc s) (mem_room s) h' 0" by simp
  qed
  then show ?thesis by (simp only: append_assoc append_Cons append_Nil) blast
qed

text \<open>
  C7. Over USB, a transaction that succeeds has been answered: its response has code \<open>OK\<close> and the
  number of this transaction (or an earlier one, for \<open>CloseSession\<close>), and the connection has moved
  on by exactly one transaction, whatever the port does and whatever the handler of the data phase.
\<close>

theorem usb_transaction_answered:
  assumes "ptp_transaction_new (usb_io e n) fuel s (Some c) flags len h = Some (PTP_RC_OK, c', h', s')"
  shows "pp_transaction_id s' = pp_transaction_id s + 1 \<and> pp_session_id s' = pp_session_id s \<and>
    (\<exists>r. c' = Some r \<and> pc_Code r = PTP_RC_OK \<and>
      (pc_Transaction_ID r = pp_transaction_id s
       \<or> pc_Code c = PTP_OC_CloseSession \<and> pc_Transaction_ID r < pp_transaction_id s))"
  using usb.transaction_answered [OF assms] .

text \<open>A camera on a port, for concrete runs.\<close>

definition plain_camera :: "bulk_dev usb_params" where
  "plain_camera = plain_connection \<lparr>gp_type = 4, gp_settings = SettingsUSB 0x81 0x02 0x83 1 0 0 512 '''',
     gp_settings_pending = SettingsUSB 0x81 0x02 0x83 1 0 0 512 '''', gp_timeout = 20000, gp_error = '''',
     gp_dev = \<lparr>bd_in = [], bd_out = []\<rparr>\<rparr>"

lemma plain_camera_simps [simp]:
  "pp_transaction_id plain_camera = 0" "pp_session_id plain_camera = 0" "pp_response_packet plain_camera = []"
  "pp_maxpacketsize plain_camera = 512" "pp_alloc plain_camera n" "bd_out (gp_dev (pp_io plain_camera)) = []"
  by (simp_all add: plain_camera_def)

text \<open>A request without data and its response.\<close>

lemma transaction_nodata:
  assumes "pp_response_packet s = []" "unat (pc_Nparam c) \<le> 5"
  shows "\<exists>c' s'. ptp_transaction_new (usb_io bulk_env n) (Suc f)
      (feed s (bulk_header 12 PTP_USB_CONTAINER_RESPONSE PTP_RC_OK (pp_transaction_id s) # ts)) (Some c) PTP_DP_NODATA 0 h
    = Some (PTP_RC_OK, Some c', h, s')"
proof -
  define c0 where "c0 = c\<lparr>pc_Transaction_ID := pp_transaction_id s, pc_SessionID := pp_session_id s\<rparr>"
  define s1 where "s1 = sent (s\<lparr>pp_transaction_id := pp_transaction_id s + 1\<rparr>)
    (request_packet (s\<lparr>pp_transaction_id := pp_transaction_id s + 1\<rparr>) c0)"
  have "pp_response_packet s1 = []" "pp_transaction_id s = pp_transaction_id s1 - 1" using assms by (simp_all add: s1_def)
  from getresp_feed [OF this, of ts c0] obtain c' where
    "ptp_usb_getresp bulk_env (feed s1 (bulk_header 12 PTP_USB_CONTAINER_RESPONSE PTP_RC_OK (pp_transaction_id s) # ts)) c0
      = Some (PTP_RC_OK, c', feed s1 ts)" "pc_Code c' = PTP_RC_OK" "pc_Transaction_ID c' = pp_transaction_id s" by auto
  then show ?thesis using assms(2)
    by (simp add: ptp_transaction_new_def Let_def usb_io_def data_phase_def sendreq_feed c0_def s1_def)
qed

theorem usb_transaction_answered_witness:
  "\<exists>c' s'. ptp_transaction_new (usb_io bulk_env 0) 1 (feed plain_camera [bulk_header 12 PTP_USB_CONTAINER_RESPONSE PTP_RC_OK 0])
      (Some (container_zero\<lparr>pc_Code := 0x1001\<rparr>)) PTP_DP_NODATA 0 (None :: unit PTPDataHandler option) = Some (PTP_RC_OK, Some c', None, s')
    \<and> pp_transaction_id s' = 1 \<and> pc_Transaction_ID c' = 0"
proof -
  obtain c' s' where r: "ptp_transaction_new (usb_io bulk_env 0) 1 (feed plain_camera [bulk_header 12 PTP_USB_CONTAINER_RESPONSE PTP_RC_OK 0])
      (Some (container_zero\<lparr>pc_Code := 0x1001\<rparr>)) PTP_DP_NODATA 0 (None :: unit PTPDataHandler option) = Some (PTP_RC_OK, Some c', None, s')"
    using transaction_nodata [of plain_camera "container_zero\<lparr>pc_Code := 0x1001\<rparr>" 0 0 "[]" None] by (auto simp: container_zero_def)
  then show ?thesis using usb_transaction_answered [OF r] by (auto simp: container_zero_def)
qed

theorem ptp_transaction_delivers_witness:
  "\<exists>c' s'. ptp_transaction (usb_io bulk_env 10) 1
      (feed plain_camera [bulk_header 16 PTP_USB_CONTAINER_DATA 0x1001 7 @ [1, 2], [3, 4],
         bulk_header 12 PTP_USB_CONTAINER_RESPONSE PTP_RC_OK 0])
      (Some (container_zero\<lparr>pc_Code := 0x1001\<rparr>)) PTP_DP_GETDATA 0 (Some None)
    = Some (PTP_RC_OK, Some c', Some (Some [1, 2, 3, 4]), Some 4, feed s' [])
    \<and> bd_out (gp_dev (pp_io s')) = [bulk_header 12 PTP_USB_CONTAINER_COMMAND 0x1001 0]"
proof -
  have l: "length (bulk_header 12 PTP_USB_CONTAINER_COMMAND 0x1001 0) = 12" by (rule bulk_header_fields)
  let ?c = "container_zero\<lparr>pc_Code := 0x1001\<rparr>"
  show ?thesis
    using ptp_transaction_delivers [of plain_camera ?c
        "[bulk_header 16 PTP_USB_CONTAINER_DATA 0x1001 7 @ [1, 2], [3, 4]]" "[1, 2, 3, 4]" 7 10 1 "[]"] l
    by (simp add: container_zero_def bulk_header_fields request_packet_def) blast
qed

theorem ptp_transaction_cut_short_witness:
  "\<exists>c' s'. ptp_transaction (usb_io bulk_env 10) 1
      (feed plain_camera [bulk_header 1000 PTP_USB_CONTAINER_DATA 0x1001 7 @ [1, 2], [],
         bulk_header 12 PTP_USB_CONTAINER_RESPONSE PTP_RC_OK 0])
      (Some (container_zero\<lparr>pc_Code := 0x1001\<rparr>)) PTP_DP_GETDATA 0 (Some None)
    = Some (PTP_RC_OK, Some c', Some (Some [1, 2]), Some 2, feed s' [])"
  using ptp_transaction_cut_short [of plain_camera "container_zero\<lparr>pc_Code := 0x1001\<rparr>"
      "[bulk_header 1000 PTP_USB_CONTAINER_DATA 0x1001 7 @ [1, 2]]" 1000 7 "[1, 2]" 10 1 "[]"]
  by (simp add: container_zero_def bulk_header_fields)

end
