(* ===== verification/PtpCache.thy ===== *)
theory PtpCache
  imports PtpTransaction
begin

text \<open>
  The cache of the device's objects (\<open>params->objects\<close> in \<open>camlibs/ptp2/ptp.c\<close>, on the arrays of
  \<open>array.h\<close>): searches, insertions and removals in an array that is kept sorted by handle, and
  the map from handles to objects that it stands for.
\<close>

section \<open>The array of objects\<close>

text \<open>
  \<open>objects.val[i]\<close>; outside the array the access is undefined. A \<open>PTPObject\<close> takes 136 bytes, an
  object that has been inserted has its handle and zeros. The result of \<open>array_extend_capacity\<close>
  when \<open>realloc\<close> fails is \<open>GP_ERROR_NO_MEMORY\<close>, converted to the 16 bits of a PTP result.
\<close>

definition obj_at :: "PTPObject list \<Rightarrow> nat \<Rightarrow> PTPObject option" where
  "obj_at objs i = (if i < length objs then Some (objs ! i) else None)"

definition oi_zero :: PTPObjectInfo where
  "oi_zero = \<lparr>oi_Handle = 0, oi_StorageID = 0, oi_ObjectFormat = 0, oi_ProtectionStatus = 0,
     oi_ObjectSize = 0, oi_ThumbFormat = 0, oi_ThumbSize = 0, oi_ThumbPixWidth = 0,
     oi_ThumbPixHeight = 0, oi_ImagePixWidth = 0, oi_ImagePixHeight = 0, oi_ImageBitDepth = 0,
     oi_ParentObject = 0, oi_AssociationType = 0, oi_AssociationDesc = 0, oi_SequenceNumber = 0,
     oi_Filename = None, oi_CaptureDate = 0, oi_ModificationDate = 0, oi_Keywords = None\<rparr>"

definition new_object :: "u32 \<Rightarrow> PTPObject" where
  "new_object handle = \<lparr>ob_oid = handle, ob_flags = 0, ob_oi = oi_zero\<lparr>oi_Handle := handle\<rparr>,
     ob_canon_flags = 0, ob_mtp_props = []\<rparr>"

definition sizeof_PTPObject :: nat where
  "sizeof_PTPObject = 136"

abbreviation PTP_NO_MEMORY :: u16 where "PTP_NO_MEMORY \<equiv> 0xfffd"

definition cmp_ob :: "PTPObject \<Rightarrow> PTPObject \<Rightarrow> int" where
  "cmp_ob oa ob = (if ob_oid oa > ob_oid ob then 1 else if ob_oid oa < ob_oid ob then - 1 else 0)"

definition ptp_objects_sort :: "'d PTPParams \<Rightarrow> 'd PTPParams option" where
  "ptp_objects_sort s = map_option (\<lambda>objs. s\<lparr>pp_objects := Some (qsort cmp_ob objs)\<rparr>) (pp_objects s)"

text \<open>\<open>bsearch\<close> of the C library, on the indices of an array: halving the interval \<open>[l, u)\<close>.\<close>

function bsearch :: "(nat \<Rightarrow> int) \<Rightarrow> nat \<Rightarrow> nat \<Rightarrow> nat option" where
  "bsearch cmp l u =
     (if u \<le> l then None
      else let i = (l + u) div 2 in
        if cmp i < 0 then bsearch cmp l i
        else if cmp i > 0 then bsearch cmp (Suc i) u
        else Some i)"
  by pat_completeness auto
termination
  by (relation "measure (\<lambda>(c, l, u). u - l)") auto

declare bsearch.simps [simp del]

definition ptp_find_object_in_cache :: "'d PTPParams \<Rightarrow> u32 \<Rightarrow> (u16 \<times> nat option) option" where
  "ptp_find_object_in_cache s handle = do {
     objs \<leftarrow> pp_objects s;
     let r = bsearch (\<lambda>i. cmp_ob (new_object handle) (objs ! i)) 0 (length objs);
     Some (if r = None then PTP_RC_GeneralError else PTP_RC_OK, r)
   }"

definition ptp_remove_object_from_cache :: "'d PTPParams \<Rightarrow> u32 \<Rightarrow> (u16 \<times> 'd PTPParams) option" where
  "ptp_remove_object_from_cache s handle = do {
     (ret, r) \<leftarrow> ptp_find_object_in_cache s handle;
     if ret \<noteq> PTP_RC_OK then Some (ret, s)
     else do {
       i \<leftarrow> r;
       objs \<leftarrow> pp_objects s;
       Some (PTP_RC_OK, s\<lparr>pp_objects := Some (take i objs @ drop (Suc i) objs)\<rparr>)
     }
   }"

text \<open>
  The search of \<open>ptp_find_or_insert_object_in_cache\<close>: \<open>Inl\<close> the index where the handle was met, or
  \<open>Inr\<close> the interval \<open>[begin, end]\<close> at the end of the loop.
\<close>

function cache_search :: "PTPObject list \<Rightarrow> u32 \<Rightarrow> nat \<Rightarrow> nat \<Rightarrow> (nat + nat \<times> nat) option" where
  "cache_search objs handle b e =
     (let cursor = (e - b) div 2 + b in
      case obj_at objs cursor of
        None \<Rightarrow> None
      | Some ob \<Rightarrow>
          if ob_oid ob = handle then Some (Inl cursor)
          else if ob_oid ob < handle then
            (if e - cursor \<le> 1 then Some (Inr (cursor, e)) else cache_search objs handle cursor e)
          else
            (if cursor - b \<le> 1 then Some (Inr (b, cursor)) else cache_search objs handle b cursor))"
  by pat_completeness auto
termination
  by (relation "measure (\<lambda>(objs, handle, b, e). e - b)") auto

declare cache_search.simps [simp del]

text \<open>
  \<open>ptp_find_or_insert_object_in_cache\<close>: the result, the index \<open>*retob\<close> points to and the state.
  When the array cannot grow, its pointer is lost but its length stays.
\<close>

definition insert_at :: "PTPObject list \<Rightarrow> u32 \<Rightarrow> nat \<Rightarrow> nat \<Rightarrow> nat option" where
  "insert_at objs handle b e = do {
     first \<leftarrow> obj_at objs 0;
     last \<leftarrow> obj_at objs e;
     Some (if b = 0 \<and> handle < ob_oid first then b
           else if e = length objs - 1 \<and> handle > ob_oid last then e + 1
           else b + 1)
   }"

definition ptp_find_or_insert_object_in_cache ::
    "'d PTPParams \<Rightarrow> u32 \<Rightarrow> (u16 \<times> nat option \<times> 'd PTPParams) option" where
  "ptp_find_or_insert_object_in_cache s handle =
     (if handle = 0 then Some (PTP_RC_GeneralError, None, s)
      else do {
        objs \<leftarrow> pp_objects s;
        if objs = [] then
          (if pp_alloc s sizeof_PTPObject
           then Some (PTP_RC_OK, Some 0, s\<lparr>pp_objects := Some [new_object handle]\<rparr>)
           else Some (PTP_NO_MEMORY, None, s))
        else do {
          r \<leftarrow> cache_search objs handle 0 (length objs - 1);
          case r of
            Inl i \<Rightarrow> Some (PTP_RC_OK, Some i, s)
          | Inr (b, e) \<Rightarrow> do {
              ob \<leftarrow> obj_at objs b;
              oe \<leftarrow> obj_at objs e;
              if ob_oid ob = handle then Some (PTP_RC_OK, Some b, s)
              else if ob_oid oe = handle then Some (PTP_RC_OK, Some e, s)
              else do {
                i \<leftarrow> insert_at objs handle b e;
                if \<not> pp_alloc s ((length objs + 1) * sizeof_PTPObject)
                then Some (PTP_NO_MEMORY, None, s\<lparr>pp_objects := None\<rparr>)
                else Some (PTP_RC_OK, Some i,
                  s\<lparr>pp_objects := Some (take i objs @ new_object handle # drop i objs)\<rparr>)
              }
            }
        }
      })"

section \<open>Sorted arrays\<close>

text \<open>
  The invariant of the cache: its objects are in strictly ascending order of their handles. The
  cache then stands for a partial map from handles to objects.
\<close>

definition cache_sorted :: "PTPObject list \<Rightarrow> bool" where
  "cache_sorted objs \<longleftrightarrow> sorted_wrt (\<lambda>a b. ob_oid a < ob_oid b) objs"

definition cached :: "PTPObject list \<Rightarrow> u32 \<Rightarrow> PTPObject option" where
  "cached objs = map_of (map (\<lambda>o'. (ob_oid o', o')) objs)"

lemma cache_sorted_nth:
  assumes "cache_sorted objs" "i < j" "j < length objs"
  shows "ob_oid (objs ! i) < ob_oid (objs ! j)"
  using assms by (auto simp: cache_sorted_def dest: sorted_wrt_nth_less)

lemma cache_sorted_less:
  assumes "cache_sorted objs" "i < length objs" "j < length objs"
  shows "ob_oid (objs ! i) < ob_oid (objs ! j) \<longleftrightarrow> i < j"
  using cache_sorted_nth [OF assms(1), of i j] cache_sorted_nth [OF assms(1), of j i] assms
  by (cases i j rule: linorder_cases) auto

lemma cache_sorted_inj:
  assumes "cache_sorted objs" "i < length objs" "j < length objs" "ob_oid (objs ! i) = ob_oid (objs ! j)"
  shows "i = j"
  using cache_sorted_less [OF assms(1-3)] cache_sorted_less [OF assms(1,3,2)] assms(4) by (cases i j rule: linorder_cases) auto

lemma cached_nth:
  assumes "cache_sorted objs"
  shows "cached objs h = Some ob \<longleftrightarrow> (\<exists>i < length objs. objs ! i = ob \<and> ob_oid ob = h)"
proof -
  have "distinct (map fst (map (\<lambda>o'. (ob_oid o', o')) objs))"
    using assms by (simp add: o_def cache_sorted_def distinct_conv_nth) (metis linorder_neqE_nat order_less_irrefl sorted_wrt_nth_less)
  then have "cached objs h = Some ob \<longleftrightarrow> (h, ob) \<in> set (map (\<lambda>o'. (ob_oid o', o')) objs)"
    unfolding cached_def by (rule map_of_eq_Some_iff)
  also have "\<dots> \<longleftrightarrow> ob \<in> set objs \<and> ob_oid ob = h" by auto
  finally show ?thesis by (auto simp: in_set_conv_nth)
qed

lemma cached_None: "cached objs h = None \<longleftrightarrow> (\<forall>i < length objs. ob_oid (objs ! i) \<noteq> h)"
  by (auto simp: cached_def map_of_eq_None_iff image_iff all_set_conv_all_nth)

text \<open>The search keeps the handle between its bounds and never leaves the array.\<close>

definition brackets :: "PTPObject list \<Rightarrow> u32 \<Rightarrow> nat \<Rightarrow> nat \<Rightarrow> bool" where
  "brackets objs h b e \<longleftrightarrow> b \<le> e \<and> e < length objs \<and> (b = 0 \<or> ob_oid (objs ! b) < h)
     \<and> (e = length objs - 1 \<or> h < ob_oid (objs ! e))"

lemma cache_search_ends:
  assumes "brackets objs h b e"
  shows "\<exists>r. cache_search objs h b e = Some r \<and>
    (case r of Inl i \<Rightarrow> i < length objs \<and> ob_oid (objs ! i) = h
     | Inr (b', e') \<Rightarrow> brackets objs h b' e' \<and> e' \<le> b' + 1)"
  using assms
proof (induction objs h b e rule: cache_search.induct)
  case (1 objs h b e)
  define c where "c = (e - b) div 2 + b"
  have c: "b \<le> c" "c \<le> e" "c < length objs" using "1.prems" by (auto simp: c_def brackets_def)
  then have at: "obj_at objs c = Some (objs ! c)" by (simp add: obj_at_def)
  note step = cache_search.simps [of objs h b e, unfolded Let_def c_def [symmetric]]
  consider "ob_oid (objs ! c) = h" | "ob_oid (objs ! c) < h" | "h < ob_oid (objs ! c)" by force
  then show ?case
  proof cases
    case 1
    then show ?thesis using at c by (simp add: step)
  next
    case 2
    then have br: "brackets objs h c e" using "1.prems" c by (auto simp: brackets_def)
    show ?thesis
    proof (cases "e - c \<le> 1")
      case True
      then show ?thesis using 2 at br c by (auto simp: step)
    next
      case False
      then show ?thesis using "1.IH" (1) [OF refl, folded c_def, OF at _ 2 False br] 2 at c by (auto simp: step)
    qed
  next
    case 3
    then have br: "brackets objs h b c" using "1.prems" c by (auto simp: brackets_def)
    show ?thesis
    proof (cases "c - b \<le> 1")
      case True
      then show ?thesis using 3 at br c by (auto simp: step)
    next
      case False
      then show ?thesis using "1.IH" (2) [OF refl, folded c_def, OF at _ _ False br] 3 at c by (auto simp: step)
    qed
  qed
qed

text \<open>Where the handle is put, everything before is smaller and everything behind greater.\<close>

lemma insert_at_place:
  assumes sorted: "cache_sorted objs" and br: "brackets objs h b e" "e \<le> b + 1"
    and ne: "ob_oid (objs ! b) \<noteq> h" "ob_oid (objs ! e) \<noteq> h"
  shows "\<exists>i \<le> length objs. insert_at objs h b e = Some i \<and> (\<forall>j < i. ob_oid (objs ! j) < h)
    \<and> (\<forall>j. i \<le> j \<longrightarrow> j < length objs \<longrightarrow> h < ob_oid (objs ! j))"
proof -
  have e: "e < length objs" "b \<le> e" using br by (auto simp: brackets_def)
  have mono: "ob_oid (objs ! j) \<le> ob_oid (objs ! k)" if "j \<le> k" "k < length objs" for j k
    using cache_sorted_nth [OF sorted, of j k] that by (cases "j = k") auto
  have at: "obj_at objs 0 = Some (objs ! 0)" "obj_at objs e = Some (objs ! e)" using e by (auto simp: obj_at_def)
  show ?thesis
  proof (cases "b = 0 \<and> h < ob_oid (objs ! 0)")
    case True
    then show ?thesis using at mono [of 0] by (intro exI [of _ 0]) (auto simp: insert_at_def intro: less_le_trans)
  next
    case first: False
    then have hb: "ob_oid (objs ! b) < h" using br ne(1) by (auto simp: brackets_def)
    show ?thesis
    proof (cases "e = length objs - 1 \<and> ob_oid (objs ! e) < h")
      case True
      then have "insert_at objs h b e = Some (length objs)" using at first e by (auto simp: insert_at_def)
      moreover have "ob_oid (objs ! j) < h" if "j < length objs" for j
      proof -
        have "ob_oid (objs ! j) \<le> ob_oid (objs ! e)" using that e True by (intro mono) auto
        with True show ?thesis by (auto intro: le_less_trans)
      qed
      ultimately show ?thesis by auto
    next
      case False
      then have he: "h < ob_oid (objs ! e)" using br ne(2) by (auto simp: brackets_def)
      then have "e = b + 1" using hb br(2) e(2) by (cases "e = b") auto
      moreover have "insert_at objs h b e = Some (b + 1)" using at first False by (auto simp: insert_at_def)
      moreover have "ob_oid (objs ! j) < h" if "j < b + 1" for j using mono [of j b] hb that e by auto
      moreover have "h < ob_oid (objs ! j)" if "e \<le> j" "j < length objs" for j using mono [of e j] he that by auto
      ultimately show ?thesis using e by (intro exI [of _ "b + 1"]) auto
    qed
  qed
qed

lemma cached_append: "cached (xs @ ys) h = (case cached xs h of None \<Rightarrow> cached ys h | Some ob \<Rightarrow> Some ob)"
  by (auto simp: cached_def map_add_def split: option.splits)

lemma cached_Cons: "cached (ob # ys) h = (if ob_oid ob = h then Some ob else cached ys h)"
  by (simp add: cached_def)

lemma cached_notin: "\<forall>ob \<in> set xs. ob_oid ob \<noteq> h \<Longrightarrow> cached xs h = None"
  by (auto simp: cached_def map_of_eq_None_iff)

lemma cache_sorted_insert:
  assumes "cache_sorted objs" "i \<le> length objs" "\<forall>j < i. ob_oid (objs ! j) < h"
    and "\<forall>j. i \<le> j \<longrightarrow> j < length objs \<longrightarrow> h < ob_oid (objs ! j)" "ob_oid o' = h"
  shows "cache_sorted (take i objs @ o' # drop i objs)" "cached (take i objs @ o' # drop i objs) = (cached objs)(h \<mapsto> o')"
proof -
  have s: "sorted_wrt (\<lambda>a b. ob_oid a < ob_oid b) (take i objs @ drop i objs)" using assms(1) by (simp add: cache_sorted_def)
  have l: "\<forall>a \<in> set (take i objs). ob_oid a < h" using assms(3) by (auto simp: in_set_conv_nth)
  have r: "\<forall>a \<in> set (drop i objs). h < ob_oid a" using assms(2,4) by (auto simp: in_set_conv_nth)
  show "cache_sorted (take i objs @ o' # drop i objs)"
    using s l r assms(5) unfolding cache_sorted_def sorted_wrt_append by (simp del: append_take_drop_id)
  have "cached (take i objs) h = None" using l by (intro cached_notin) auto
  then have "cached (take i objs @ o' # drop i objs) x = ((cached (take i objs @ drop i objs))(h \<mapsto> o')) x" for x
    using assms(5) by (auto simp: cached_append cached_Cons simp del: append_take_drop_id split: option.splits)
  then show "cached (take i objs @ o' # drop i objs) = (cached objs)(h \<mapsto> o')" by auto
qed

lemma cache_sorted_remove:
  assumes "cache_sorted objs" "i < length objs"
  shows "cache_sorted (take i objs @ drop (Suc i) objs)"
    "cached (take i objs @ drop (Suc i) objs) = (cached objs)(ob_oid (objs ! i) := None)"
proof -
  have e: "objs = take i objs @ objs ! i # drop (Suc i) objs" by (rule id_take_nth_drop [OF assms(2)])
  have s: "sorted_wrt (\<lambda>a b. ob_oid a < ob_oid b) (take i objs @ objs ! i # drop (Suc i) objs)"
    using assms(1) e by (simp add: cache_sorted_def)
  then show "cache_sorted (take i objs @ drop (Suc i) objs)" by (auto simp: cache_sorted_def sorted_wrt_append)
  have n: "cached (take i objs) (ob_oid (objs ! i)) = None" "cached (drop (Suc i) objs) (ob_oid (objs ! i)) = None"
    using s by (auto intro!: cached_notin simp: sorted_wrt_append)
  have "cached (take i objs @ drop (Suc i) objs) x = ((cached (take i objs @ objs ! i # drop (Suc i) objs))(ob_oid (objs ! i) := None)) x" for x
    using n by (auto simp: cached_append cached_Cons split: option.splits)
  then show "cached (take i objs @ drop (Suc i) objs) = (cached objs)(ob_oid (objs ! i) := None)"
    unfolding e [symmetric] by auto
qed

lemma bsearch_finds:
  assumes "cache_sorted objs" "u \<le> length objs"
    and "\<forall>j < l. ob_oid (objs ! j) < h" "\<forall>j. u \<le> j \<longrightarrow> j < length objs \<longrightarrow> h < ob_oid (objs ! j)" "ob_oid k = h"
  shows "case bsearch (\<lambda>i. cmp_ob k (objs ! i)) l u of
      None \<Rightarrow> cached objs h = None | Some i \<Rightarrow> i < length objs \<and> ob_oid (objs ! i) = h"
  using assms
proof (induction "\<lambda>i. cmp_ob k (objs ! i)" l u rule: bsearch.induct)
  case (1 l u)
  define i where "i = (l + u) div 2"
  note step = bsearch.simps [of "\<lambda>i. cmp_ob k (objs ! i)" l u, unfolded Let_def i_def [symmetric]]
  show ?case
  proof (cases "u \<le> l")
    case True
    have "ob_oid (objs ! j) \<noteq> h" if "j < length objs" for j
      using "1.prems"(3) [rule_format, of j] "1.prems"(4) [rule_format, of j] that True by (cases "j < l") auto
    then show ?thesis using True by (simp add: step cached_None)
  next
    case False
    then have i: "l \<le> i" "i < u" "i < length objs" using "1.prems"(2) by (auto simp: i_def)
    have mono: "ob_oid (objs ! j) \<le> ob_oid (objs ! k)" if "j \<le> k" "k < length objs" for j k
      using cache_sorted_nth [OF "1.prems"(1), of j k] that by (cases "j = k") auto
    have lt: "cmp_ob k (objs ! i) < 0 \<longleftrightarrow> h < ob_oid (objs ! i)" and gt: "0 < cmp_ob k (objs ! i) \<longleftrightarrow> ob_oid (objs ! i) < h"
      using "1.prems"(5) by (auto simp: cmp_ob_def)
    consider "h < ob_oid (objs ! i)" | "ob_oid (objs ! i) < h" | "ob_oid (objs ! i) = h" by force
    then show ?thesis
    proof cases
      case 1
      have "\<forall>j. i \<le> j \<longrightarrow> j < length objs \<longrightarrow> h < ob_oid (objs ! j)" using 1 mono [of i] by (auto intro: less_le_trans)
      then show ?thesis
        using "1.hyps"(1) [OF False i_def] lt gt 1 False i "1.prems" by (simp add: step)
    next
      case 2
      have "\<forall>j < Suc i. ob_oid (objs ! j) < h" using 2 mono [of _ i] i by (auto simp: less_Suc_eq_le intro: le_less_trans)
      then show ?thesis
        using "1.hyps"(2) [OF False i_def] lt gt 2 False "1.prems" by (simp add: step)
    next
      case 3
      then show ?thesis using lt gt False i "1.prems" by (simp add: step)
    qed
  qed
qed

section \<open>The cache as a map\<close>

text \<open>
  What the users of the cache rely on. \<open>view\<close> is the map it stands for, \<open>entry\<close> what a returned
  pointer leads to.
\<close>

locale handle_cache =
  fixes find_ob :: "'s \<Rightarrow> u32 \<Rightarrow> (u16 \<times> nat option) option"
    and insert_ob :: "'s \<Rightarrow> u32 \<Rightarrow> (u16 \<times> nat option \<times> 's) option"
    and remove_ob :: "'s \<Rightarrow> u32 \<Rightarrow> (u16 \<times> 's) option"
    and valid :: "'s \<Rightarrow> bool"
    and view :: "'s \<Rightarrow> u32 \<Rightarrow> PTPObject option"
    and entry :: "'s \<Rightarrow> nat \<Rightarrow> PTPObject option"
  assumes find_view: "valid s \<Longrightarrow> \<exists>r. find_ob s h = Some (if view s h = None then PTP_RC_GeneralError else PTP_RC_OK, r)
      \<and> (\<forall>ob. view s h = Some ob \<longrightarrow> (\<exists>i. r = Some i \<and> entry s i = Some ob))"
    and insert_view: "valid s \<Longrightarrow> h \<noteq> 0 \<Longrightarrow> \<exists>i s'. insert_ob s h = Some (PTP_RC_OK, Some i, s') \<and> valid s'
      \<and> view s' = (if view s h = None then (view s)(h \<mapsto> new_object h) else view s) \<and> entry s' i = view s' h"
    and insert_zero: "insert_ob s 0 = Some (PTP_RC_GeneralError, None, s)"
    and remove_view: "valid s \<Longrightarrow> \<exists>s'. remove_ob s h = Some (if view s h = None then PTP_RC_GeneralError else PTP_RC_OK, s')
      \<and> valid s' \<and> view s' = (view s)(h := None)"
begin

lemma find_inserted:
  assumes "valid s" "h \<noteq> 0" "insert_ob s h = Some (r, p, s')"
  shows "\<exists>i. find_ob s' h = Some (PTP_RC_OK, Some i) \<and> entry s' i = view s' h"
proof -
  obtain i where i: "r = PTP_RC_OK" "valid s'" "view s' = (if view s h = None then (view s)(h \<mapsto> new_object h) else view s)"
    using insert_view [OF assms(1,2)] assms(3) by auto
  then obtain ob where "view s' h = Some ob" by (cases "view s h") auto
  with find_view [OF i(2), of h] show ?thesis by auto
qed

lemma insert_again:
  assumes "valid s" "h \<noteq> 0" "insert_ob s h = Some (r, p, s')"
  shows "\<exists>i s''. insert_ob s' h = Some (PTP_RC_OK, Some i, s'') \<and> view s'' = view s'"
proof -
  have i: "valid s'" "view s' = (if view s h = None then (view s)(h \<mapsto> new_object h) else view s)"
    using insert_view [OF assms(1,2)] assms(3) by auto
  with insert_view [OF i(1) assms(2)] show ?thesis by (cases "view s h") auto
qed

lemma find_removed:
  assumes "valid s" "remove_ob s h = Some (r, s')"
  shows "\<exists>p. find_ob s' h = Some (PTP_RC_GeneralError, p)"
proof -
  have "valid s'" "view s' = (view s)(h := None)" using remove_view [OF assms(1), of h] assms(2) by auto
  with find_view [of s' h] show ?thesis by auto
qed

end

definition cache_valid :: "'d PTPParams \<Rightarrow> bool" where
  "cache_valid s \<longleftrightarrow> (\<exists>objs. pp_objects s = Some objs \<and> cache_sorted objs) \<and> (\<forall>n. pp_alloc s n)"

definition cache_view :: "'d PTPParams \<Rightarrow> u32 \<Rightarrow> PTPObject option" where
  "cache_view s h = Option.bind (pp_objects s) (\<lambda>objs. cached objs h)"

definition cache_entry :: "'d PTPParams \<Rightarrow> nat \<Rightarrow> PTPObject option" where
  "cache_entry s i = Option.bind (pp_objects s) (\<lambda>objs. obj_at objs i)"

lemma cache_sorted_cached_nth: "cache_sorted objs \<Longrightarrow> i < length objs \<Longrightarrow> cached objs (ob_oid (objs ! i)) = Some (objs ! i)"
  using cached_nth by blast

lemma ptp_find_object_in_cache_view:
  assumes "cache_valid s"
  shows "\<exists>r. ptp_find_object_in_cache s h = Some (if cache_view s h = None then PTP_RC_GeneralError else PTP_RC_OK, r)
    \<and> (\<forall>ob. cache_view s h = Some ob \<longrightarrow> (\<exists>i. r = Some i \<and> cache_entry s i = Some ob))
    \<and> (\<forall>i. r = Some i \<longrightarrow> (\<exists>objs. pp_objects s = Some objs \<and> i < length objs \<and> ob_oid (objs ! i) = h))"
proof -
  obtain objs where o': "pp_objects s = Some objs" "cache_sorted objs" using assms by (auto simp: cache_valid_def)
  define r where "r = bsearch (\<lambda>i. cmp_ob (new_object h) (objs ! i)) 0 (length objs)"
  have "case r of None \<Rightarrow> cached objs h = None | Some i \<Rightarrow> i < length objs \<and> ob_oid (objs ! i) = h"
    unfolding r_def by (rule bsearch_finds [OF o'(2)]) (simp_all add: new_object_def)
  then show ?thesis using o'
    by (auto simp: ptp_find_object_in_cache_def r_def [symmetric] cache_view_def cache_entry_def obj_at_def
        cache_sorted_cached_nth dest: cache_sorted_cached_nth split: option.splits)
qed

lemma ptp_find_or_insert_view:
  assumes "cache_valid s" "h \<noteq> 0"
  shows "\<exists>i s'. ptp_find_or_insert_object_in_cache s h = Some (PTP_RC_OK, Some i, s') \<and> cache_valid s'
    \<and> cache_view s' = (if cache_view s h = None then (cache_view s)(h \<mapsto> new_object h) else cache_view s)
    \<and> cache_entry s' i = cache_view s' h"
proof -
  obtain objs where o': "pp_objects s = Some objs" "cache_sorted objs" and a: "\<And>n. pp_alloc s n"
    using assms(1) by (auto simp: cache_valid_def)
  note simps = ptp_find_or_insert_object_in_cache_def cache_valid_def cache_view_def cache_entry_def
  show ?thesis
  proof (cases "objs = []")
    case True
    then show ?thesis using o' a assms(2)
      by (auto simp: simps cache_sorted_def cached_def obj_at_def new_object_def fun_eq_iff)
  next
    case False
    then have "brackets objs h 0 (length objs - 1)" by (simp add: brackets_def)
    from cache_search_ends [OF this] obtain r where
      r: "cache_search objs h 0 (length objs - 1) = Some r" "case r of Inl i \<Rightarrow> i < length objs \<and> ob_oid (objs ! i) = h
       | Inr (b', e') \<Rightarrow> brackets objs h b' e' \<and> e' \<le> b' + 1" by blast
    have found: ?thesis if "ptp_find_or_insert_object_in_cache s h = Some (PTP_RC_OK, Some i, s)" "i < length objs" "ob_oid (objs ! i) = h" for i
      using that o' a cache_sorted_cached_nth [OF o'(2) that(2)] by (auto simp: cache_valid_def cache_view_def cache_entry_def obj_at_def)
    show ?thesis
    proof (cases r)
      case (Inl i)
      then show ?thesis using r o' False assms(2) by (intro found [of i]) (auto simp: ptp_find_or_insert_object_in_cache_def)
    next
      case (Inr be)
      then obtain b e where be: "r = Inr (b, e)" "brackets objs h b e" "e \<le> b + 1" using r(2) by (cases be) auto
      then have l: "b < length objs" "e < length objs" by (auto simp: brackets_def)
      have eq: "ptp_find_or_insert_object_in_cache s h = (if ob_oid (objs ! b) = h then Some (PTP_RC_OK, Some b, s)
          else if ob_oid (objs ! e) = h then Some (PTP_RC_OK, Some e, s)
          else do { i \<leftarrow> insert_at objs h b e;
            Some (PTP_RC_OK, Some i, s\<lparr>pp_objects := Some (take i objs @ new_object h # drop i objs)\<rparr>) })"
        using r(1) be(1) o'(1) False assms(2) a l
        by (simp add: ptp_find_or_insert_object_in_cache_def obj_at_def)
      show ?thesis
      proof (cases "ob_oid (objs ! b) = h \<or> ob_oid (objs ! e) = h")
        case True
        then show ?thesis using found [of b] found [of e] l eq by auto
      next
        case False
        then obtain i where i: "i \<le> length objs" "insert_at objs h b e = Some i" "\<forall>j < i. ob_oid (objs ! j) < h"
          "\<forall>j. i \<le> j \<longrightarrow> j < length objs \<longrightarrow> h < ob_oid (objs ! j)" using insert_at_place [OF o'(2) be(2,3)] by blast
        have n: "ob_oid (new_object h) = h" by (simp add: new_object_def)
        have "cached objs h = None" unfolding cached_None using i(3,4) by (metis less_irrefl not_le)
        moreover have "obj_at (take i objs @ new_object h # drop i objs) i = Some (new_object h)"
          using i(1) by (simp add: obj_at_def nth_append)
        ultimately show ?thesis
          using cache_sorted_insert [OF o'(2) i(1,3,4) n] False eq i(2) o' a
          by (auto simp: cache_valid_def cache_view_def cache_entry_def fun_eq_iff)
      qed
    qed
  qed
qed

lemma ptp_remove_object_view:
  assumes "cache_valid s"
  shows "\<exists>s'. ptp_remove_object_from_cache s h = Some (if cache_view s h = None then PTP_RC_GeneralError else PTP_RC_OK, s')
    \<and> cache_valid s' \<and> cache_view s' = (cache_view s)(h := None)"
proof -
  obtain objs where o': "pp_objects s = Some objs" "cache_sorted objs" and a: "\<forall>n. pp_alloc s n"
    using assms by (auto simp: cache_valid_def)
  obtain r where r: "ptp_find_object_in_cache s h = Some (if cache_view s h = None then PTP_RC_GeneralError else PTP_RC_OK, r)"
    "\<forall>ob. cache_view s h = Some ob \<longrightarrow> (\<exists>i. r = Some i \<and> cache_entry s i = Some ob)"
    "\<forall>i. r = Some i \<longrightarrow> i < length objs \<and> ob_oid (objs ! i) = h"
    using ptp_find_object_in_cache_view [OF assms, of h] o'(1) by auto
  show ?thesis
  proof (cases "cache_view s h")
    case None
    then show ?thesis using r(1) assms by (auto simp: ptp_remove_object_from_cache_def fun_eq_iff)
  next
    case (Some ob)
    then obtain i where i: "r = Some i" "i < length objs" "ob_oid (objs ! i) = h" using r(2,3) by blast
    show ?thesis
      using Some r(1) i o' a cache_sorted_remove [OF o'(2) i(2)]
      by (auto simp: ptp_remove_object_from_cache_def cache_valid_def cache_view_def fun_eq_iff)
  qed
qed

interpretation objects: handle_cache ptp_find_object_in_cache ptp_find_or_insert_object_in_cache
  ptp_remove_object_from_cache cache_valid cache_view cache_entry
proof unfold_locales
  fix s :: "'a PTPParams" and h
  assume s: "cache_valid s"
  show "\<exists>r. ptp_find_object_in_cache s h = Some (if cache_view s h = None then PTP_RC_GeneralError else PTP_RC_OK, r)
      \<and> (\<forall>ob. cache_view s h = Some ob \<longrightarrow> (\<exists>i. r = Some i \<and> cache_entry s i = Some ob))"
    by (rule exE [OF ptp_find_object_in_cache_view [OF s, of h]], elim conjE, intro exI conjI)
qed (rule ptp_find_or_insert_view, assumption, assumption, simp add: ptp_find_or_insert_object_in_cache_def,
  rule ptp_remove_object_view, assumption)

text \<open>\<open>ptp_objects_sort\<close> makes a valid cache of any array whose handles are distinct.\<close>

interpretation ob_order: comparator cmp_ob
  by unfold_locales (auto simp: cmp_ob_def split: if_splits)

lemma ptp_objects_sort_sorted:
  assumes "distinct (map ob_oid objs)"
  shows "cache_sorted (qsort cmp_ob objs)"
proof -
  have d: "distinct (map ob_oid (qsort cmp_ob objs))"
    using assms by (metis mset_eq_imp_distinct_iff mset_map mset_qsort)
  have "ob_oid (qsort cmp_ob objs ! i) < ob_oid (qsort cmp_ob objs ! j)" if "i < j" "j < length (qsort cmp_ob objs)" for i j
  proof -
    have "cmp_ob (qsort cmp_ob objs ! i) (qsort cmp_ob objs ! j) \<le> 0"
      using sorted_wrt_nth_less [OF ob_order.qsort_sorted that] .
    moreover have "ob_oid (qsort cmp_ob objs ! i) \<noteq> ob_oid (qsort cmp_ob objs ! j)"
      using nth_eq_iff_index_eq [OF d, of i j] that by auto
    ultimately show ?thesis by (auto simp: cmp_ob_def split: if_splits)
  qed
  then show ?thesis by (simp add: cache_sorted_def sorted_wrt_iff_nth_less)
qed

text \<open>Any sequence of the operations, on the cache and on a map.\<close>

datatype cache_op = CacheInsert u32 | CacheRemove u32 | CacheFind u32

definition cache_step :: "cache_op \<Rightarrow> 'd PTPParams \<Rightarrow> (u16 \<times> 'd PTPParams) option" where
  "cache_step op s =
     (case op of
        CacheInsert h \<Rightarrow> map_option (\<lambda>(r, _, s). (r, s)) (ptp_find_or_insert_object_in_cache s h)
      | CacheRemove h \<Rightarrow> ptp_remove_object_from_cache s h
      | CacheFind h \<Rightarrow> map_option (\<lambda>(r, _). (r, s)) (ptp_find_object_in_cache s h))"

fun cache_run :: "cache_op list \<Rightarrow> 'd PTPParams \<Rightarrow> (u16 list \<times> 'd PTPParams) option" where
  "cache_run [] s = Some ([], s)"
| "cache_run (op # ops) s = do {
     (r, s) \<leftarrow> cache_step op s;
     (rs, s) \<leftarrow> cache_run ops s;
     Some (r # rs, s)
   }"

fun map_step :: "cache_op \<Rightarrow> (u32 \<rightharpoonup> PTPObject) \<Rightarrow> u16 \<times> (u32 \<rightharpoonup> PTPObject)" where
  "map_step (CacheInsert h) m =
     (if h = 0 then (PTP_RC_GeneralError, m)
      else (PTP_RC_OK, if m h = None then m(h \<mapsto> new_object h) else m))"
| "map_step (CacheRemove h) m = (if m h = None then PTP_RC_GeneralError else PTP_RC_OK, m(h := None))"
| "map_step (CacheFind h) m = (if m h = None then PTP_RC_GeneralError else PTP_RC_OK, m)"

fun map_run :: "cache_op list \<Rightarrow> (u32 \<rightharpoonup> PTPObject) \<Rightarrow> u16 list \<times> (u32 \<rightharpoonup> PTPObject)" where
  "map_run [] m = ([], m)"
| "map_run (op # ops) m = (let (r, m) = map_step op m; (rs, m) = map_run ops m in (r # rs, m))"

lemma cache_step_map:
  assumes "cache_valid s"
  shows "\<exists>s'. cache_step op s = Some (fst (map_step op (cache_view s)), s') \<and> cache_valid s'
    \<and> cache_view s' = snd (map_step op (cache_view s))"
proof (cases op)
  case (CacheInsert h)
  then show ?thesis
    using objects.insert_view [OF assms, of h] objects.insert_zero [of s] assms by (cases "h = 0") (auto simp: cache_step_def)
next
  case (CacheRemove h)
  then show ?thesis using objects.remove_view [OF assms, of h] by (auto simp: cache_step_def)
next
  case (CacheFind h)
  then show ?thesis using objects.find_view [OF assms, of h] assms by (auto simp: cache_step_def)
qed

text \<open>
  C5. The object cache is a map from handles to objects: from a sorted cache, any sequence of
  insertions, removals and searches is defined, gives the results it gives on that map, and leaves
  a sorted cache that stands for the map the sequence leads to.
\<close>

theorem object_cache_refines_map:
  assumes "cache_valid s"
  shows "\<exists>s'. cache_run ops s = Some (fst (map_run ops (cache_view s)), s') \<and> cache_valid s'
    \<and> cache_view s' = snd (map_run ops (cache_view s))"
  using assms
proof (induction ops arbitrary: s)
  case (Cons op ops)
  obtain s1 where s1: "cache_step op s = Some (fst (map_step op (cache_view s)), s1)" "cache_valid s1"
    "cache_view s1 = snd (map_step op (cache_view s))"
    using cache_step_map [OF Cons.prems] by blast
  from Cons.IH [OF s1(2)] s1 show ?case by (auto simp: Let_def split: prod.splits)
qed simp

theorem object_cache_refines_map_witness:
  "\<exists>s'. cache_run [CacheInsert 7, CacheInsert 3, CacheInsert 9, CacheRemove 7, CacheFind 7, CacheInsert 0, CacheFind 3]
      (plain_connection ()) = Some ([PTP_RC_OK, PTP_RC_OK, PTP_RC_OK, PTP_RC_OK, PTP_RC_GeneralError, PTP_RC_GeneralError, PTP_RC_OK], s')
    \<and> cache_view s' = [3 \<mapsto> new_object 3, 9 \<mapsto> new_object 9]"
proof -
  have v: "cache_valid (plain_connection ())" "cache_view (plain_connection ()) = Map.empty"
    by (simp_all add: cache_valid_def cache_view_def cache_sorted_def cached_def fun_eq_iff)
  show ?thesis
    using object_cache_refines_map [OF v(1), of "[CacheInsert 7, CacheInsert 3, CacheInsert 9, CacheRemove 7,
        CacheFind 7, CacheInsert 0, CacheFind 3]"]
    by (auto simp: v(2) Let_def fun_eq_iff)
qed

end
