(* ===== verification/PtpOps.thy ===== *)
theory PtpOps
  imports PtpCache PtpUsb
begin

unbundle bit_operations_syntax

text \<open>
  The operations of PTP and MTP that the driver uses (\<open>camlibs/ptp2/ptp.c\<close>): sessions, storages,
  objects, properties, and \<open>ptp_object_want\<close>, which loads into the cache what the driver wants to
  know of an object. They run over any transport; the theorems at the end are about USB.
\<close>

section \<open>Operations\<close>

text \<open>
  The operations of \<open>ptp.c\<close> are transactions in memory with the parameters of the operation
  (\<open>PTP_CNT_INIT\<close> and \<open>ptp_transaction\<close>), in the three kinds of data phase. The result of one that
  gets data has the memory and its length, of which the length is a part only of those that pass
  a pointer for it. Freeing the memory is left out.
\<close>

type_synonym 'd mem_io = "('d, PTPMemHandlerPrivate) ptp_io"

definition op_nodata ::
    "'d mem_io \<Rightarrow> nat \<Rightarrow> 'd PTPParams \<Rightarrow> u16 \<Rightarrow> u32 list \<Rightarrow> (u16 \<times> PTPContainer \<times> 'd PTPParams) option" where
  "op_nodata io fuel s code ps = do {
     (ret, c, _, _, s) \<leftarrow> ptp_transaction io fuel s (Some (ptp_init_container code ps)) PTP_DP_NODATA 0 None;
     c \<leftarrow> c;
     Some (ret, c, s)
   }"

definition op_getdata ::
    "'d mem_io \<Rightarrow> nat \<Rightarrow> 'd PTPParams \<Rightarrow> u16 \<Rightarrow> u32 list
      \<Rightarrow> (u16 \<times> PTPContainer \<times> buffer \<times> u32 \<times> 'd PTPParams) option" where
  "op_getdata io fuel s code ps = do {
     (ret, c, d, n, s) \<leftarrow> ptp_transaction io fuel s (Some (ptp_init_container code ps)) PTP_DP_GETDATA 0 (Some None);
     c \<leftarrow> c;
     d \<leftarrow> d;
     n \<leftarrow> n;
     Some (ret, c, d, n, s)
   }"

definition op_senddata ::
    "'d mem_io \<Rightarrow> nat \<Rightarrow> 'd PTPParams \<Rightarrow> u16 \<Rightarrow> u32 list \<Rightarrow> buffer \<Rightarrow> u64
      \<Rightarrow> (u16 \<times> PTPContainer \<times> 'd PTPParams) option" where
  "op_senddata io fuel s code ps data len = do {
     (ret, c, _, _, s) \<leftarrow> ptp_transaction io fuel s (Some (ptp_init_container code ps)) PTP_DP_SENDDATA len (Some data);
     c \<leftarrow> c;
     Some (ret, c, s)
   }"

definition ptp_generic_no_data ::
    "'d mem_io \<Rightarrow> nat \<Rightarrow> 'd PTPParams \<Rightarrow> u16 \<Rightarrow> u32 list \<Rightarrow> (u16 \<times> 'd PTPParams) option" where
  "ptp_generic_no_data io fuel s code ps =
     (if 5 < length ps then Some (PTP_ERROR_BADPARAM, s)
      else map_option (\<lambda>(ret, c, s). (ret, s)) (op_nodata io fuel s code ps))"

text \<open>The memory of an operation that only gets it.\<close>

definition get_memory ::
    "'d mem_io \<Rightarrow> nat \<Rightarrow> 'd PTPParams \<Rightarrow> u16 \<Rightarrow> u32 list \<Rightarrow> (u16 \<times> buffer \<times> u32 \<times> 'd PTPParams) option" where
  "get_memory io fuel s code ps = map_option (\<lambda>(ret, c, d, n, s). (ret, d, n, s)) (op_getdata io fuel s code ps)"

definition put_memory ::
    "'d mem_io \<Rightarrow> nat \<Rightarrow> 'd PTPParams \<Rightarrow> u16 \<Rightarrow> u32 list \<Rightarrow> buffer \<Rightarrow> u64 \<Rightarrow> (u16 \<times> 'd PTPParams) option" where
  "put_memory io fuel s code ps data len = map_option (\<lambda>(ret, c, s). (ret, s)) (op_senddata io fuel s code ps data len)"

section \<open>Sessions and the device\<close>

text \<open>
  The session number is set whatever the response was. The buffered response is forgotten.
\<close>

definition ptp_opensession ::
    "('d, 'h) ptp_io \<Rightarrow> nat \<Rightarrow> 'd PTPParams \<Rightarrow> u32 \<Rightarrow> (u16 \<times> 'd PTPParams) option" where
  "ptp_opensession io fuel s session = do {
     let s = s\<lparr>pp_session_id := 0, pp_transaction_id := 0, pp_response_packet := [], pp_split_header_data := False\<rparr>;
     (ret, _, _, s) \<leftarrow> ptp_transaction_new io fuel s (Some (ptp_init_container PTP_OC_OpenSession [session])) PTP_DP_NODATA 0 None;
     Some (ret, s\<lparr>pp_session_id := session\<rparr>)
   }"

definition ptp_closesession :: "'d mem_io \<Rightarrow> nat \<Rightarrow> 'd PTPParams \<Rightarrow> (u16 \<times> 'd PTPParams) option" where
  "ptp_closesession io fuel s = ptp_generic_no_data io fuel s PTP_OC_CloseSession []"

definition ptp_getdeviceinfo ::
    "'d mem_io \<Rightarrow> nat \<Rightarrow> 'd PTPParams \<Rightarrow> PTPDeviceInfo \<Rightarrow> (u16 \<times> PTPDeviceInfo \<times> 'd PTPParams) option" where
  "ptp_getdeviceinfo io fuel s di = do {
     (ret, _, data, size', s) \<leftarrow> op_getdata io fuel s PTP_OC_GetDeviceInfo [];
     if ret \<noteq> PTP_RC_OK then Some (ret, di, s)
     else do {
       (ok, di) \<leftarrow> ptp_unpack_DI s data di size';
       Some (if ok then PTP_RC_OK else PTP_ERROR_IO, di, s)
     }
   }"

definition ptp_operation_issupported :: "'d PTPParams \<Rightarrow> u16 \<Rightarrow> bool" where
  "ptp_operation_issupported s operation =
     (if operation = 0x9108 \<and> di_Model (pp_deviceinfo s) = Some ''Canon EOS R5m2'' then False
      else operation \<in> set (di_Operations (pp_deviceinfo s)))"

definition ptp_event_issupported :: "'d PTPParams \<Rightarrow> u16 \<Rightarrow> bool" where
  "ptp_event_issupported s event \<longleftrightarrow> event \<in> set (di_Events (pp_deviceinfo s))"

definition ptp_property_issupported :: "'d PTPParams \<Rightarrow> u16 \<Rightarrow> bool" where
  "ptp_property_issupported s property \<longleftrightarrow> property \<in> set (di_DeviceProps (pp_deviceinfo s))"

section \<open>Storages\<close>

text \<open>The storages whose lower half is 0 hold nothing and are left out.\<close>

definition ptp_getstorageids ::
    "'d mem_io \<Rightarrow> nat \<Rightarrow> 'd PTPParams \<Rightarrow> (u16 \<times> u32 list \<times> 'd PTPParams) option" where
  "ptp_getstorageids io fuel s = do {
     (ret, _, data, size', s) \<leftarrow> op_getdata io fuel s PTP_OC_GetStorageIDs [];
     if ret \<noteq> PTP_RC_OK then Some (ret, [], s)
     else do {
       all_ids \<leftarrow> ptp_unpack_ArrayU32 s data size';
       Some (PTP_RC_OK, filter (\<lambda>sid. sid AND 0xffff \<noteq> 0) all_ids, s)
     }
   }"

definition si_zero :: PTPStorageInfo where
  "si_zero = \<lparr>si_StorageType = 0, si_FilesystemType = 0, si_AccessCapability = 0, si_MaxCapability = 0,
     si_FreeSpaceInBytes = 0, si_FreeSpaceInImages = 0, si_StorageDescription = None, si_VolumeLabel = None\<rparr>"

definition ptp_getstorageinfo ::
    "'d mem_io \<Rightarrow> nat \<Rightarrow> 'd PTPParams \<Rightarrow> u32 \<Rightarrow> PTPStorageInfo \<Rightarrow> (u16 \<times> PTPStorageInfo \<times> 'd PTPParams) option" where
  "ptp_getstorageinfo io fuel s storageid si = do {
     (ret, _, data, size', s) \<leftarrow> op_getdata io fuel s PTP_OC_GetStorageInfo [storageid];
     if ret \<noteq> PTP_RC_OK then Some (ret, si, s)
     else do {
       (ok, si) \<leftarrow> ptp_unpack_SI s data si_zero size';
       Some (if ok then PTP_RC_OK else PTP_ERROR_IO, si, s)
     }
   }"

section \<open>Objects\<close>

text \<open>An error for all objects of all storages is taken for no objects.\<close>

definition ptp_getobjecthandles ::
    "'d mem_io \<Rightarrow> nat \<Rightarrow> 'd PTPParams \<Rightarrow> u32 \<Rightarrow> u32 \<Rightarrow> u32 \<Rightarrow> (u16 \<times> u32 list \<times> 'd PTPParams) option" where
  "ptp_getobjecthandles io fuel s storage objectformatcode associationOH = do {
     (ret, _, data, size', s) \<leftarrow> op_getdata io fuel s PTP_OC_GetObjectHandles [storage, objectformatcode, associationOH];
     if ret = PTP_RC_OK then do {
       hs \<leftarrow> ptp_unpack_ArrayU32 s data size';
       Some (ret, hs, s)
     }
     else if storage = 0xffffffff \<and> objectformatcode = 0 \<and> associationOH = 0 then Some (PTP_RC_OK, [], s)
     else Some (ret, [], s)
   }"

definition ptp_getnumobjects ::
    "'d mem_io \<Rightarrow> nat \<Rightarrow> 'd PTPParams \<Rightarrow> u32 \<Rightarrow> u32 \<Rightarrow> u32 \<Rightarrow> (u16 \<times> u32 option \<times> 'd PTPParams) option" where
  "ptp_getnumobjects io fuel s storage objectformatcode associationOH = do {
     (ret, c, s) \<leftarrow> op_nodata io fuel s 0x1006 [storage, objectformatcode, associationOH];
     Some (if ret \<noteq> PTP_RC_OK then (ret, None, s)
           else if 1 \<le> pc_Nparam c then (PTP_RC_OK, Some (pc_Param1 c), s)
           else (PTP_RC_GeneralError, None, s))
   }"

text \<open>A dataset that \<open>ptp_unpack_OI\<close> does not take is not noticed.\<close>

definition ptp_getobjectinfo ::
    "'d mem_io \<Rightarrow> nat \<Rightarrow> 'd PTPParams \<Rightarrow> u32 \<Rightarrow> PTPObjectInfo \<Rightarrow> (u16 \<times> PTPObjectInfo \<times> 'd PTPParams) option" where
  "ptp_getobjectinfo io fuel s handle oi = do {
     (ret, _, data, size', s) \<leftarrow> op_getdata io fuel s PTP_OC_GetObjectInfo [handle];
     if ret \<noteq> PTP_RC_OK then Some (ret, oi, s)
     else do {
       (s, oi) \<leftarrow> ptp_unpack_OI s data oi size';
       Some (PTP_RC_OK, oi\<lparr>oi_Handle := handle\<rparr>, s)
     }
   }"

definition ptp_getobject ::
    "'d mem_io \<Rightarrow> nat \<Rightarrow> 'd PTPParams \<Rightarrow> u32 \<Rightarrow> (u16 \<times> buffer \<times> 'd PTPParams) option" where
  "ptp_getobject io fuel s handle =
     map_option (\<lambda>(ret, d, n, s). (ret, d, s)) (get_memory io fuel s 0x1009 [handle])"

definition ptp_getobject_with_size ::
    "'d mem_io \<Rightarrow> nat \<Rightarrow> 'd PTPParams \<Rightarrow> u32 \<Rightarrow> (u16 \<times> buffer \<times> u32 \<times> 'd PTPParams) option" where
  "ptp_getobject_with_size io fuel s handle = get_memory io fuel s 0x1009 [handle]"

definition ptp_getobject_to_handler ::
    "('d, 'h) ptp_io \<Rightarrow> nat \<Rightarrow> 'd PTPParams \<Rightarrow> u32 \<Rightarrow> 'h PTPDataHandler
      \<Rightarrow> (u16 \<times> 'h PTPDataHandler option \<times> 'd PTPParams) option" where
  "ptp_getobject_to_handler io fuel s handle h =
     map_option (\<lambda>(ret, c, h, s). (ret, h, s))
       (ptp_transaction_new io fuel s (Some (ptp_init_container 0x1009 [handle])) PTP_DP_GETDATA 0 (Some h))"

text \<open>
  With a file descriptor: the failure of \<open>ptp_init_fd_handler\<close> is not noticed, and the transaction
  then runs on an uninitialised handler.
\<close>

definition ptp_getobject_tofd ::
    "('d, int \<times> host) ptp_io \<Rightarrow> nat \<Rightarrow> 'd PTPParams \<Rightarrow> u32 \<Rightarrow> int \<Rightarrow> host \<Rightarrow> (u16 \<times> host \<times> 'd PTPParams) option" where
  "ptp_getobject_tofd io fuel s handle fd host = do {
     h \<leftarrow> ptp_init_fd_handler s fd host;
     (ret, h, s) \<leftarrow> ptp_getobject_to_handler io fuel s handle h;
     h \<leftarrow> h;
     Some (ret, snd (dh_priv h), s)
   }"

definition ptp_getpartialobject ::
    "'d mem_io \<Rightarrow> nat \<Rightarrow> 'd PTPParams \<Rightarrow> u32 \<Rightarrow> u32 \<Rightarrow> u32 \<Rightarrow> (u16 \<times> buffer \<times> u32 \<times> 'd PTPParams) option" where
  "ptp_getpartialobject io fuel s handle offset maxbytes = get_memory io fuel s 0x101B [handle, offset, maxbytes]"

definition ptp_getpartialobject_to_handler ::
    "('d, 'h) ptp_io \<Rightarrow> nat \<Rightarrow> 'd PTPParams \<Rightarrow> u32 \<Rightarrow> u32 \<Rightarrow> u32 \<Rightarrow> 'h PTPDataHandler
      \<Rightarrow> (u16 \<times> 'h PTPDataHandler option \<times> 'd PTPParams) option" where
  "ptp_getpartialobject_to_handler io fuel s handle offset maxbytes h =
     map_option (\<lambda>(ret, c, h, s). (ret, h, s))
       (ptp_transaction_new io fuel s (Some (ptp_init_container 0x101B [handle, offset, maxbytes])) PTP_DP_GETDATA 0 (Some h))"

text \<open>64-bit offsets and lengths go in two parameters, the lower half first.\<close>

definition ptp_nikon_getpartialobjectex ::
    "'d mem_io \<Rightarrow> nat \<Rightarrow> 'd PTPParams \<Rightarrow> u32 \<Rightarrow> u64 \<Rightarrow> u64 \<Rightarrow> (u16 \<times> buffer \<times> u32 \<times> 'd PTPParams) option" where
  "ptp_nikon_getpartialobjectex io fuel s handle offset maxbytes =
     get_memory io fuel s 0x9431
       [handle, ucast offset, ucast (drop_bit 32 offset), ucast maxbytes, ucast (drop_bit 32 maxbytes)]"

definition ptp_getthumb ::
    "'d mem_io \<Rightarrow> nat \<Rightarrow> 'd PTPParams \<Rightarrow> u32 \<Rightarrow> (u16 \<times> buffer \<times> u32 \<times> 'd PTPParams) option" where
  "ptp_getthumb io fuel s handle = get_memory io fuel s 0x100A [handle]"

definition ptp_nikon_getlargethumb ::
    "'d mem_io \<Rightarrow> nat \<Rightarrow> 'd PTPParams \<Rightarrow> u32 \<Rightarrow> (u16 \<times> buffer \<times> u32 \<times> 'd PTPParams) option" where
  "ptp_nikon_getlargethumb io fuel s handle = get_memory io fuel s 0x90C4 [handle]"

definition ptp_nikon_getobjectsize ::
    "'d mem_io \<Rightarrow> nat \<Rightarrow> 'd PTPParams \<Rightarrow> u32 \<Rightarrow> (u16 \<times> u64 \<times> 'd PTPParams) option" where
  "ptp_nikon_getobjectsize io fuel s handle = do {
     (ret, _, data, size', s) \<leftarrow> op_getdata io fuel s 0x9421 [handle];
     if ret \<noteq> PTP_RC_OK then Some (ret, 0, s)
     else if size' < 8 then Some (PTP_RC_GeneralError, 0, s)
     else do {
       n \<leftarrow> rd64 data 0;
       Some (PTP_RC_OK, n, s)
     }
   }"

text \<open>A deleted or moved object is taken out of the cache; that it was not there does not matter.\<close>

definition drop_cached :: "u32 \<Rightarrow> u16 \<times> PTPContainer \<times> 'd PTPParams \<Rightarrow> (u16 \<times> 'd PTPParams) option" where
  "drop_cached handle r =
     (let (ret, c, s) = r in
      if ret \<noteq> PTP_RC_OK then Some (ret, s)
      else do {
        (_, s) \<leftarrow> ptp_remove_object_from_cache s handle;
        Some (PTP_RC_OK, s)
      })"

definition ptp_deleteobject :: "'d mem_io \<Rightarrow> nat \<Rightarrow> 'd PTPParams \<Rightarrow> u32 \<Rightarrow> u32 \<Rightarrow> (u16 \<times> 'd PTPParams) option" where
  "ptp_deleteobject io fuel s handle ofc = do {
     r \<leftarrow> op_nodata io fuel s 0x100B [handle, ofc];
     drop_cached handle r
   }"

definition ptp_moveobject :: "'d mem_io \<Rightarrow> nat \<Rightarrow> 'd PTPParams \<Rightarrow> u32 \<Rightarrow> u32 \<Rightarrow> u32 \<Rightarrow> (u16 \<times> 'd PTPParams) option" where
  "ptp_moveobject io fuel s handle storage parent = do {
     r \<leftarrow> op_nodata io fuel s 0x1019 [handle, storage, parent];
     drop_cached handle r
   }"

definition ptp_copyobject :: "'d mem_io \<Rightarrow> nat \<Rightarrow> 'd PTPParams \<Rightarrow> u32 \<Rightarrow> u32 \<Rightarrow> u32 \<Rightarrow> (u16 \<times> 'd PTPParams) option" where
  "ptp_copyobject io fuel s handle storage parent = ptp_generic_no_data io fuel s 0x101A [handle, storage, parent]"

text \<open>
  Sending an object: the storage, the parent and the handle come from the response, or from the
  request when there was none.
\<close>

definition send_objectinfo ::
    "'d mem_io \<Rightarrow> nat \<Rightarrow> 'd PTPParams \<Rightarrow> u16 \<Rightarrow> u32 \<Rightarrow> u32 \<Rightarrow> PTPObjectInfo
      \<Rightarrow> (u16 \<times> u32 \<times> u32 \<times> u32 \<times> 'd PTPParams) option" where
  "send_objectinfo io fuel s code store parenthandle oi = do {
     (data, size') \<leftarrow> ptp_pack_OI s oi;
     (ret, c, s) \<leftarrow> op_senddata io fuel s code [store, parenthandle] (Some data) (ucast size');
     Some (ret, pc_Param1 c, pc_Param2 c, pc_Param3 c, s)
   }"

definition ptp_sendobjectinfo where
  "ptp_sendobjectinfo io fuel s store parenthandle oi = send_objectinfo io fuel s 0x100C store parenthandle oi"

definition ptp_sendobject ::
    "'d mem_io \<Rightarrow> nat \<Rightarrow> 'd PTPParams \<Rightarrow> buffer \<Rightarrow> u64 \<Rightarrow> (u16 \<times> 'd PTPParams) option" where
  "ptp_sendobject io fuel s object size' = put_memory io fuel s 0x100D [] object size'"

definition ptp_sendobject_from_handler ::
    "('d, 'h) ptp_io \<Rightarrow> nat \<Rightarrow> 'd PTPParams \<Rightarrow> 'h PTPDataHandler \<Rightarrow> u64
      \<Rightarrow> (u16 \<times> 'h PTPDataHandler option \<times> 'd PTPParams) option" where
  "ptp_sendobject_from_handler io fuel s h size' =
     map_option (\<lambda>(ret, c, h, s). (ret, h, s))
       (ptp_transaction_new io fuel s (Some (ptp_init_container 0x100D [])) PTP_DP_SENDDATA size' (Some h))"

definition ptp_sendobject_fromfd ::
    "('d, int \<times> host) ptp_io \<Rightarrow> nat \<Rightarrow> 'd PTPParams \<Rightarrow> int \<Rightarrow> host \<Rightarrow> u64 \<Rightarrow> (u16 \<times> host \<times> 'd PTPParams) option" where
  "ptp_sendobject_fromfd io fuel s fd host size' = do {
     h \<leftarrow> ptp_init_fd_handler s fd host;
     (ret, h, s) \<leftarrow> ptp_sendobject_from_handler io fuel s h size';
     h \<leftarrow> h;
     Some (ret, snd (dh_priv h), s)
   }"

section \<open>Properties\<close>

abbreviation PTP_RC_InvalidDevicePropFormat :: u16 where "PTP_RC_InvalidDevicePropFormat \<equiv> 0x201B"

text \<open>In the configuration without libxml2: a description wrapped in XML is ignored, with success.\<close>

definition ptp_getdevicepropdesc ::
    "'d mem_io \<Rightarrow> nat \<Rightarrow> 'd PTPParams \<Rightarrow> u32 \<Rightarrow> PTPDevicePropDesc \<Rightarrow> (u16 \<times> PTPDevicePropDesc \<times> 'd PTPParams) option" where
  "ptp_getdevicepropdesc io fuel s propcode dpd = do {
     (ret, _, data, size', s) \<leftarrow> op_getdata io fuel s 0x1014 [propcode];
     if ret \<noteq> PTP_RC_OK then Some (ret, dpd, s)
     else if data = None then Some (PTP_RC_InvalidDevicePropFormat, dpd, s)
     else if pp_device_flags s AND 0x00800000 \<noteq> 0 then Some (PTP_RC_OK, dpd, s)
     else do {
       (ok, _, dpd) \<leftarrow> ptp_unpack_DPD s data size' 0;
       Some (if ok then PTP_RC_OK else PTP_RC_InvalidDevicePropFormat, dpd, s)
     }
   }"

definition ptp_getdevicepropvalue ::
    "'d mem_io \<Rightarrow> nat \<Rightarrow> 'd PTPParams \<Rightarrow> u32 \<Rightarrow> propvalue \<Rightarrow> u16 \<Rightarrow> (u16 \<times> propvalue \<times> 'd PTPParams) option" where
  "ptp_getdevicepropvalue io fuel s propcode value' datatype = do {
     (ret, _, data, size', s) \<leftarrow> op_getdata io fuel s 0x1015 [propcode];
     if ret \<noteq> PTP_RC_OK then Some (ret, value', s)
     else do {
       (ok, _, v) \<leftarrow> ptp_unpack_DPV s data 0 size' datatype;
       Some (if ok then PTP_RC_OK else PTP_ERROR_IO, v, s)
     }
   }"

definition ptp_setdevicepropvalue ::
    "'d mem_io \<Rightarrow> nat \<Rightarrow> 'd PTPParams \<Rightarrow> u32 \<Rightarrow> propvalue \<Rightarrow> u16 \<Rightarrow> (u16 \<times> 'd PTPParams) option" where
  "ptp_setdevicepropvalue io fuel s propcode value' datatype = do {
     (data, size') \<leftarrow> ptp_pack_DPV s value' datatype;
     put_memory io fuel s 0x1016 [propcode] data (ucast size')
   }"
section \<open>Lists of object properties\<close>

definition ptp_mtp_getobjectproplist_generic ::
    "'d mem_io \<Rightarrow> nat \<Rightarrow> 'd PTPParams \<Rightarrow> u32 \<Rightarrow> u32 \<Rightarrow> u32 \<Rightarrow> u32 \<Rightarrow> u32
      \<Rightarrow> (u16 \<times> (int \<times> MTPObjectProp list) option \<times> 'd PTPParams) option" where
  "ptp_mtp_getobjectproplist_generic io fuel s handle formats properties propertygroups level = do {
     (ret, _, data, size', s) \<leftarrow> op_getdata io fuel s 0x9805 [handle, formats, properties, propertygroups, level];
     if ret \<noteq> PTP_RC_OK then Some (ret, None, s)
     else do {
       r \<leftarrow> ptp_unpack_OPL s data size';
       Some (PTP_RC_OK, Some r, s)
     }
   }"

definition ptp_mtp_getobjectproplist_level where
  "ptp_mtp_getobjectproplist_level io fuel s handle level =
     ptp_mtp_getobjectproplist_generic io fuel s handle 0 0xFFFFFFFF 0 level"

definition ptp_mtp_getobjectproplist where
  "ptp_mtp_getobjectproplist io fuel s handle = ptp_mtp_getobjectproplist_level io fuel s handle 0xFFFFFFFF"

definition ptp_mtp_getobjectproplist_single where
  "ptp_mtp_getobjectproplist_single io fuel s handle = ptp_mtp_getobjectproplist_level io fuel s handle 0"

definition ptp_mtp_sendobjectproplist ::
    "'d mem_io \<Rightarrow> nat \<Rightarrow> 'd PTPParams \<Rightarrow> u32 \<Rightarrow> u32 \<Rightarrow> u16 \<Rightarrow> u64 \<Rightarrow> MTPObjectProp list
      \<Rightarrow> (u16 \<times> u32 \<times> u32 \<times> u32 \<times> 'd PTPParams) option" where
  "ptp_mtp_sendobjectproplist io fuel s store parenthandle objecttype objectsize props = do {
     (data, size') \<leftarrow> ptp_pack_OPL s props;
     (ret, c, s) \<leftarrow> op_senddata io fuel s 0x9808
       [store, parenthandle, ucast objecttype, ucast (drop_bit 32 objectsize), ucast objectsize] (Some data) (ucast size');
     Some (ret, pc_Param1 c, pc_Param2 c, pc_Param3 c, s)
   }"

definition ptp_mtp_setobjectproplist ::
    "'d mem_io \<Rightarrow> nat \<Rightarrow> 'd PTPParams \<Rightarrow> MTPObjectProp list \<Rightarrow> (u16 \<times> 'd PTPParams) option" where
  "ptp_mtp_setobjectproplist io fuel s props = do {
     (data, size') \<leftarrow> ptp_pack_OPL s props;
     put_memory io fuel s 0x9806 [] (Some data) (ucast size')
   }"

section \<open>Canon's object information\<close>

text \<open>The entries of a folder, 28 bytes each; the number is in the response and checked against the data.\<close>

definition fe_zero :: PTPCANONFolderEntry where
  "fe_zero = \<lparr>fe_ObjectHandle = 0, fe_ObjectFormatCode = 0, fe_Flags = 0, fe_ObjectSize = 0, fe_Time = 0,
     fe_Filename = [], fe_StorageID = 0\<rparr>"

fun unpack_entries :: "buffer \<Rightarrow> nat \<Rightarrow> PTPCANONFolderEntry list option" where
  "unpack_entries data 0 = Some []"
| "unpack_entries data (Suc n) = do {
     fe \<leftarrow> ptp_unpack_Canon_FE data fe_zero;
     fes \<leftarrow> unpack_entries (map_option (drop 28) data) n;
     Some (fe # fes)
   }"

definition ptp_canon_getobjectinfo ::
    "'d mem_io \<Rightarrow> nat \<Rightarrow> 'd PTPParams \<Rightarrow> u32 \<Rightarrow> u32 \<Rightarrow> u32 \<Rightarrow> u32
      \<Rightarrow> (u16 \<times> PTPCANONFolderEntry list \<times> 'd PTPParams) option" where
  "ptp_canon_getobjectinfo io fuel s store p2 parent handle = do {
     (ret, c, data, size', s) \<leftarrow> op_getdata io fuel s 0x9021 [store, p2, parent, handle];
     if ret \<noteq> PTP_RC_OK then Some (ret, [], s)
     else if size' div 28 < pc_Param1 c then Some (PTP_RC_GeneralError, [], s)
     else if \<not> pp_alloc s (unat (pc_Param1 c) * 48) then Some (PTP_RC_GeneralError, [], s)
     else do {
       fes \<leftarrow> unpack_entries data (unat (pc_Param1 c));
       Some (PTP_RC_OK, fes, s)
     }
   }"

section \<open>What the driver wants to know of an object\<close>

abbreviation PTPOBJECT_OBJECTINFO_LOADED :: u32 where "PTPOBJECT_OBJECTINFO_LOADED \<equiv> 1"
abbreviation PTPOBJECT_MTPPROPLIST_LOADED :: u32 where "PTPOBJECT_MTPPROPLIST_LOADED \<equiv> 4"
abbreviation PTPOBJECT_DIRECTORY_LOADED :: u32 where "PTPOBJECT_DIRECTORY_LOADED \<equiv> 8"
abbreviation PTPOBJECT_PARENTOBJECT_LOADED :: u32 where "PTPOBJECT_PARENTOBJECT_LOADED \<equiv> 16"
abbreviation PTPOBJECT_STORAGEID_LOADED :: u32 where "PTPOBJECT_STORAGEID_LOADED \<equiv> 32"
abbreviation DEVICE_FLAG_PROPLIST_OVERRIDES_OI :: u32 where "DEVICE_FLAG_PROPLIST_OVERRIDES_OI \<equiv> 0x40000000"
abbreviation DEVICE_FLAG_BROKEN_MTPGETOBJPROPLIST :: u32 where "DEVICE_FLAG_BROKEN_MTPGETOBJPROPLIST \<equiv> 4"

text \<open>The macro \<open>X\<close>: what \<open>GetObjectInfo\<close> tells.\<close>

definition object_info_flags :: u32 where
  "object_info_flags = PTPOBJECT_OBJECTINFO_LOADED OR PTPOBJECT_STORAGEID_LOADED OR PTPOBJECT_PARENTOBJECT_LOADED"

text \<open>Reading and writing the object a pointer into the cache leads to.\<close>

definition ob_update :: "nat \<Rightarrow> (PTPObject \<Rightarrow> PTPObject) \<Rightarrow> 'd PTPParams \<Rightarrow> 'd PTPParams option" where
  "ob_update i f s = do {
     objs \<leftarrow> pp_objects s;
     ob \<leftarrow> obj_at objs i;
     Some (s\<lparr>pp_objects := Some (objs[i := f ob])\<rparr>)
   }"

definition oi_update :: "nat \<Rightarrow> (PTPObjectInfo \<Rightarrow> PTPObjectInfo) \<Rightarrow> 'd PTPParams \<Rightarrow> 'd PTPParams option" where
  "oi_update i f = ob_update i (\<lambda>ob. ob\<lparr>ob_oi := f (ob_oi ob)\<rparr>)"

text \<open>
  One property of the list, put in the place of the value in the ObjectInfo. The member of the
  union that is read does not depend on the type the device has sent with the value.
\<close>

definition override_prop :: "'d PTPParams \<Rightarrow> u32 \<Rightarrow> MTPObjectProp \<Rightarrow> PTPObjectInfo \<Rightarrow> PTPObjectInfo option" where
  "override_prop s handle prop oi =
     (let v = op_Value prop; pc = op_PropCode prop in
      if op_ObjectHandle prop \<noteq> handle then Some oi
      else if pc = 0xDC01 then map_option (\<lambda>w. oi\<lparr>oi_StorageID := w\<rparr>) (pv_u32 v)
      else if pc = 0xDC02 then map_option (\<lambda>w. oi\<lparr>oi_ObjectFormat := w\<rparr>) (pv_u16 v)
      else if pc = 0xDC03 then map_option (\<lambda>w. oi\<lparr>oi_ProtectionStatus := w\<rparr>) (pv_u16 v)
      else if pc = 0xDC04 then
        (if op_DataType prop = PTP_DTC_UINT64 then map_option (\<lambda>w. oi\<lparr>oi_ObjectSize := w\<rparr>) (pv_u64 v)
         else if op_DataType prop = PTP_DTC_UINT32 then map_option (\<lambda>w. oi\<lparr>oi_ObjectSize := ucast w\<rparr>) (pv_u32 v)
         else Some oi)
      else if pc = 0xDC05 then map_option (\<lambda>w. oi\<lparr>oi_AssociationType := w\<rparr>) (pv_u16 v)
      else if pc = 0xDC06 then map_option (\<lambda>w. oi\<lparr>oi_AssociationDesc := w\<rparr>) (pv_u32 v)
      else if pc = 0xDC07 then do {
        str \<leftarrow> pv_str v;
        Some (case str of None \<Rightarrow> oi | Some n \<Rightarrow> oi\<lparr>oi_Filename := (if pp_alloc s (length n + 1) then Some n else None)\<rparr>)
      }
      else if pc = 0xDC08 then map_option (\<lambda>str. oi\<lparr>oi_CaptureDate := ptp_unpack_PTPTIME s str\<rparr>) (pv_str v)
      else if pc = 0xDC09 then map_option (\<lambda>str. oi\<lparr>oi_ModificationDate := ptp_unpack_PTPTIME s str\<rparr>) (pv_str v)
      else if pc = 0xDC0A then do {
        str \<leftarrow> pv_str v;
        Some (case str of None \<Rightarrow> oi | Some n \<Rightarrow> oi\<lparr>oi_Keywords := (if pp_alloc s (length n + 1) then Some n else None)\<rparr>)
      }
      else if pc = 0xDC0B then map_option (\<lambda>w. oi\<lparr>oi_ParentObject := w\<rparr>) (pv_u32 v)
      else Some oi)"

fun override_props :: "'d PTPParams \<Rightarrow> u32 \<Rightarrow> MTPObjectProp list \<Rightarrow> PTPObjectInfo \<Rightarrow> PTPObjectInfo option" where
  "override_props s handle [] oi = Some oi"
| "override_props s handle (p # ps) oi = do {
     oi \<leftarrow> override_prop s handle p oi;
     override_props s handle ps oi
   }"

text \<open>The size of an object of 4 GiB or more: asked for, or wanted from the property list.\<close>

definition big_size :: "'d mem_io \<Rightarrow> nat \<Rightarrow> u32 \<Rightarrow> nat \<Rightarrow> u32 \<Rightarrow> 'd PTPParams \<Rightarrow> (u32 \<times> 'd PTPParams) option" where
  "big_size io fuel handle i want s =
     (let other = (\<lambda>s. (want OR PTPOBJECT_MTPPROPLIST_LOADED,
                        s\<lparr>pp_device_flags := pp_device_flags s OR DEVICE_FLAG_PROPLIST_OVERRIDES_OI\<rparr>)) in
      if di_VendorExtensionID (pp_deviceinfo s) = 0xA \<and> ptp_operation_issupported s 0x9421 then do {
        (ret, newsize, s) \<leftarrow> ptp_nikon_getobjectsize io fuel s handle;
        if ret = PTP_RC_OK then do {
          s \<leftarrow> oi_update i (\<lambda>oi. oi\<lparr>oi_ObjectSize := newsize\<rparr>) s;
          Some (want, s)
        }
        else Some (other s)
      }
      else Some (other s))"

text \<open>
  The first part of \<open>ptp_object_want\<close>, when something of the ObjectInfo is wanted: \<open>Inl\<close> its error,
  or \<open>Inr\<close> what is wanted now. A failed request takes the object out of the cache again.
\<close>

definition want_objectinfo ::
    "'d mem_io \<Rightarrow> nat \<Rightarrow> u32 \<Rightarrow> nat \<Rightarrow> u32 \<Rightarrow> 'd PTPParams \<Rightarrow> ((u16 + u32) \<times> 'd PTPParams) option" where
  "want_objectinfo io fuel handle i want s = do {
     ob \<leftarrow> cache_entry s i;
     let known = (ob_flags ob AND PTPOBJECT_PARENTOBJECT_LOADED \<noteq> 0);
     let saveparent = oi_ParentObject (ob_oi ob);
     (ret, oi, s) \<leftarrow> ptp_getobjectinfo io fuel s handle (ob_oi ob);
     if ret \<noteq> PTP_RC_OK then do {
       (_, s) \<leftarrow> ptp_remove_object_from_cache s handle;
       Some (Inl ret, s)
     }
     else do {
       let oi = (if oi_Filename oi = None \<and> pp_alloc s 7 then oi\<lparr>oi_Filename := Some ''<none>''\<rparr> else oi);
       let oi = (if known then oi\<lparr>oi_ParentObject := saveparent\<rparr> else oi);
       let oi = (if oi_ParentObject oi = handle then oi\<lparr>oi_ParentObject := 0\<rparr> else oi);
       s \<leftarrow> oi_update i (\<lambda>_. oi) s;
       (want, s) \<leftarrow> (if oi_ObjectSize oi = 0xffffffff then big_size io fuel handle i want s else Some (want, s));
       s \<leftarrow> (if oi_ParentObject oi = oi_StorageID oi then do {
                (ret, _) \<leftarrow> ptp_find_object_in_cache s (oi_ParentObject oi);
                if ret \<noteq> PTP_RC_OK then oi_update i (\<lambda>oi. oi\<lparr>oi_ParentObject := 0\<rparr>) s else Some s
              }
              else Some s);
       ob \<leftarrow> cache_entry s i;
       s \<leftarrow> (if di_VendorExtensionID (pp_deviceinfo s) = 0xB \<and> ptp_operation_issupported s 0x9021 then do {
                (ret, ents, s) \<leftarrow> ptp_canon_getobjectinfo io fuel s (oi_StorageID (ob_oi ob)) 0 (oi_ParentObject (ob_oi ob)) handle;
                case ents of
                  [] \<Rightarrow> Some s
                | e # _ \<Rightarrow> if ret = PTP_RC_OK then ob_update i (\<lambda>ob. ob\<lparr>ob_canon_flags := ucast (fe_Flags e)\<rparr>) s else Some s
              }
              else Some s);
       s \<leftarrow> ob_update i (\<lambda>ob. ob\<lparr>ob_flags := ob_flags ob OR object_info_flags\<rparr>) s;
       Some (Inr want, s)
     }
   }"

text \<open>The second part: the property list, and its values in the place of those of the ObjectInfo.\<close>

definition want_proplist ::
    "'d mem_io \<Rightarrow> nat \<Rightarrow> u32 \<Rightarrow> nat \<Rightarrow> 'd PTPParams \<Rightarrow> 'd PTPParams option" where
  "want_proplist io fuel handle i s = do {
     (ret, r, s) \<leftarrow> ptp_mtp_getobjectproplist_single io fuel s handle;
     s \<leftarrow> (case r of
              None \<Rightarrow> Some s
            | Some (n, props) \<Rightarrow>
                ob_update i (\<lambda>ob. ob\<lparr>ob_mtp_props := props, ob_flags := ob_flags ob OR PTPOBJECT_MTPPROPLIST_LOADED\<rparr>) s);
     ob \<leftarrow> cache_entry s i;
     if ob_flags ob AND PTPOBJECT_MTPPROPLIST_LOADED \<noteq> 0 \<and> pp_device_flags s AND DEVICE_FLAG_PROPLIST_OVERRIDES_OI \<noteq> 0
     then do {
       oi \<leftarrow> override_props s handle (ob_mtp_props ob) (ob_oi ob);
       oi_update i (\<lambda>_. oi) s
     }
     else Some s
   }"

definition ptp_object_want ::
    "'d mem_io \<Rightarrow> nat \<Rightarrow> 'd PTPParams \<Rightarrow> u32 \<Rightarrow> u32 \<Rightarrow> (u16 \<times> nat option \<times> 'd PTPParams) option" where
  "ptp_object_want io fuel s handle want =
     (let want = (if pp_device_flags s AND DEVICE_FLAG_PROPLIST_OVERRIDES_OI \<noteq> 0
                  then want OR PTPOBJECT_MTPPROPLIST_LOADED else want) in
      if handle = 0 then Some (PTP_RC_GeneralError, None, s)
      else do {
        (ret, r, s) \<leftarrow> ptp_find_or_insert_object_in_cache s handle;
        if ret \<noteq> PTP_RC_OK then Some (ret, None, s)
        else do {
          i \<leftarrow> r;
          ob \<leftarrow> cache_entry s i;
          if ob_flags ob AND want = want then Some (PTP_RC_OK, Some i, s)
          else do {
            (r, s) \<leftarrow> (if want AND object_info_flags \<noteq> 0 \<and> ob_flags ob AND object_info_flags \<noteq> object_info_flags
                        then want_objectinfo io fuel handle i want s else Some (Inr want, s));
            case r of
              Inl ret \<Rightarrow> Some (ret, Some i, s)
            | Inr want \<Rightarrow> do {
                let want = (if pp_device_flags s AND DEVICE_FLAG_BROKEN_MTPGETOBJPROPLIST \<noteq> 0
                               \<or> \<not> ptp_operation_issupported s 0x9805
                            then want AND NOT PTPOBJECT_MTPPROPLIST_LOADED else want);
                ob \<leftarrow> cache_entry s i;
                s \<leftarrow> (if want AND PTPOBJECT_MTPPROPLIST_LOADED \<noteq> 0 \<and> ob_flags ob AND PTPOBJECT_MTPPROPLIST_LOADED = 0
                       then want_proplist io fuel handle i s else Some s);
                ob \<leftarrow> cache_entry s i;
                Some (if ob_flags ob AND want \<noteq> want then PTP_RC_GeneralError else PTP_RC_OK, Some i, s)
              }
          }
        }
      })"

definition ptp_add_object_to_cache ::
    "'d mem_io \<Rightarrow> nat \<Rightarrow> 'd PTPParams \<Rightarrow> u32 \<Rightarrow> (u16 \<times> 'd PTPParams) option" where
  "ptp_add_object_to_cache io fuel s handle =
     map_option (\<lambda>(ret, _, s). (ret, s))
       (ptp_object_want io fuel s handle (PTPOBJECT_OBJECTINFO_LOADED OR PTPOBJECT_MTPPROPLIST_LOADED))"
section \<open>The driver's view of the device is kept\<close>

lemma ptp_unpack_OI_keeps:
  fixes s :: "'d PTPParams"
  assumes "ptp_unpack_OI s d oi n = Some (s', oi')"
  shows "same_cache s s'"
proof -
  have "s' = s \<or> s' = s\<lparr>pp_ocs64 := True\<rparr>"
    using assms by (auto simp: ptp_unpack_OI_def Let_def bind_eq_Some_conv split: if_splits prod.splits)
  then show ?thesis by (auto simp: same_cache_def)
qed

lemma same_cache_valid: "same_cache s s' \<Longrightarrow> cache_valid s' \<longleftrightarrow> cache_valid s"
  "same_cache s s' \<Longrightarrow> cache_view s' = cache_view s" "same_cache s s' \<Longrightarrow> cache_entry s' = cache_entry s"
  by (auto simp: same_cache_def cache_valid_def cache_view_def cache_entry_def fun_eq_iff)

context mem_transport
begin

lemma op_getdata_keeps: "op_getdata io fuel s code ps = Some (r, c, d, n, s') \<Longrightarrow> same_cache s s'"
  by (auto simp: op_getdata_def bind_eq_Some_conv dest: transaction_keeps)

lemma op_nodata_keeps: "op_nodata io fuel s code ps = Some (r, c, s') \<Longrightarrow> same_cache s s'"
  by (auto simp: op_nodata_def bind_eq_Some_conv dest: transaction_keeps)

lemma getobjectinfo_keeps: "ptp_getobjectinfo io fuel s h oi = Some (r, oi', s') \<Longrightarrow> same_cache s s'"
  by (auto simp: ptp_getobjectinfo_def bind_eq_Some_conv split: if_splits
      dest!: op_getdata_keeps ptp_unpack_OI_keeps intro: same_cache_trans)

lemma getobjectsize_keeps: "ptp_nikon_getobjectsize io fuel s h = Some (r, n, s') \<Longrightarrow> same_cache s s'"
  by (auto simp: ptp_nikon_getobjectsize_def bind_eq_Some_conv split: if_splits dest!: op_getdata_keeps)

lemma canon_getobjectinfo_keeps: "ptp_canon_getobjectinfo io fuel s a b c d = Some (r, n, s') \<Longrightarrow> same_cache s s'"
  by (auto simp: ptp_canon_getobjectinfo_def bind_eq_Some_conv split: if_splits dest!: op_getdata_keeps)

lemma getobjectproplist_keeps: "ptp_mtp_getobjectproplist_single io fuel s h = Some (r, n, s') \<Longrightarrow> same_cache s s'"
  by (auto simp: ptp_mtp_getobjectproplist_single_def ptp_mtp_getobjectproplist_level_def
      ptp_mtp_getobjectproplist_generic_def bind_eq_Some_conv split: if_splits dest!: op_getdata_keeps)

end

text \<open>
  While an object is looked after: the cache is valid, the index leads to the object, and the
  other objects are those of the start.
\<close>

definition tending :: "'d PTPParams \<Rightarrow> u32 \<Rightarrow> nat \<Rightarrow> 'd PTPParams \<Rightarrow> bool" where
  "tending s0 h i s \<longleftrightarrow> cache_valid s \<and> (\<exists>ob. cache_entry s i = Some ob \<and> ob_oid ob = h)
     \<and> (\<forall>h'. h' \<noteq> h \<longrightarrow> cache_view s h' = cache_view s0 h')"

lemma tending_same: "same_cache s s' \<Longrightarrow> tending s0 h i s \<Longrightarrow> tending s0 h i s'"
  by (simp add: tending_def same_cache_valid)

lemma tending_flags: "tending s0 h i s \<Longrightarrow> tending s0 h i (s\<lparr>pp_device_flags := w\<rparr>)"
  by (simp add: tending_def cache_valid_def cache_entry_def cache_view_def)

lemma ob_update_tends:
  assumes "tending s0 h i s" "\<And>ob. ob_oid (f ob) = ob_oid ob" "ob_update i f s = Some s'"
  shows "tending s0 h i s'" "cache_entry s' i = map_option f (cache_entry s i)"
proof -
  obtain objs where o': "pp_objects s = Some objs" "cache_sorted objs" and a: "\<forall>n. pp_alloc s n"
    using assms(1) by (auto simp: tending_def cache_valid_def)
  then have i: "i < length objs" "ob_oid (objs ! i) = h"
    using assms(1) by (auto simp: tending_def cache_entry_def obj_at_def split: if_splits)
  have s': "s' = s\<lparr>pp_objects := Some (objs[i := f (objs ! i)])\<rparr>"
    using assms(3) o' i by (simp add: ob_update_def obj_at_def)
  have oid: "ob_oid (objs[i := f (objs ! i)] ! j) = ob_oid (objs ! j)" if "j < length objs" for j
    using that i assms(2) by (simp add: nth_list_update)
  have "cache_sorted (objs[i := f (objs ! i)])"
    using o'(2) oid by (simp add: cache_sorted_def sorted_wrt_iff_nth_less)
  moreover have "cached (objs[i := f (objs ! i)]) h' = cached objs h'" if "h' \<noteq> h" for h'
  proof -
    have "objs[i := f (objs ! i)] ! j = ob \<and> ob_oid ob = h' \<longleftrightarrow> objs ! j = ob \<and> ob_oid ob = h'"
      if "j < length objs" for j ob
      using i assms(2) \<open>h' \<noteq> h\<close> that by (cases "j = i") auto
    then have "cached (objs[i := f (objs ! i)]) h' = Some ob \<longleftrightarrow> cached objs h' = Some ob" for ob
      unfolding cached_nth [OF \<open>cache_sorted (objs[i := f (objs ! i)])\<close>] cached_nth [OF o'(2)] length_list_update by blast
    then show ?thesis by (metis option.exhaust)
  qed
  ultimately show "tending s0 h i s'"
    using assms(1) o' i a assms(2) unfolding s' by (auto simp: tending_def cache_valid_def cache_view_def cache_entry_def obj_at_def)
  show "cache_entry s' i = map_option f (cache_entry s i)" using o' i unfolding s' by (simp add: cache_entry_def obj_at_def)
qed

lemma oi_update_tends:
  assumes "tending s0 h i s" "oi_update i f s = Some s'"
  shows "tending s0 h i s'" "map_option ob_flags (cache_entry s' i) = map_option ob_flags (cache_entry s i)"
  using ob_update_tends [OF assms(1) _ assms(2) [unfolded oi_update_def]] by (simp_all add: option.map_comp o_def)

lemma find_or_insert_tends:
  assumes "cache_valid s" "h \<noteq> 0"
  shows "\<exists>i s'. ptp_find_or_insert_object_in_cache s h = Some (PTP_RC_OK, Some i, s') \<and> tending s h i s'"
proof -
  obtain i s' where r: "ptp_find_or_insert_object_in_cache s h = Some (PTP_RC_OK, Some i, s')" "cache_valid s'"
    "cache_view s' = (if cache_view s h = None then (cache_view s)(h \<mapsto> new_object h) else cache_view s)"
    "cache_entry s' i = cache_view s' h" using objects.insert_view [OF assms] by blast
  obtain ob where ob: "cache_view s' h = Some ob" using r(3) by (cases "cache_view s h") auto
  then have "ob_oid ob = h" using r(2) by (auto simp: cache_view_def cache_valid_def cached_nth)
  then show ?thesis using r ob by (auto simp: tending_def)
qed

abbreviation flags_at :: "'d PTPParams \<Rightarrow> nat \<Rightarrow> u32 option" where
  "flags_at s i \<equiv> map_option ob_flags (cache_entry s i)"

lemma flags_update_tends:
  assumes "tending s0 h i s" "ob_update i (\<lambda>ob. ob\<lparr>ob_flags := ob_flags ob OR w\<rparr>) s = Some s'"
  shows "tending s0 h i s'" "flags_at s' i = map_option (\<lambda>fl. fl OR w) (flags_at s i)"
  using ob_update_tends [OF assms(1) _ assms(2)] by (simp_all add: option.map_comp o_def)

context mem_transport
begin

lemma big_size_tends:
  assumes "tending s0 h i s" "big_size io fuel h i want s = Some (want', s')"
  shows "tending s0 h i s' \<and> flags_at s' i = flags_at s i \<and> (want' = want \<or> want' = want OR PTPOBJECT_MTPPROPLIST_LOADED)"
proof -
  have other: "tending s0 h i s'" "flags_at s' i = flags_at s1 i"
    if "tending s0 h i s1" "s' = s1\<lparr>pp_device_flags := pp_device_flags s1 OR DEVICE_FLAG_PROPLIST_OVERRIDES_OI\<rparr>" for s1
    using that by (simp_all add: tending_flags) (simp add: cache_entry_def)
  show ?thesis
  proof (cases "di_VendorExtensionID (pp_deviceinfo s) = 0xA \<and> ptp_operation_issupported s 0x9421")
    case True
    then obtain ret n s1 where g: "ptp_nikon_getobjectsize io fuel s h = Some (ret, n, s1)"
      using assms(2) by (auto simp: big_size_def bind_eq_Some_conv)
    have t: "tending s0 h i s1" "flags_at s1 i = flags_at s i"
      using tending_same [OF getobjectsize_keeps [OF g] assms(1)] getobjectsize_keeps [OF g] by (simp_all add: same_cache_valid)
    show ?thesis
    proof (cases "ret = PTP_RC_OK")
      case True
      then obtain "oi_update i (\<lambda>oi. oi\<lparr>oi_ObjectSize := n\<rparr>) s1 = Some s'" "want' = want"
        using assms(2) g \<open>_ \<and> _\<close> by (auto simp: big_size_def Let_def bind_eq_Some_conv)
      then show ?thesis using oi_update_tends [OF t(1)] t(2) by auto
    next
      case False
      then show ?thesis using assms(2) g \<open>_ \<and> _\<close> other [OF t(1)] t(2) by (auto simp: big_size_def Let_def)
    qed
  next
    case False
    then show ?thesis using assms other [of s] by (auto simp: big_size_def Let_def)
  qed
qed

lemma want_objectinfo_tends:
  assumes t: "tending s0 h i s" and w: "want_objectinfo io fuel h i want s = Some (r, s')"
  shows "case r of
      Inl ret \<Rightarrow> ret \<noteq> PTP_RC_OK \<and> cache_valid s' \<and> (\<forall>h'. h' \<noteq> h \<longrightarrow> cache_view s' h' = cache_view s0 h')
    | Inr want' \<Rightarrow> tending s0 h i s' \<and> (want' = want \<or> want' = want OR PTPOBJECT_MTPPROPLIST_LOADED)
        \<and> flags_at s' i = map_option (\<lambda>fl. fl OR object_info_flags) (flags_at s i)"
proof -
  obtain ob where ob: "cache_entry s i = Some ob" using t by (auto simp: tending_def)
  then obtain ret oi s1 where g: "ptp_getobjectinfo io fuel s h (ob_oi ob) = Some (ret, oi, s1)"
    using w by (auto simp: want_objectinfo_def bind_eq_Some_conv Let_def)
  have t1: "tending s0 h i s1" "cache_entry s1 = cache_entry s"
    using tending_same [OF getobjectinfo_keeps [OF g] t] getobjectinfo_keeps [OF g] by (simp_all add: same_cache_valid)
  show ?thesis
  proof (cases "ret = PTP_RC_OK")
    case False
    then obtain x where "ptp_remove_object_from_cache s1 h = Some (x, s')" "r = Inl ret"
      using w ob g by (auto simp: want_objectinfo_def bind_eq_Some_conv Let_def)
    moreover have "cache_valid s1" "\<forall>h'. h' \<noteq> h \<longrightarrow> cache_view s1 h' = cache_view s0 h'" using t1(1) by (auto simp: tending_def)
    ultimately show ?thesis using objects.remove_view [of s1 h] False by auto
  next
    case True
    define oi1 where "oi1 = (let oi = (if oi_Filename oi = None \<and> pp_alloc s1 7 then oi\<lparr>oi_Filename := Some ''<none>''\<rparr> else oi);
        oi = (if ob_flags ob AND PTPOBJECT_PARENTOBJECT_LOADED \<noteq> 0 then oi\<lparr>oi_ParentObject := oi_ParentObject (ob_oi ob)\<rparr> else oi)
        in (if oi_ParentObject oi = h then oi\<lparr>oi_ParentObject := 0\<rparr> else oi))"
    note W = w [unfolded want_objectinfo_def ob Let_def bind.bind_lunit g True prod.case simp_thms if_False if_True,
        folded oi1_def [unfolded Let_def]]
    obtain s2 where s2: "oi_update i (\<lambda>_. oi1) s1 = Some s2" using W by (auto simp: bind_eq_Some_conv)
    note W = W [unfolded s2 bind.bind_lunit]
    have t2: "tending s0 h i s2" "flags_at s2 i = flags_at s i"
      using oi_update_tends [OF t1(1) s2] t1(2) by simp_all
    obtain want3 s3 where s3: "(if oi_ObjectSize oi1 = 0xffffffff then big_size io fuel h i want s2 else Some (want, s2)) = Some (want3, s3)"
      using W by (auto simp: bind_eq_Some_conv)
    note W = W [unfolded s3 bind.bind_lunit prod.case]
    have t3: "tending s0 h i s3" "flags_at s3 i = flags_at s i" "want3 = want \<or> want3 = want OR PTPOBJECT_MTPPROPLIST_LOADED"
      using s3 t2 big_size_tends [OF t2(1)] by (auto split: if_splits)
    obtain s4 where s4: "(if oi_ParentObject oi1 = oi_StorageID oi1 then do {
                (ret, _) \<leftarrow> ptp_find_object_in_cache s3 (oi_ParentObject oi1);
                if ret \<noteq> PTP_RC_OK then oi_update i (\<lambda>oi. oi\<lparr>oi_ParentObject := 0\<rparr>) s3 else Some s3
              }
              else Some s3) = Some s4"
      using W by (auto simp: bind_eq_Some_conv)
    note W = W [unfolded s4 bind.bind_lunit]
    have t4: "tending s0 h i s4" "flags_at s4 i = flags_at s i"
      using s4 t3 oi_update_tends [OF t3(1), of _ s4] by (auto simp: bind_eq_Some_conv split: if_splits prod.splits)
    obtain ob4 where ob4: "cache_entry s4 i = Some ob4" using t4 by (auto simp: tending_def)
    note W = W [unfolded ob4 bind.bind_lunit]
    obtain s5 where s5: "(if di_VendorExtensionID (pp_deviceinfo s4) = 0xB \<and> ptp_operation_issupported s4 0x9021 then do {
                (ret, ents, s) \<leftarrow> ptp_canon_getobjectinfo io fuel s4 (oi_StorageID (ob_oi ob4)) 0 (oi_ParentObject (ob_oi ob4)) h;
                case ents of
                  [] \<Rightarrow> Some s
                | e # _ \<Rightarrow> if ret = PTP_RC_OK then ob_update i (\<lambda>ob. ob\<lparr>ob_canon_flags := ucast (fe_Flags e)\<rparr>) s else Some s
              }
              else Some s4) = Some s5"
      using W by (auto simp: bind_eq_Some_conv)
    note W = W [unfolded s5 bind.bind_lunit]
    have t5: "tending s0 h i s5 \<and> flags_at s5 i = flags_at s i"
    proof (cases "di_VendorExtensionID (pp_deviceinfo s4) = 0xB \<and> ptp_operation_issupported s4 0x9021")
      case True
      then obtain ret' ents s41 where c: "ptp_canon_getobjectinfo io fuel s4 (oi_StorageID (ob_oi ob4)) 0 (oi_ParentObject (ob_oi ob4)) h = Some (ret', ents, s41)"
        using s5 by (auto simp: bind_eq_Some_conv)
      have t41: "tending s0 h i s41" "flags_at s41 i = flags_at s i"
        using tending_same [OF canon_getobjectinfo_keeps [OF c] t4(1)] canon_getobjectinfo_keeps [OF c] t4(2) by (simp_all add: same_cache_valid)
      show ?thesis
      proof (cases "ents = [] \<or> ret' \<noteq> PTP_RC_OK")
        case True
        then have "s5 = s41" using s5 c \<open>di_VendorExtensionID _ = _ \<and> _\<close> by (auto split: list.splits)
        then show ?thesis using t41 by simp
      next
        case False
        then obtain e es where "ents = e # es" "ret' = PTP_RC_OK" by (cases ents) auto
        then have "ob_update i (\<lambda>ob. ob\<lparr>ob_canon_flags := ucast (fe_Flags e)\<rparr>) s41 = Some s5"
          using s5 c \<open>di_VendorExtensionID _ = _ \<and> _\<close> by auto
        from ob_update_tends [OF t41(1) _ this] t41(2) show ?thesis by (simp add: option.map_comp o_def)
      qed
    next
      case False
      then show ?thesis using s5 t4 by auto
    qed
    obtain s6 where s6: "ob_update i (\<lambda>ob. ob\<lparr>ob_flags := ob_flags ob OR object_info_flags\<rparr>) s5 = Some s6" "s' = s6" "r = Inr want3"
      using W by (auto simp: bind_eq_Some_conv)
    show ?thesis using flags_update_tends [OF conjunct1 [OF t5] s6(1)] t5 t3(3) s6(2,3) by simp
  qed
qed

lemma want_proplist_tends:
  assumes t: "tending s0 h i s" and w: "want_proplist io fuel h i s = Some s'"
  shows "tending s0 h i s' \<and> (flags_at s' i = flags_at s i
    \<or> flags_at s' i = map_option (\<lambda>fl. fl OR PTPOBJECT_MTPPROPLIST_LOADED) (flags_at s i))"
proof -
  obtain ret r s1 where g: "ptp_mtp_getobjectproplist_single io fuel s h = Some (ret, r, s1)"
    using w by (auto simp: want_proplist_def bind_eq_Some_conv)
  have t1: "tending s0 h i s1" "flags_at s1 i = flags_at s i"
    using tending_same [OF getobjectproplist_keeps [OF g] t] getobjectproplist_keeps [OF g] by (simp_all add: same_cache_valid)
  define upd where "upd = (\<lambda>props ob. ob\<lparr>ob_mtp_props := props, ob_flags := ob_flags ob OR PTPOBJECT_MTPPROPLIST_LOADED\<rparr> :: PTPObject)"
  obtain s2 where s2: "(case r of None \<Rightarrow> Some s1 | Some (n, props) \<Rightarrow> ob_update i (upd props) s1) = Some s2"
    using w g unfolding want_proplist_def upd_def by (auto simp: bind_eq_Some_conv simp del: split_paired_Ex)
  have t2: "tending s0 h i s2 \<and> (flags_at s2 i = flags_at s i
    \<or> flags_at s2 i = map_option (\<lambda>fl. fl OR PTPOBJECT_MTPPROPLIST_LOADED) (flags_at s i))"
  proof (cases r)
    case (Some x)
    then obtain n props where "ob_update i (upd props) s1 = Some s2" using s2 by (cases x) auto
    from ob_update_tends [OF t1(1) _ this] t1(2) show ?thesis
      by (cases "cache_entry s1 i"; cases "cache_entry s i") (auto simp: upd_def)
  qed (use s2 t1 in simp)
  obtain ob where ob: "cache_entry s2 i = Some ob" using t2 by (auto simp: tending_def)
  have "s' = s2 \<or> (\<exists>oi. oi_update i (\<lambda>_. oi) s2 = Some s')"
    using w [unfolded want_proplist_def g bind.bind_lunit prod.case s2 [unfolded upd_def] ob]
    by (auto simp: bind_eq_Some_conv split: if_splits)
  then show ?thesis
  proof
    assume "\<exists>oi. oi_update i (\<lambda>_. oi) s2 = Some s'"
    then obtain oi where "oi_update i (\<lambda>_. oi) s2 = Some s'" by blast
    from oi_update_tends [OF conjunct1 [OF t2] this] t2 show ?thesis by simp
  qed (use t2 in simp)
qed

end

context mem_transport
begin

text \<open>
  \<open>ptp_object_want\<close> keeps the cache, changes no other object and, when it succeeds, has the object
  with everything that was wanted, the property list apart.
\<close>

lemma object_want_keeps:
  assumes v: "cache_valid s" and w: "ptp_object_want io fuel s h want = Some (r, p, s')"
  shows "cache_valid s' \<and> (\<forall>h'. h' \<noteq> h \<longrightarrow> cache_view s' h' = cache_view s h') \<and>
    (r = PTP_RC_OK \<longrightarrow> (\<exists>i ob. p = Some i \<and> cache_entry s' i = Some ob \<and> ob_oid ob = h
      \<and> ob_flags ob AND (want AND NOT PTPOBJECT_MTPPROPLIST_LOADED) = want AND NOT PTPOBJECT_MTPPROPLIST_LOADED))"
proof (cases "h = 0")
  case True
  then show ?thesis using assms by (simp add: ptp_object_want_def)
next
  case False
  define want1 where "want1 = (if pp_device_flags s AND DEVICE_FLAG_PROPLIST_OVERRIDES_OI \<noteq> 0
    then want OR PTPOBJECT_MTPPROPLIST_LOADED else want)"
  define core where "core = (\<lambda>w :: u32. w AND NOT PTPOBJECT_MTPPROPLIST_LOADED)"
  have core_or: "core (w OR PTPOBJECT_MTPPROPLIST_LOADED) = core w" for w
    by (simp add: core_def bit.conj_disj_distrib2)
  have core1: "core want1 = core want" by (simp add: want1_def core_or)
  have core_sub: "fl AND w = w \<Longrightarrow> fl AND core w = core w" for fl w
    by (metis and.assoc core_def)
  obtain i s1 where f: "ptp_find_or_insert_object_in_cache s h = Some (PTP_RC_OK, Some i, s1)" "tending s h i s1"
    using find_or_insert_tends [OF v False] by blast
  then obtain ob where ob: "cache_entry s1 i = Some ob" "ob_oid ob = h" by (auto simp: tending_def)
  note W = w [unfolded ptp_object_want_def Let_def want1_def [symmetric] if_not_P [OF False] f(1) bind.bind_lunit prod.case
      simp_thms if_False option.case ob(1)]
  have done_: ?thesis if t: "tending s h i s'" and "p = Some i"
    and fl: "r = PTP_RC_OK \<Longrightarrow> \<exists>w. core w = core want \<and> map_option (\<lambda>fl. fl AND w) (flags_at s' i) = Some w"
  proof -
    obtain ob' where ob': "cache_entry s' i = Some ob'" "ob_oid ob' = h" using t by (auto simp: tending_def)
    have "ob_flags ob' AND core want = core want" if ok: "r = PTP_RC_OK"
    proof -
      obtain w where "core w = core want" "ob_flags ob' AND w = w" using fl [OF ok] ob' by auto
      then show ?thesis using core_sub [of "ob_flags ob'" w] by simp
    qed
    then show ?thesis using t \<open>p = Some i\<close> ob' by (auto simp: tending_def core_def)
  qed
  show ?thesis
  proof (cases "ob_flags ob AND want1 = want1")
    case True
    then have "r = PTP_RC_OK" "p = Some i" "s' = s1" using W by auto
    then show ?thesis using f(2) ob True core1 by (intro done_) auto
  next
    case False
    obtain x s2 where x: "(if want1 AND object_info_flags \<noteq> 0 \<and> ob_flags ob AND object_info_flags \<noteq> object_info_flags
        then want_objectinfo io fuel h i want1 s1 else Some (Inr want1, s1)) = Some (x, s2)"
      using W False by (auto simp: bind_eq_Some_conv)
    note W = W [unfolded if_not_P [OF False] x bind.bind_lunit prod.case]
    have cases_x: "case x of
        Inl ret \<Rightarrow> ret \<noteq> PTP_RC_OK \<and> cache_valid s2 \<and> (\<forall>h'. h' \<noteq> h \<longrightarrow> cache_view s2 h' = cache_view s h')
      | Inr want' \<Rightarrow> tending s h i s2 \<and> core want' = core want"
    proof (cases "want1 AND object_info_flags \<noteq> 0 \<and> ob_flags ob AND object_info_flags \<noteq> object_info_flags")
      case True
      with x want_objectinfo_tends [OF f(2), of fuel want1 x s2] core1 core_or show ?thesis
        by (cases x) (auto simp del: not_def)
    next
      case False
      with x f(2) core1 show ?thesis by auto
    qed
    show ?thesis
    proof (cases x)
      case (Inl ret)
      then show ?thesis using W cases_x by auto
    next
      case (Inr want2)
      define want3 where "want3 = (if pp_device_flags s2 AND DEVICE_FLAG_BROKEN_MTPGETOBJPROPLIST \<noteq> 0
          \<or> \<not> ptp_operation_issupported s2 0x9805 then want2 AND NOT PTPOBJECT_MTPPROPLIST_LOADED else want2)"
      have t2: "tending s h i s2" and c3: "core want3 = core want"
        using cases_x Inr by (auto simp: want3_def core_def and.assoc)
      obtain ob2 where ob2: "cache_entry s2 i = Some ob2" using t2 by (auto simp: tending_def)
      note W = W [unfolded Inr sum.case want3_def [symmetric] ob2 bind.bind_lunit]
      obtain s3 where s3: "(if want3 AND PTPOBJECT_MTPPROPLIST_LOADED \<noteq> 0 \<and> ob_flags ob2 AND PTPOBJECT_MTPPROPLIST_LOADED = 0
          then want_proplist io fuel h i s2 else Some s2) = Some s3"
        using W by (auto simp: bind_eq_Some_conv)
      have t3: "tending s h i s3" using s3 t2 want_proplist_tends [OF t2] by (auto split: if_splits)
      obtain ob3 where ob3: "cache_entry s3 i = Some ob3" using t3 by (auto simp: tending_def)
      have "s' = s3" "p = Some i" "r = PTP_RC_OK \<Longrightarrow> ob_flags ob3 AND want3 = want3"
        using W [unfolded s3 bind.bind_lunit ob3] by (auto split: if_splits)
      then show ?thesis using t3 ob3 c3 by (intro done_) auto
    qed
  qed
qed

end


text \<open>
  The members of a property's value are read by its code, not by the type that the device has sent
  with it: a file name sent as a number is used as a pointer.
\<close>

lemma override_prop_confused:
  "override_prop s h \<lparr>op_PropCode = 0xDC07, op_DataType = PTP_DTC_UINT32, op_ObjectHandle = h, op_Value = PVu32 w\<rparr> oi = None"
  by (simp add: override_prop_def Let_def)

lemma ptp_transaction_no_answer:
  assumes "pp_alloc s 24" "pp_response_packet s = []" "unat (pc_Nparam c) \<le> 5"
  shows "\<exists>c' s'. ptp_transaction (usb_io bulk_env n) fuel (feed s []) (Some c) PTP_DP_GETDATA 0 (Some None)
    = Some (PTP_ERROR_IO, Some c', Some None, Some 0, s')"
proof -
  have r: "ptp_usb_getpacket bulk_env (feed x []) (replicate 1024 0) (Some 0)
      = Some (PTP_ERROR_TIMEOUT, replicate 1024 0, Some 0, feed x [])" if "pp_response_packet x = []" for x
    using that by (subst ptp_usb_getpacket_def, subst read_packet.simps)
      (simp add: usb_read_def bulk_env_def bulk_ops_def bulk_read_def feed_def into_packet_def wr_def
        gp_port_read_def data_op_def guarded_def check_init_def check_supp_def translate_gp_result_to_ptp_def del: replicate.simps)
  have g: "ptp_usb_getdata bulk_env n (feed x []) c1 h = Some (PTP_ERROR_IO, h, feed x [])"
    if "pp_response_packet x = []" for x c1 and h :: "PTPMemHandlerPrivate PTPDataHandler"
    using r [OF that] by (simp add: ptp_usb_getdata_def getdata_exit_def del: replicate.simps)
  show ?thesis
    using assms by (simp add: ptp_transaction_def ptp_init_recv_memory_handler_def ptp_transaction_new_def Let_def usb_io_def
        sendreq_feed data_phase_def cancel_if_def g ptp_exit_recv_memory_handler_def)
qed


end
