(* ===== verification/Spec2Isabelle.thy ===== *)
theory Spec2Isabelle
  imports Prelude CamList PentaxModel PentaxConditions PentaxTiming PentaxNames PentaxTransfer
    PentaxReconcile CamFile PentaxPublication FsState FsLru FsTree FsOps FsInv FsWalk PtpCodec
    PtpInfo PtpProps PtpObjects PtpCanon GpPort PtpTransaction PtpUsb PtpCache PtpOps
begin

text \<open>
  A verification library for libgphoto2: a model of parts of the C code in Isabelle/HOL with
  the theorems that make those parts correct.

  \<^bold>\<open>The program.\<close> libgphoto2 gives applications one interface to many digital cameras. The core
  (\<open>src/libgphoto2/\<close>) has lists, files, the virtual file system with its cache, widgets and the
  camera object; a camera driver (\<open>src/camlibs/\<close>) fills in the operations of the core and talks
  to the device through a port (\<open>src/libgphoto2_port/\<close>), whose operations an I/O library provides.
  The driver \<open>ptp2\<close> speaks PTP and MTP: an operation (\<open>ptp.c\<close>) is a transaction of a request, an
  optional data phase and a response over a transport (\<open>usb.c\<close>); \<open>ptp-pack.c\<close> turns the
  datasets of the protocol into C structures and back, what is known of the device's objects is in
  a cache, and \<open>pentax-utils.c\<close> and
  \<open>pentax-publication.c\<close> hold the pure logic of capturing with Pentax cameras.

  \<^bold>\<open>Theories and code.\<close>
  \<^item> Prelude: result codes, byte order, C strings, decimal numbers (\<open>gphoto2-result.h\<close>, libc).
  \<^item> CamList: \<open>gphoto2-list.c\<close>, the list of name and value pairs that listings return.
  \<^item> Host, CamFile: descriptors and named files of the host, and \<open>gphoto2-file.c\<close> on them: the
    three kinds of storage, the stream operations, copies, MIME types and names.
  \<^item> FsState, FsLru, FsTree, FsOps, FsInv, FsWalk: \<open>gphoto2-filesys.c\<close>. FsState has the objects on
    the heap and the driver's interface, FsLru the recency list and its pruning, FsTree the folder
    tree, lookups and listings, FsOps the operations on files, folders and information, FsInv the
    invariant that every operation keeps, FsWalk lookups, listings and the search.
  \<^item> PentaxModel, PentaxConditions, PentaxTiming, PentaxNames, PentaxTransfer, PentaxReconcile:
    \<open>pentax-utils.c\<close>, in this order the models and exposure settings, the status frame and the
    policies on it, the time budgets and the wait for an idle camera, labels, file names and
    recovery paths, the receive buffer and the transfer interpreter, the reconciliation of extra
    candidates.
  \<^item> PentaxPublication: \<open>pentax-publication.c\<close>, the files that a capture has published, held as
    references to CamFile's objects.
  \<^item> PtpCodec, PtpInfo, PtpProps, PtpObjects, PtpCanon: \<open>ptp-pack.c\<close>, in this order strings and
    arrays, device, storage and object information, property values and descriptions, MTP object
    property descriptions and lists, Canon's small datasets.
  \<^item> GpPort: the calls of \<open>gphoto2-port.c\<close> with their guards, over the operations of the I/O
    library. PtpTransaction, PtpCache, PtpOps: \<open>ptp.c\<close>, in this order the transaction with the data
    handlers, the cache of objects (\<open>params->objects\<close>), and the standard operations up to
    \<open>ptp_object_want\<close>. PtpUsb: \<open>usb.c\<close>, the transport over bulk, interrupt and control transfers of
    the port. An operation in PtpOps is a transaction in PtpTransaction over the packets of PtpUsb,
    which go through the calls of GpPort.

  The definitions have the names of the C functions. A structure is a record, a union the datatype
  of its members, an object that is shared or freed is a reference into a store. A result
  \<open>None\<close> of a function that is not an option in C stands for undefined behaviour: a read or write
  out of bounds, through NULL or of freed memory.

  \<^bold>\<open>Interfaces.\<close> The locale \<open>comparator\<close> (CamList) is what \<open>qsort\<close> asks of its callback, with
  \<open>strcmp\<close> and the handle comparison as instances; \<open>fs_invariant\<close> (FsInv) what an operation on the
  file system has to keep, \<open>recency\<close> (FsLru) what a cache has to do on an update, \<open>unpacker\<close> and
  \<open>codec\<close> (PtpCodec) what a decoder, and a pair of encoder and decoder, promise, with the strings,
  the arrays and the property values of every type as instances. \<open>transport\<close> and its extension
  \<open>mem_transport\<close> (PtpTransaction) are what a transaction asks of its transport, with USB as the
  instance; \<open>byte_sink\<close> and \<open>byte_source\<close> what the transport asks of a data handler, with the memory
  handler as the instance; \<open>handle_cache\<close> (PtpCache) what the users of the object cache rely on.

  \<^bold>\<open>Groups of lemmas.\<close> Each component has lemmas on the preservation of its invariant (reference
  counts, consistent buffers, the well-linked cache, distinct names), on the behaviour of each
  operation with its errors, and on bounds. The abstract specifications are the list of entries for
  CamList, a file with holes for the receive buffer, a script of segments for the transfer, a queue
  of bytes for the read side of a file, the list in order of last use for the cache, the path down
  the tree for lookups, the identity for encoder and decoder pairs, the payload of the device for
  a data phase in pieces, and a map from handles to objects for the object cache.

  \<^bold>\<open>Loops.\<close> Loops over data are recursive functions; the loops whose end depends on a device or a
  clock take fuel, and theorems give a bound on it under which the loop returns
  (\<open>pentax_reconcile_returns\<close>, \<open>pentax_wait_for_idle_outcome\<close>, \<open>pentax_transfer_run_safe\<close>,
  \<open>lru_prune_bound\<close>; for the loops of USB one pass for each byte is enough,
  \<open>ptp_transaction_delivers\<close>, and for the response loop one for each packet that does not count,
  \<open>ptp_transaction_completes\<close>); \<open>gp_filesystem_scan_diverges\<close> shows a search that no fuel ends.

  \<^bold>\<open>Assumptions.\<close> The data model is LP64, little endian. Host calls, the allocator, \<open>iconv\<close>,
  \<open>mktime\<close> and \<open>qsort\<close> are parameters or are modelled by their documented behaviour. The driver's
  callbacks are parameters of the file system; they return, and do not call back into it.
  Allocations in \<open>gphoto2-filesys.c\<close> succeed. The operations of the port are parameters; they
  report no more bytes than they have been asked for (more is undefined in the model), and the
  theorems about a device that answers use one that hands out its transfers in order. Debug output
  and progress reports are left out.

  \<^bold>\<open>Not modelled.\<close> The configurations with libexif and with libxml2. In \<open>ptp-pack.c\<close> the EOS event
  stream, in \<open>ptp.c\<close> the event queue, the listing of folders and the operations of the vendors
  (short wrappers of the same transactions), in \<open>gphoto2-port.c\<close> the loading of I/O libraries and
  SCSI commands. The camera object, widgets, settings and the list of abilities of the core, the
  configuration tables and driver callbacks of \<open>ptp2\<close>, PTP/IP, the I/O libraries, the other camera
  drivers, bindings, examples, tests and packaging: they are I/O on devices, tables, or
  drivers of the same shape as the one modelled.
\<close>

end
